(* ===== verification/Prelude.thy ===== *)
theory Prelude
  imports Main "HOL-Library.Sublist" "HOL-Library.Char_ord" "HOL-Library.List_Lexorder"
begin

text \<open>
  Shared ground of the development: Go errors as values, the computations the operations are
  written in (a state, and a result that is an error or a value), Hoare triples for them with
  their rules, the process environment (statement failures of the database, the clock, the
  random source, context cancellation), the parts of package \<open>strings\<close>, \<open>strconv\<close> and \<open>time\<close>
  the code uses, and the SQL statements of the registry as list functions.
\<close>

named_theorems hoare_rules \<open>introduction rules for Hoare triples\<close>
named_theorems keeps_rules \<open>introduction rules for preserved invariants\<close>
named_theorems comp_simps \<open>evaluation rules of computations\<close>

section \<open>Go strings\<close>

definition has_prefix :: "string \<Rightarrow> string \<Rightarrow> bool" where
  "has_prefix s p \<longleftrightarrow> take (length p) s = p"

definition trim_prefix :: "string \<Rightarrow> string \<Rightarrow> string" where
  "trim_prefix s p = (if has_prefix s p then drop (length p) s else s)"

fun strings_contains :: "string \<Rightarrow> string \<Rightarrow> bool" where
  "strings_contains [] p = (p = [])"
| "strings_contains (c # s) p = (has_prefix (c # s) p \<or> strings_contains s p)"

fun strings_join :: "string list \<Rightarrow> string \<Rightarrow> string" where
  "strings_join [] sep = []"
| "strings_join [x] sep = x"
| "strings_join (x # xs) sep = x @ sep @ strings_join xs sep"

text \<open>\<open>strings.Split\<close> with a one-byte separator; the result is never empty.\<close>

fun strings_split :: "string \<Rightarrow> char \<Rightarrow> string list" where
  "strings_split [] sep = [[]]"
| "strings_split (c # s) sep =
     (if c = sep then [] # strings_split s sep
      else (case strings_split s sep of
              [] \<Rightarrow> [[c]]
            | w # ws \<Rightarrow> (c # w) # ws))"

text \<open>\<open>strings.ReplaceAll\<close> with a one-byte pattern.\<close>

definition replace_char :: "string \<Rightarrow> char \<Rightarrow> string \<Rightarrow> string" where
  "replace_char s c r = concat (map (\<lambda>x. if x = c then r else [x]) s)"

definition digit_char :: "nat \<Rightarrow> char" where
  "digit_char n = char_of (48 + n)"

fun nat_str :: "nat \<Rightarrow> string" where
  "nat_str n = (if n < 10 then [digit_char n] else nat_str (n div 10) @ [digit_char (n mod 10)])"

declare nat_str.simps [simp del]

text \<open>\<open>strconv.Itoa\<close> and the \<open>%d\<close> verb.\<close>

definition int_str :: "int \<Rightarrow> string" where
  "int_str i = (if i < 0 then ''-'' @ nat_str (nat (- i)) else nat_str (nat i))"

definition hex_digit :: "nat \<Rightarrow> char" where
  "hex_digit n = char_of (if n < 10 then 48 + n else 87 + n)"

text \<open>\<open>hex.EncodeToString\<close>, bytes given as numbers.\<close>

definition hex_encode :: "nat list \<Rightarrow> string" where
  "hex_encode bs = concat (map (\<lambda>b. [hex_digit (b mod 256 div 16), hex_digit (b mod 16)]) bs)"

text \<open>
  The \<open>%q\<close> verb on printable text: double quotes around it, backslash and double quote
  escaped. Bytes of printable multi-byte characters stay as they are.
\<close>

definition go_quote :: "string \<Rightarrow> string" where
  "go_quote s = [CHR 0x22] @
     concat (map (\<lambda>c. if c = CHR 0x22 \<or> c = CHR 0x5C then [CHR 0x5C, c]
                      else if c = CHR 0x0A then [CHR 0x5C, CHR ''n'']
                      else if c = CHR 0x09 then [CHR 0x5C, CHR ''t'']
                      else if c = CHR 0x0D then [CHR 0x5C, CHR ''r'']
                      else if of_char c < (32::nat) \<or> c = CHR 0x7F
                        then [CHR 0x5C, CHR ''x''] @ hex_encode [of_char c]
                      else [c]) s) @ [CHR 0x22]"

subsection \<open>Lemmas on strings\<close>

lemma has_prefix_append [simp]: "has_prefix (p @ s) p"
  by (simp add: has_prefix_def)

lemma has_prefix_iff: "has_prefix s p \<longleftrightarrow> (\<exists>r. s = p @ r)"
  by (metis append_eq_conv_conj append_take_drop_id has_prefix_def)

lemma trim_prefix_append [simp]: "trim_prefix (p @ s) p = s"
  by (simp add: trim_prefix_def)

lemma strings_contains_append_right: "strings_contains s p \<Longrightarrow> strings_contains (r @ s) p"
  by (induction r) auto

lemma strings_contains_append_left: "strings_contains s p \<Longrightarrow> strings_contains (s @ r) p"
proof (induction s)
  case Nil
  then show ?case by (cases r) (auto simp: has_prefix_def)
next
  case (Cons c s)
  then show ?case by (auto simp: has_prefix_iff) (metis append.assoc append_Cons)
qed

lemma strings_contains_self [simp]: "strings_contains s s"
  by (cases s) (auto simp: has_prefix_def)

lemma strings_contains_infix: "strings_contains (r @ p @ q) p"
  by (intro strings_contains_append_right strings_contains_append_left) simp

lemma strings_split_nonempty [simp]: "strings_split s sep \<noteq> []"
  by (induction s) (auto split: list.splits)

lemma strings_split_no_sep: "sep \<notin> set w \<Longrightarrow> strings_split w sep = [w]"
  by (induction w) auto

lemma strings_split_append:
  "sep \<notin> set w \<Longrightarrow> strings_split (w @ sep # s) sep = w # strings_split s sep"
  by (induction w) auto

text \<open>\<open>strings.Split\<close> inverts \<open>strings.Join\<close> when no piece contains the separator.\<close>

lemma strings_split_join:
  assumes "ws \<noteq> []" and "\<forall>w \<in> set ws. sep \<notin> set w"
  shows "strings_split (strings_join ws [sep]) sep = ws"
  using assms
proof (induction ws "[sep]" rule: strings_join.induct)
  case (2 x)
  then show ?case by (simp add: strings_split_no_sep)
next
  case (3 x v va)
  then show ?case by (simp add: strings_split_append)
qed simp

lemma strings_join_split: "strings_join (strings_split s sep) [sep] = s"
proof (induction s)
  case (Cons c s)
  obtain w ws where "strings_split s sep = w # ws"
    by (meson list.exhaust strings_split_nonempty)
  with Cons show ?case by (cases ws) auto
qed simp

lemma strings_join_eq_Nil:
  "strings_join ws sep = [] \<Longrightarrow> sep \<noteq> [] \<Longrightarrow> ws = [] \<or> ws = [[]]"
  by (induction ws sep rule: strings_join.induct) auto

lemma digit_char_inj: "m < 10 \<Longrightarrow> n < 10 \<Longrightarrow> digit_char m = digit_char n \<Longrightarrow> m = n"
  by (drule arg_cong [where f = "of_char :: char \<Rightarrow> nat"]) (simp add: digit_char_def)

definition digit_chars :: "char set" where
  "digit_chars = set ''0123456789''"

lemma digit_char_all: "list_all (\<lambda>n. digit_char n \<in> digit_chars) [0..<10]"
  by code_simp

lemma digit_char_in [simp, intro]: "n < 10 \<Longrightarrow> digit_char n \<in> digit_chars"
  using digit_char_all by (auto simp: list_all_iff)

lemma digit_char_simps [simp]:
  "digit_char 0 = CHR ''0''" "digit_char (Suc 0) = CHR ''1''" "digit_char 1 = CHR ''1''"
  "digit_char 2 = CHR ''2''" "digit_char 3 = CHR ''3''" "digit_char 4 = CHR ''4''"
  "digit_char 5 = CHR ''5''" "digit_char 6 = CHR ''6''" "digit_char 7 = CHR ''7''"
  "digit_char 8 = CHR ''8''" "digit_char 9 = CHR ''9''"
  by code_simp+

lemma nat_str_nonempty [simp]: "nat_str n \<noteq> []"
  by (subst nat_str.simps) simp

lemma nat_str_digits: "set (nat_str n) \<subseteq> digit_chars"
proof (induction n rule: nat_str.induct)
  case (1 n)
  then show ?case by (subst nat_str.simps) auto
qed

lemma nat_str_inj: "nat_str m = nat_str n \<longleftrightarrow> m = n"
proof
  show "nat_str m = nat_str n \<Longrightarrow> m = n"
  proof (induction m arbitrary: n rule: nat_str.induct)
    case (1 m)
    show ?case
    proof (cases "m < 10")
      case True
      then have "n < 10 \<and> digit_char m = digit_char n"
        using 1(2) nat_str_nonempty [of "n div 10"]
        by (cases "n < 10") (auto simp: nat_str.simps [of m] nat_str.simps [of n])
      with True show ?thesis using digit_char_inj by blast
    next
      case False
      then have n: "\<not> n < 10"
        using 1(2) by (auto simp: nat_str.simps [of m] nat_str.simps [of n])
      with False 1(2) have "nat_str (m div 10) = nat_str (n div 10)"
        and d: "digit_char (m mod 10) = digit_char (n mod 10)"
        by (simp_all add: nat_str.simps [of m] nat_str.simps [of n])
      then have "m div 10 = n div 10" using 1(1) False by blast
      moreover have "m mod 10 = n mod 10" using d digit_char_inj by simp
      ultimately show ?thesis by (metis div_mult_mod_eq)
    qed
  qed
qed simp

lemma hex_encode_length: "length (hex_encode bs) = 2 * length bs"
  by (induction bs) (simp_all add: hex_encode_def)

definition hex_chars :: "char set" where
  "hex_chars = set ''0123456789abcdef''"

lemma hex_digit_all: "list_all (\<lambda>n. hex_digit n \<in> hex_chars) [0..<16]"
  by code_simp

lemma hex_digit_in: "n < 16 \<Longrightarrow> hex_digit n \<in> hex_chars"
  using hex_digit_all by (auto simp: list_all_iff)

lemma hex_encode_chars: "set (hex_encode bs) \<subseteq> hex_chars"
  by (induction bs) (auto simp: hex_encode_def intro!: hex_digit_in)


section \<open>Go errors\<close>

text \<open>
  The sentinel errors of the repository, plain messages, \<open>fmt.Errorf\<close> with one \<open>%w\<close> (the
  text before and after the wrapped error), \<open>errors.Join\<close>, and the \<open>StatusError\<close> of the API client
  (status and message).
\<close>

datatype sentinel = ErrNotFound | ErrUnsupportedPGVersion | ErrInvalidName | ErrQuotaExceeded

datatype err = Sentinel sentinel | Msg string | Wrap string err string | Joined "err list" | StatusError nat string

fun sentinel_msg :: "sentinel \<Rightarrow> string" where
  "sentinel_msg ErrNotFound = ''not found''"
| "sentinel_msg ErrUnsupportedPGVersion = ''unsupported pg_version''"
| "sentinel_msg ErrInvalidName = ''invalid branch name''"
| "sentinel_msg ErrQuotaExceeded = ''branch quota exceeded''"

text \<open>\<open>err.Error()\<close>\<close>

fun err_msg :: "err \<Rightarrow> string" where
  "err_msg (Sentinel x) = sentinel_msg x"
| "err_msg (Msg m) = m"
| "err_msg (Wrap p e q) = p @ err_msg e @ q"
| "err_msg (Joined es) = strings_join (map err_msg es) [CHR 0x0A]"
| "err_msg (StatusError code m) = m"

text \<open>\<open>errors.Is\<close> against a sentinel\<close>

fun errors_is :: "err \<Rightarrow> sentinel \<Rightarrow> bool" where
  "errors_is (Sentinel x) y = (x = y)"
| "errors_is (Msg m) y = False"
| "errors_is (Wrap p e q) y = errors_is e y"
| "errors_is (Joined es) y = list_ex (\<lambda>e. errors_is e y) es"
| "errors_is (StatusError code m) y = False"

section \<open>Statements over a table\<close>

text \<open>
  A table is the list of its rows in insertion order (the order of SQLite's rowids). \<open>UPDATE\<close>
  rewrites the rows its \<open>WHERE\<close> selects, \<open>RowsAffected\<close> counts them, \<open>ORDER BY\<close> is a stable
  sort.
\<close>

definition update_where :: "('r \<Rightarrow> bool) \<Rightarrow> ('r \<Rightarrow> 'r) \<Rightarrow> 'r list \<Rightarrow> 'r list" where
  "update_where p f rows = map (\<lambda>r. if p r then f r else r) rows"

definition delete_where :: "('r \<Rightarrow> bool) \<Rightarrow> 'r list \<Rightarrow> 'r list" where
  "delete_where p rows = filter (\<lambda>r. \<not> p r) rows"

definition count_where :: "('r \<Rightarrow> bool) \<Rightarrow> 'r list \<Rightarrow> nat" where
  "count_where p rows = length (filter p rows)"

lemma length_update_where [simp]: "length (update_where p f rows) = length rows"
  by (simp add: update_where_def)

lemma set_update_where: "set (update_where p f rows) = (\<lambda>r. if p r then f r else r) ` set rows"
  by (simp add: update_where_def)

lemma set_delete_where [simp]: "set (delete_where p rows) = {r \<in> set rows. \<not> p r}"
  by (auto simp: delete_where_def)

lemma count_where_zero: "count_where p rows = 0 \<longleftrightarrow> (\<forall>r \<in> set rows. \<not> p r)"
  by (auto simp: count_where_def filter_empty_conv)

lemma count_where_pos: "0 < count_where p rows \<longleftrightarrow> (\<exists>r \<in> set rows. p r)"
  using count_where_zero [of p rows] by auto

lemma map_update_where:
  assumes "\<And>r. k (f r) = k r"
  shows "map k (update_where p f rows) = map k rows"
  by (simp add: update_where_def assms)

lemma map_update_where_on:
  assumes "\<And>r. r \<in> set rows \<Longrightarrow> p r \<Longrightarrow> k (f r) = k r"
  shows "map k (update_where p f rows) = map k rows"
  using assms by (simp add: update_where_def)

text \<open>A table whose rows have distinct keys: reads and writes by key.\<close>

definition find_key :: "('r \<Rightarrow> 'k) \<Rightarrow> 'k \<Rightarrow> 'r list \<Rightarrow> 'r option" where
  "find_key key k rows = find (\<lambda>r. key r = k) rows"

lemma find_key_SomeD: "find_key key k rows = Some r \<Longrightarrow> r \<in> set rows \<and> key r = k"
  unfolding find_key_def find_Some_iff by auto

lemma find_key_Some_iff:
  assumes "distinct (map key rows)"
  shows "find_key key k rows = Some r \<longleftrightarrow> r \<in> set rows \<and> key r = k"
proof
  assume r: "r \<in> set rows \<and> key r = k"
  show "find_key key k rows = Some r"
  proof (cases "find_key key k rows")
    case None
    with r show ?thesis by (auto simp: find_key_def find_None_iff)
  next
    case (Some r')
    then have "r' \<in> set rows" "key r' = k" by (auto dest: find_key_SomeD)
    with r assms have "r' = r" by (auto simp: distinct_map dest: inj_onD)
    with Some show ?thesis by simp
  qed
qed (rule find_key_SomeD)

lemma find_key_None_iff: "find_key key k rows = None \<longleftrightarrow> (\<forall>r \<in> set rows. key r \<noteq> k)"
  by (auto simp: find_key_def find_None_iff)

lemma find_key_update:
  assumes "\<And>r. key (f r) = key r"
  shows "find_key key k (update_where (\<lambda>r. key r = j) f rows)
           = (if k = j then map_option f (find_key key k rows) else find_key key k rows)"
  by (induction rows) (auto simp: find_key_def update_where_def assms)

lemma distinct_update_where:
  assumes "\<And>r. key (f r) = key r" and "distinct (map key rows)"
  shows "distinct (map key (update_where p f rows))"
  using assms(2) map_update_where [of key f p rows, OF assms(1)] by simp

lemma distinct_append_row:
  "distinct (map key (rows @ [r])) \<longleftrightarrow> distinct (map key rows) \<and> find_key key (key r) rows = None"
  by (auto simp: find_key_None_iff image_iff)

lemma distinct_delete_where: "distinct (map key rows) \<Longrightarrow> distinct (map key (delete_where p rows))"
  by (simp add: delete_where_def distinct_map_filter)

lemma find_key_append:
  "find_key key k (rows @ [r]) = (case find_key key k rows of Some x \<Rightarrow> Some x
     | None \<Rightarrow> if key r = k then Some r else None)"
  by (induction rows) (auto simp: find_key_def)

lemma find_key_delete_other:
  assumes "\<And>r. r \<in> set rows \<Longrightarrow> key r = k \<Longrightarrow> \<not> p r"
  shows "find_key key k (delete_where p rows) = find_key key k rows"
  using assms by (induction rows) (auto simp: find_key_def delete_where_def)

lemma count_key_le_one:
  assumes "distinct (map key rows)"
  shows "count_where (\<lambda>r. key r = k \<and> p r) rows \<le> 1"
  using assms
proof (induction rows)
  case (Cons r rows)
  show ?case
  proof (cases "key r = k")
    case True
    with Cons.prems have "\<forall>x \<in> set rows. key x \<noteq> k"
      by (simp add: image_iff) metis
    then have "count_where (\<lambda>r. key r = k \<and> p r) rows = 0"
      by (simp add: count_where_zero)
    then show ?thesis by (simp add: count_where_def)
  qed (use Cons in \<open>simp add: count_where_def\<close>)
qed (simp add: count_where_def)

end
