(* ===== verification/Effects.thy ===== *)
theory Effects
  imports Prelude
begin

text \<open>
  Computations: functions of a state that return an error or a value, with the state as the
  calls before an error left it (an error does not undo effects). Hoare triples for them, and
  the process environment as the part of the state every component shares. The environment
  gives, at each point it is consulted, whether a database statement fails, how much time has
  passed, which random bytes are read and whether the request context is done; every theorem
  holds for all environments.
\<close>

section \<open>Computations\<close>

type_synonym ('s, 'a) comp = "'s \<Rightarrow> (err + 'a) \<times> 's"

definition ok :: "'a \<Rightarrow> ('s, 'a) comp" where
  "ok x = (\<lambda>s. (Inr x, s))"

definition raise :: "err \<Rightarrow> ('s, 'a) comp" where
  "raise e = (\<lambda>s. (Inl e, s))"

text \<open>\<open>x, err := m(); if err != nil { return err }\<close>\<close>

definition bnd :: "('s, 'a) comp \<Rightarrow> ('a \<Rightarrow> ('s, 'b) comp) \<Rightarrow> ('s, 'b) comp" where
  "bnd m f = (\<lambda>s. case m s of (Inl e, s') \<Rightarrow> (Inl e, s') | (Inr x, s') \<Rightarrow> f x s')"

text \<open>The result as a value, for code that inspects the error or drops it.\<close>

definition attempt :: "('s, 'a) comp \<Rightarrow> ('s, err + 'a) comp" where
  "attempt m = (\<lambda>s. case m s of (r, s') \<Rightarrow> (Inr r, s'))"

text \<open>\<open>if err := m(); err != nil { return h(err) }\<close> and wrapping of the error.\<close>

definition on_error :: "('s, 'a) comp \<Rightarrow> (err \<Rightarrow> ('s, 'a) comp) \<Rightarrow> ('s, 'a) comp" where
  "on_error m h = (\<lambda>s. case m s of (Inl e, s') \<Rightarrow> h e s' | (Inr x, s') \<Rightarrow> (Inr x, s'))"

definition wrapping :: "string \<Rightarrow> ('s, 'a) comp \<Rightarrow> ('s, 'a) comp" where
  "wrapping p m = on_error m (\<lambda>e. raise (Wrap p e []))"

definition gets :: "('s \<Rightarrow> 'a) \<Rightarrow> ('s, 'a) comp" where
  "gets f = (\<lambda>s. (Inr (f s), s))"

definition modify :: "('s \<Rightarrow> 's) \<Rightarrow> ('s, unit) comp" where
  "modify f = (\<lambda>s. (Inr (), f s))"

definition lift_err :: "err option \<Rightarrow> ('s, unit) comp" where
  "lift_err r = (case r of None \<Rightarrow> ok () | Some e \<Rightarrow> raise e)"

text \<open>A loop over a slice whose body may return early with an error.\<close>

fun for_each :: "'a list \<Rightarrow> ('a \<Rightarrow> ('s, unit) comp) \<Rightarrow> ('s, unit) comp" where
  "for_each [] f = ok ()"
| "for_each (x # xs) f = bnd (f x) (\<lambda>_. for_each xs f)"

subsection \<open>Evaluation\<close>

lemma ok_run [comp_simps]: "ok x s = (Inr x, s)"
  by (simp add: ok_def)

lemma raise_run [comp_simps]: "raise e s = (Inl e, s)"
  by (simp add: raise_def)

lemma gets_run [comp_simps]: "gets f s = (Inr (f s), s)"
  by (simp add: gets_def)

lemma modify_run [comp_simps]: "modify f s = (Inr (), f s)"
  by (simp add: modify_def)

lemma bnd_run [comp_simps]:
  "bnd m f s = (case m s of (Inl e, s') \<Rightarrow> (Inl e, s') | (Inr x, s') \<Rightarrow> f x s')"
  by (simp add: bnd_def)

lemma attempt_run [comp_simps]: "attempt m s = (case m s of (r, s') \<Rightarrow> (Inr r, s'))"
  by (simp add: attempt_def)

lemma on_error_run [comp_simps]:
  "on_error m h s = (case m s of (Inl e, s') \<Rightarrow> h e s' | (Inr x, s') \<Rightarrow> (Inr x, s'))"
  by (simp add: on_error_def)

lemma wrapping_run [comp_simps]:
  "wrapping p m s = (case m s of (Inl e, s') \<Rightarrow> (Inl (Wrap p e []), s') | (Inr x, s') \<Rightarrow> (Inr x, s'))"
  by (simp add: wrapping_def comp_simps split: prod.splits sum.splits)

lemma lift_err_run [comp_simps]:
  "lift_err r s = (case r of None \<Rightarrow> (Inr (), s) | Some e \<Rightarrow> (Inl e, s))"
  by (simp add: lift_err_def comp_simps split: option.splits)

lemma bnd_Inr_iff:
  "bnd m f s = (Inr y, t) \<longleftrightarrow> (\<exists>x u. m s = (Inr x, u) \<and> f x u = (Inr y, t))"
  by (auto simp: comp_simps split: prod.splits sum.splits)

lemma bnd_Inl_iff:
  "bnd m f s = (Inl e, t) \<longleftrightarrow>
     m s = (Inl e, t) \<or> (\<exists>x u. m s = (Inr x, u) \<and> f x u = (Inl e, t))"
  by (auto simp: comp_simps split: prod.splits sum.splits)

lemma wrapping_Inr_iff: "wrapping p m s = (Inr x, t) \<longleftrightarrow> m s = (Inr x, t)"
  by (auto simp: comp_simps split: prod.splits sum.splits)

lemma wrapping_Inl_iff: "wrapping p m s = (Inl e, t) \<longleftrightarrow> (\<exists>e'. m s = (Inl e', t) \<and> e = Wrap p e' [])"
  by (auto simp: comp_simps split: prod.splits sum.splits)

section \<open>Hoare triples\<close>

text \<open>From a state satisfying \<open>P\<close>, a value comes with \<open>Q\<close> and an error with \<open>E\<close>.\<close>

definition hoare :: "('s \<Rightarrow> bool) \<Rightarrow> ('s, 'a) comp \<Rightarrow> ('a \<Rightarrow> 's \<Rightarrow> bool) \<Rightarrow> (err \<Rightarrow> 's \<Rightarrow> bool) \<Rightarrow> bool"
  where "hoare P m Q E \<longleftrightarrow>
    (\<forall>s. P s \<longrightarrow> (case m s of (Inl e, s') \<Rightarrow> E e s' | (Inr x, s') \<Rightarrow> Q x s'))"

lemma hoareI:
  assumes "\<And>s x t. P s \<Longrightarrow> m s = (Inr x, t) \<Longrightarrow> Q x t"
    and "\<And>s e t. P s \<Longrightarrow> m s = (Inl e, t) \<Longrightarrow> E e t"
  shows "hoare P m Q E"
  using assms by (auto simp: hoare_def split: prod.splits sum.splits)

lemma hoare_okD: "hoare P m Q E \<Longrightarrow> P s \<Longrightarrow> m s = (Inr x, t) \<Longrightarrow> Q x t"
  by (auto simp: hoare_def split: prod.splits sum.splits)

lemma hoare_errD: "hoare P m Q E \<Longrightarrow> P s \<Longrightarrow> m s = (Inl e, t) \<Longrightarrow> E e t"
  by (auto simp: hoare_def split: prod.splits sum.splits)

lemma hoare_weaken:
  assumes "hoare P' m Q' E'" "\<And>s. P s \<Longrightarrow> P' s"
    and "\<And>x s. Q' x s \<Longrightarrow> Q x s" "\<And>e s. E' e s \<Longrightarrow> E e s"
  shows "hoare P m Q E"
  using assms by (intro hoareI) (metis hoare_okD, metis hoare_errD)

lemma hoare_pre: "hoare P' m Q E \<Longrightarrow> (\<And>s. P s \<Longrightarrow> P' s) \<Longrightarrow> hoare P m Q E"
  by (rule hoare_weaken)

lemma hoare_conj:
  "hoare P m Q E \<Longrightarrow> hoare P' m Q' E' \<Longrightarrow>
   hoare (\<lambda>s. P s \<and> P' s) m (\<lambda>x s. Q x s \<and> Q' x s) (\<lambda>e s. E e s \<and> E' e s)"
  by (auto intro!: hoareI dest: hoare_okD hoare_errD)

lemma hoare_ok [hoare_rules]: "(\<And>s. P s \<Longrightarrow> Q x s) \<Longrightarrow> hoare P (ok x) Q E"
  by (auto simp: hoare_def comp_simps)

lemma hoare_raise [hoare_rules]: "(\<And>s. P s \<Longrightarrow> E e s) \<Longrightarrow> hoare P (raise e) Q E"
  by (auto simp: hoare_def comp_simps)

lemma hoare_bnd:
  "hoare P m R E \<Longrightarrow> (\<And>x. hoare (R x) (f x) Q E) \<Longrightarrow> hoare P (bnd m f) Q E"
  by (intro hoareI) (auto simp: bnd_Inr_iff bnd_Inl_iff, (metis hoare_okD hoare_errD)+)

lemma hoare_attempt:
  "hoare P m (\<lambda>x. Q (Inr x)) (\<lambda>e. Q (Inl e)) \<Longrightarrow> hoare P (attempt m) Q E"
proof (rule hoareI)
  fix s x t assume m: "hoare P m (\<lambda>x. Q (Inr x)) (\<lambda>e. Q (Inl e))" "P s" "attempt m s = (Inr x, t)"
  then have "m s = (x, t)" by (auto simp: comp_simps split: prod.splits)
  with m(1,2) show "Q x t" by (cases x) (auto dest: hoare_okD hoare_errD)
qed (auto simp: comp_simps split: prod.splits)

lemma hoare_on_error:
  "hoare P m Q R \<Longrightarrow> (\<And>e. hoare (R e) (h e) Q E) \<Longrightarrow> hoare P (on_error m h) Q E"
  by (rule hoareI)
    (auto simp: comp_simps split: prod.splits sum.splits dest: hoare_okD hoare_errD)

lemma hoare_wrapping:
  "hoare P m Q (\<lambda>e. E (Wrap p e [])) \<Longrightarrow> hoare P (wrapping p m) Q E"
  by (rule hoareI)
    (auto simp: comp_simps split: prod.splits sum.splits dest: hoare_okD hoare_errD)

section \<open>Preserved invariants\<close>

definition keeps :: "('s \<Rightarrow> bool) \<Rightarrow> ('s, 'a) comp \<Rightarrow> bool" where
  "keeps I m \<longleftrightarrow> (\<forall>s. I s \<longrightarrow> I (snd (m s)))"

lemma keepsI: "(\<And>s r t. I s \<Longrightarrow> m s = (r, t) \<Longrightarrow> I t) \<Longrightarrow> keeps I m"
  unfolding keeps_def by (metis prod.collapse)

lemma keepsD: "keeps I m \<Longrightarrow> I s \<Longrightarrow> m s = (r, t) \<Longrightarrow> I t"
  unfolding keeps_def by (metis snd_conv)

lemma keeps_hoare: "keeps I m \<longleftrightarrow> hoare I m (\<lambda>_. I) (\<lambda>_. I)"
proof
  show "keeps I m \<Longrightarrow> hoare I m (\<lambda>_. I) (\<lambda>_. I)"
    by (auto intro!: hoareI dest: keepsD)
  show "hoare I m (\<lambda>_. I) (\<lambda>_. I) \<Longrightarrow> keeps I m"
    by (rule keepsI) (metis hoare_errD hoare_okD obj_sumE)
qed

lemma keeps_ok [keeps_rules]: "keeps I (ok x)"
  by (simp add: keeps_def comp_simps)

lemma keeps_raise [keeps_rules]: "keeps I (raise e)"
  by (simp add: keeps_def comp_simps)

lemma keeps_gets [keeps_rules]: "keeps I (gets f)"
  by (simp add: keeps_def comp_simps)

lemma keeps_lift_err [keeps_rules]: "keeps I (lift_err r)"
  by (simp add: keeps_def comp_simps split: option.splits)

lemma keeps_bnd [keeps_rules]: "keeps I m \<Longrightarrow> (\<And>x. keeps I (f x)) \<Longrightarrow> keeps I (bnd m f)"
  by (auto simp: keeps_def comp_simps split: prod.splits sum.splits)

lemma keeps_attempt [keeps_rules]: "keeps I m \<Longrightarrow> keeps I (attempt m)"
  by (auto simp: keeps_def comp_simps split: prod.splits)

lemma keeps_on_error [keeps_rules]:
  "keeps I m \<Longrightarrow> (\<And>e. keeps I (h e)) \<Longrightarrow> keeps I (on_error m h)"
  by (auto simp: keeps_def comp_simps split: prod.splits sum.splits)

lemma keeps_wrapping [keeps_rules]: "keeps I m \<Longrightarrow> keeps I (wrapping p m)"
  unfolding wrapping_def by (intro keeps_on_error keeps_raise)

lemma keeps_modify: "(\<And>s. I s \<Longrightarrow> I (f s)) \<Longrightarrow> keeps I (modify f)"
  by (simp add: keeps_def comp_simps)

lemma keeps_for_each [keeps_rules]: "(\<And>x. keeps I (f x)) \<Longrightarrow> keeps I (for_each xs f)"
  by (induction xs) (auto intro: keeps_rules)

lemma keeps_if [keeps_rules]: "keeps I m \<Longrightarrow> keeps I n \<Longrightarrow> keeps I (if b then m else n)"
  by simp

lemma keeps_option [keeps_rules]:
  "keeps I m \<Longrightarrow> (\<And>x. keeps I (f x)) \<Longrightarrow> keeps I (case v of None \<Rightarrow> m | Some x \<Rightarrow> f x)"
  by (simp split: option.splits)

lemma keeps_sum [keeps_rules]:
  "(\<And>x. keeps I (f x)) \<Longrightarrow> (\<And>x. keeps I (g x)) \<Longrightarrow> keeps I (case v of Inl x \<Rightarrow> f x | Inr x \<Rightarrow> g x)"
  by (simp split: sum.splits)

lemma keeps_list [keeps_rules]:
  "keeps I m \<Longrightarrow> (\<And>y ys. keeps I (f y ys)) \<Longrightarrow> keeps I (case v of [] \<Rightarrow> m | y # ys \<Rightarrow> f y ys)"
  by (simp split: list.splits)

lemma keeps_prod [keeps_rules]: "(\<And>x y. keeps I (f x y)) \<Longrightarrow> keeps I (case v of (x, y) \<Rightarrow> f x y)"
  by (simp split: prod.splits)

lemma keeps_Let [keeps_rules]: "(\<And>x. keeps I (f x)) \<Longrightarrow> keeps I (let x = v in f x)"
  by simp

lemma keeps_conj: "keeps I m \<Longrightarrow> keeps J m \<Longrightarrow> keeps (\<lambda>s. I s \<and> J s) m"
  by (simp add: keeps_def)

section \<open>The process environment\<close>

text \<open>
  \<open>tick\<close> counts consultations; the other fields say what each of them sees. \<open>wall\<close> is the clock
  in nanoseconds; it never goes back (Go compares \<open>time.Time\<close> values by their monotonic part).
\<close>

record environ =
  sql_fault :: "nat \<Rightarrow> string option"
  elapse :: "nat \<Rightarrow> nat"
  rand_byte :: "nat \<Rightarrow> nat \<Rightarrow> nat"
  ctx_done :: "nat \<Rightarrow> bool"
  tick :: nat
  wall :: int

text \<open>One database statement: it may fail (disk, lock, closed handle).\<close>

definition sql :: "('z environ_scheme, unit) comp" where
  "sql s = (case sql_fault s (tick s) of
      None \<Rightarrow> (Inr (), s\<lparr>tick := Suc (tick s)\<rparr>)
    | Some m \<Rightarrow> (Inl (Msg m), s\<lparr>tick := Suc (tick s)\<rparr>))"

text \<open>\<open>time.Now()\<close>\<close>

definition time_now :: "('z environ_scheme, int) comp" where
  "time_now s = (let t = wall s + int (elapse s (tick s)) in
     (Inr t, s\<lparr>wall := t, tick := Suc (tick s)\<rparr>))"

text \<open>
  \<open>select\<close> on \<open>ctx.Done()\<close> and \<open>time.After(d)\<close>: true when the context was done first, which a context
  that cannot be cancelled never is.
\<close>

definition sleep_or_done :: "bool \<Rightarrow> int \<Rightarrow> ('z environ_scheme, bool) comp" where
  "sleep_or_done cancellable d s =
     (if cancellable \<and> ctx_done s (tick s) then (Inr True, s\<lparr>tick := Suc (tick s)\<rparr>)
      else (Inr False, s\<lparr>wall := wall s + d + int (elapse s (tick s)), tick := Suc (tick s)\<rparr>))"

text \<open>\<open>rand.Read\<close> into \<open>k\<close> bytes (it cannot fail), hex encoded.\<close>

definition rand_hex :: "nat \<Rightarrow> ('z environ_scheme, string) comp" where
  "rand_hex k s = (Inr (hex_encode (map (rand_byte s (tick s)) [0..<k])), s\<lparr>tick := Suc (tick s)\<rparr>)"

definition second :: int where "second = 1000000000"

text \<open>
  An invariant that does not look at the consultation counter and that the passing of time keeps.
\<close>

definition env_free :: "('z environ_scheme \<Rightarrow> bool) \<Rightarrow> bool" where
  "env_free I \<longleftrightarrow> (\<forall>s n. I (s\<lparr>tick := n\<rparr>) = I s) \<and>
     (\<forall>s w. wall s \<le> w \<longrightarrow> I s \<longrightarrow> I (s\<lparr>wall := w\<rparr>))"

lemma env_freeD:
  "env_free I \<Longrightarrow> I (s\<lparr>tick := n\<rparr>) = I s"
  "env_free I \<Longrightarrow> I s \<Longrightarrow> wall s \<le> w \<Longrightarrow> I (s\<lparr>wall := w\<rparr>)"
  by (simp_all add: env_free_def)

lemma env_free_passes:
  assumes "env_free I" "I s" "wall s \<le> w"
  shows "I (s\<lparr>wall := w, tick := n\<rparr>)"
  using env_freeD(1) [OF assms(1), where s = "s\<lparr>wall := w\<rparr>" and n = n] env_freeD(2) [OF assms] by blast

lemma keeps_sql [keeps_rules]: "env_free I \<Longrightarrow> keeps I sql"
  by (simp add: keeps_def sql_def env_freeD split: option.splits)

lemma keeps_time_now [keeps_rules]: "env_free I \<Longrightarrow> keeps I time_now"
  by (simp add: keeps_def time_now_def env_free_passes Let_def)

lemma keeps_sleep: "env_free I \<Longrightarrow> 0 \<le> d \<Longrightarrow> keeps I (sleep_or_done c d)"
proof (rule keepsI)
  fix s r t assume I: "env_free I" "0 \<le> d" "I s" "sleep_or_done c d s = (r, t)"
  have "I (s\<lparr>wall := wall s + d + int (elapse s (tick s)), tick := Suc (tick s)\<rparr>)"
    using I(2) by (intro env_free_passes [OF I(1,3)]) simp
  moreover have "I (s\<lparr>tick := Suc (tick s)\<rparr>)" using I(1,3) by (simp add: env_freeD(1))
  ultimately show "I t" using I(4) by (simp add: sleep_or_done_def split: if_splits)
qed

lemma keeps_rand_hex [keeps_rules]: "env_free I \<Longrightarrow> keeps I (rand_hex k)"
  by (simp add: keeps_def rand_hex_def env_freeD)

lemma rand_hex_length: "rand_hex k s = (Inr x, t) \<Longrightarrow> length x = 2 * k"
  by (auto simp: rand_hex_def hex_encode_length)

lemma rand_hex_chars: "rand_hex k s = (Inr x, t) \<Longrightarrow> set x \<subseteq> hex_chars"
  by (auto simp: rand_hex_def dest: hex_encode_chars [THEN subsetD])

section \<open>Timestamps\<close>

text \<open>
  The civil date of a day count since 1970-01-01 (proleptic Gregorian calendar), and the two
  renderings the registry compares: Go's \<open>time.RFC3339\<close> in UTC and SQLite's
  \<open>strftime('%Y-%m-%dT%H:%M:%fZ')\<close> with milliseconds.
\<close>

definition civil_date :: "int \<Rightarrow> int \<times> int \<times> int" where
  "civil_date days =
     (let z = days + 719468; era = z div 146097; doe = z - era * 146097;
          yoe = (doe - doe div 1460 + doe div 36524 - doe div 146096) div 365;
          doy = doe - (365 * yoe + yoe div 4 - yoe div 100);
          mp = (5 * doy + 2) div 153;
          d = doy - (153 * mp + 2) div 5 + 1;
          m = (if mp < 10 then mp + 3 else mp - 9);
          y = yoe + era * 400
      in (if m \<le> 2 then y + 1 else y, m, d))"

definition pad :: "nat \<Rightarrow> int \<Rightarrow> string" where
  "pad k i = (let x = nat_str (nat i) in replicate (k - length x) (CHR ''0'') @ x)"

definition time_body :: "int \<Rightarrow> string" where
  "time_body t =
     (let secs = t div second; (y, m, d) = civil_date (secs div 86400); r = secs mod 86400 in
      pad 4 y @ ''-'' @ pad 2 m @ ''-'' @ pad 2 d @ ''T'' @
      pad 2 (r div 3600) @ '':'' @ pad 2 (r div 60 mod 60) @ '':'' @ pad 2 (r mod 60))"

definition rfc3339 :: "int \<Rightarrow> string" where
  "rfc3339 t = time_body t @ ''Z''"

definition sqlite_time :: "int \<Rightarrow> string" where
  "sqlite_time t = time_body t @ ''.'' @ pad 3 (t div 1000000 mod 1000) @ ''Z''"

lemma rfc3339_nonempty [simp]: "rfc3339 t \<noteq> []"
  by (simp add: rfc3339_def)

end
