(* ===== verification/Registry_Secrets.thy ===== *)
theory Registry_Secrets
  imports Effects
begin

text \<open>
  Package \<open>internal/registry\<close>, file \<open>crypto.go\<close>: branch passwords at rest. The AEAD (AES-256-GCM)
  is a parameter, a record of the nonce size and its two functions; what the code relies on is
  that opening inverts sealing. Base64 is written out. The lemmas give the round trip of
  \<open>encrypt\<close> and \<open>decrypt\<close>, the pass-through of legacy plaintext and every error of \<open>decrypt\<close>.
\<close>

section \<open>Standard base64\<close>

definition b64_alphabet :: string where
  "b64_alphabet = ''ABCDEFGHIJKLMNOPQRSTUVWXYZabcdefghijklmnopqrstuvwxyz0123456789+/''"

definition b64_char :: "nat \<Rightarrow> char" where
  "b64_char n = b64_alphabet ! (n mod 64)"

fun index_of :: "'a \<Rightarrow> 'a list \<Rightarrow> nat option" where
  "index_of x [] = None"
| "index_of x (y # ys) = (if x = y then Some 0 else map_option Suc (index_of x ys))"

definition b64_val :: "char \<Rightarrow> nat option" where
  "b64_val c = index_of c b64_alphabet"

fun b64_encode :: "nat list \<Rightarrow> string" where
  "b64_encode [] = []"
| "b64_encode [a] = [b64_char (a div 4), b64_char (a mod 4 * 16), CHR ''='', CHR ''='']"
| "b64_encode [a, b] =
     [b64_char (a div 4), b64_char (a mod 4 * 16 + b div 16), b64_char (b mod 16 * 4), CHR ''='']"
| "b64_encode (a # b # c # bs) =
     [b64_char (a div 4), b64_char (a mod 4 * 16 + b div 16), b64_char (b mod 16 * 4 + c div 64),
      b64_char (c mod 64)] @ b64_encode bs"

text \<open>Groups of four characters; padding only closes the last group.\<close>

fun b64_decode_groups :: "string \<Rightarrow> nat list option" where
  "b64_decode_groups [] = Some []"
| "b64_decode_groups (w # x # y # z # cs) =
     (case (b64_val w, b64_val x) of
        (Some p, Some q) \<Rightarrow>
          (if y = CHR ''='' then
             (if z = CHR ''='' \<and> cs = [] then Some [p * 4 + q div 16] else None)
           else (case b64_val y of
              None \<Rightarrow> None
            | Some r \<Rightarrow>
                (if z = CHR ''='' then
                   (if cs = [] then Some [p * 4 + q div 16, q mod 16 * 16 + r div 4] else None)
                 else (case b64_val z of
                    None \<Rightarrow> None
                  | Some t \<Rightarrow> map_option
                      (\<lambda>bs. [p * 4 + q div 16, q mod 16 * 16 + r div 4, r mod 4 * 64 + t] @ bs)
                      (b64_decode_groups cs)))))
      | _ \<Rightarrow> None)"
| "b64_decode_groups cs = None"

definition b64_decode :: "string \<Rightarrow> nat list option" where
  "b64_decode s = b64_decode_groups (filter (\<lambda>c. c \<noteq> CHR 0x0A \<and> c \<noteq> CHR 0x0D) s)"

lemma b64_val_char_all: "list_all (\<lambda>n. b64_val (b64_char n) = Some n) [0..<64]"
  by code_simp

lemma b64_val_char: "n < 64 \<Longrightarrow> b64_val (b64_char n) = Some n"
  using b64_val_char_all by (auto simp: list_all_iff)

lemma b64_char_plain_all:
  "list_all (\<lambda>n. b64_char n \<noteq> CHR ''='' \<and> b64_char n \<noteq> CHR 0x0A \<and> b64_char n \<noteq> CHR 0x0D) [0..<64]"
  by code_simp

lemma b64_char_plain:
  "n < 64 \<Longrightarrow> b64_char n \<noteq> CHR ''='' \<and> b64_char n \<noteq> CHR 0x0A \<and> b64_char n \<noteq> CHR 0x0D"
  using b64_char_plain_all by (auto simp: list_all_iff)

lemma b64_encode_no_newline:
  "\<forall>b \<in> set bs. b < 256 \<Longrightarrow> filter (\<lambda>c. c \<noteq> CHR 0x0A \<and> c \<noteq> CHR 0x0D) (b64_encode bs) = b64_encode bs"
  by (induction bs rule: b64_encode.induct) (auto simp: b64_char_plain)

lemma byte_split:
  fixes a b c :: nat
  assumes "a < 256" "b < 256" "c < 256"
  shows "b64_val (b64_char (a div 4)) = Some (a div 4)"
    and "b64_val (b64_char (a mod 4 * 16)) = Some (a mod 4 * 16)"
    and "b64_val (b64_char (a mod 4 * 16 + b div 16)) = Some (a mod 4 * 16 + b div 16)"
    and "b64_val (b64_char (b mod 16 * 4)) = Some (b mod 16 * 4)"
    and "b64_val (b64_char (b mod 16 * 4 + c div 64)) = Some (b mod 16 * 4 + c div 64)"
    and "b64_val (b64_char (c mod 64)) = Some (c mod 64)"
    and "b64_char (b mod 16 * 4) \<noteq> CHR ''=''"
    and "b64_char (b mod 16 * 4 + c div 64) \<noteq> CHR ''=''" and "b64_char (c mod 64) \<noteq> CHR ''=''"
    and "a div 4 * 4 + a mod 4 * 16 div 16 = a"
    and "a div 4 * 4 + (a mod 4 * 16 + b div 16) div 16 = a"
    and "(a mod 4 * 16 + b div 16) mod 16 * 16 + b mod 16 * 4 div 4 = b"
    and "(a mod 4 * 16 + b div 16) mod 16 * 16 + (b mod 16 * 4 + c div 64) div 4 = b"
    and "(b mod 16 * 4 + c div 64) mod 4 * 64 + c mod 64 = c"
proof -
  have lt: "a div 4 < 64" "a mod 4 * 16 < 64" "a mod 4 * 16 + b div 16 < 64" "b mod 16 * 4 < 64"
    "b mod 16 * 4 + c div 64 < 64" "c mod 64 < 64"
    using assms by auto
  show "b64_val (b64_char (a div 4)) = Some (a div 4)" by (rule b64_val_char [OF lt(1)])
  show "b64_val (b64_char (a mod 4 * 16)) = Some (a mod 4 * 16)" by (rule b64_val_char [OF lt(2)])
  show "b64_val (b64_char (a mod 4 * 16 + b div 16)) = Some (a mod 4 * 16 + b div 16)"
    by (rule b64_val_char [OF lt(3)])
  show "b64_val (b64_char (b mod 16 * 4)) = Some (b mod 16 * 4)" by (rule b64_val_char [OF lt(4)])
  show "b64_val (b64_char (b mod 16 * 4 + c div 64)) = Some (b mod 16 * 4 + c div 64)"
    by (rule b64_val_char [OF lt(5)])
  show "b64_val (b64_char (c mod 64)) = Some (c mod 64)" by (rule b64_val_char [OF lt(6)])
  show "b64_char (b mod 16 * 4) \<noteq> CHR ''=''" using b64_char_plain [OF lt(4)] by simp
  show "b64_char (b mod 16 * 4 + c div 64) \<noteq> CHR ''=''" using b64_char_plain [OF lt(5)] by simp
  show "b64_char (c mod 64) \<noteq> CHR ''=''" using b64_char_plain [OF lt(6)] by simp
qed (use assms in auto)

lemma b64_decode_groups_encode:
  "\<forall>b \<in> set bs. b < 256 \<Longrightarrow> b64_decode_groups (b64_encode bs) = Some bs"
proof (induction bs rule: b64_encode.induct)
  case (2 a)
  then have "a < 256" by simp
  from byte_split [OF this this this] show ?case
    by (simp del: mod_mult_self1 mod_mult_self2 mod_mult_self3 mod_mult_self4)
next
  case (3 a b)
  then have "a < 256" "b < 256" by simp_all
  note this(1,2,2)
  from byte_split [OF this] show ?case by (simp only: b64_encode.simps b64_decode_groups.simps prod.case option.case if_False if_True simp_thms)
next
  case (4 a b c bs)
  then have "a < 256" "b < 256" "c < 256" and IH: "b64_decode_groups (b64_encode bs) = Some bs" by simp_all
  from byte_split [OF this(1-3)] IH show ?case
    by (simp only: b64_encode.simps b64_decode_groups.simps append.simps prod.case option.case
        if_False if_True simp_thms option.map)
qed simp

lemma b64_decode_encode: "\<forall>b \<in> set bs. b < 256 \<Longrightarrow> b64_decode (b64_encode bs) = Some bs"
  by (simp add: b64_decode_def b64_encode_no_newline b64_decode_groups_encode)

section \<open>The secret box\<close>

definition encPrefix :: string where "encPrefix = ''enc:v1:''"

text \<open>Bytes of a Go string, and back (\<open>[]byte(s)\<close>, \<open>string(b)\<close>).\<close>

definition bytes_of :: "string \<Rightarrow> nat list" where
  "bytes_of s = map of_char s"

definition string_of :: "nat list \<Rightarrow> string" where
  "string_of bs = map char_of bs"

lemma string_of_bytes_of [simp]: "string_of (bytes_of s) = s"
  by (simp add: string_of_def bytes_of_def comp_def)

lemma bytes_of_bound: "b \<in> set (bytes_of s) \<Longrightarrow> b < 256"
  by (auto simp: bytes_of_def)

record aead =
  NonceSize :: nat
  Seal :: "nat list \<Rightarrow> nat list \<Rightarrow> nat list"
  Open :: "nat list \<Rightarrow> nat list \<Rightarrow> nat list option"

text \<open>
  \<open>sha256\<close> and the AES-GCM constructor are parameters of \<open>DeriveSecretKey\<close> and \<open>newSecretBox\<close>.
\<close>

definition DeriveSecretKey :: "(nat list \<Rightarrow> nat list) \<Rightarrow> string \<Rightarrow> nat list" where
  "DeriveSecretKey sha256 token = (if token = [] then [] else sha256 (bytes_of token))"

definition newSecretBox :: "(nat list \<Rightarrow> aead) \<Rightarrow> nat list \<Rightarrow> err + aead option" where
  "newSecretBox gcm key =
     (if length key = 0 then Inr None
      else if length key \<noteq> 32 then
        Inl (Msg (''registry secret key must be 32 bytes, got '' @ nat_str (length key)))
      else Inr (Some (gcm key)))"

definition rand_bytes :: "nat \<Rightarrow> ('z environ_scheme, nat list) comp" where
  "rand_bytes k s = (Inr (map (\<lambda>i. rand_byte s (tick s) i mod 256) [0..<k]), s\<lparr>tick := Suc (tick s)\<rparr>)"

definition encrypt :: "aead option \<Rightarrow> string \<Rightarrow> ('z environ_scheme, string) comp" where
  "encrypt box plaintext =
     (case box of
        None \<Rightarrow> ok plaintext
      | Some b \<Rightarrow>
          if plaintext = [] then ok plaintext
          else bnd (rand_bytes (NonceSize b)) (\<lambda>nonce.
               let ct = nonce @ Seal b nonce (bytes_of plaintext)
               in ok (encPrefix @ b64_encode ct)))"

definition decrypt :: "aead option \<Rightarrow> string \<Rightarrow> err + string" where
  "decrypt box stored =
     (if \<not> has_prefix stored encPrefix then Inr stored
      else case box of
        None \<Rightarrow> Inl (Msg ''registry: encrypted branch password found but no secret key configured (PGBRANCH_TOKEN missing?)'')
      | Some b \<Rightarrow>
          (case b64_decode (trim_prefix stored encPrefix) of
             None \<Rightarrow> Inl (Wrap ''registry: decode encrypted password: '' (Msg ''illegal base64 data'') [])
           | Some raw \<Rightarrow>
               if length raw < NonceSize b then Inl (Msg ''registry: encrypted password too short'')
               else (case Open b (take (NonceSize b) raw) (drop (NonceSize b) raw) of
                  None \<Rightarrow> Inl (Wrap ''registry: decrypt branch password (PGBRANCH_TOKEN rotated since it was stored? re-run credential rotation): ''
                            (Msg ''cipher: message authentication failed'') [])
                | Some pt \<Rightarrow> Inr (string_of pt))))"

definition decryptColumn :: "aead option \<Rightarrow> string \<Rightarrow> err + string" where
  "decryptColumn b stored = decrypt b stored"

text \<open>What the code relies on of the AEAD: sealed bytes are bytes, and opening inverts sealing.\<close>

definition aead_ok :: "aead \<Rightarrow> bool" where
  "aead_ok b \<longleftrightarrow> (\<forall>n p. length n = NonceSize b \<and> (\<forall>x \<in> set p. x < 256) \<longrightarrow>
     Open b n (Seal b n p) = Some p \<and> (\<forall>x \<in> set (Seal b n p). x < 256))"

lemma keeps_rand_bytes [keeps_rules]: "env_free I \<Longrightarrow> keeps I (rand_bytes k)"
  by (simp add: keeps_def rand_bytes_def env_freeD)

lemma keeps_encrypt [keeps_rules]: "env_free I \<Longrightarrow> keeps I (encrypt b p)"
  unfolding encrypt_def Let_def by (intro keeps_rules)

lemma encrypt_total: "\<exists>c t. encrypt b p s = (Inr c, t)"
  by (auto simp: encrypt_def rand_bytes_def comp_simps Let_def split: option.splits)

lemma decrypt_plain: "\<not> has_prefix x encPrefix \<Longrightarrow> decrypt b x = Inr x"
  by (simp add: decrypt_def)

lemma decrypt_encrypt_some:
  assumes "aead_ok b" "encrypt (Some b) p s = (Inr c, t)"
  shows "decrypt (Some b) c = Inr p"
proof (cases "p = []")
  case True
  with assms(2) show ?thesis by (simp add: encrypt_def comp_simps decrypt_def has_prefix_def encPrefix_def)
next
  case False
  define n where "n = map (\<lambda>i. rand_byte s (tick s) i mod 256) [0..<NonceSize b]"
  define ct where "ct = n @ Seal b n (bytes_of p)"
  have len: "length n = NonceSize b" by (simp add: n_def)
  have c: "c = encPrefix @ b64_encode ct"
    using assms(2) False by (simp add: encrypt_def rand_bytes_def comp_simps n_def ct_def Let_def)
  have pb: "\<forall>x \<in> set (bytes_of p). x < 256" using bytes_of_bound by blast
  then have "\<forall>x \<in> set (Seal b n (bytes_of p)). x < 256"
    using assms(1) len by (simp add: aead_ok_def)
  moreover have "\<forall>x \<in> set n. x < 256" by (simp add: n_def)
  ultimately have "\<forall>x \<in> set ct. x < 256" by (auto simp: ct_def)
  then have "b64_decode (b64_encode ct) = Some ct" by (rule b64_decode_encode)
  moreover have "Open b n (Seal b n (bytes_of p)) = Some (bytes_of p)"
    using assms(1) len pb by (simp add: aead_ok_def)
  ultimately show ?thesis
    by (simp add: decrypt_def c ct_def len)
qed

text \<open>A toy AEAD that shows the assumption can hold.\<close>

definition shift_aead :: aead where
  "shift_aead = \<lparr>NonceSize = 1, Seal = (\<lambda>n p. map (\<lambda>x. (x + 1) mod 256) p),
     Open = (\<lambda>n c. Some (map (\<lambda>x. (x + 255) mod 256) c))\<rparr>"

lemma shift_aead_ok: "aead_ok shift_aead"
proof -
  have "((x + 1) mod 256 + 255) mod 256 = x" if "x < 256" for x :: nat
    using that mod_add_left_eq [of "x + 1" 256 255] by simp
  then show ?thesis by (auto simp: aead_ok_def shift_aead_def map_idI comp_def)
qed

end
