(* ===== verification/Registry.thy ===== *)
theory Registry
  imports Registry_Secrets
begin

text \<open>
  Package \<open>internal/registry\<close>: the SQLite registry (\<open>registry.go\<close>, \<open>actor.go\<close>, the tables and
  constraints of \<open>schema.go\<close>). Every operation is a computation over the tables; each SQL statement
  of the source is one statement here, may fail as the environment decides, and is checked against
  the primary keys, the partial unique indexes and the foreign keys of the schema. A transaction
  restores the tables when its body or its commit fails.
\<close>

section \<open>Data\<close>

datatype source_state = SourceSeeding | SourceReady | SourceFailed

datatype branch_state = BranchCreating | BranchReady | BranchFailed | BranchResetting
  | BranchDestroying | BranchDestroyed

fun source_state_str :: "source_state \<Rightarrow> string" where
  "source_state_str SourceSeeding = ''seeding''"
| "source_state_str SourceReady = ''ready''"
| "source_state_str SourceFailed = ''failed''"

fun branch_state_str :: "branch_state \<Rightarrow> string" where
  "branch_state_str BranchCreating = ''creating''"
| "branch_state_str BranchReady = ''ready''"
| "branch_state_str BranchFailed = ''failed''"
| "branch_state_str BranchResetting = ''resetting''"
| "branch_state_str BranchDestroying = ''destroying''"
| "branch_state_str BranchDestroyed = ''destroyed''"

definition supportedPGVersions :: "string list" where
  "supportedPGVersions = [''14'', ''15'', ''16'', ''17'', ''18'']"

definition validatePGVersion :: "string \<Rightarrow> err option" where
  "validatePGVersion v =
     (if v = '''' then None
      else if v \<in> set supportedPGVersions then None
      else Some (Wrap [] (Sentinel ErrUnsupportedPGVersion)
        ('' '' @ go_quote v @ '': supported majors are '' @ strings_join supportedPGVersions '', '' @
         '' (PG 13 and older lack recovery_init_sync_method=syncfs)'')))"

definition SeedViaBasebackup :: string where "SeedViaBasebackup = ''basebackup''"
definition SeedViaDump :: string where "SeedViaDump = ''dump''"

record source =
  src_ID :: string
  src_Name :: string
  src_PGVersion :: string
  src_Volume :: string
  src_ConnHost :: string
  src_ConnUser :: string
  src_ConnDB :: string
  src_Network :: string
  src_SeedVia :: string
  src_DumpSchemas :: "string list"
  src_ConnPort :: int
  src_Generation :: int
  src_State :: source_state
  src_CreatedAt :: string

record branch =
  br_ID :: string
  br_Name :: string
  br_SourceID :: string
  br_ContainerID :: string
  br_RWVolume :: string
  br_SourceVolume :: string
  br_ExpiresAt :: string
  br_Host :: string
  br_BaseLayerID :: string
  br_ParentBranchName :: string
  br_Password :: string
  br_Port :: int
  br_State :: branch_state
  br_CreatedAt :: string

record layer =
  l_ID :: string
  l_SourceID :: string
  l_Volume :: string
  l_ParentLayerID :: string

record mask_script =
  ms_Name :: string
  ms_SQL :: string

text \<open>Rows of the tables, after all migrations.\<close>

record source_row =
  sr_id :: string
  sr_name :: string
  sr_pg_version :: string
  sr_volume :: string
  sr_conn_host :: string
  sr_conn_port :: int
  sr_conn_user :: string
  sr_conn_db :: string
  sr_network :: string
  sr_seed_via :: string
  sr_dump_schemas :: string
  sr_state :: source_state
  sr_generation :: int
  sr_created_at :: string
  sr_updated_at :: string

record branch_row =
  row_id :: string
  row_name :: string
  row_source_id :: string
  row_state :: branch_state
  row_container_id :: string
  row_rw_volume :: string
  row_source_volume :: string
  row_expires_at :: string
  row_host :: string
  row_base_layer_id :: "string option"
  row_parent_branch_name :: string
  row_password :: string
  row_port :: int
  row_created_at :: string
  row_updated_at :: string

record layer_row =
  lr_id :: string
  lr_source_id :: string
  lr_volume :: string
  lr_parent :: "string option"

record transition_row =
  tr_id :: nat
  tr_entity :: string
  tr_entity_id :: string
  tr_from :: string
  tr_to :: string
  tr_reason :: string
  tr_actor :: string
  tr_at :: string

record mask_row =
  mr_source_id :: string
  mr_ord :: nat
  mr_name :: string
  mr_sql :: string

record token_row =
  tk_id :: string
  tk_name :: string
  tk_hash :: string
  tk_role :: string
  tk_created_at :: string

record tables =
  sources :: "source_row list"
  branches :: "branch_row list"
  layers :: "layer_row list"
  transitions :: "transition_row list"
  mask_scripts :: "mask_row list"
  api_tokens :: "token_row list"
  meta :: "(string \<times> string) list"

record reg_st = environ +
  db :: tables
  instanceID :: string
  secrets :: "aead option"

section \<open>Actors and contexts (\<open>actor.go\<close>)\<close>

record actor =
  ActorName :: string
  ActorRole :: string

definition SystemActor :: string where "SystemActor = ''system:reconcile''"

definition actor_String :: "actor \<Rightarrow> string" where
  "actor_String a =
     (if ActorName a = '''' then SystemActor
      else if ActorRole a = '''' then ActorName a
      else ActorName a @ '' ('' @ ActorRole a @ '')'')"

text \<open>A request context: the actor stored in it and whether it can be cancelled.\<close>

record ctx =
  ctx_actor :: "actor option"
  ctx_cancellable :: bool

definition Background :: ctx where
  "Background = \<lparr>ctx_actor = None, ctx_cancellable = False\<rparr>"

definition WithActor :: "ctx \<Rightarrow> actor \<Rightarrow> ctx" where
  "WithActor c a = c\<lparr>ctx_actor := Some a\<rparr>"

definition WithoutCancel :: "ctx \<Rightarrow> ctx" where
  "WithoutCancel c = c\<lparr>ctx_cancellable := False\<rparr>"

definition ActorFromContext :: "ctx \<Rightarrow> actor" where
  "ActorFromContext c = (case ctx_actor c of Some a \<Rightarrow> a | None \<Rightarrow> \<lparr>ActorName = '''', ActorRole = ''''\<rparr>)"

definition actorString :: "ctx \<Rightarrow> string" where
  "actorString c = actor_String (ActorFromContext c)"

section \<open>Statements and transactions\<close>

definition sql_query :: "(tables \<Rightarrow> 'a) \<Rightarrow> ('z reg_st_scheme, 'a) comp" where
  "sql_query f = bnd sql (\<lambda>_. gets (\<lambda>s. f (db s)))"

text \<open>A writing statement: rejected by a constraint, or the new tables and a result.\<close>

definition sql_exec :: "(tables \<Rightarrow> err + 'a \<times> tables) \<Rightarrow> ('z reg_st_scheme, 'a) comp" where
  "sql_exec f = bnd sql (\<lambda>_ s. case f (db s) of
      Inl e \<Rightarrow> (Inl e, s)
    | Inr (x, d) \<Rightarrow> (Inr x, s\<lparr>db := d\<rparr>))"

text \<open>
  \<open>BEGIN\<close>, the body, \<open>COMMIT\<close> (with the deferred foreign-key check of \<open>DeleteSource\<close> as \<open>check\<close>);
  \<open>defer tx.Rollback()\<close> restores the tables on every other path.
\<close>

definition in_tx :: "(tables \<Rightarrow> err option) \<Rightarrow> ('z reg_st_scheme, 'a) comp \<Rightarrow> ('z reg_st_scheme, 'a) comp"
  where "in_tx check m s =
    (case bnd sql (\<lambda>_. bnd m (\<lambda>x. bnd sql (\<lambda>_ u. case check (db u) of
        None \<Rightarrow> (Inr x, u) | Some e \<Rightarrow> (Inl e, u)))) s of
       (Inr x, t) \<Rightarrow> (Inr x, t)
     | (Inl e, t) \<Rightarrow> (Inl e, t\<lparr>db := db s\<rparr>))"

definition transaction :: "('z reg_st_scheme, 'a) comp \<Rightarrow> ('z reg_st_scheme, 'a) comp" where
  "transaction = in_tx (\<lambda>_. None)"

text \<open>The column default \<open>strftime('%Y-%m-%dT%H:%M:%fZ','now')\<close>\<close>

definition db_now :: "('z reg_st_scheme, string) comp" where
  "db_now = bnd time_now (\<lambda>t. ok (sqlite_time t))"

definition newID :: "('z reg_st_scheme, string) comp" where
  "newID = rand_hex 8"

definition unique_failed :: "string \<Rightarrow> err" where
  "unique_failed col = Msg (''UNIQUE constraint failed: '' @ col)"

definition fk_failed :: err where
  "fk_failed = Msg ''FOREIGN KEY constraint failed''"

text \<open>The partial unique indexes \<open>branches_live_name\<close> and \<open>sources_live_name\<close>\<close>

definition live_row :: "branch_row \<Rightarrow> bool" where
  "live_row r \<longleftrightarrow> row_state r \<noteq> BranchDestroyed"

definition unique_live_names :: "branch_row list \<Rightarrow> bool" where
  "unique_live_names rows \<longleftrightarrow> distinct (map row_name (filter live_row rows))"

definition unique_source_names :: "source_row list \<Rightarrow> bool" where
  "unique_source_names rows \<longleftrightarrow>
     distinct (map sr_name (filter (\<lambda>r. sr_state r \<noteq> SourceFailed) rows))"

definition insert_source :: "source_row \<Rightarrow> tables \<Rightarrow> err + unit \<times> tables" where
  "insert_source r d =
     (if sr_id r \<in> sr_id ` set (sources d) then Inl (unique_failed ''sources.id'')
      else if \<not> unique_source_names (sources d @ [r]) then Inl (unique_failed ''sources.name'')
      else Inr ((), d\<lparr>sources := sources d @ [r]\<rparr>))"

definition update_sources ::
    "(source_row \<Rightarrow> bool) \<Rightarrow> (source_row \<Rightarrow> source_row) \<Rightarrow> tables \<Rightarrow> err + nat \<times> tables" where
  "update_sources p f d =
     (let rows = update_where p f (sources d) in
      if unique_source_names rows then Inr (count_where p (sources d), d\<lparr>sources := rows\<rparr>)
      else Inl (unique_failed ''sources.name''))"

definition insert_branch :: "branch_row \<Rightarrow> tables \<Rightarrow> err + unit \<times> tables" where
  "insert_branch r d =
     (if row_id r \<in> row_id ` set (branches d) then Inl (unique_failed ''branches.id'')
      else if \<not> unique_live_names (branches d @ [r]) then Inl (unique_failed ''branches.name'')
      else if row_source_id r \<notin> sr_id ` set (sources d) then Inl fk_failed
      else Inr ((), d\<lparr>branches := branches d @ [r]\<rparr>))"

definition update_branches ::
    "(branch_row \<Rightarrow> bool) \<Rightarrow> (branch_row \<Rightarrow> branch_row) \<Rightarrow> tables \<Rightarrow> err + nat \<times> tables" where
  "update_branches p f d =
     (let rows = update_where p f (branches d) in
      if unique_live_names rows then Inr (count_where p (branches d), d\<lparr>branches := rows\<rparr>)
      else Inl (unique_failed ''branches.name''))"

definition insert_layer :: "layer_row \<Rightarrow> tables \<Rightarrow> err + unit \<times> tables" where
  "insert_layer r d =
     (if lr_id r \<in> lr_id ` set (layers d) then Inl (unique_failed ''layers.id'')
      else if (case lr_parent r of None \<Rightarrow> False | Some p \<Rightarrow> p \<notin> lr_id ` set (layers d)) then Inl fk_failed
      else Inr ((), d\<lparr>layers := layers d @ [r]\<rparr>))"

definition insert_transition ::
    "string \<Rightarrow> string \<Rightarrow> string \<Rightarrow> string \<Rightarrow> string \<Rightarrow> string \<Rightarrow> string \<Rightarrow> tables \<Rightarrow> err + unit \<times> tables" where
  "insert_transition entity ident from to reason act at d =
     Inr ((), d\<lparr>transitions := transitions d @
       [\<lparr>tr_id = Suc (length (transitions d)), tr_entity = entity, tr_entity_id = ident, tr_from = from,
         tr_to = to, tr_reason = reason, tr_actor = act, tr_at = at\<rparr>]\<rparr>)"

section \<open>Opening the registry\<close>

definition SetSecretKey :: "(nat list \<Rightarrow> aead) \<Rightarrow> nat list \<Rightarrow> ('z reg_st_scheme, unit) comp" where
  "SetSecretKey gcm key =
     (case newSecretBox gcm key of
        Inl e \<Rightarrow> raise e
      | Inr box \<Rightarrow> modify (\<lambda>s. s\<lparr>secrets := box\<rparr>))"

text \<open>\<open>INSERT OR IGNORE\<close> keeps the first instance id; the stored one is read back.\<close>

definition ensureInstanceID :: "('z reg_st_scheme, string) comp" where
  "ensureInstanceID =
     bnd (rand_hex 8) (\<lambda>ident.
     bnd (sql_exec (\<lambda>d. Inr ((), if ''instance_id'' \<in> fst ` set (meta d) then d
            else d\<lparr>meta := meta d @ [(''instance_id'', ident)]\<rparr>))) (\<lambda>_.
     bnd (sql_query (\<lambda>d. map_of (meta d) ''instance_id'')) (\<lambda>r.
     case r of None \<Rightarrow> raise (Msg ''sql: no rows in result set'') | Some v \<Rightarrow> ok v)))"

text \<open>
  \<open>migrate\<close>: the migrations are SQL scripts (\<open>Registry_Schema\<close> has them), here functions on the database file; each runs in
  its own transaction together with the bump of \<open>user_version\<close>. The result is the version reached
  and the database, with the error that stopped the loop.
\<close>

fun migrate_from :: "nat \<Rightarrow> ('f \<Rightarrow> err + 'f) list \<Rightarrow> 'f \<Rightarrow> err option \<times> nat \<times> 'f" where
  "migrate_from version [] f = (None, version, f)"
| "migrate_from version (m # ms) f =
     (case m f of
        Inl e \<Rightarrow> (Some (Wrap (''migrate to v'' @ nat_str (version + 1) @ '': '') e []), version, f)
      | Inr f' \<Rightarrow> migrate_from (Suc version) ms f')"

definition migrate :: "('f \<Rightarrow> err + 'f) list \<Rightarrow> nat \<Rightarrow> 'f \<Rightarrow> err option \<times> nat \<times> 'f" where
  "migrate migrations version f =
     (if length migrations \<le> version then (None, version, f)
      else migrate_from version (drop version migrations) f)"

section \<open>Sources\<close>

definition journal :: "ctx \<Rightarrow> string \<Rightarrow> string \<Rightarrow> string \<Rightarrow> string \<Rightarrow> string \<Rightarrow> ('z reg_st_scheme, unit) comp"
  where "journal c entity ident from to reason =
    bnd db_now (\<lambda>now. sql_exec (insert_transition entity ident from to reason (actorString c) now))"

definition CreateSource :: "source \<Rightarrow> ('z reg_st_scheme, source) comp" where
  "CreateSource s =
     bnd (lift_err (validatePGVersion (src_PGVersion s))) (\<lambda>_.
     let via = (if src_SeedVia s = '''' then SeedViaBasebackup else src_SeedVia s) in
     bnd newID (\<lambda>id.
     let s' = s\<lparr>src_SeedVia := via, src_ID := id, src_State := SourceSeeding\<rparr> in
     bnd db_now (\<lambda>now.
     bnd (wrapping (''create source '' @ go_quote (src_Name s) @ '': '')
       (sql_exec (insert_source
         \<lparr>sr_id = id, sr_name = src_Name s, sr_pg_version = src_PGVersion s, sr_volume = src_Volume s,
          sr_conn_host = src_ConnHost s, sr_conn_port = src_ConnPort s, sr_conn_user = src_ConnUser s,
          sr_conn_db = src_ConnDB s, sr_network = src_Network s, sr_seed_via = via,
          sr_dump_schemas = strings_join (src_DumpSchemas s) '','', sr_state = SourceSeeding,
          sr_generation = 1, sr_created_at = now, sr_updated_at = now\<rparr>))) (\<lambda>_.
     bnd (journal Background ''source'' id '''' (source_state_str SourceSeeding) ''created'') (\<lambda>_.
     ok s')))))"

text \<open>\<open>setState\<close> is called for the sources table only.\<close>

definition SetSourceState :: "string \<Rightarrow> source_state \<Rightarrow> string \<Rightarrow> ('z reg_st_scheme, unit) comp" where
  "SetSourceState ident to reason =
     bnd (sql_query (\<lambda>d. map_option sr_state (find_key sr_id ident (sources d)))) (\<lambda>from.
     case from of
       None \<Rightarrow> raise (Sentinel ErrNotFound)
     | Some st \<Rightarrow>
         bnd db_now (\<lambda>now.
         bnd (sql_exec (update_sources (\<lambda>r. sr_id r = ident)
                (\<lambda>r. r\<lparr>sr_state := to, sr_updated_at := now\<rparr>))) (\<lambda>_.
         journal Background ''source'' ident (source_state_str st) (source_state_str to) reason)))"

definition scanSource :: "source_row \<Rightarrow> source" where
  "scanSource r =
     \<lparr>src_ID = sr_id r, src_Name = sr_name r, src_PGVersion = sr_pg_version r, src_Volume = sr_volume r,
      src_ConnHost = sr_conn_host r, src_ConnUser = sr_conn_user r, src_ConnDB = sr_conn_db r,
      src_Network = sr_network r, src_SeedVia = sr_seed_via r,
      src_DumpSchemas = (if sr_dump_schemas r \<noteq> '''' then strings_split (sr_dump_schemas r) (CHR '','') else []),
      src_ConnPort = sr_conn_port r, src_Generation = sr_generation r, src_State = sr_state r,
      src_CreatedAt = sr_created_at r\<rparr>"

definition scan_source_opt :: "source_row option \<Rightarrow> ('z reg_st_scheme, source) comp" where
  "scan_source_opt r = (case r of None \<Rightarrow> raise (Sentinel ErrNotFound) | Some x \<Rightarrow> ok (scanSource x))"

text \<open>\<open>ORDER BY (state='failed') ASC, created_at DESC LIMIT 1\<close>\<close>

definition best_source :: "source_row list \<Rightarrow> source_row option" where
  "best_source rows =
     (let by_date = rev (sort_key sr_created_at (rev rows));
          ordered = filter (\<lambda>r. sr_state r \<noteq> SourceFailed) by_date @ filter (\<lambda>r. sr_state r = SourceFailed) by_date
      in case ordered of [] \<Rightarrow> None | r # _ \<Rightarrow> Some r)"

definition GetSourceByName :: "string \<Rightarrow> ('z reg_st_scheme, source) comp" where
  "GetSourceByName name =
     bnd (sql_query (\<lambda>d. best_source (filter (\<lambda>r. sr_name r = name) (sources d)))) scan_source_opt"

definition GetSourceByID :: "string \<Rightarrow> ('z reg_st_scheme, source) comp" where
  "GetSourceByID ident = bnd (sql_query (\<lambda>d. find_key sr_id ident (sources d))) scan_source_opt"

definition ListSources :: "('z reg_st_scheme, source list) comp" where
  "ListSources = sql_query (\<lambda>d. map scanSource (sort_key sr_created_at (sources d)))"

definition BumpSourceGeneration :: "string \<Rightarrow> string \<Rightarrow> ('z reg_st_scheme, unit) comp" where
  "BumpSourceGeneration ident newVolume =
     bnd db_now (\<lambda>now.
     bnd (sql_exec (update_sources (\<lambda>r. sr_id r = ident)
       (\<lambda>r. r\<lparr>sr_generation := sr_generation r + 1, sr_volume := newVolume, sr_updated_at := now\<rparr>))) (\<lambda>n.
     if n = 0 then raise (Sentinel ErrNotFound) else ok ()))"

section \<open>Branches\<close>

fun legalBranch :: "branch_state \<Rightarrow> branch_state list" where
  "legalBranch BranchCreating = [BranchReady, BranchFailed]"
| "legalBranch BranchReady = [BranchDestroying, BranchResetting]"
| "legalBranch BranchResetting = [BranchReady, BranchFailed]"
| "legalBranch BranchFailed = [BranchDestroying]"
| "legalBranch BranchDestroying = [BranchDestroyed]"
| "legalBranch BranchDestroyed = []"

definition legalBranchTransition :: "branch_state \<Rightarrow> branch_state \<Rightarrow> bool" where
  "legalBranchTransition from to \<longleftrightarrow> to \<in> set (legalBranch from)"

text \<open>An empty string is stored as \<open>NULL\<close>; \<open>sql.NullString\<close> reads it back as empty.\<close>

definition null_string :: "string option \<Rightarrow> string" where
  "null_string v = (case v of None \<Rightarrow> '''' | Some x \<Rightarrow> x)"

definition nullable :: "string \<Rightarrow> string option" where
  "nullable s = (if s = '''' then None else Some s)"

definition CreateBranchCtx :: "ctx \<Rightarrow> branch \<Rightarrow> ('z reg_st_scheme, branch) comp" where
  "CreateBranchCtx c b =
     bnd newID (\<lambda>id.
     let b' = b\<lparr>br_ID := id, br_State := BranchCreating\<rparr> in
     bnd db_now (\<lambda>now.
     bnd (wrapping (''create branch '' @ go_quote (br_Name b) @ '': '')
       (sql_exec (insert_branch
         \<lparr>row_id = id, row_name = br_Name b, row_source_id = br_SourceID b, row_state = BranchCreating,
          row_container_id = '''', row_rw_volume = br_RWVolume b, row_source_volume = br_SourceVolume b,
          row_expires_at = br_ExpiresAt b, row_host = ''127.0.0.1'',
          row_base_layer_id = nullable (br_BaseLayerID b),
          row_parent_branch_name = br_ParentBranchName b, row_password = '''', row_port = 0,
          row_created_at = now, row_updated_at = now\<rparr>))) (\<lambda>_.
     bnd (journal c ''branch'' id '''' (branch_state_str BranchCreating) ''created'') (\<lambda>_.
     ok b'))))"

definition CreateBranch :: "branch \<Rightarrow> ('z reg_st_scheme, branch) comp" where
  "CreateBranch b = CreateBranchCtx Background b"

definition illegal_transition :: "branch_state \<Rightarrow> branch_state \<Rightarrow> err" where
  "illegal_transition from to =
     Msg (''illegal branch transition '' @ branch_state_str from @ '' -> '' @ branch_state_str to)"

definition read_state :: "string \<Rightarrow> ('z reg_st_scheme, branch_state) comp" where
  "read_state ident =
     bnd (sql_query (\<lambda>d. map_option row_state (find_key row_id ident (branches d)))) (\<lambda>r.
     case r of None \<Rightarrow> raise (Sentinel ErrNotFound) | Some st \<Rightarrow> ok st)"

text \<open>The statements of \<open>TransitionBranchCtx\<close> between \<open>BEGIN\<close> and \<open>COMMIT\<close>\<close>

definition transition_in_tx ::
    "ctx \<Rightarrow> string \<Rightarrow> branch_state \<Rightarrow> string \<Rightarrow> ('z reg_st_scheme, unit) comp" where
  "transition_in_tx c ident to reason =
     bnd (read_state ident) (\<lambda>from.
     if \<not> legalBranchTransition from to then raise (illegal_transition from to)
     else
       bnd db_now (\<lambda>now.
       bnd (sql_exec (update_branches (\<lambda>r. row_id r = ident \<and> row_state r = from)
              (\<lambda>r. r\<lparr>row_state := to, row_updated_at := now\<rparr>))) (\<lambda>n.
       if n = 0 then bnd (read_state ident) (\<lambda>cur. raise (illegal_transition cur to))
       else journal c ''branch'' ident (branch_state_str from) (branch_state_str to) reason)))"

definition TransitionBranchCtx ::
    "ctx \<Rightarrow> string \<Rightarrow> branch_state \<Rightarrow> string \<Rightarrow> ('z reg_st_scheme, unit) comp" where
  "TransitionBranchCtx c ident to reason = transaction (transition_in_tx c ident to reason)"

definition TransitionBranch :: "string \<Rightarrow> branch_state \<Rightarrow> string \<Rightarrow> ('z reg_st_scheme, unit) comp" where
  "TransitionBranch ident to reason = TransitionBranchCtx Background ident to reason"

definition SetBranchPassword :: "string \<Rightarrow> string \<Rightarrow> ('z reg_st_scheme, unit) comp" where
  "SetBranchPassword ident password =
     bnd (gets secrets) (\<lambda>box.
     bnd (wrapping ''encrypt branch password: '' (encrypt box password)) (\<lambda>stored.
     bnd db_now (\<lambda>now.
     bnd (sql_exec (update_branches (\<lambda>r. row_id r = ident)
            (\<lambda>r. r\<lparr>row_password := stored, row_updated_at := now\<rparr>))) (\<lambda>n.
     if n = 0 then raise (Sentinel ErrNotFound) else ok ()))))"

definition SetBranchContainer :: "string \<Rightarrow> string \<Rightarrow> ('z reg_st_scheme, unit) comp" where
  "SetBranchContainer ident containerID =
     bnd db_now (\<lambda>now.
     bnd (sql_exec (update_branches (\<lambda>r. row_id r = ident)
            (\<lambda>r. r\<lparr>row_container_id := containerID, row_updated_at := now\<rparr>))) (\<lambda>_. ok ()))"

definition TouchBranch :: "string \<Rightarrow> ('z reg_st_scheme, unit) comp" where
  "TouchBranch ident =
     bnd db_now (\<lambda>now.
     bnd (sql_exec (update_branches (\<lambda>r. row_id r = ident) (\<lambda>r. r\<lparr>row_updated_at := now\<rparr>))) (\<lambda>_. ok ()))"

definition MarkBranchReadyCtx ::
    "ctx \<Rightarrow> string \<Rightarrow> string \<Rightarrow> string \<Rightarrow> int \<Rightarrow> ('z reg_st_scheme, unit) comp" where
  "MarkBranchReadyCtx c ident containerID host port =
     bnd (sql_exec (update_branches (\<lambda>r. row_id r = ident)
            (\<lambda>r. r\<lparr>row_container_id := containerID, row_host := host, row_port := port\<rparr>))) (\<lambda>_.
     TransitionBranchCtx c ident BranchReady ''instance running'')"

definition scanBranch :: "aead option \<Rightarrow> branch_row \<Rightarrow> err + branch" where
  "scanBranch box r =
     (case decryptColumn box (row_password r) of
        Inl e \<Rightarrow> Inl e
      | Inr pw \<Rightarrow> Inr
         \<lparr>br_ID = row_id r, br_Name = row_name r, br_SourceID = row_source_id r,
          br_ContainerID = row_container_id r, br_RWVolume = row_rw_volume r,
          br_SourceVolume = row_source_volume r, br_ExpiresAt = row_expires_at r, br_Host = row_host r,
          br_BaseLayerID = null_string (row_base_layer_id r),
          br_ParentBranchName = row_parent_branch_name r, br_Password = pw, br_Port = row_port r,
          br_State = row_state r, br_CreatedAt = row_created_at r\<rparr>)"

definition getBranch :: "(branch_row \<Rightarrow> bool) \<Rightarrow> ('z reg_st_scheme, branch) comp" where
  "getBranch cond =
     bnd (gets secrets) (\<lambda>box.
     bnd (sql_query (\<lambda>d. find cond (branches d))) (\<lambda>r.
     case r of
       None \<Rightarrow> raise (Sentinel ErrNotFound)
     | Some row \<Rightarrow> (case scanBranch box row of Inl e \<Rightarrow> raise e | Inr b \<Rightarrow> ok b)))"

definition GetBranchByName :: "string \<Rightarrow> ('z reg_st_scheme, branch) comp" where
  "GetBranchByName name = getBranch (\<lambda>r. row_name r = name \<and> row_state r \<noteq> BranchDestroyed)"

fun scan_all :: "aead option \<Rightarrow> branch_row list \<Rightarrow> err + branch list" where
  "scan_all box [] = Inr []"
| "scan_all box (r # rs) =
     (case scanBranch box r of
        Inl e \<Rightarrow> Inl e
      | Inr b \<Rightarrow> (case scan_all box rs of Inl e \<Rightarrow> Inl e | Inr bs \<Rightarrow> Inr (b # bs)))"

definition listBranches :: "(branch_row \<Rightarrow> bool) \<Rightarrow> ('z reg_st_scheme, branch list) comp" where
  "listBranches cond =
     bnd (gets secrets) (\<lambda>box.
     bnd (sql_query (\<lambda>d. sort_key row_created_at (filter cond (branches d)))) (\<lambda>rows.
     case scan_all box rows of Inl e \<Rightarrow> raise e | Inr bs \<Rightarrow> ok bs))"

definition ListLiveBranches :: "('z reg_st_scheme, branch list) comp" where
  "ListLiveBranches = listBranches (\<lambda>r. row_state r \<noteq> BranchDestroyed)"

definition ListExpiredBranches :: "string \<Rightarrow> ('z reg_st_scheme, branch list) comp" where
  "ListExpiredBranches now = listBranches (\<lambda>r. row_state r \<in> {BranchReady, BranchFailed} \<and>
     row_expires_at r \<noteq> '''' \<and> row_expires_at r < now)"

definition ListStuckBranches :: "string \<Rightarrow> ('z reg_st_scheme, branch list) comp" where
  "ListStuckBranches before = listBranches (\<lambda>r. row_state r \<in> {BranchCreating, BranchResetting} \<and>
     row_updated_at r < before)"

record transition =
  FromState :: string
  ToState :: string
  Reason :: string
  Actor :: string
  At :: string

definition BranchHistory :: "string \<Rightarrow> ('z reg_st_scheme, transition list) comp" where
  "BranchHistory name =
     bnd (sql_query (\<lambda>d. concat (map (\<lambda>t.
        map (\<lambda>_. \<lparr>FromState = tr_from t, ToState = tr_to t, Reason = tr_reason t, Actor = tr_actor t, At = tr_at t\<rparr>)
          (filter (\<lambda>b. row_id b = tr_entity_id t \<and> tr_entity t = ''branch'' \<and> row_name b = name) (branches d)))
        (transitions d)))) (\<lambda>out.
     if out = [] then raise (Sentinel ErrNotFound) else ok out)"

definition count_branches :: "(branch_row \<Rightarrow> bool) \<Rightarrow> ('z reg_st_scheme, nat) comp" where
  "count_branches p = sql_query (\<lambda>d. count_where p (branches d))"

definition CountLiveBranches :: "('z reg_st_scheme, nat) comp" where
  "CountLiveBranches = count_branches (\<lambda>r. row_state r \<noteq> BranchDestroyed)"

definition CountLiveBranchesBySource :: "string \<Rightarrow> ('z reg_st_scheme, nat) comp" where
  "CountLiveBranchesBySource sourceID =
     count_branches (\<lambda>r. row_source_id r = sourceID \<and> row_state r \<noteq> BranchDestroyed)"

definition CountLiveBranchesByVolume :: "string \<Rightarrow> ('z reg_st_scheme, nat) comp" where
  "CountLiveBranchesByVolume volume =
     count_branches (\<lambda>r. row_source_volume r = volume \<and> row_state r \<noteq> BranchDestroyed)"

definition CountLiveBranchesByRWVolume :: "string \<Rightarrow> ('z reg_st_scheme, nat) comp" where
  "CountLiveBranchesByRWVolume volume =
     count_branches (\<lambda>r. row_rw_volume r = volume \<and> row_state r \<noteq> BranchDestroyed)"

definition CountLiveBranchesReferencingRW :: "string \<Rightarrow> string \<Rightarrow> ('z reg_st_scheme, nat) comp" where
  "CountLiveBranchesReferencingRW branchName rwVolume =
     count_branches (\<lambda>r. row_state r \<noteq> BranchDestroyed \<and> row_name r \<noteq> branchName \<and>
       (row_source_volume r = rwVolume \<or> row_parent_branch_name r = branchName))"

text \<open>\<open>GROUP BY state\<close>: one entry per state that has rows.\<close>

definition count_by_state :: "'st list \<Rightarrow> ('st \<Rightarrow> string) \<Rightarrow> 'st list \<Rightarrow> (string \<times> nat) list" where
  "count_by_state all name states =
     map (\<lambda>x. (name x, count_list states x)) (filter (\<lambda>x. x \<in> set states) all)"

definition CountBranchesByState :: "('z reg_st_scheme, (string \<times> nat) list) comp" where
  "CountBranchesByState = sql_query (\<lambda>d. count_by_state
     [BranchCreating, BranchReady, BranchFailed, BranchResetting, BranchDestroying, BranchDestroyed]
     branch_state_str (map row_state (branches d)))"

definition CountSourcesByState :: "('z reg_st_scheme, (string \<times> nat) list) comp" where
  "CountSourcesByState = sql_query (\<lambda>d. count_by_state [SourceSeeding, SourceReady, SourceFailed]
     source_state_str (map sr_state (sources d)))"

definition LiveVolumeSet :: "('z reg_st_scheme, string set) comp" where
  "LiveVolumeSet =
     bnd (sql_query (\<lambda>d. map row_rw_volume (filter (\<lambda>r. row_state r \<noteq> BranchDestroyed) (branches d)))) (\<lambda>v1.
     bnd (sql_query (\<lambda>d. map row_source_volume (filter (\<lambda>r. row_state r \<noteq> BranchDestroyed) (branches d)))) (\<lambda>v2.
     bnd (sql_query (\<lambda>d. map sr_volume (sources d))) (\<lambda>v3.
     bnd (sql_query (\<lambda>d. map lr_volume (layers d))) (\<lambda>v4.
     ok (set (filter (\<lambda>v. v \<noteq> '''') (v1 @ v2 @ v3 @ v4)))))))"

section \<open>Masking scripts\<close>

definition insert_mask :: "mask_row \<Rightarrow> tables \<Rightarrow> err + unit \<times> tables" where
  "insert_mask r d =
     (if \<exists>x \<in> set (mask_scripts d). mr_source_id x = mr_source_id r \<and> mr_ord x = mr_ord r
      then Inl (unique_failed ''mask_scripts.source_id, mask_scripts.ord'')
      else Inr ((), d\<lparr>mask_scripts := mask_scripts d @ [r]\<rparr>))"

fun insert_masks :: "string \<Rightarrow> nat \<Rightarrow> mask_script list \<Rightarrow> ('z reg_st_scheme, unit) comp" where
  "insert_masks sourceID i [] = ok ()"
| "insert_masks sourceID i (x # xs) =
     bnd (sql_exec (insert_mask
       \<lparr>mr_source_id = sourceID, mr_ord = i, mr_name = ms_Name x, mr_sql = ms_SQL x\<rparr>))
     (\<lambda>_. insert_masks sourceID (Suc i) xs)"

definition SetMaskScripts :: "string \<Rightarrow> mask_script list \<Rightarrow> ('z reg_st_scheme, unit) comp" where
  "SetMaskScripts sourceID scripts = transaction (
     bnd (sql_exec (\<lambda>d. Inr ((), d\<lparr>mask_scripts := delete_where (\<lambda>r. mr_source_id r = sourceID) (mask_scripts d)\<rparr>)))
     (\<lambda>_. insert_masks sourceID 0 scripts))"

definition GetMaskScripts :: "string \<Rightarrow> ('z reg_st_scheme, mask_script list) comp" where
  "GetMaskScripts sourceID = sql_query (\<lambda>d.
     map (\<lambda>r. \<lparr>ms_Name = mr_name r, ms_SQL = mr_sql r\<rparr>)
       (sort_key mr_ord (filter (\<lambda>r. mr_source_id r = sourceID) (mask_scripts d))))"

section \<open>Layers\<close>

definition CreateLayer :: "layer \<Rightarrow> ('z reg_st_scheme, layer) comp" where
  "CreateLayer l =
     bnd newID (\<lambda>id.
     bnd (wrapping (''create layer for volume '' @ go_quote (l_Volume l) @ '': '')
       (sql_exec (insert_layer \<lparr>lr_id = id, lr_source_id = l_SourceID l, lr_volume = l_Volume l,
          lr_parent = nullable (l_ParentLayerID l)\<rparr>))) (\<lambda>_.
     ok (l\<lparr>l_ID := id\<rparr>)))"

definition scanLayer :: "layer_row \<Rightarrow> layer" where
  "scanLayer r = \<lparr>l_ID = lr_id r, l_SourceID = lr_source_id r, l_Volume = lr_volume r,
     l_ParentLayerID = null_string (lr_parent r)\<rparr>"

definition GetLayer :: "string \<Rightarrow> ('z reg_st_scheme, layer) comp" where
  "GetLayer ident =
     bnd (sql_query (\<lambda>d. find_key lr_id ident (layers d))) (\<lambda>r.
     case r of None \<Rightarrow> raise (Sentinel ErrNotFound) | Some x \<Rightarrow> ok (scanLayer x))"

definition delete_layer :: "string \<Rightarrow> tables \<Rightarrow> err + nat \<times> tables" where
  "delete_layer ident d =
     (let rest = delete_where (\<lambda>r. lr_id r = ident) (layers d) in
      if \<exists>r \<in> set rest. lr_parent r = Some ident \<and> (\<exists>x \<in> set (layers d). lr_id x = ident) then Inl fk_failed
      else Inr (count_where (\<lambda>r. lr_id r = ident) (layers d), d\<lparr>layers := rest\<rparr>))"

definition DeleteLayer :: "string \<Rightarrow> ('z reg_st_scheme, unit) comp" where
  "DeleteLayer ident =
     bnd (sql_exec (delete_layer ident)) (\<lambda>n.
     if n = 0 then raise (Sentinel ErrNotFound) else ok ())"

definition ListLayers :: "('z reg_st_scheme, layer list) comp" where
  "ListLayers = sql_query (\<lambda>d. map scanLayer (layers d))"

definition ListLayersBySource :: "string \<Rightarrow> ('z reg_st_scheme, layer list) comp" where
  "ListLayersBySource sourceID =
     sql_query (\<lambda>d. map scanLayer (filter (\<lambda>r. lr_source_id r = sourceID) (layers d)))"

text \<open>
  The loop over \<open>ParentLayerID\<close>. It takes fuel; with one unit per layer row it never runs out
  on a registry whose parent links are acyclic (shown in \<open>Registry_Layers\<close>).
\<close>

fun layer_chain_loop :: "nat \<Rightarrow> string \<Rightarrow> string \<Rightarrow> ('z reg_st_scheme, layer list) comp" where
  "layer_chain_loop fuel bname ident =
     (if ident = '''' then ok []
      else case fuel of
        0 \<Rightarrow> raise (Msg ''layer chain does not end'')
      | Suc n \<Rightarrow>
          bnd (wrapping (''layer chain of branch '' @ go_quote bname @ '': layer '' @ go_quote ident @ '': '') (GetLayer ident)) (\<lambda>l.
          bnd (layer_chain_loop n bname (l_ParentLayerID l)) (\<lambda>rest. ok (l # rest))))"

declare layer_chain_loop.simps [simp del]

definition LayerChain :: "string \<Rightarrow> ('z reg_st_scheme, layer list) comp" where
  "LayerChain branchID =
     bnd (getBranch (\<lambda>r. row_id r = branchID)) (\<lambda>b.
     bnd (gets (\<lambda>s. length (layers (db s)))) (\<lambda>fuel.
     layer_chain_loop fuel (br_Name b) (br_BaseLayerID b)))"

text \<open>
  The recursive common table expression of \<open>CountBranchesReferencingLayer\<close>: the initial rows,
  then rounds that add the parent layers not seen yet (\<open>UNION\<close> drops duplicates).
\<close>

definition refs_init :: "tables \<Rightarrow> (string \<times> string) list" where
  "refs_init d = map (\<lambda>b. (row_id b, the (row_base_layer_id b)))
     (filter (\<lambda>b. live_row b \<and> row_base_layer_id b \<noteq> None) (branches d))"

definition parents_of :: "tables \<Rightarrow> string \<Rightarrow> string list" where
  "parents_of d l = map (\<lambda>r. the (lr_parent r)) (filter (\<lambda>r. lr_id r = l \<and> lr_parent r \<noteq> None) (layers d))"

definition refs_new :: "tables \<Rightarrow> (string \<times> string) list \<Rightarrow> (string \<times> string) list" where
  "refs_new d refs = filter (\<lambda>p. p \<notin> set refs)
     (concat (map (\<lambda>(b, l). map (Pair b) (parents_of d l)) refs))"

fun refs_rounds :: "nat \<Rightarrow> tables \<Rightarrow> (string \<times> string) list \<Rightarrow> (string \<times> string) list" where
  "refs_rounds 0 d refs = refs"
| "refs_rounds (Suc n) d refs =
     (let new = refs_new d refs in if new = [] then refs else refs_rounds n d (refs @ remdups new))"

definition CountBranchesReferencingLayer :: "string \<Rightarrow> ('z reg_st_scheme, nat) comp" where
  "CountBranchesReferencingLayer layerID = sql_query (\<lambda>d.
     card (set (map fst (filter (\<lambda>(b, l). l = layerID)
       (refs_rounds (length (layers d)) d (refs_init d))))))"

text \<open>The statements of \<open>CommitFreezeCtx\<close> between \<open>BEGIN\<close> and \<open>COMMIT\<close>\<close>

definition commit_freeze_in_tx :: "ctx \<Rightarrow> string \<Rightarrow> string \<Rightarrow> string \<Rightarrow> string \<Rightarrow> string \<Rightarrow> string \<Rightarrow> int \<Rightarrow> string
    \<Rightarrow> ('z reg_st_scheme, layer) comp" where
  "commit_freeze_in_tx c parentID childID layerVolume newParentRW containerID host port reason =
     bnd (sql_query (\<lambda>d. find_key row_id parentID (branches d))) (\<lambda>r.
     case r of
       None \<Rightarrow> raise (Sentinel ErrNotFound)
     | Some row \<Rightarrow>
       if row_state row \<noteq> BranchResetting then
         raise (Msg (''illegal branch transition '' @ branch_state_str (row_state row) @ '' -> '' @
           branch_state_str BranchReady @ '' (freeze commit requires a resetting parent)''))
       else
       bnd newID (\<lambda>id.
       bnd (sql_exec (insert_layer \<lparr>lr_id = id, lr_source_id = row_source_id row, lr_volume = layerVolume,
          lr_parent = row_base_layer_id row\<rparr>)) (\<lambda>_.
       bnd db_now (\<lambda>now.
       bnd (sql_exec (update_branches (\<lambda>r. row_id r = parentID)
          (\<lambda>r. r\<lparr>row_rw_volume := newParentRW, row_base_layer_id := Some id, row_container_id := containerID,
                 row_host := host, row_port := port, row_state := BranchReady, row_updated_at := now\<rparr>))) (\<lambda>_.
       bnd (journal c ''branch'' parentID (branch_state_str (row_state row)) (branch_state_str BranchReady) reason) (\<lambda>_.
       bnd db_now (\<lambda>now2.
       bnd (sql_exec (update_branches (\<lambda>r. row_id r = childID)
          (\<lambda>r. r\<lparr>row_base_layer_id := Some id, row_updated_at := now2\<rparr>))) (\<lambda>n.
       if n = 0 then raise (Wrap ''freeze child branch: '' (Sentinel ErrNotFound) [])
       else ok \<lparr>l_ID = id, l_SourceID = row_source_id row, l_Volume = layerVolume,
          l_ParentLayerID = null_string (row_base_layer_id row)\<rparr>))))))))"

definition CommitFreezeCtx :: "ctx \<Rightarrow> string \<Rightarrow> string \<Rightarrow> string \<Rightarrow> string \<Rightarrow> string \<Rightarrow> string \<Rightarrow> int \<Rightarrow> string
    \<Rightarrow> ('z reg_st_scheme, layer) comp" where
  "CommitFreezeCtx c parentID childID layerVolume newParentRW containerID host port reason =
     transaction (commit_freeze_in_tx c parentID childID layerVolume newParentRW containerID host port reason)"

definition CommitFreeze :: "string \<Rightarrow> string \<Rightarrow> string \<Rightarrow> string \<Rightarrow> string \<Rightarrow> string \<Rightarrow> int \<Rightarrow> string
    \<Rightarrow> ('z reg_st_scheme, layer) comp" where
  "CommitFreeze = CommitFreezeCtx Background"

text \<open>The foreign keys as the deferred check of \<open>DeleteSource\<close> sees them at commit.\<close>

definition fk_check :: "tables \<Rightarrow> err option" where
  "fk_check d =
     (if (\<forall>b \<in> set (branches d). row_source_id b \<in> sr_id ` set (sources d)) \<and>
         (\<forall>l \<in> set (layers d). case lr_parent l of None \<Rightarrow> True | Some p \<Rightarrow> p \<in> lr_id ` set (layers d))
      then None else Some fk_failed)"

definition DeleteSource :: "string \<Rightarrow> ('z reg_st_scheme, unit) comp" where
  "DeleteSource ident = in_tx fk_check (
     bnd (sql_exec (\<lambda>d. Inr ((), d))) (\<lambda>_.
     bnd (sql_exec (\<lambda>d. Inr ((), d\<lparr>layers := delete_where (\<lambda>r. lr_source_id r = ident) (layers d)\<rparr>))) (\<lambda>_.
     bnd (sql_exec (\<lambda>d. Inr ((), d\<lparr>branches := delete_where (\<lambda>r. row_source_id r = ident) (branches d)\<rparr>))) (\<lambda>_.
     bnd (sql_exec (\<lambda>d. Inr ((), d\<lparr>mask_scripts := delete_where (\<lambda>r. mr_source_id r = ident) (mask_scripts d)\<rparr>))) (\<lambda>_.
     bnd (sql_exec (\<lambda>d. Inr (count_where (\<lambda>r. sr_id r = ident) (sources d),
            d\<lparr>sources := delete_where (\<lambda>r. sr_id r = ident) (sources d)\<rparr>))) (\<lambda>n.
     if n = 0 then raise (Sentinel ErrNotFound) else ok ()))))))"

end
