(* ===== verification/Registry_Tokens.thy ===== *)
theory Registry_Tokens
  imports Registry
begin

text \<open>
  Package \<open>internal/registry\<close>, file \<open>tokens.go\<close>: API tokens and their roles. Only the digest of a
  token is stored; \<open>sha256\<close> is a parameter of the operations.
\<close>

definition RoleAdmin :: string where "RoleAdmin = ''admin''"
definition RoleOperator :: string where "RoleOperator = ''operator''"
definition RoleViewer :: string where "RoleViewer = ''viewer''"

lemmas role_defs = RoleAdmin_def RoleOperator_def RoleViewer_def

definition ValidRole :: "string \<Rightarrow> bool" where
  "ValidRole role \<longleftrightarrow> role \<in> {RoleAdmin, RoleOperator, RoleViewer}"

record api_token =
  at_Name :: string
  at_Role :: string
  at_CreatedAt :: string

definition hashToken :: "(nat list \<Rightarrow> nat list) \<Rightarrow> string \<Rightarrow> string" where
  "hashToken sha plaintext = hex_encode (sha (bytes_of plaintext))"

definition insert_token :: "token_row \<Rightarrow> tables \<Rightarrow> err + unit \<times> tables" where
  "insert_token r d =
     (if tk_id r \<in> tk_id ` set (api_tokens d) then Inl (unique_failed ''api_tokens.id'')
      else if tk_name r \<in> tk_name ` set (api_tokens d) then Inl (unique_failed ''api_tokens.name'')
      else if tk_hash r \<in> tk_hash ` set (api_tokens d) then Inl (unique_failed ''api_tokens.token_hash'')
      else Inr ((), d\<lparr>api_tokens := api_tokens d @ [r]\<rparr>))"

definition CreateAPIToken ::
    "(nat list \<Rightarrow> nat list) \<Rightarrow> string \<Rightarrow> string \<Rightarrow> ('z reg_st_scheme, string) comp" where
  "CreateAPIToken sha name role =
     (if \<not> ValidRole role then
        raise (Msg (''invalid role '' @ go_quote role @ '': want admin, operator or viewer''))
      else
        bnd (rand_hex 16) (\<lambda>plaintext.
        bnd newID (\<lambda>ident.
        bnd db_now (\<lambda>now.
        bnd (wrapping (''create api token '' @ go_quote name @ '': '')
          (sql_exec (insert_token \<lparr>tk_id = ident, tk_name = name, tk_hash = hashToken sha plaintext,
             tk_role = role, tk_created_at = now\<rparr>))) (\<lambda>_.
        ok plaintext)))))"

text \<open>A failed query answers like an unknown token.\<close>

definition LookupAPITokenActor ::
    "(nat list \<Rightarrow> nat list) \<Rightarrow> string \<Rightarrow> ('z reg_st_scheme, (string \<times> string) option) comp" where
  "LookupAPITokenActor sha plaintext =
     (if plaintext = '''' then ok None
      else bnd (attempt (sql_query (\<lambda>d. find_key tk_hash (hashToken sha plaintext) (api_tokens d)))) (\<lambda>r.
        ok (case r of Inl _ \<Rightarrow> None | Inr None \<Rightarrow> None | Inr (Some t) \<Rightarrow> Some (tk_name t, tk_role t))))"

definition LookupAPIToken ::
    "(nat list \<Rightarrow> nat list) \<Rightarrow> string \<Rightarrow> ('z reg_st_scheme, string option) comp" where
  "LookupAPIToken sha plaintext =
     (if plaintext = '''' then ok None
      else bnd (attempt (sql_query (\<lambda>d. find_key tk_hash (hashToken sha plaintext) (api_tokens d)))) (\<lambda>r.
        ok (case r of Inl _ \<Rightarrow> None | Inr None \<Rightarrow> None | Inr (Some t) \<Rightarrow> Some (tk_role t))))"

definition ListAPITokens :: "('z reg_st_scheme, api_token list) comp" where
  "ListAPITokens = sql_query (\<lambda>d. map (\<lambda>t. \<lparr>at_Name = tk_name t, at_Role = tk_role t, at_CreatedAt = tk_created_at t\<rparr>)
     (sort_key tk_created_at (api_tokens d)))"

definition RevokeAPIToken :: "string \<Rightarrow> ('z reg_st_scheme, unit) comp" where
  "RevokeAPIToken name =
     bnd (sql_exec (\<lambda>d. Inr (count_where (\<lambda>t. tk_name t = name) (api_tokens d),
        d\<lparr>api_tokens := delete_where (\<lambda>t. tk_name t = name) (api_tokens d)\<rparr>))) (\<lambda>n.
     if n = 0 then raise (Sentinel ErrNotFound) else ok ())"

end
