(* ===== verification/Registry_Inv.thy ===== *)
theory Registry_Inv
  imports Registry_Tokens
begin

text \<open>
  Invariants of the registry. \<open>wf_tables\<close> collects the keys, the partial unique indexes and the
  foreign keys, with the order of layers that makes chains end; every operation keeps it, whatever
  statements fail. \<open>journal_ok\<close> says that the transitions of a branch are a legal path to its
  current state; it is kept as long as no statement fails.
\<close>

section \<open>Invariants over the tables\<close>

definition on_db :: "(tables \<Rightarrow> bool) \<Rightarrow> 'z reg_st_scheme \<Rightarrow> bool" where
  "on_db J s \<longleftrightarrow> J (db s)"

lemma env_free_on_db [simp, intro]: "env_free (on_db J)"
  by (simp add: env_free_def on_db_def)

lemma keeps_sql_query [keeps_rules]: "env_free I \<Longrightarrow> keeps I (sql_query f)"
  unfolding sql_query_def by (intro keeps_rules)

lemma keeps_db_now [keeps_rules]: "env_free I \<Longrightarrow> keeps I db_now"
  unfolding db_now_def by (intro keeps_rules)

lemma keeps_newID [keeps_rules]: "env_free I \<Longrightarrow> keeps I newID"
  unfolding newID_def by (intro keeps_rules)

lemma keeps_sql_exec:
  assumes "\<And>d x d'. J d \<Longrightarrow> f d = Inr (x, d') \<Longrightarrow> J d'"
  shows "keeps (on_db J) (sql_exec f)"
proof -
  have "keeps (on_db J) (\<lambda>s. case f (db s) of Inl e \<Rightarrow> (Inl e, s) | Inr (x, d) \<Rightarrow> (Inr x, s\<lparr>db := d\<rparr>))"
    by (rule keepsI) (auto simp: on_db_def split: sum.splits intro: assms)
  then show ?thesis unfolding sql_exec_def by (intro keeps_rules) simp
qed

lemma in_tx_result:
  "in_tx check m s = (r, t) \<Longrightarrow>
     (case r of Inl e \<Rightarrow> db t = db s
      | Inr x \<Rightarrow> \<exists>s1 s2 s3. sql s = (Inr (), s1) \<and> m s1 = (Inr x, s2) \<and> sql s2 = (Inr (), s3) \<and>
                  check (db s3) = None \<and> t = s3)"
  unfolding in_tx_def
  by (auto simp: comp_simps split: prod.splits sum.splits option.splits)

lemma sql_db: "sql s = (r, t) \<Longrightarrow> db t = db s"
  by (auto simp: sql_def split: option.splits)

lemma keeps_in_tx:
  assumes "\<And>s x t. on_db J s \<Longrightarrow> m s = (Inr x, t) \<Longrightarrow> check (db t) = None \<Longrightarrow> on_db J t"
  shows "keeps (on_db J) (in_tx check m)"
proof (rule keepsI)
  fix s r t assume "on_db J s" "in_tx check m s = (r, t)"
  note s = this
  show "on_db J t"
  proof (cases r)
    case (Inl e)
    then show ?thesis using in_tx_result [OF s(2)] s(1) by (simp add: on_db_def)
  next
    case (Inr x)
    then obtain s1 s2 where m: "sql s = (Inr (), s1)" "m s1 = (Inr x, s2)" "sql s2 = (Inr (), t)"
      and c: "check (db t) = None"
      using in_tx_result [OF s(2)] by auto
    have "on_db J s1" using s(1) sql_db [OF m(1)] by (simp add: on_db_def)
    then have "on_db J s2" using m(2) c sql_db [OF m(3)] assms [of s1 x s2] by simp
    then show ?thesis using sql_db [OF m(3)] by (simp add: on_db_def)
  qed
qed

lemma keeps_transaction [keeps_rules]: "keeps (on_db J) m \<Longrightarrow> keeps (on_db J) (transaction m)"
  unfolding transaction_def by (rule keeps_in_tx) (metis keepsD)

section \<open>Well-formed tables\<close>

fun parents_before :: "string set \<Rightarrow> layer_row list \<Rightarrow> bool" where
  "parents_before S [] = True"
| "parents_before S (l # ls) =
     ((case lr_parent l of None \<Rightarrow> True | Some p \<Rightarrow> p \<in> S) \<and> parents_before (insert (lr_id l) S) ls)"

definition wf_layers :: "layer_row list \<Rightarrow> bool" where
  "wf_layers ls \<longleftrightarrow> distinct (map lr_id ls) \<and> parents_before {} ls"

definition wf_tables :: "tables \<Rightarrow> bool" where
  "wf_tables d \<longleftrightarrow>
     distinct (map sr_id (sources d)) \<and> unique_source_names (sources d) \<and>
     distinct (map row_id (branches d)) \<and> unique_live_names (branches d) \<and>
     (\<forall>b \<in> set (branches d). row_source_id b \<in> sr_id ` set (sources d)) \<and>
     wf_layers (layers d) \<and>
     distinct (map (\<lambda>r. (mr_source_id r, mr_ord r)) (mask_scripts d)) \<and>
     distinct (map tk_name (api_tokens d)) \<and> distinct (map tk_hash (api_tokens d))"

lemma parents_before_append:
  "parents_before S (ls @ ms) \<longleftrightarrow> parents_before S ls \<and> parents_before (S \<union> lr_id ` set ls) ms"
  by (induction ls arbitrary: S) (auto simp: Un_commute)

lemma parents_before_filter:
  assumes "parents_before S ls" "S' \<subseteq> S" "distinct (map lr_id ls)" "S \<inter> lr_id ` set ls = {}"
    and "\<And>r q. r \<in> set ls \<Longrightarrow> p r \<Longrightarrow> lr_parent r = Some q \<Longrightarrow> q \<in> S' \<or> (\<exists>x \<in> set ls. p x \<and> lr_id x = q)"
  shows "parents_before S' (filter p ls)"
  using assms
proof (induction ls arbitrary: S S')
  case (Cons l ls)
  have ds: "insert (lr_id l) S \<inter> lr_id ` set ls = {}" and dl: "distinct (map lr_id ls)"
    using Cons.prems(3,4) by auto
  have pb: "parents_before (insert (lr_id l) S) ls" using Cons.prems(1) by simp
  show ?case
  proof (cases "p l")
    case True
    have "case lr_parent l of None \<Rightarrow> True | Some q \<Rightarrow> q \<in> S'"
    proof (cases "lr_parent l")
      case (Some q)
      then have "q \<in> S" using Cons.prems(1) by simp
      then have "\<not> (\<exists>x \<in> set (l # ls). lr_id x = q)" using Cons.prems(4) by auto
      then show ?thesis using Cons.prems(5) [of l q] Some True by auto
    qed simp
    moreover have "parents_before (insert (lr_id l) S') (filter p ls)"
    proof (rule Cons.IH [OF pb _ dl ds])
      show "insert (lr_id l) S' \<subseteq> insert (lr_id l) S" using Cons.prems(2) by blast
      fix r q assume "r \<in> set ls" "p r" "lr_parent r = Some q"
      then have "q \<in> S' \<or> (\<exists>x \<in> set (l # ls). p x \<and> lr_id x = q)"
        by (intro Cons.prems(5)) auto
      then show "q \<in> insert (lr_id l) S' \<or> (\<exists>x \<in> set ls. p x \<and> lr_id x = q)" by auto
    qed
    ultimately show ?thesis using True by simp
  next
    case False
    have "parents_before S' (filter p ls)"
    proof (rule Cons.IH [OF pb _ dl ds])
      show "S' \<subseteq> insert (lr_id l) S" using Cons.prems(2) by blast
      fix r q assume "r \<in> set ls" "p r" "lr_parent r = Some q"
      then have "q \<in> S' \<or> (\<exists>x \<in> set (l # ls). p x \<and> lr_id x = q)"
        by (intro Cons.prems(5)) auto
      then show "q \<in> S' \<or> (\<exists>x \<in> set ls. p x \<and> lr_id x = q)" using False by auto
    qed
    with False show ?thesis by simp
  qed
qed simp

lemma wf_layers_snoc:
  assumes "wf_layers ls" "lr_id r \<notin> lr_id ` set ls"
    and "\<And>p. lr_parent r = Some p \<Longrightarrow> p \<in> lr_id ` set ls"
  shows "wf_layers (ls @ [r])"
  using assms by (auto simp: wf_layers_def parents_before_append split: option.splits)

lemma wf_layers_filter:
  assumes "wf_layers ls"
    and "\<And>r q. r \<in> set ls \<Longrightarrow> p r \<Longrightarrow> lr_parent r = Some q \<Longrightarrow> \<exists>x \<in> set ls. p x \<and> lr_id x = q"
  shows "wf_layers (filter p ls)"
  using assms parents_before_filter [of "{}" ls "{}" p]
  by (auto simp: wf_layers_def distinct_map_filter)

lemma wf_layers_parent:
  assumes "wf_layers ls" "r \<in> set ls" "lr_parent r = Some p"
  shows "p \<in> lr_id ` set ls"
proof -
  from assms(2) obtain xs ys where ls: "ls = xs @ r # ys" by (meson split_list)
  with assms(1) have "parents_before (lr_id ` set xs) (r # ys)"
    by (simp add: wf_layers_def parents_before_append)
  with assms(3) ls show ?thesis by auto
qed

subsection \<open>Each statement keeps them\<close>

lemma wf_insert_source: "wf_tables d \<Longrightarrow> insert_source r d = Inr (x, d') \<Longrightarrow> wf_tables d'"
  by (auto simp: wf_tables_def insert_source_def split: if_splits)

lemma wf_update_sources:
  assumes "wf_tables d" "update_sources p f d = Inr (x, d')" "\<And>r. sr_id (f r) = sr_id r"
  shows "wf_tables d'"
proof -
  have "map sr_id (update_where p f (sources d)) = map sr_id (sources d)"
    by (rule map_update_where) (rule assms(3))
  then have "sr_id ` set (update_where p f (sources d)) = sr_id ` set (sources d)"
    by (metis list.set_map)
  with assms(1,2) show ?thesis
    by (auto simp: wf_tables_def update_sources_def Let_def distinct_update_where assms(3) split: if_splits)
qed

lemma wf_insert_branch: "wf_tables d \<Longrightarrow> insert_branch r d = Inr (x, d') \<Longrightarrow> wf_tables d'"
  by (auto simp: wf_tables_def insert_branch_def split: if_splits)

lemma wf_update_branches:
  assumes "wf_tables d" "update_branches p f d = Inr (x, d')"
    and "\<And>r. row_id (f r) = row_id r" "\<And>r. row_source_id (f r) = row_source_id r"
  shows "wf_tables d'"
proof -
  have "\<forall>b \<in> set (update_where p f (branches d)). row_source_id b \<in> sr_id ` set (sources d)"
    using assms(1) by (auto simp: wf_tables_def set_update_where assms(4))
  with assms(1,2) show ?thesis
    by (auto simp: wf_tables_def update_branches_def Let_def distinct_update_where assms(3) split: if_splits)
qed

lemma wf_insert_layer: "wf_tables d \<Longrightarrow> insert_layer r d = Inr (x, d') \<Longrightarrow> wf_tables d'"
  by (auto simp: wf_tables_def insert_layer_def split: if_splits option.splits intro!: wf_layers_snoc)

lemma wf_delete_layer:
  assumes "wf_tables d" "delete_layer i d = Inr (x, d')"
  shows "wf_tables d'"
proof -
  let ?p = "\<lambda>r. lr_id r \<noteq> i"
  have d': "d' = d\<lparr>layers := filter ?p (layers d)\<rparr>"
    and ok: "\<not> (\<exists>r \<in> set (filter ?p (layers d)). lr_parent r = Some i \<and> (\<exists>x \<in> set (layers d). lr_id x = i))"
    using assms(2) by (auto simp: delete_layer_def delete_where_def Let_def split: if_splits)
  have "wf_layers (filter ?p (layers d))"
  proof (rule wf_layers_filter)
    show "wf_layers (layers d)" using assms(1) by (simp add: wf_tables_def)
    fix r q assume r: "r \<in> set (layers d)" "?p r" "lr_parent r = Some q"
    then have "q \<in> lr_id ` set (layers d)"
      using assms(1) by (auto simp: wf_tables_def dest: wf_layers_parent)
    with r ok show "\<exists>x \<in> set (layers d). ?p x \<and> lr_id x = q" by auto
  qed
  with assms(1) d' show ?thesis by (simp add: wf_tables_def)
qed

lemma wf_insert_transition:
  "wf_tables d \<Longrightarrow> insert_transition e i f t r a n d = Inr (x, d') \<Longrightarrow> wf_tables d'"
  by (auto simp: wf_tables_def insert_transition_def)

lemma wf_insert_mask: "wf_tables d \<Longrightarrow> insert_mask r d = Inr (x, d') \<Longrightarrow> wf_tables d'"
  by (auto simp: wf_tables_def insert_mask_def image_iff split: if_splits) metis

lemma wf_insert_token: "wf_tables d \<Longrightarrow> insert_token r d = Inr (x, d') \<Longrightarrow> wf_tables d'"
  by (auto simp: wf_tables_def insert_token_def split: if_splits)

lemma wf_delete_masks: "wf_tables d \<Longrightarrow> wf_tables (d\<lparr>mask_scripts := delete_where p (mask_scripts d)\<rparr>)"
  by (simp add: wf_tables_def distinct_delete_where)

lemma wf_delete_tokens: "wf_tables d \<Longrightarrow> wf_tables (d\<lparr>api_tokens := delete_where p (api_tokens d)\<rparr>)"
  by (simp add: wf_tables_def distinct_delete_where)

lemma wf_meta: "wf_tables (d\<lparr>meta := m\<rparr>) = wf_tables d"
  by (simp add: wf_tables_def)

abbreviation keeps_wf :: "('z reg_st_scheme, 'a) comp \<Rightarrow> bool" where
  "keeps_wf m \<equiv> keeps (on_db wf_tables) m"

lemma keeps_wf_insert_source [keeps_rules]: "keeps_wf (sql_exec (insert_source r))"
  by (rule keeps_sql_exec) (rule wf_insert_source)

lemma keeps_wf_update_sources [keeps_rules]:
  "(\<And>r. sr_id (f r) = sr_id r) \<Longrightarrow> keeps_wf (sql_exec (update_sources p f))"
  by (rule keeps_sql_exec) (rule wf_update_sources)

lemma keeps_wf_insert_branch [keeps_rules]: "keeps_wf (sql_exec (insert_branch r))"
  by (rule keeps_sql_exec) (rule wf_insert_branch)

lemma keeps_wf_update_branches [keeps_rules]:
  "(\<And>r. row_id (f r) = row_id r) \<Longrightarrow> (\<And>r. row_source_id (f r) = row_source_id r) \<Longrightarrow>
   keeps_wf (sql_exec (update_branches p f))"
  by (rule keeps_sql_exec) (rule wf_update_branches)

lemma keeps_wf_insert_layer [keeps_rules]: "keeps_wf (sql_exec (insert_layer r))"
  by (rule keeps_sql_exec) (rule wf_insert_layer)

lemma keeps_wf_delete_layer [keeps_rules]: "keeps_wf (sql_exec (delete_layer i))"
  by (rule keeps_sql_exec) (rule wf_delete_layer)

lemma keeps_wf_insert_mask [keeps_rules]: "keeps_wf (sql_exec (insert_mask r))"
  by (rule keeps_sql_exec) (rule wf_insert_mask)

lemma keeps_wf_insert_token [keeps_rules]: "keeps_wf (sql_exec (insert_token r))"
  by (rule keeps_sql_exec) (rule wf_insert_token)

lemma keeps_wf_journal [keeps_rules]: "keeps_wf (journal c e i f t r)"
  unfolding journal_def by (intro keeps_rules env_free_on_db keeps_sql_exec) (rule wf_insert_transition)

subsection \<open>Each operation keeps them\<close>

lemma keeps_read_state [keeps_rules]: "env_free I \<Longrightarrow> keeps I (read_state i)"
  unfolding read_state_def by (intro keeps_rules)

lemma keeps_getBranch [keeps_rules]: "env_free I \<Longrightarrow> keeps I (getBranch p)"
  unfolding getBranch_def by (intro keeps_rules)

lemma keeps_listBranches [keeps_rules]: "env_free I \<Longrightarrow> keeps I (listBranches p)"
  unfolding listBranches_def by (intro keeps_rules)

lemma keeps_GetLayer [keeps_rules]: "env_free I \<Longrightarrow> keeps I (GetLayer i)"
  unfolding GetLayer_def by (intro keeps_rules)

lemma keeps_layer_chain_loop [keeps_rules]: "env_free I \<Longrightarrow> keeps I (layer_chain_loop n b i)"
proof (induction n arbitrary: i)
  case 0
  then show ?case by (simp add: layer_chain_loop.simps keeps_rules)
next
  case (Suc n)
  then show ?case by (subst layer_chain_loop.simps) (simp, intro keeps_rules impI conjI)
qed

lemma keeps_scan_source_opt [keeps_rules]: "keeps I (scan_source_opt r)"
  unfolding scan_source_opt_def by (intro keeps_rules)

lemma keeps_reads [keeps_rules]:
  assumes "env_free I"
  shows "keeps I (GetSourceByName n)" "keeps I (GetSourceByID n)" "keeps I ListSources"
    "keeps I (GetBranchByName n)" "keeps I ListLiveBranches" "keeps I (ListExpiredBranches n)"
    "keeps I (ListStuckBranches n)" "keeps I (BranchHistory n)" "keeps I (count_branches p)"
    "keeps I CountLiveBranches" "keeps I (CountLiveBranchesBySource n)"
    "keeps I (CountLiveBranchesByVolume n)" "keeps I (CountLiveBranchesByRWVolume n)"
    "keeps I (CountLiveBranchesReferencingRW n v)" "keeps I LiveVolumeSet" "keeps I (GetMaskScripts n)"
    "keeps I ListLayers" "keeps I (ListLayersBySource n)" "keeps I (LayerChain n)"
    "keeps I (CountBranchesReferencingLayer n)"
  unfolding GetSourceByName_def GetSourceByID_def ListSources_def GetBranchByName_def
    ListLiveBranches_def ListExpiredBranches_def ListStuckBranches_def BranchHistory_def count_branches_def
    CountLiveBranches_def CountLiveBranchesBySource_def CountLiveBranchesByVolume_def
    CountLiveBranchesByRWVolume_def CountLiveBranchesReferencingRW_def LiveVolumeSet_def GetMaskScripts_def
    ListLayers_def ListLayersBySource_def LayerChain_def CountBranchesReferencingLayer_def
  by (intro keeps_rules assms)+

lemma keeps_wf_CreateSource: "keeps_wf (CreateSource x)"
  unfolding CreateSource_def by (intro keeps_rules env_free_on_db)

lemma keeps_wf_SetSourceState: "keeps_wf (SetSourceState i st r)"
  unfolding SetSourceState_def by (intro keeps_rules env_free_on_db) simp_all

lemma keeps_wf_BumpSourceGeneration: "keeps_wf (BumpSourceGeneration i v)"
  unfolding BumpSourceGeneration_def by (intro keeps_rules env_free_on_db) simp_all

lemma keeps_wf_CreateBranchCtx: "keeps_wf (CreateBranchCtx c b)"
  unfolding CreateBranchCtx_def by (intro keeps_rules env_free_on_db)

lemma keeps_wf_TransitionBranchCtx [keeps_rules]: "keeps_wf (TransitionBranchCtx c i st r)"
  unfolding TransitionBranchCtx_def transition_in_tx_def by (intro keeps_rules env_free_on_db) simp_all

lemma keeps_wf_SetBranchPassword: "keeps_wf (SetBranchPassword i p)"
  unfolding SetBranchPassword_def by (intro keeps_rules env_free_on_db) simp_all

lemma keeps_wf_SetBranchContainer: "keeps_wf (SetBranchContainer i c)"
  unfolding SetBranchContainer_def by (intro keeps_rules env_free_on_db) simp_all

lemma keeps_wf_TouchBranch: "keeps_wf (TouchBranch i)"
  unfolding TouchBranch_def by (intro keeps_rules env_free_on_db) simp_all

lemma keeps_wf_MarkBranchReadyCtx: "keeps_wf (MarkBranchReadyCtx c i ci h p)"
  unfolding MarkBranchReadyCtx_def by (intro keeps_rules env_free_on_db) simp_all

lemma keeps_wf_insert_masks [keeps_rules]: "keeps_wf (insert_masks i n xs)"
  by (induction xs arbitrary: n) (simp_all add: keeps_rules)

lemma keeps_wf_SetMaskScripts: "keeps_wf (SetMaskScripts i xs)"
  unfolding SetMaskScripts_def
  by (intro keeps_rules keeps_sql_exec) (auto simp: wf_delete_masks)

lemma keeps_wf_CreateLayer: "keeps_wf (CreateLayer l)"
  unfolding CreateLayer_def by (intro keeps_rules env_free_on_db)

lemma keeps_wf_DeleteLayer: "keeps_wf (DeleteLayer i)"
  unfolding DeleteLayer_def by (intro keeps_rules)

lemma keeps_wf_CommitFreezeCtx: "keeps_wf (CommitFreezeCtx c p ch lv rw ci h po r)"
  unfolding CommitFreezeCtx_def commit_freeze_in_tx_def by (intro keeps_rules env_free_on_db) simp_all

lemma keeps_wf_CreateAPIToken: "keeps_wf (CreateAPIToken sha n r)"
  unfolding CreateAPIToken_def by (intro keeps_rules env_free_on_db)

lemma keeps_wf_RevokeAPIToken: "keeps_wf (RevokeAPIToken n)"
  unfolding RevokeAPIToken_def by (intro keeps_rules keeps_sql_exec) (auto simp: wf_delete_tokens)

lemma keeps_wf_ensureInstanceID: "keeps_wf ensureInstanceID"
  unfolding ensureInstanceID_def
  by (intro keeps_rules env_free_on_db keeps_sql_exec) (auto simp: wf_meta split: if_splits)

lemma sql_exec_okD:
  "sql_exec f s = (Inr x, t) \<Longrightarrow> f (db s) = Inr (x, db t)"
  by (auto simp: sql_exec_def comp_simps dest!: sql_db split: prod.splits sum.splits)

lemma sql_exec_plainD:
  "sql_exec (\<lambda>d. Inr (g d, h d)) s = (Inr x, t) \<Longrightarrow> x = g (db s) \<and> db t = h (db s)"
  by (auto dest: sql_exec_okD)

lemma wf_delete_source:
  assumes "wf_tables d"
    and "d' = d\<lparr>layers := delete_where (\<lambda>r. lr_source_id r = i) (layers d),
      branches := delete_where (\<lambda>r. row_source_id r = i) (branches d),
      mask_scripts := delete_where (\<lambda>r. mr_source_id r = i) (mask_scripts d),
      sources := delete_where (\<lambda>r. sr_id r = i) (sources d)\<rparr>"
    and "fk_check d' = None"
  shows "wf_tables d'"
proof -
  let ?p = "\<lambda>r. lr_source_id r \<noteq> i"
  have l: "layers d' = filter ?p (layers d)" using assms(2) by (simp add: delete_where_def)
  have "wf_layers (filter ?p (layers d))"
  proof (rule wf_layers_filter)
    show "wf_layers (layers d)" using assms(1) by (simp add: wf_tables_def)
    fix r q assume "r \<in> set (layers d)" "?p r" "lr_parent r = Some q"
    then have "q \<in> lr_id ` set (layers d')"
      using assms(3) l by (force simp: fk_check_def split: if_splits option.splits)
    then show "\<exists>x \<in> set (layers d). ?p x \<and> lr_id x = q" using l by auto
  qed
  moreover have "\<forall>b \<in> set (branches d'). row_source_id b \<in> sr_id ` set (sources d')"
    using assms(3) by (simp add: fk_check_def split: if_splits)
  moreover have "unique_source_names (sources d')" "unique_live_names (branches d')"
    using assms(1,2) by (auto simp: wf_tables_def unique_source_names_def unique_live_names_def
        delete_where_def filter_filter conj_commute distinct_map_filter inj_on_def distinct_map)
  ultimately show ?thesis
    using assms(1,2) l by (simp add: wf_tables_def distinct_delete_where)
qed

lemma keeps_wf_DeleteSource: "keeps_wf (DeleteSource i)"
  unfolding DeleteSource_def
proof (rule keeps_in_tx, goal_cases)
  case (1 s x t)
  from 1(2) have "db t = (db s)\<lparr>layers := delete_where (\<lambda>r. lr_source_id r = i) (layers (db s)),
      branches := delete_where (\<lambda>r. row_source_id r = i) (branches (db s)),
      mask_scripts := delete_where (\<lambda>r. mr_source_id r = i) (mask_scripts (db s)),
      sources := delete_where (\<lambda>r. sr_id r = i) (sources (db s))\<rparr>"
    by (auto simp: bnd_Inr_iff ok_run raise_run dest!: sql_exec_plainD split: if_splits)
  with 1(1,3) show ?case by (auto simp: on_db_def intro: wf_delete_source)
qed

section \<open>Every sequence of operations\<close>

text \<open>
  The operations other packages call, as data, and the registry states that any sequence of them
  reaches from an empty database: sagas, API handlers and the reconcile loop interleave as
  they like.
\<close>

datatype reg_op =
    OpCreateSource source
  | OpSetSourceState string source_state string
  | OpBumpSourceGeneration string string
  | OpDeleteSource string
  | OpCreateBranch ctx branch
  | OpTransition ctx string branch_state string
  | OpSetPassword string string
  | OpSetContainer string string
  | OpTouch string
  | OpMarkReady ctx string string string int
  | OpSetMasks string "mask_script list"
  | OpCreateLayer layer
  | OpDeleteLayer string
  | OpCommitFreeze ctx string string string string string string int string
  | OpCreateToken "nat list \<Rightarrow> nat list" string string
  | OpRevokeToken string
  | OpEnsureInstance

definition ignore :: "('s, 'a) comp \<Rightarrow> ('s, unit) comp" where
  "ignore m = bnd m (\<lambda>_. ok ())"

fun reg_run :: "reg_op \<Rightarrow> ('z reg_st_scheme, unit) comp" where
  "reg_run (OpCreateSource x) = ignore (CreateSource x)"
| "reg_run (OpSetSourceState i st r) = SetSourceState i st r"
| "reg_run (OpBumpSourceGeneration i v) = BumpSourceGeneration i v"
| "reg_run (OpDeleteSource i) = DeleteSource i"
| "reg_run (OpCreateBranch c b) = ignore (CreateBranchCtx c b)"
| "reg_run (OpTransition c i st r) = TransitionBranchCtx c i st r"
| "reg_run (OpSetPassword i p) = SetBranchPassword i p"
| "reg_run (OpSetContainer i ci) = SetBranchContainer i ci"
| "reg_run (OpTouch i) = TouchBranch i"
| "reg_run (OpMarkReady c i ci h p) = MarkBranchReadyCtx c i ci h p"
| "reg_run (OpSetMasks i xs) = SetMaskScripts i xs"
| "reg_run (OpCreateLayer l) = ignore (CreateLayer l)"
| "reg_run (OpDeleteLayer i) = DeleteLayer i"
| "reg_run (OpCommitFreeze c p ch lv rw ci h po r) = ignore (CommitFreezeCtx c p ch lv rw ci h po r)"
| "reg_run (OpCreateToken sha n r) = ignore (CreateAPIToken sha n r)"
| "reg_run (OpRevokeToken n) = RevokeAPIToken n"
| "reg_run OpEnsureInstance = ignore ensureInstanceID"

definition empty_tables :: tables where
  "empty_tables = \<lparr>sources = [], branches = [], layers = [], transitions = [], mask_scripts = [],
     api_tokens = [], meta = []\<rparr>"

inductive reg_reach :: "'z reg_st_scheme \<Rightarrow> 'z reg_st_scheme \<Rightarrow> bool" for s0 where
  start: "reg_reach s0 s0"
| step: "reg_reach s0 s \<Longrightarrow> reg_reach s0 (snd (reg_run x s))"

inductive_cases reg_reachE [elim]: "reg_reach s0 s"

lemma wf_empty_tables: "wf_tables empty_tables"
  by (simp add: wf_tables_def empty_tables_def wf_layers_def unique_source_names_def unique_live_names_def)

lemma snd_ignore [simp]: "snd (ignore m s) = snd (m s)"
  by (simp add: ignore_def comp_simps split: prod.split sum.split)

lemma keeps_ignore_iff: "keeps I (ignore m) \<longleftrightarrow> keeps I m"
  by (simp add: keeps_def)

lemma keeps_ignore [keeps_rules]: "keeps I m \<Longrightarrow> keeps I (ignore m)"
  by (simp add: keeps_ignore_iff)

lemmas keeps_wf_ops = keeps_wf_CreateSource keeps_wf_SetSourceState keeps_wf_BumpSourceGeneration
  keeps_wf_DeleteSource keeps_wf_CreateBranchCtx keeps_wf_TransitionBranchCtx keeps_wf_SetBranchPassword
  keeps_wf_SetBranchContainer keeps_wf_TouchBranch keeps_wf_MarkBranchReadyCtx keeps_wf_SetMaskScripts
  keeps_wf_CreateLayer keeps_wf_DeleteLayer keeps_wf_CommitFreezeCtx keeps_wf_CreateAPIToken
  keeps_wf_RevokeAPIToken keeps_wf_ensureInstanceID

lemma keeps_wf_reg_run: "keeps_wf (reg_run x)"
  by (cases x) (simp_all add: keeps_wf_ops keeps_ignore)

lemma reg_reach_keeps:
  assumes "\<And>x. keeps I (reg_run x)" "reg_reach s0 s" "I s0"
  shows "I s"
  using assms(2,3)
proof (induction rule: reg_reach.induct)
  case (step s x)
  then show ?case using assms(1) [of x] by (simp add: keeps_def)
qed

text \<open>
  The interface the engine relies on: an invariant that every registry operation keeps and that does
  not depend on the clock.
\<close>

locale registry_invariant =
  fixes I :: "'z reg_st_scheme \<Rightarrow> bool"
  assumes op_keeps: "keeps I (reg_run x)"
    and clock_free: "env_free I"
begin

lemma reg_ops [keeps_rules]:
  "keeps I (CreateSource src)" "keeps I (SetSourceState i st r)" "keeps I (BumpSourceGeneration i v)"
  "keeps I (DeleteSource i)" "keeps I (CreateBranchCtx c b)" "keeps I (TransitionBranchCtx c i bst r)"
  "keeps I (SetBranchPassword i pw)" "keeps I (SetBranchContainer i ci)" "keeps I (TouchBranch i)"
  "keeps I (MarkBranchReadyCtx c i ci h p)" "keeps I (SetMaskScripts i ms)" "keeps I (CreateLayer l)"
  "keeps I (DeleteLayer i)" "keeps I (CommitFreezeCtx c pa ch lv rw ci h p r)"
  using op_keeps [of "OpCreateSource src"] op_keeps [of "OpSetSourceState i st r"]
    op_keeps [of "OpBumpSourceGeneration i v"] op_keeps [of "OpDeleteSource i"]
    op_keeps [of "OpCreateBranch c b"] op_keeps [of "OpTransition c i bst r"]
    op_keeps [of "OpSetPassword i pw"] op_keeps [of "OpSetContainer i ci"] op_keeps [of "OpTouch i"]
    op_keeps [of "OpMarkReady c i ci h p"] op_keeps [of "OpSetMasks i ms"] op_keeps [of "OpCreateLayer l"]
    op_keeps [of "OpDeleteLayer i"] op_keeps [of "OpCommitFreeze c pa ch lv rw ci h p r"]
  by (simp_all add: keeps_ignore_iff)

end

interpretation wf_inv: registry_invariant "on_db wf_tables"
  by unfold_locales (simp_all add: keeps_wf_reg_run)

lemma reg_reach_wf: "reg_reach s0 s \<Longrightarrow> wf_tables (db s0) \<Longrightarrow> wf_tables (db s)"
  using reg_reach_keeps [where I = "on_db wf_tables", OF keeps_wf_reg_run] unfolding on_db_def .

end
