(* ===== verification/Registry_Journal.thy ===== *)
theory Registry_Journal
  imports Registry_Inv
begin

text \<open>
  The branch state machine of the registry: what a transition and a freeze commit do to the tables
  on success and on every error, and the invariant that the journal of a branch is a legal path
  from its creation to its current state.
\<close>

section \<open>What a call that returned did\<close>

lemma sql_query_okD: "sql_query f s = (Inr x, t) \<Longrightarrow> x = f (db s) \<and> db t = db s"
  by (auto simp: sql_query_def comp_simps dest: sql_db split: prod.splits sum.splits)

lemma db_now_okD: "db_now s = (Inr x, t) \<Longrightarrow> db t = db s"
  by (auto simp: db_now_def time_now_def comp_simps Let_def)

lemma newID_okD: "newID s = (Inr x, t) \<Longrightarrow> db t = db s \<and> length x = 16"
  by (auto simp: newID_def rand_hex_def hex_encode_length)

lemma sql_exec_errD: "sql_exec f s = (Inl e, t) \<Longrightarrow> db t = db s"
  by (auto simp: sql_exec_def comp_simps dest: sql_db split: prod.splits sum.splits)

lemma db_now_errD: "db_now s \<noteq> (Inl e, t)"
  by (auto simp: db_now_def time_now_def comp_simps Let_def)

lemma newID_errD: "newID s \<noteq> (Inl e, t)"
  by (auto simp: newID_def rand_hex_def)

lemma journal_okD:
  assumes "journal c e i f g r s = (Inr x, t)"
  obtains a where "tr_entity a = e" "tr_entity_id a = i" "tr_from a = f" "tr_to a = g" "tr_reason a = r"
    "tr_actor a = actorString c" "tr_id a = Suc (length (transitions (db s)))"
    "db t = (db s)\<lparr>transitions := transitions (db s) @ [a]\<rparr>"
proof -
  obtain now u where u: "db_now s = (Inr now, u)" and
    "sql_exec (insert_transition e i f g r (actorString c) now) u = (Inr x, t)"
    using assms by (auto simp: journal_def bnd_Inr_iff)
  then have "insert_transition e i f g r (actorString c) now (db s) = Inr (x, db t)"
    using db_now_okD [OF u] sql_exec_okD by fastforce
  then show thesis unfolding insert_transition_def by (intro that) (auto simp: eq_commute [of _ "db t"])
qed

lemma read_state_okD:
  "read_state i s = (Inr st, t) \<Longrightarrow>
   db t = db s \<and> (\<exists>row. find_key row_id i (branches (db s)) = Some row \<and> row_state row = st)"
  unfolding read_state_def
  by (auto simp: bnd_Inr_iff ok_run raise_run eq_commute [of "Some st"] dest!: sql_query_okD split: option.splits)

lemma transaction_okD:
  "transaction m s = (Inr x, t) \<Longrightarrow>
   \<exists>s1 s2. sql s = (Inr (), s1) \<and> m s1 = (Inr x, s2) \<and> sql s2 = (Inr (), t) \<and> db s1 = db s \<and> db t = db s2"
  unfolding transaction_def by (drule in_tx_result) (auto dest: sql_db)

lemma transaction_errD: "transaction m s = (Inl e, t) \<Longrightarrow> db t = db s"
  unfolding transaction_def by (drule in_tx_result) simp

lemma update_branches_okD:
  "update_branches p f d = Inr (n, d') \<Longrightarrow>
   n = count_where p (branches d) \<and> d' = d\<lparr>branches := update_where p f (branches d)\<rparr>"
  by (auto simp: update_branches_def Let_def split: if_splits)

lemma update_branches_runD:
  "sql_exec (update_branches p f) s = (Inr n, t) \<Longrightarrow>
   n = count_where p (branches (db s)) \<and> db t = (db s)\<lparr>branches := update_where p f (branches (db s))\<rparr>"
  by (auto dest!: sql_exec_okD update_branches_okD)

lemmas ok_simps = bnd_Inr_iff ok_run raise_run
lemmas run_okD = sql_query_okD db_now_okD newID_okD sql_exec_plainD update_branches_runD

section \<open>Transitions\<close>

definition transition_row_of :: "ctx \<Rightarrow> string \<Rightarrow> branch_state \<Rightarrow> branch_state \<Rightarrow> string \<Rightarrow> transition_row \<Rightarrow> bool"
  where "transition_row_of c ident from to reason t \<longleftrightarrow>
    tr_entity t = ''branch'' \<and> tr_entity_id t = ident \<and> tr_from t = branch_state_str from \<and>
    tr_to t = branch_state_str to \<and> tr_reason t = reason \<and> tr_actor t = actorString c"

lemma update_where_state:
  assumes "distinct (map row_id rows)" "find_key row_id i rows = Some row"
  shows "update_where (\<lambda>r. row_id r = i \<and> row_state r = row_state row) f rows =
    update_where (\<lambda>r. row_id r = i) f rows"
  unfolding update_where_def
proof (rule map_cong [OF refl])
  fix r assume "r \<in> set rows"
  then have "row_id r = i \<Longrightarrow> r = row"
    using assms find_key_Some_iff [OF assms(1)] by (metis option.inject)
  then show "(if row_id r = i \<and> row_state r = row_state row then f r else r) = (if row_id r = i then f r else r)"
    by auto
qed

text \<open>What a successful transition does, in any environment.\<close>

definition transition_effect ::
    "ctx \<Rightarrow> string \<Rightarrow> branch_state \<Rightarrow> string \<Rightarrow> tables \<Rightarrow> tables \<Rightarrow> bool" where
  "transition_effect c ident to reason d d' \<longleftrightarrow>
     (\<exists>row now t. find_key row_id ident (branches d) = Some row \<and>
        legalBranchTransition (row_state row) to \<and> transition_row_of c ident (row_state row) to reason t \<and>
        d' = d\<lparr>branches := update_where (\<lambda>r. row_id r = ident) (\<lambda>r. r\<lparr>row_state := to, row_updated_at := now\<rparr>) (branches d),
               transitions := transitions d @ [t]\<rparr>)"

lemma transition_okD:
  fixes s t :: "'z reg_st_scheme"
  assumes "TransitionBranchCtx c i to r s = (Inr (), t)" "wf_tables (db s)"
  shows "transition_effect c i to r (db s) (db t)"
proof -
  obtain s1 s2 :: "'z reg_st_scheme"
    where d: "db s1 = db s" "db t = db s2" and m: "transition_in_tx c i to r s1 = (Inr (), s2)"
    using transaction_okD [OF assms(1) [unfolded TransitionBranchCtx_def]] by blast
  from m obtain fr u now u1 n u2 where
    st: "read_state i s1 = (Inr fr, u)" and leg: "legalBranchTransition fr to"
    and now: "db_now u = (Inr now, u1)"
    and upd: "sql_exec (update_branches (\<lambda>r. row_id r = i \<and> row_state r = fr)
              (\<lambda>r. r\<lparr>row_state := to, row_updated_at := now\<rparr>)) u1 = (Inr n, u2)"
    and j: "journal c ''branch'' i (branch_state_str fr) (branch_state_str to) r u2 = (Inr (), s2)"
    unfolding transition_in_tx_def by (auto simp: ok_simps split: if_splits)
  obtain row where row: "find_key row_id i (branches (db s)) = Some row" "fr = row_state row"
    and du: "db u = db s" using read_state_okD [OF st] d by auto
  have "db u2 = (db s)\<lparr>branches := update_where (\<lambda>r. row_id r = i)
      (\<lambda>r. r\<lparr>row_state := to, row_updated_at := now\<rparr>) (branches (db s))\<rparr>"
    using upd db_now_okD [OF now] du row assms(2)
    by (auto dest!: update_branches_runD simp: wf_tables_def update_where_state)
  moreover obtain a where a: "transition_row_of c i fr to r a"
    "db s2 = (db u2)\<lparr>transitions := transitions (db u2) @ [a]\<rparr>"
    using journal_okD [OF j] by (metis transition_row_of_def)
  ultimately show ?thesis unfolding transition_effect_def d using row leg
    by (intro exI [of _ row] exI [of _ now] exI [of _ a]) simp
qed

lemma transition_errD: "TransitionBranchCtx c i to r s = (Inl e, t) \<Longrightarrow> db t = db s"
  unfolding TransitionBranchCtx_def by (rule transaction_errD)


text \<open>
  C10: A transition is a compare-and-swap. When it returns without error, the branch existed in a
  state from which the target is legal, exactly that row got the new state, and exactly one journal
  entry with the context's actor was appended; on every error, also of a statement in the middle,
  the tables are as before.
\<close>

theorem transition_is_compare_and_swap:
  assumes "wf_tables (db s)" "TransitionBranchCtx c i to r s = (res, t)"
  shows "if res = Inr () then transition_effect c i to r (db s) (db t) else db t = db s"
proof (cases res)
  case (Inl e)
  then show ?thesis using transition_errD assms(2) by auto
next
  case (Inr x)
  then show ?thesis using transition_okD assms by (cases x) auto
qed

text \<open>With no failing statement, a legal transition of an existing branch does succeed.\<close>

definition no_faults :: "'z environ_scheme \<Rightarrow> bool" where
  "no_faults s \<longleftrightarrow> sql_fault s = (\<lambda>_. None)"

lemma env_free_no_faults [simp]: "env_free no_faults"
  by (simp add: env_free_def no_faults_def)

lemma sql_no_faults: "no_faults s \<Longrightarrow> sql s = (Inr (), s\<lparr>tick := Suc (tick s)\<rparr>)"
  by (simp add: sql_def no_faults_def)


section \<open>The journal of a branch\<close>

text \<open>
  The entries of a branch, newest first, lead back from its state over legal transitions to the
  entry that created it.
\<close>

fun legal_path :: "transition_row list \<Rightarrow> branch_state \<Rightarrow> bool" where
  "legal_path [] st = False"
| "legal_path (t # ts) st =
     (tr_to t = branch_state_str st \<and>
      (tr_from t = [] \<and> st = BranchCreating \<or>
       (\<exists>from. tr_from t = branch_state_str from \<and> legalBranchTransition from st \<and> legal_path ts from)))"

definition branch_log :: "tables \<Rightarrow> string \<Rightarrow> transition_row list" where
  "branch_log d ident = rev (filter (\<lambda>t. tr_entity t = ''branch'' \<and> tr_entity_id t = ident) (transitions d))"

definition journal_ok :: "tables \<Rightarrow> bool" where
  "journal_ok d \<longleftrightarrow> (\<forall>b \<in> set (branches d). legal_path (branch_log d (row_id b)) (row_state b))"

lemma branch_log_snoc:
  "branch_log (d\<lparr>transitions := transitions d @ [t]\<rparr>) i =
   (if tr_entity t = ''branch'' \<and> tr_entity_id t = i then t # branch_log d i else branch_log d i)"
  by (simp add: branch_log_def)

lemma branch_log_cong [simp]:
  "branch_log (d\<lparr>branches := x\<rparr>) = branch_log d" "branch_log (d\<lparr>layers := y\<rparr>) = branch_log d"
  "branch_log (d\<lparr>sources := z\<rparr>) = branch_log d" "branch_log (d\<lparr>mask_scripts := m\<rparr>) = branch_log d"
  "branch_log (d\<lparr>api_tokens := a\<rparr>) = branch_log d" "branch_log (d\<lparr>meta := e\<rparr>) = branch_log d"
  by (simp_all add: branch_log_def fun_eq_iff)

lemma branch_log_source [simp]:
  "tr_entity t \<noteq> ''branch'' \<Longrightarrow> branch_log (d\<lparr>transitions := transitions d @ [t]\<rparr>) = branch_log d"
  by (simp add: branch_log_def fun_eq_iff)

lemma journal_ok_cong:
  "transitions d' = transitions d \<Longrightarrow> branches d' = branches d \<Longrightarrow> journal_ok d' = journal_ok d"
  by (simp add: journal_ok_def branch_log_def)

lemma journal_update_same_state:
  assumes "journal_ok d" "\<And>r. row_id (f r) = row_id r" "\<And>r. row_state (f r) = row_state r"
  shows "journal_ok (d\<lparr>branches := update_where p f (branches d)\<rparr>)"
  using assms by (auto simp: journal_ok_def set_update_where)

lemma journal_moves:
  assumes "journal_ok d" "find_key row_id i (branches d) = Some row" "distinct (map row_id (branches d))"
    and "tr_entity t = ''branch''" "tr_entity_id t = i" "tr_from t = branch_state_str (row_state row)"
    and "tr_to t = branch_state_str st" "legalBranchTransition (row_state row) st"
    and "\<And>r. row_id (f r) = row_id r" "\<And>r. row_state (f r) = st"
  shows "journal_ok (d\<lparr>branches := update_where (\<lambda>r. row_id r = i) f (branches d),
    transitions := transitions d @ [t]\<rparr>)"
proof -
  have row: "row \<in> set (branches d)" "row_id row = i" using find_key_SomeD [OF assms(2)] by auto
  have "legal_path (branch_log d i) (row_state row)" using assms(1) row by (auto simp: journal_ok_def)
  then have "legal_path (t # branch_log d i) st" using assms(6-8) by auto
  moreover have "branch_log (d\<lparr>branches := bs, transitions := transitions d @ [t]\<rparr>) j =
    (if j = i then t # branch_log d i else branch_log d j)" for j bs
    using assms(4,5) by (simp add: branch_log_def)
  ultimately show ?thesis
    using assms(1,9,10) by (auto simp: journal_ok_def set_update_where simp del: legal_path.simps)
qed

lemma journal_transition_effect:
  assumes "transition_effect c i to r d d'" "wf_tables d" "journal_ok d"
  shows "journal_ok d'"
proof -
  obtain row now t where e: "find_key row_id i (branches d) = Some row"
    "legalBranchTransition (row_state row) to" "transition_row_of c i (row_state row) to r t"
    "d' = d\<lparr>branches := update_where (\<lambda>r. row_id r = i) (\<lambda>r. r\<lparr>row_state := to, row_updated_at := now\<rparr>) (branches d),
       transitions := transitions d @ [t]\<rparr>"
    using assms(1) unfolding transition_effect_def by blast
  from e(3) show ?thesis unfolding e(4) transition_row_of_def
    using assms(2) by (intro journal_moves [OF assms(3) e(1) _ _ _ _ _ e(2)]) (auto simp: wf_tables_def)
qed


section \<open>Commit of a freeze\<close>

text \<open>
  The effect of \<open>CommitFreezeCtx\<close>: a new layer on the parent's chain holds the frozen volume, the parent
  continues on a new writable volume above it, and the child gets it as its base.
\<close>

definition freeze_effect :: "ctx \<Rightarrow> string \<Rightarrow> string \<Rightarrow> string \<Rightarrow> string \<Rightarrow> string \<Rightarrow> string \<Rightarrow> int \<Rightarrow> string
    \<Rightarrow> layer \<Rightarrow> tables \<Rightarrow> tables \<Rightarrow> bool" where
  "freeze_effect c parentID childID layerVolume newParentRW containerID host port reason l d d' \<longleftrightarrow>
     (\<exists>row now now2 t child. find_key row_id parentID (branches d) = Some row \<and>
        row_state row = BranchResetting \<and> transition_row_of c parentID BranchResetting BranchReady reason t \<and>
        child \<in> set (branches d) \<and> row_id child = childID \<and>
        l_ID l \<notin> lr_id ` set (layers d) \<and> length (l_ID l) = 16 \<and> l_Volume l = layerVolume \<and>
        l_SourceID l = row_source_id row \<and> l_ParentLayerID l = null_string (row_base_layer_id row) \<and>
        d' = d\<lparr>layers := layers d @ [\<lparr>lr_id = l_ID l, lr_source_id = row_source_id row, lr_volume = layerVolume,
                 lr_parent = row_base_layer_id row\<rparr>],
               branches := update_where (\<lambda>r. row_id r = childID) (\<lambda>r. r\<lparr>row_base_layer_id := Some (l_ID l), row_updated_at := now2\<rparr>)
                 (update_where (\<lambda>r. row_id r = parentID)
                   (\<lambda>r. r\<lparr>row_rw_volume := newParentRW, row_base_layer_id := Some (l_ID l), row_container_id := containerID,
                          row_host := host, row_port := port, row_state := BranchReady, row_updated_at := now\<rparr>) (branches d)),
               transitions := transitions d @ [t]\<rparr>)"

lemma insert_layer_runD:
  "sql_exec (insert_layer r) s = (Inr x, t) \<Longrightarrow>
   lr_id r \<notin> lr_id ` set (layers (db s)) \<and> db t = (db s)\<lparr>layers := layers (db s) @ [r]\<rparr>"
  by (auto dest!: sql_exec_okD simp: insert_layer_def split: if_splits)

lemma commit_freeze_in_txD:
  fixes s t :: "'z reg_st_scheme"
  assumes "commit_freeze_in_tx c p ch lv rw ci h po r s = (Inr l, t)"
  shows "freeze_effect c p ch lv rw ci h po r l (db s) (db t)"
proof -
  obtain row s0 i s1 x1 s2 now s3 n3 s4 x4 s5 now2 s6 n6 where
    row: "sql_query (\<lambda>d. find_key row_id p (branches d)) s = (Inr (Some row), s0)"
      "row_state row = BranchResetting"
    and i: "newID s0 = (Inr i, s1)"
    and ly: "sql_exec (insert_layer \<lparr>lr_id = i, lr_source_id = row_source_id row, lr_volume = lv,
          lr_parent = row_base_layer_id row\<rparr>) s1 = (Inr x1, s2)"
    and n1: "db_now s2 = (Inr now, s3)"
    and up: "sql_exec (update_branches (\<lambda>r. row_id r = p)
          (\<lambda>r. r\<lparr>row_rw_volume := rw, row_base_layer_id := Some i, row_container_id := ci,
                 row_host := h, row_port := po, row_state := BranchReady, row_updated_at := now\<rparr>)) s3 = (Inr n3, s4)"
    and j: "journal c ''branch'' p (branch_state_str BranchResetting) (branch_state_str BranchReady) r s4 = (Inr x4, s5)"
    and n2: "db_now s5 = (Inr now2, s6)"
    and uc: "sql_exec (update_branches (\<lambda>r. row_id r = ch)
          (\<lambda>r. r\<lparr>row_base_layer_id := Some i, row_updated_at := now2\<rparr>)) s6 = (Inr n6, t)" "0 < n6"
    and l: "l = \<lparr>l_ID = i, l_SourceID = row_source_id row, l_Volume = lv,
          l_ParentLayerID = null_string (row_base_layer_id row)\<rparr>"
    using assms unfolding commit_freeze_in_tx_def by (auto simp: ok_simps split: if_splits option.splits)
  obtain a where a: "transition_row_of c p BranchResetting BranchReady r a"
    "db s5 = (db s4)\<lparr>transitions := transitions (db s4) @ [a]\<rparr>"
    using journal_okD [OF j] by (metis transition_row_of_def)
  have fk: "find_key row_id p (branches (db s)) = Some row" and s0: "db s0 = db s"
    using sql_query_okD [OF row(1)] by auto
  have s1: "db s1 = db s" "length i = 16" using newID_okD [OF i] s0 by auto
  have s2: "i \<notin> lr_id ` set (layers (db s))" "db s3 = (db s)\<lparr>layers := layers (db s) @
      [\<lparr>lr_id = i, lr_source_id = row_source_id row, lr_volume = lv, lr_parent = row_base_layer_id row\<rparr>]\<rparr>"
    using insert_layer_runD [OF ly] db_now_okD [OF n1] s1 by auto
  note u = update_branches_runD [OF up] update_branches_runD [OF uc(1)] db_now_okD [OF n2]
  have "\<exists>b \<in> set (branches (db s6)). row_id b = ch" using u uc(2) by (auto simp: count_where_pos)
  then obtain child where "child \<in> set (branches (db s))" "row_id child = ch"
    using u a(2) s2(2) by (auto simp: set_update_where split: if_splits)
  with row(2) fk s1 s2 u a show ?thesis unfolding freeze_effect_def l
    by (intro exI [of _ row] exI [of _ now] exI [of _ now2] exI [of _ a] exI [of _ child]) simp
qed

lemma commit_freeze_effect:
  "CommitFreezeCtx c p ch lv rw ci h po r s = (Inr l, t) \<Longrightarrow> freeze_effect c p ch lv rw ci h po r l (db s) (db t)"
  unfolding CommitFreezeCtx_def using commit_freeze_in_txD by (fastforce dest!: transaction_okD)

text \<open>
  C9: Committing a freeze is atomic: when it returns a layer, the parent was in state resetting, the
  layer is new and continues the parent's chain, parent and child are rebased onto it and one journal
  entry is written; on every error, including a missing child after the layer was inserted, the
  tables are as before.
\<close>

theorem commit_freeze_atomic:
  assumes "CommitFreezeCtx c p ch lv rw ci h po r s = (res, t)"
  shows "case res of Inr l \<Rightarrow> freeze_effect c p ch lv rw ci h po r l (db s) (db t) | Inl e \<Rightarrow> db t = db s"
proof (cases res)
  case (Inl e)
  then show ?thesis using assms transaction_errD unfolding CommitFreezeCtx_def by fastforce
next
  case (Inr l)
  then show ?thesis using assms commit_freeze_effect by auto
qed


section \<open>Every operation keeps the journal\<close>

text \<open>Invariants that look at neither the tables nor the clock are kept by every statement.\<close>

definition db_free :: "('z reg_st_scheme \<Rightarrow> bool) \<Rightarrow> bool" where
  "db_free I \<longleftrightarrow> (\<forall>s d. I (s\<lparr>db := d\<rparr>) = I s)"

lemma db_free_no_faults [simp]: "db_free no_faults"
  by (simp add: db_free_def no_faults_def)

lemma keeps_free_sql_exec [keeps_rules]:
  assumes "env_free I" "db_free I" shows "keeps I (sql_exec f)"
proof -
  have "keeps I (\<lambda>s. case f (db s) of Inl e \<Rightarrow> (Inl e, s) | Inr (x, d) \<Rightarrow> (Inr x, s\<lparr>db := d\<rparr>))"
    using assms(2) by (auto simp: keeps_def db_free_def split: sum.splits)
  then show ?thesis unfolding sql_exec_def using assms by (intro keeps_rules)
qed

lemma keeps_free_in_tx [keeps_rules]:
  assumes "env_free I" "db_free I" "keeps I m" shows "keeps I (in_tx ck m)"
proof -
  have ck: "keeps I (\<lambda>u. case ck (db u) of None \<Rightarrow> (Inr x, u) | Some e \<Rightarrow> (Inl e, u))" for x :: 'c
    by (auto simp: keeps_def split: option.splits)
  have "keeps I (bnd sql (\<lambda>_. bnd m (\<lambda>x. bnd sql (\<lambda>_ u. case ck (db u) of
        None \<Rightarrow> (Inr x, u) | Some e \<Rightarrow> (Inl e, u)))))"
    using assms ck by (intro keeps_rules)
  then show ?thesis using assms(2)
    by (auto simp: keeps_def in_tx_def db_free_def split: prod.splits sum.splits)
qed

lemma keeps_free_transaction [keeps_rules]:
  "env_free I \<Longrightarrow> db_free I \<Longrightarrow> keeps I m \<Longrightarrow> keeps I (transaction m)"
  unfolding transaction_def by (rule keeps_free_in_tx)

lemma keeps_free_journal [keeps_rules]: "env_free I \<Longrightarrow> db_free I \<Longrightarrow> keeps I (journal c e i f g r)"
  unfolding journal_def by (intro keeps_rules)

lemma keeps_free_insert_masks [keeps_rules]: "env_free I \<Longrightarrow> db_free I \<Longrightarrow> keeps I (insert_masks i n xs)"
  by (induction xs arbitrary: n) (simp_all add: keeps_rules)

lemma keeps_free_TransitionBranchCtx [keeps_rules]:
  "env_free I \<Longrightarrow> db_free I \<Longrightarrow> keeps I (TransitionBranchCtx c i st r)"
  unfolding TransitionBranchCtx_def transition_in_tx_def by (intro keeps_rules)

lemmas reg_op_defs = CreateSource_def SetSourceState_def BumpSourceGeneration_def DeleteSource_def
  CreateBranchCtx_def SetBranchPassword_def SetBranchContainer_def TouchBranch_def MarkBranchReadyCtx_def
  SetMaskScripts_def CreateLayer_def DeleteLayer_def CommitFreezeCtx_def commit_freeze_in_tx_def
  CreateAPIToken_def RevokeAPIToken_def ensureInstanceID_def

lemma keeps_free_reg_run: "env_free I \<Longrightarrow> db_free I \<Longrightarrow> keeps I (reg_run x)"
  by (cases x; simp only: reg_run.simps ignore_def reg_op_defs) (intro keeps_rules; assumption?)+


definition jwf :: "tables \<Rightarrow> bool" where
  "jwf d \<longleftrightarrow> wf_tables d \<and> journal_ok d"

lemma jwf_frame:
  assumes "jwf d" "wf_tables d'" "transitions d' = transitions d" "set (branches d') \<subseteq> set (branches d)"
  shows "jwf d'"
  using assms by (auto simp: jwf_def journal_ok_def branch_log_def)

abbreviation keeps_jwf :: "('z reg_st_scheme, 'a) comp \<Rightarrow> bool" where
  "keeps_jwf m \<equiv> keeps (on_db jwf) m"

lemma jwf_wf: "jwf d \<Longrightarrow> wf_tables d"
  by (simp add: jwf_def)

lemma insert_frames:
  "insert_source r d = Inr (x, d') \<Longrightarrow> transitions d' = transitions d \<and> branches d' = branches d"
  "update_sources p f d = Inr (n, d') \<Longrightarrow> transitions d' = transitions d \<and> branches d' = branches d"
  "insert_layer l d = Inr (x, d') \<Longrightarrow> transitions d' = transitions d \<and> branches d' = branches d"
  "delete_layer i d = Inr (n, d') \<Longrightarrow> transitions d' = transitions d \<and> branches d' = branches d"
  "insert_mask m d = Inr (x, d') \<Longrightarrow> transitions d' = transitions d \<and> branches d' = branches d"
  "insert_token k d = Inr (x, d') \<Longrightarrow> transitions d' = transitions d \<and> branches d' = branches d"
  by (auto simp: insert_source_def update_sources_def insert_layer_def delete_layer_def insert_mask_def
      insert_token_def Let_def split: if_splits option.splits)

lemma jwf_update_branches:
  assumes "jwf d" "update_branches p f d = Inr (x, d')" "\<And>r. row_id (f r) = row_id r"
    "\<And>r. row_source_id (f r) = row_source_id r" "\<And>r. row_state (f r) = row_state r"
  shows "jwf d'"
  using assms wf_update_branches [OF jwf_wf [OF assms(1)] assms(2-4)] update_branches_okD [OF assms(2)]
  by (auto simp: jwf_def intro: journal_update_same_state)

lemma keeps_jwf_statements [keeps_rules]:
  "keeps_jwf (sql_exec (insert_source r))"
  "(\<And>r. sr_id (f r) = sr_id r) \<Longrightarrow> keeps_jwf (sql_exec (update_sources p f))"
  "keeps_jwf (sql_exec (insert_layer l))" "keeps_jwf (sql_exec (delete_layer i))"
  "keeps_jwf (sql_exec (insert_mask m))" "keeps_jwf (sql_exec (insert_token k))"
  by (rule keeps_sql_exec, rule jwf_frame, assumption,
      auto simp: jwf_def dest: insert_frames
        intro: wf_insert_source wf_update_sources wf_insert_layer wf_delete_layer wf_insert_mask wf_insert_token)+

lemma keeps_jwf_update_branches [keeps_rules]:
  "(\<And>r. row_id (f r) = row_id r) \<Longrightarrow> (\<And>r. row_source_id (f r) = row_source_id r) \<Longrightarrow>
   (\<And>r. row_state (f r) = row_state r) \<Longrightarrow> keeps_jwf (sql_exec (update_branches p f))"
  by (rule keeps_sql_exec) (rule jwf_update_branches)

lemma keeps_jwf_source_journal [keeps_rules]: "e \<noteq> ''branch'' \<Longrightarrow> keeps_jwf (journal c e i f t r)"
  unfolding journal_def
  by (intro keeps_rules env_free_on_db keeps_sql_exec)
    (auto simp: jwf_def insert_transition_def journal_ok_def wf_tables_def)

lemma keeps_jwf_insert_masks [keeps_rules]: "keeps_jwf (insert_masks i n xs)"
  by (induction xs arbitrary: n) (simp_all add: keeps_rules)

lemma keeps_jwf_TransitionBranchCtx [keeps_rules]: "keeps_jwf (TransitionBranchCtx c i st r)"
proof (rule keepsI)
  fix s :: "'a reg_st_scheme" and res t
  assume s: "on_db jwf s" "TransitionBranchCtx c i st r s = (res, t)"
  have w: "wf_tables (db t)"
    using keepsD [OF keeps_wf_TransitionBranchCtx _ s(2)] s(1) by (simp add: on_db_def jwf_def)
  show "on_db jwf t"
  proof (cases res)
    case (Inl e)
    then have "db t = db s" using s(2) transition_errD by blast
    then show ?thesis using s(1) by (simp add: on_db_def)
  next
    case (Inr x)
    then have "transition_effect c i st r (db s) (db t)"
      using s transition_okD by (auto simp: on_db_def jwf_def)
    then show ?thesis using s(1) w journal_transition_effect by (auto simp: on_db_def jwf_def)
  qed
qed

lemma jwf_freeze_effect:
  assumes "freeze_effect c p ch lv rw ci h po r l d d'" "jwf d"
  shows "journal_ok d'"
proof -
  obtain row now now2 t where row: "find_key row_id p (branches d) = Some row" "row_state row = BranchResetting"
    and t: "transition_row_of c p BranchResetting BranchReady r t"
    and d': "branches d' = update_where (\<lambda>r. row_id r = ch) (\<lambda>r. r\<lparr>row_base_layer_id := Some (l_ID l), row_updated_at := now2\<rparr>)
                 (update_where (\<lambda>r. row_id r = p)
                   (\<lambda>r. r\<lparr>row_rw_volume := rw, row_base_layer_id := Some (l_ID l), row_container_id := ci,
                          row_host := h, row_port := po, row_state := BranchReady, row_updated_at := now\<rparr>) (branches d))"
      "transitions d' = transitions d @ [t]"
    using assms(1) unfolding freeze_effect_def by auto
  define d1 where "d1 = d\<lparr>branches := update_where (\<lambda>r. row_id r = p)
      (\<lambda>r. r\<lparr>row_rw_volume := rw, row_base_layer_id := Some (l_ID l), row_container_id := ci,
             row_host := h, row_port := po, row_state := BranchReady, row_updated_at := now\<rparr>) (branches d),
      transitions := transitions d @ [t]\<rparr>"
  have "journal_ok d1" unfolding d1_def using assms(2) t row(2)
    by (intro journal_moves [OF _ row(1)])
      (auto simp: jwf_def wf_tables_def transition_row_of_def legalBranchTransition_def)
  then have "journal_ok (d1\<lparr>branches := update_where (\<lambda>r. row_id r = ch)
      (\<lambda>r. r\<lparr>row_base_layer_id := Some (l_ID l), row_updated_at := now2\<rparr>) (branches d1)\<rparr>)"
    by (rule journal_update_same_state) simp_all
  then show ?thesis by (rule journal_ok_cong [THEN iffD1, rotated 2]) (simp_all add: d' d1_def)
qed

lemma keeps_jwf_CommitFreezeCtx: "keeps_jwf (CommitFreezeCtx c p ch lv rw ci h po r)"
proof (rule keepsI)
  fix s :: "'a reg_st_scheme" and res t
  assume s: "on_db jwf s" "CommitFreezeCtx c p ch lv rw ci h po r s = (res, t)"
  have w: "wf_tables (db t)"
    using keepsD [OF keeps_wf_CommitFreezeCtx _ s(2)] s(1) by (simp add: on_db_def jwf_def)
  show "on_db jwf t"
  proof (cases res)
    case (Inl e)
    then have "db t = db s" using s(2) transaction_errD unfolding CommitFreezeCtx_def by blast
    then show ?thesis using s(1) by (simp add: on_db_def)
  next
    case (Inr x)
    then have "freeze_effect c p ch lv rw ci h po r x (db s) (db t)"
      using s commit_freeze_effect by (auto simp: on_db_def jwf_def)
    then show ?thesis using s(1) w jwf_freeze_effect by (auto simp: on_db_def jwf_def)
  qed
qed


text \<open>
  \<open>CreateBranchCtx\<close> inserts the row and journals it in two statements with no transaction around
  them, so the invariant needs that the second one does not fail.
\<close>

definition journal_inv :: "'z reg_st_scheme \<Rightarrow> bool" where
  "journal_inv s \<longleftrightarrow> no_faults s \<and> on_db jwf s"

lemma keeps_journal_inv: "keeps no_faults m \<Longrightarrow> keeps_jwf m \<Longrightarrow> keeps journal_inv m"
  unfolding journal_inv_def by (rule keeps_conj)

lemma journal_no_faults:
  assumes "no_faults s"
  shows "\<exists>t. journal c e i f g r s = (Inr (), t)"
  using assms by (auto simp: journal_def db_now_def time_now_def comp_simps Let_def sql_exec_def
      insert_transition_def sql_def no_faults_def)

lemma jwf_create:
  assumes "jwf d" "insert_branch r d = Inr (x, d1)" "row_state r = BranchCreating"
    and "tr_entity a = ''branch''" "tr_entity_id a = row_id r" "tr_from a = []"
      "tr_to a = branch_state_str BranchCreating" "wf_tables (d1\<lparr>transitions := transitions d1 @ [a]\<rparr>)"
  shows "jwf (d1\<lparr>transitions := transitions d1 @ [a]\<rparr>)"
proof -
  have d1: "d1 = d\<lparr>branches := branches d @ [r]\<rparr>" "\<forall>b \<in> set (branches d). row_id b \<noteq> row_id r"
    using assms(2) by (auto simp: insert_branch_def image_iff split: if_splits)
  have "branch_log (d1\<lparr>transitions := transitions d1 @ [a]\<rparr>) j =
      (if j = row_id r then a # branch_log d j else branch_log d j)" for j
    using assms(4,5) by (simp add: branch_log_def d1)
  with assms d1 show ?thesis by (auto simp: jwf_def journal_ok_def)
qed

lemma create_branch_okD:
  assumes "CreateBranchCtx c b s = (Inr b', t)"
  obtains row a d1 where "insert_branch row (db s) = Inr ((), d1)" "row_state row = BranchCreating"
    "row_name row = br_Name b" "row_rw_volume row = br_RWVolume b" "row_source_id row = br_SourceID b"
    "row_source_volume row = br_SourceVolume b" "row_expires_at row = br_ExpiresAt b"
    "row_base_layer_id row = nullable (br_BaseLayerID b)"
    "row_parent_branch_name row = br_ParentBranchName b" "row_password row = []"
    "tr_entity a = ''branch''" "tr_entity_id a = row_id row" "tr_from a = []"
    "tr_to a = branch_state_str BranchCreating" "tr_actor a = actorString c"
    "db t = d1\<lparr>transitions := transitions d1 @ [a]\<rparr>"
    "b' = b\<lparr>br_ID := row_id row, br_State := BranchCreating\<rparr>" "length (row_id row) = 16"
proof -
  obtain i s1 now s2 s3 where i: "newID s = (Inr i, s1)" and now: "db_now s1 = (Inr now, s2)"
    and ins: "sql_exec (insert_branch
         \<lparr>row_id = i, row_name = br_Name b, row_source_id = br_SourceID b, row_state = BranchCreating,
          row_container_id = [], row_rw_volume = br_RWVolume b, row_source_volume = br_SourceVolume b,
          row_expires_at = br_ExpiresAt b, row_host = ''127.0.0.1'',
          row_base_layer_id = nullable (br_BaseLayerID b),
          row_parent_branch_name = br_ParentBranchName b, row_password = [], row_port = 0,
          row_created_at = now, row_updated_at = now\<rparr>) s2 = (Inr (), s3)"
    and j: "journal c ''branch'' i [] (branch_state_str BranchCreating) ''created'' s3 = (Inr (), t)"
    and b': "b' = b\<lparr>br_ID := i, br_State := BranchCreating\<rparr>"
    using assms unfolding CreateBranchCtx_def
    by (auto simp: ok_simps Let_def wrapping_Inr_iff)
  have s2 [simp]: "db s2 = db s" and "length i = 16" using newID_okD [OF i] db_now_okD [OF now] by auto
  moreover obtain a where "tr_entity a = ''branch''" "tr_entity_id a = i" "tr_from a = []"
    "tr_to a = branch_state_str BranchCreating" "tr_actor a = actorString c"
    "db t = (db s3)\<lparr>transitions := transitions (db s3) @ [a]\<rparr>"
    using journal_okD [OF j] by metis
  ultimately show thesis using b' by (intro that [OF sql_exec_okD [OF ins, simplified]]) simp_all
qed

lemma create_branch_errD:
  assumes "CreateBranchCtx c b s = (Inl e, t)" "no_faults s"
  shows "db t = db s"
proof -
  have j: "journal c ''branch'' i [] (branch_state_str BranchCreating) ''created'' u \<noteq> (Inl e, t)"
    if "no_faults u" for i and u :: "'a reg_st_scheme" 
    using journal_no_faults [OF that, of c "''branch''" i "[]" "branch_state_str BranchCreating" "''created''"]
    by auto
  have n: "newID u = (Inr i, v) \<Longrightarrow> db v = db u \<and> no_faults v = no_faults u"
    "db_now u = (Inr i, v) \<Longrightarrow> db v = db u \<and> no_faults v = no_faults u"
    "sql_exec f u = (Inr x, v) \<Longrightarrow> no_faults v = no_faults u"
    for f and x :: unit and i and u v :: "'a reg_st_scheme"
    by (auto simp: newID_def rand_hex_def db_now_def time_now_def sql_exec_def comp_simps Let_def sql_def
        no_faults_def split: option.splits sum.splits)
  show ?thesis
    using assms unfolding CreateBranchCtx_def
    by (auto simp: bnd_Inl_iff ok_run Let_def wrapping_Inl_iff wrapping_Inr_iff newID_errD db_now_errD
        dest!: n sql_exec_errD dest: j [simplified])
qed


lemma keeps_journal_CreateBranchCtx: "keeps journal_inv (CreateBranchCtx c b)"
proof (rule keepsI)
  fix s :: "'a reg_st_scheme" and res t
  assume s: "journal_inv s" "CreateBranchCtx c b s = (res, t)"
  have nf: "no_faults s" "jwf (db s)" using s(1) by (auto simp: journal_inv_def on_db_def)
  have w: "wf_tables (db t)"
    using keepsD [OF keeps_wf_CreateBranchCtx _ s(2)] nf(2) by (simp add: on_db_def jwf_def)
  have "keeps no_faults (CreateBranchCtx c b :: ('a reg_st_scheme, branch) comp)"
    unfolding CreateBranchCtx_def by (intro keeps_rules; simp)
  then have "no_faults t" using nf(1) s(2) by (rule keepsD)
  moreover have "jwf (db t)"
  proof (cases res)
    case (Inl e)
    then show ?thesis using create_branch_errD [of c b s e t] s(2) nf by simp
  next
    case (Inr b')
    show ?thesis
    proof (rule create_branch_okD [OF s(2) [unfolded Inr]], goal_cases)
      case (1 row a d1)
      then show ?case using jwf_create [OF nf(2) 1(1) 1(2) 1(11-14)] w by simp
    qed
  qed
  ultimately show "journal_inv t" by (simp add: journal_inv_def on_db_def)
qed

lemma keeps_jwf_ops:
  "keeps_jwf (CreateSource x)" "keeps_jwf (SetSourceState i st r)" "keeps_jwf (BumpSourceGeneration i v)"
  "keeps_jwf (SetBranchPassword i pw)" "keeps_jwf (SetBranchContainer i ci)" "keeps_jwf (TouchBranch i)"
  "keeps_jwf (MarkBranchReadyCtx c i ci h p)" "keeps_jwf (CreateLayer l)" "keeps_jwf (DeleteLayer i)"
  "keeps_jwf (CreateAPIToken sha n r)"
  unfolding reg_op_defs by (intro keeps_rules env_free_on_db; simp)+

lemma keeps_jwf_plain:
  assumes "\<And>d. wf_tables d \<Longrightarrow> wf_tables (h d)" "\<And>d. transitions (h d) = transitions d"
    "\<And>d. set (branches (h d)) \<subseteq> set (branches d)"
  shows "keeps_jwf (sql_exec (\<lambda>d. Inr (g d, h d)))"
  by (rule keeps_sql_exec) (metis (no_types, lifting) assms jwf_frame jwf_wf old.sum.inject(2) prod.inject)

lemma keeps_jwf_more:
  "keeps_jwf (SetMaskScripts i xs)" "keeps_jwf (RevokeAPIToken n)" "keeps_jwf ensureInstanceID"
  unfolding reg_op_defs
  by (intro keeps_rules env_free_on_db keeps_jwf_plain; simp add: wf_delete_masks wf_delete_tokens wf_meta)+

lemma keeps_jwf_DeleteSource: "keeps_jwf (DeleteSource i)"
proof (rule keepsI)
  fix s :: "'a reg_st_scheme" and res t
  assume s: "on_db jwf s" "DeleteSource i s = (res, t)"
  have w: "wf_tables (db t)"
    using keepsD [OF keeps_wf_DeleteSource _ s(2)] s(1) by (simp add: on_db_def jwf_def)
  have "transitions (db t) = transitions (db s) \<and> set (branches (db t)) \<subseteq> set (branches (db s))"
    using s(2) unfolding DeleteSource_def
    by (cases res) (auto dest!: in_tx_result sql_db sql_exec_plainD simp: ok_simps split: if_splits)
  then show "on_db jwf t" using s(1) w jwf_frame by (auto simp: on_db_def)
qed

lemma keeps_journal_reg_run: "keeps journal_inv (reg_run x)"
proof -
  have "keeps no_faults (reg_run x)" by (rule keeps_free_reg_run) simp_all
  moreover have "keeps_jwf (reg_run x)" if "\<forall>c b. x \<noteq> OpCreateBranch c b"
    using that by (cases x)
      (simp_all add: keeps_jwf_ops keeps_jwf_more keeps_jwf_DeleteSource keeps_jwf_CommitFreezeCtx
        keeps_jwf_TransitionBranchCtx keeps_ignore)
  ultimately show ?thesis
    by (cases x) (auto intro: keeps_journal_inv keeps_ignore keeps_journal_CreateBranchCtx)
qed


interpretation journal_inv: registry_invariant journal_inv
proof unfold_locales
  show "keeps journal_inv (reg_run x)" for x by (rule keeps_journal_reg_run)
  show "env_free journal_inv" by (simp add: env_free_def journal_inv_def on_db_def no_faults_def)
qed

text \<open>
  Whatever operations of the registry run, in whatever order and by whichever caller, its tables
  stay well formed even when statements fail in the middle: ids are unique, two live branches never
  share a name nor two sources that did not fail, every branch has its source, the parent of
  every layer exists and was created before it.
\<close>

theorem registry_stays_well_formed:
  assumes "reg_reach s0 s" "db s0 = empty_tables"
  shows "wf_tables (db s)"
  using reg_reach_wf [OF assms(1)] assms(2) wf_empty_tables by simp

text \<open>
  As long as no statement fails, the journal of every branch is at every moment a path of legal
  transitions that starts at its creation and ends in the state the branch is in.
\<close>

theorem journal_is_legal_path:
  assumes "reg_reach s0 s" "db s0 = empty_tables" "no_faults s0" "b \<in> set (branches (db s))"
  shows "legal_path (branch_log (db s) (row_id b)) (row_state b)"
proof -
  have "journal_inv s0" using assms(2,3) wf_empty_tables
    by (simp add: journal_inv_def on_db_def jwf_def journal_ok_def empty_tables_def)
  then have "journal_inv s" using reg_reach_keeps [OF keeps_journal_reg_run assms(1)] by simp
  then show ?thesis using assms(4) by (simp add: journal_inv_def on_db_def jwf_def journal_ok_def)
qed

subsection \<open>A sample registry\<close>

definition sample_env :: "(nat \<Rightarrow> string option) \<Rightarrow> reg_st" where
  "sample_env f = \<lparr>sql_fault = f, elapse = (\<lambda>_. 0), rand_byte = (\<lambda>n i. n mod 256), ctx_done = (\<lambda>_. False),
     tick = 0, wall = 0, db = empty_tables, instanceID = [], secrets = None\<rparr>"

definition sample_source :: source where
  "sample_source = \<lparr>src_ID = [], src_Name = ''app'', src_PGVersion = ''16'', src_Volume = ''v'',
     src_ConnHost = ''db'', src_ConnUser = ''u'', src_ConnDB = ''app'', src_Network = [], src_SeedVia = [],
     src_DumpSchemas = [], src_ConnPort = 5432, src_Generation = 0, src_State = SourceSeeding, src_CreatedAt = []\<rparr>"

definition sample_branch :: "string \<Rightarrow> branch" where
  "sample_branch sid = \<lparr>br_ID = [], br_Name = ''pr1'', br_SourceID = sid, br_ContainerID = [], br_RWVolume = ''rw'',
     br_SourceVolume = ''v'', br_ExpiresAt = [], br_Host = [], br_BaseLayerID = [], br_ParentBranchName = [],
     br_Password = [], br_Port = 0, br_State = BranchCreating, br_CreatedAt = []\<rparr>"

definition sample_sid :: string where "sample_sid = hex_encode (replicate 8 0)"
definition sample_ops :: "reg_op list" where
  "sample_ops = [OpCreateSource sample_source, OpCreateBranch Background (sample_branch sample_sid)]"

definition run_ops :: "reg_op list \<Rightarrow> 'z reg_st_scheme \<Rightarrow> 'z reg_st_scheme" where
  "run_ops xs s = fold (\<lambda>x t. snd (reg_run x t)) xs s"

lemma run_ops_reach: "reg_reach s0 s \<Longrightarrow> reg_reach s0 (run_ops xs s)"
  by (induction xs arbitrary: s) (auto simp: run_ops_def intro: reg_reach.intros)


definition sample_run :: "reg_st" where
  "sample_run = run_ops sample_ops (sample_env (\<lambda>_. None))"

lemma sample_run_reach: "reg_reach (sample_env (\<lambda>_. None)) sample_run"
  unfolding sample_run_def by (rule run_ops_reach) (rule reg_reach.start)

lemmas sample_simps = sample_env_def sample_source_def sample_branch_def sample_sid_def empty_tables_def
  ignore_def CreateSource_def CreateBranchCtx_def validatePGVersion_def supportedPGVersions_def newID_def
  rand_hex_def db_now_def time_now_def sql_exec_def sql_def
  map_replicate_const journal_def insert_source_def insert_branch_def
  insert_transition_def unique_source_names_def unique_live_names_def live_row_def Let_def comp_simps

lemma sample_run_branch:
  "map (\<lambda>b. (row_id b, row_name b, row_state b)) (branches (db sample_run)) =
     [(hex_encode (replicate 8 5), ''pr1'', BranchCreating)]"
  by (simp add: sample_run_def run_ops_def sample_ops_def sample_simps)

theorem registry_stays_well_formed_witness:
  "db (sample_env (\<lambda>_. None)) = empty_tables \<and> wf_tables (db sample_run) \<and> branches (db sample_run) \<noteq> []"
  using registry_stays_well_formed [OF sample_run_reach] sample_run_branch
  by (auto simp: sample_env_def)

theorem journal_is_legal_path_witness:
  "\<exists>b \<in> set (branches (db sample_run)). row_name b = ''pr1'' \<and>
     legal_path (branch_log (db sample_run) (row_id b)) (row_state b)"
proof -
  obtain b where b: "b \<in> set (branches (db sample_run))" "row_name b = ''pr1''"
    using sample_run_branch by (cases "branches (db sample_run)") auto
  then show ?thesis using journal_is_legal_path [OF sample_run_reach _ _ b(1)]
    by (auto simp: sample_env_def no_faults_def)
qed

text \<open>
  The insert of a branch and its first journal entry are two statements without a transaction:
  when the second one fails, the caller gets an error and the registry keeps a live branch with no
  history at all.
\<close>

theorem create_branch_not_atomic:
  "\<exists>(s :: reg_st) t e. wf_tables (db s) \<and> CreateBranchCtx Background (sample_branch sample_sid) s = (Inl e, t) \<and>
     list_ex (\<lambda>b. live_row b \<and> branch_log (db t) (row_id b) = []) (branches (db t))"
proof -
  define s where "s = snd (reg_run (OpCreateSource sample_source) (sample_env (\<lambda>n. if n = 9 then Some ''disk'' else None)))"
  have "wf_tables (db s)" unfolding s_def
    by (rule reg_reach_wf [OF reg_reach.step [OF reg_reach.start]]) (simp add: sample_env_def wf_empty_tables)
  moreover have "case CreateBranchCtx Background (sample_branch sample_sid) s of
      (Inl e, t) \<Rightarrow> list_ex (\<lambda>b. live_row b \<and> branch_log (db t) (row_id b) = []) (branches (db t))
    | _ \<Rightarrow> False" unfolding s_def by (simp add: sample_simps branch_log_def)
  ultimately show ?thesis by (auto split: prod.splits sum.splits)
qed


text \<open>A parent that is being frozen and its child.\<close>

definition sample_row :: "string \<Rightarrow> string \<Rightarrow> branch_state \<Rightarrow> branch_row" where
  "sample_row i n st = \<lparr>row_id = i, row_name = n, row_source_id = ''s1'', row_state = st, row_container_id = [],
     row_rw_volume = ''pgbranch-br-'' @ n @ ''-rw'', row_source_volume = ''v'', row_expires_at = [], row_host = [],
     row_base_layer_id = None, row_parent_branch_name = [], row_password = [], row_port = 0,
     row_created_at = [], row_updated_at = []\<rparr>"

definition sample_freeze :: reg_st where
  "sample_freeze = (sample_env (\<lambda>_. None))\<lparr>db := empty_tables\<lparr>
     sources := [\<lparr>sr_id = ''s1'', sr_name = ''app'', sr_pg_version = ''16'', sr_volume = ''v'', sr_conn_host = [],
       sr_conn_port = 0, sr_conn_user = [], sr_conn_db = [], sr_network = [], sr_seed_via = [], sr_dump_schemas = [],
       sr_state = SourceReady, sr_generation = 1, sr_created_at = [], sr_updated_at = []\<rparr>],
     branches := [sample_row ''b1'' ''p'' BranchResetting, sample_row ''b2'' ''c'' BranchCreating]\<rparr>\<rparr>"

lemmas tx_simps = TransitionBranchCtx_def transition_in_tx_def CommitFreezeCtx_def commit_freeze_in_tx_def
  transaction_def in_tx_def read_state_def sql_query_def find_key_def update_branches_def update_where_def
  count_where_def legalBranchTransition_def insert_layer_def sample_freeze_def sample_row_def

lemma sample_freeze_wf: "wf_tables (db sample_freeze)"
  by (simp add: sample_freeze_def sample_row_def sample_env_def empty_tables_def wf_tables_def wf_layers_def
      unique_source_names_def unique_live_names_def live_row_def)

theorem transition_is_compare_and_swap_witness:
  "\<exists>t. TransitionBranchCtx Background ''b1'' BranchReady ''done'' sample_freeze = (Inr (), t) \<and>
     transition_effect Background ''b1'' BranchReady ''done'' (db sample_freeze) (db t)"
proof -
  have "fst (TransitionBranchCtx Background ''b1'' BranchReady ''done'' sample_freeze) = Inr ()"
    by (simp add: tx_simps sample_simps)
  then show ?thesis
    using transition_is_compare_and_swap [OF sample_freeze_wf, of Background "''b1''" BranchReady "''done''"]
    by (cases "TransitionBranchCtx Background ''b1'' BranchReady ''done'' sample_freeze") auto
qed

theorem commit_freeze_atomic_witness:
  "\<exists>l t. CommitFreezeCtx Background ''b1'' ''b2'' ''pgbranch-br-p-rw'' ''n'' ''c'' ''h'' 1 ''freeze'' sample_freeze = (Inr l, t) \<and>
     freeze_effect Background ''b1'' ''b2'' ''pgbranch-br-p-rw'' ''n'' ''c'' ''h'' 1 ''freeze'' l (db sample_freeze) (db t)"
proof -
  let ?r = "CommitFreezeCtx Background ''b1'' ''b2'' ''pgbranch-br-p-rw'' ''n'' ''c'' ''h'' 1 ''freeze'' sample_freeze"
  have "\<exists>l. fst ?r = Inr l" by (simp add: tx_simps sample_simps)
  then obtain l where "?r = (Inr l, snd ?r)" by (metis prod.collapse)
  then show ?thesis using commit_freeze_atomic [of Background "''b1''" "''b2''" "''pgbranch-br-p-rw''" "''n''" "''c''" "''h''" 1 "''freeze''"
      sample_freeze "Inr l" "snd ?r"] by fastforce
qed

end
