(* ===== verification/Registry_Layers.thy ===== *)
theory Registry_Layers
  imports Registry_Journal
begin

text \<open>
  Layer chains. The reference notion of a chain is a structural recursion over the layers from the
  newest to the oldest; the loop of \<open>LayerChain\<close> and the recursive query of
  \<open>CountBranchesReferencingLayer\<close> are shown to compute it on well-formed tables.
\<close>

section \<open>Chains\<close>

text \<open>The ids from a base layer down, over the rows newest first; a base without a row is a chain of one.\<close>

fun chain_ids :: "layer_row list \<Rightarrow> string option \<Rightarrow> string list" where
  "chain_ids _ None = []"
| "chain_ids [] (Some i) = [i]"
| "chain_ids (r # rs) (Some i) =
     (if lr_id r = i then i # chain_ids rs (lr_parent r) else chain_ids rs (Some i))"

fun chain_rows :: "layer_row list \<Rightarrow> string option \<Rightarrow> layer_row list" where
  "chain_rows _ None = []"
| "chain_rows [] (Some i) = []"
| "chain_rows (r # rs) (Some i) =
     (if lr_id r = i then r # chain_rows rs (lr_parent r) else chain_rows rs (Some i))"

definition layer_chain_of :: "tables \<Rightarrow> branch_row \<Rightarrow> string list" where
  "layer_chain_of d b = chain_ids (rev (layers d)) (row_base_layer_id b)"

text \<open>The same over a list in which parents come later.\<close>

fun parents_after :: "layer_row list \<Rightarrow> bool" where
  "parents_after [] = True"
| "parents_after (r # rs) = (lr_id r \<notin> lr_id ` set rs \<and>
     (case lr_parent r of None \<Rightarrow> True | Some p \<Rightarrow> p \<in> lr_id ` set rs) \<and> parents_after rs)"

lemma parents_after_rev: "wf_layers ls \<Longrightarrow> parents_after (rev ls)"
  by (induction ls rule: rev_induct)
    (auto simp: wf_layers_def parents_before_append split: option.splits)

lemma parents_after_distinct: "parents_after rs \<Longrightarrow> distinct (map lr_id rs)"
  by (induction rs) auto

lemma parents_after_parent:
  "parents_after rs \<Longrightarrow> r \<in> set rs \<Longrightarrow> lr_parent r = Some p \<Longrightarrow> p \<in> lr_id ` set rs"
  by (induction rs) (auto split: option.splits)

definition parent_rel :: "layer_row list \<Rightarrow> (string \<times> string) set" where
  "parent_rel rs = {(l, p). \<exists>r \<in> set rs. lr_id r = l \<and> lr_parent r = Some p}"

lemma parent_rel_Cons:
  "parent_rel (r # rs) = (case lr_parent r of None \<Rightarrow> {} | Some p \<Rightarrow> {(lr_id r, p)}) \<union> parent_rel rs"
  by (auto simp: parent_rel_def split: option.splits)

lemma chain_ids_length: "length (chain_ids rs i) \<le> Suc (length rs)"
  by (induction rs i rule: chain_ids.induct) auto

lemma chain_ids_hd: "i \<in> set (chain_ids rs (Some i))"
  by (induction rs) auto

lemma parent_rel_range:
  "(x, y) \<in> (parent_rel rs)\<^sup>* \<Longrightarrow> parents_after rs \<Longrightarrow> x = y \<or> y \<in> lr_id ` set rs"
  by (induction rule: rtrancl_induct) (auto simp: parent_rel_def dest: parents_after_parent)

lemma parent_rel_mono: "parent_rel rs \<subseteq> parent_rel (r # rs)"
  by (auto simp: parent_rel_def)

lemma relpow_subset: "R \<subseteq> S \<Longrightarrow> R ^^ k \<subseteq> S ^^ k" for R S :: "('a \<times> 'a) set"
  by (induction k) (auto simp: relcomp.simps subset_eq)

lemma chain_ids_sound: "y \<in> set (chain_ids rs i) \<Longrightarrow> i = Some x \<Longrightarrow> \<exists>k \<le> length rs. (x, y) \<in> parent_rel rs ^^ k"
proof (induction rs i arbitrary: x rule: chain_ids.induct)
  case (3 r rs i)
  have up: "(a, b) \<in> parent_rel rs ^^ k \<Longrightarrow> (a, b) \<in> parent_rel (r # rs) ^^ k" for a b k
    using relpow_subset [OF parent_rel_mono [of rs r]] by blast
  show ?case
  proof (cases "lr_id r = i")
    case False
    then obtain k where "k \<le> length rs" "(x, y) \<in> parent_rel rs ^^ k" using 3(2-4) by auto
    then show ?thesis using up by (intro exI [of _ k]) auto
  next
    case True
    show ?thesis
    proof (cases "y = i")
      case True
      then show ?thesis using 3(4) by (intro exI [of _ 0]) auto
    next
      case False
      then have "y \<in> set (chain_ids rs (lr_parent r))" using 3(3) True by auto
      moreover from this obtain p where p: "lr_parent r = Some p" by (cases "lr_parent r") auto
      ultimately obtain k where "k \<le> length rs" "(p, y) \<in> parent_rel rs ^^ k" using 3(1) True by blast
      moreover have "(x, p) \<in> parent_rel (r # rs)" using p True 3(4) by (auto simp: parent_rel_Cons)
      ultimately have "Suc k \<le> length (r # rs)" "(x, y) \<in> parent_rel (r # rs) ^^ Suc k"
        using up [of p y k] relpow_Suc_I2 by auto
      then show ?thesis by blast
    qed
  qed
qed auto

lemma chain_ids_closed:
  assumes "parents_after rs" "y \<in> set (chain_ids rs i)" "(y, z) \<in> parent_rel rs"
  shows "z \<in> set (chain_ids rs i)"
  using assms
proof (induction rs i rule: chain_ids.induct)
  case (3 r rs i)
  show ?case
  proof (cases "lr_id r = i")
    case True
    show ?thesis
    proof (cases "y = i")
      case True
      moreover have "(i, z) \<notin> parent_rel rs" using 3(3) \<open>lr_id r = i\<close>
        by (auto simp: parent_rel_def image_iff)
      ultimately have "lr_parent r = Some z" using 3(5) \<open>lr_id r = i\<close>
        by (auto simp: parent_rel_Cons split: option.splits)
      then show ?thesis using \<open>lr_id r = i\<close> chain_ids_hd by auto
    next
      case False
      then have "y \<in> set (chain_ids rs (lr_parent r))" using 3(4) True by auto
      moreover have "(y, z) \<in> parent_rel rs" using 3(5) False True by (auto simp: parent_rel_Cons split: option.splits)
      ultimately show ?thesis using 3(1,3) True by auto
    qed
  next
    case False
    show ?thesis
    proof (cases "y = lr_id r")
      case True
      have "y \<in> set (chain_ids rs (Some i))" using 3(4) False by simp
      then obtain k where "(i, y) \<in> parent_rel rs ^^ k" using chain_ids_sound by blast
      then have "(i, y) \<in> (parent_rel rs)\<^sup>*" by (rule relpow_imp_rtrancl)
      then have "i = y \<or> y \<in> lr_id ` set rs" using 3(3) parent_rel_range by auto
      then show ?thesis using True False 3(3) by auto
    next
      case False
      then have "(y, z) \<in> parent_rel rs" using 3(5) by (auto simp: parent_rel_Cons split: option.splits)
      then show ?thesis using 3(2,3,4) \<open>lr_id r \<noteq> i\<close> by auto
    qed
  qed
qed (auto simp: parent_rel_def)


lemma chain_ids_iff:
  assumes "parents_after rs"
  shows "y \<in> set (chain_ids rs (Some x)) \<longleftrightarrow> (\<exists>k \<le> length rs. (x, y) \<in> parent_rel rs ^^ k)"
proof
  show "y \<in> set (chain_ids rs (Some x)) \<Longrightarrow> \<exists>k \<le> length rs. (x, y) \<in> parent_rel rs ^^ k"
    using chain_ids_sound by blast
  assume "\<exists>k \<le> length rs. (x, y) \<in> parent_rel rs ^^ k"
  then have "(x, y) \<in> (parent_rel rs)\<^sup>*" using relpow_imp_rtrancl by blast
  then show "y \<in> set (chain_ids rs (Some x))"
    by (induction rule: rtrancl_induct) (auto intro: chain_ids_hd chain_ids_closed [OF assms])
qed

section \<open>The recursive query\<close>

definition ref_step :: "tables \<Rightarrow> (string \<times> string) \<Rightarrow> (string \<times> string) \<Rightarrow> bool" where
  "ref_step d p q \<longleftrightarrow> fst p = fst q \<and> (snd p, snd q) \<in> parent_rel (layers d)"

lemma ref_steps_fst: "(ref_step d)\<^sup>*\<^sup>* p q \<Longrightarrow> fst p = fst q"
  by (induction rule: rtranclp_induct) (auto simp: ref_step_def)

lemma set_parents_of: "set (parents_of d l) = {p. (l, p) \<in> parent_rel (layers d)}"
  by (force simp: parents_of_def parent_rel_def)

lemma refs_new_set: "set (refs_new d refs) = {q. (\<exists>p \<in> set refs. ref_step d p q) \<and> q \<notin> set refs}"
  by (force simp: refs_new_def ref_step_def set_parents_of)

lemma refs_rounds_sound: "q \<in> set (refs_rounds n d refs) \<Longrightarrow> \<exists>p \<in> set refs. (ref_step d)\<^sup>*\<^sup>* p q"
proof (induction n d refs rule: refs_rounds.induct)
  case (2 n d refs)
  show ?case
  proof (cases "refs_new d refs = []")
    case True
    then show ?thesis using 2 by auto
  next
    case False
    then obtain p where p: "p \<in> set (refs @ remdups (refs_new d refs))" "(ref_step d)\<^sup>*\<^sup>* p q"
      using 2 by (auto simp: Let_def)
    then show ?thesis
      using refs_new_set [of d refs] by (auto intro: converse_rtranclp_into_rtranclp)
  qed
qed auto

lemma refs_rounds_complete:
  "p \<in> set refs \<Longrightarrow> k \<le> n \<Longrightarrow> (ref_step d ^^ k) p q \<Longrightarrow> q \<in> set (refs_rounds n d refs)"
proof (induction n d refs arbitrary: p k rule: refs_rounds.induct)
  case (2 n d refs)
  show ?case
  proof (cases "refs_new d refs = []")
    case True
    then have cl: "a \<in> set refs \<Longrightarrow> ref_step d a b \<Longrightarrow> b \<in> set refs" for a b
      using refs_new_set [of d refs] by (cases b) auto
    have "q \<in> set refs" using 2(4) 2(2)
      by (induction k arbitrary: q) (auto dest: cl)
    then show ?thesis using True by simp
  next
    case False
    show ?thesis
    proof (cases k)
      case 0
      then have "p = q" using 2(4) by simp
      moreover have "q \<in> set (refs_rounds n d (refs @ remdups (refs_new d refs)))"
        using 2(1) [OF refl False, of q 0] 2(2) \<open>p = q\<close> by simp
      ultimately show ?thesis using False by (simp add: Let_def)
    next
      case (Suc j)
      then obtain p' where p': "ref_step d p p'" "(ref_step d ^^ j) p' q"
        using 2(4) relpowp_Suc_D2 by metis
      then have "p' \<in> set (refs @ remdups (refs_new d refs))"
        using 2(2) refs_new_set [of d refs] by auto
      then show ?thesis using 2(1) [OF refl False] 2(3) p'(2) Suc False by (simp add: Let_def)
    qed
  qed
qed auto


lemma refs_rounds_iff:
  assumes "wf_layers (layers d)" "p \<in> set refs" "\<And>p'. p' \<in> set refs \<Longrightarrow> fst p' = fst p \<Longrightarrow> p' = p"
  shows "(fst p, l) \<in> set (refs_rounds (length (layers d)) d refs) \<longleftrightarrow>
    l \<in> set (chain_ids (rev (layers d)) (Some (snd p)))"
proof -
  have pr: "parent_rel (rev (layers d)) = parent_rel (layers d)" by (simp add: parent_rel_def)
  have step: "(ref_step d ^^ k) a b \<longleftrightarrow> fst a = fst b \<and> (snd a, snd b) \<in> parent_rel (layers d) ^^ k" for k a b
  proof (induction k arbitrary: b)
    case (Suc k)
    then show ?case by (auto simp: relcompp.simps relcomp.simps ref_step_def prod_eq_iff)
  qed (auto simp: prod_eq_iff)
  have "l \<in> set (chain_ids (rev (layers d)) (Some (snd p))) \<longleftrightarrow>
      (\<exists>k \<le> length (layers d). (ref_step d ^^ k) p (fst p, l))"
    using chain_ids_iff [OF parents_after_rev [OF assms(1)], of l "snd p"] by (simp add: pr step)
  moreover have "(fst p, l) \<in> set (refs_rounds (length (layers d)) d refs) \<Longrightarrow>
      \<exists>k \<le> length (layers d). (ref_step d ^^ k) p (fst p, l)"
  proof -
    assume "(fst p, l) \<in> set (refs_rounds (length (layers d)) d refs)"
    then obtain p' where p': "p' \<in> set refs" "(ref_step d)\<^sup>*\<^sup>* p' (fst p, l)" using refs_rounds_sound by blast
    then obtain k where k: "(ref_step d ^^ k) p' (fst p, l)" by (auto dest: rtranclp_imp_relpowp)
    then have "p' = p" using assms(3) p'(1) by (auto simp: step)
    with k have "(snd p, l) \<in> (parent_rel (layers d))\<^sup>*" by (auto simp: step intro: relpow_imp_rtrancl)
    then have "l \<in> set (chain_ids (rev (layers d)) (Some (snd p)))"
      by (induction rule: rtrancl_induct)
        (auto intro: chain_ids_hd chain_ids_closed [OF parents_after_rev [OF assms(1)]] simp: pr)
    with calculation show ?thesis by simp
  qed
  ultimately show ?thesis using refs_rounds_complete [OF assms(2)] by blast
qed

lemma refs_init_set:
  "p \<in> set (refs_init d) \<longleftrightarrow>
   (\<exists>b \<in> set (branches d). live_row b \<and> row_base_layer_id b = Some (snd p) \<and> row_id b = fst p)"
  by (cases p) (force simp: refs_init_def)

lemma refcount_exact:
  assumes "wf_tables (db s)" "CountBranchesReferencingLayer l s = (Inr n, t)"
  shows "n = count_where (\<lambda>b. live_row b \<and> l \<in> set (layer_chain_of (db s) b)) (branches (db s))"
proof -
  let ?d = "db s"
  let ?refs = "refs_rounds (length (layers ?d)) ?d (refs_init ?d)"
  have dist: "distinct (map row_id (branches ?d))" and wl: "wf_layers (layers ?d)"
    using assms(1) by (auto simp: wf_tables_def)
  have inj: "row_id b = row_id b' \<Longrightarrow> b \<in> set (branches ?d) \<Longrightarrow> b' \<in> set (branches ?d) \<Longrightarrow> b = b'" for b b'
    using dist by (auto simp: distinct_map dest: inj_onD)
  have un: "p \<in> set (refs_init ?d) \<Longrightarrow> q \<in> set (refs_init ?d) \<Longrightarrow> fst q = fst p \<Longrightarrow> q = p" for p q
    unfolding refs_init_set by (metis inj option.inject prod_eqI)
  have mem: "(i, l) \<in> set ?refs \<longleftrightarrow>
      (\<exists>b \<in> set (branches ?d). live_row b \<and> l \<in> set (layer_chain_of ?d b) \<and> row_id b = i)" for i
  proof
    assume i: "(i, l) \<in> set ?refs"
    then obtain p where p: "p \<in> set (refs_init ?d)" "(ref_step ?d)\<^sup>*\<^sup>* p (i, l)" using refs_rounds_sound by blast
    then have fp: "fst p = i" using ref_steps_fst by fastforce
    with i have "l \<in> set (chain_ids (rev (layers ?d)) (Some (snd p)))"
      using refs_rounds_iff [OF wl p(1)] un p(1) by blast
    with p(1) fp show "\<exists>b \<in> set (branches ?d). live_row b \<and> l \<in> set (layer_chain_of ?d b) \<and> row_id b = i"
      by (auto simp: refs_init_set layer_chain_of_def)
  next
    assume "\<exists>b \<in> set (branches ?d). live_row b \<and> l \<in> set (layer_chain_of ?d b) \<and> row_id b = i"
    then obtain b x where b: "b \<in> set (branches ?d)" "live_row b" "row_id b = i" "row_base_layer_id b = Some x"
      "l \<in> set (chain_ids (rev (layers ?d)) (Some x))"
      by (metis chain_ids.simps(1) empty_iff layer_chain_of_def list.set(1) option.exhaust)
    then have p: "(i, x) \<in> set (refs_init ?d)" by (auto simp: refs_init_set)
    from refs_rounds_iff [OF wl p, of l] un [OF p] b(5) show "(i, l) \<in> set ?refs" by auto
  qed
  have "n = card (fst ` {q \<in> set ?refs. snd q = l})"
    using assms(2) unfolding CountBranchesReferencingLayer_def
    by (auto dest!: sql_query_okD simp: split_beta)
  also have "fst ` {q \<in> set ?refs. snd q = l} = {i. (i, l) \<in> set ?refs}" by force
  also have "\<dots> = row_id ` set (filter (\<lambda>b. live_row b \<and> l \<in> set (layer_chain_of ?d b)) (branches ?d))"
    by (auto simp: mem)
  also have "card \<dots> = count_where (\<lambda>b. live_row b \<and> l \<in> set (layer_chain_of ?d b)) (branches ?d)"
    using dist unfolding count_where_def
    by (metis (no_types, lifting) distinct_card distinct_map_filter length_map list.set_map)
  finally show ?thesis .
qed

text \<open>
  C11: The recursive query that guards the garbage collection of layers counts exactly the live
  branches whose chain, from the base layer down over parent layers, contains the layer.
\<close>

theorem layer_refcount_is_exact:
  assumes "wf_tables (db s)" "CountBranchesReferencingLayer l s = (Inr n, t)"
  shows "n = count_where (\<lambda>b. live_row b \<and> l \<in> set (layer_chain_of (db s) b)) (branches (db s))"
  by (rule refcount_exact [OF assms])


section \<open>The loop of \<open>LayerChain\<close>\<close>

lemma chain_rows_ids:
  "parents_after rs \<Longrightarrow> (case i of None \<Rightarrow> True | Some x \<Rightarrow> x \<in> lr_id ` set rs) \<Longrightarrow>
   map lr_id (chain_rows rs i) = chain_ids rs i"
  by (induction rs i rule: chain_rows.induct) (auto split: option.splits)

lemma chain_rows_length: "length (chain_rows rs i) \<le> length rs"
  by (induction rs i rule: chain_rows.induct) auto

lemma chain_rows_subset: "set (chain_rows rs i) \<subseteq> set rs"
  by (induction rs i rule: chain_rows.induct) auto

lemma chain_rows_distinct: "distinct (map lr_id rs) \<Longrightarrow> distinct (map lr_id (chain_rows rs i))"
  by (induction rs i rule: chain_rows.induct) (use chain_rows_subset in force)+

lemma chain_rows_None [simp]: "chain_rows rs None = []"
  by (cases rs) auto

lemma chain_rows_find:
  assumes "parents_after rs" "find_key lr_id i rs = Some r"
  shows "chain_rows rs (Some i) = r # chain_rows rs (lr_parent r)"
  using assms
proof (induction rs)
  case (Cons x rs)
  have skip: "chain_rows (x # rs) (lr_parent y) = chain_rows rs (lr_parent y)" if "y \<in> set (x # rs)" for y
  proof (cases "lr_parent y")
    case (Some p)
    have "p \<in> lr_id ` set rs"
    proof (cases "y = x")
      case True
      then show ?thesis using Cons.prems(1) Some by simp
    next
      case False
      then show ?thesis using that Cons.prems(1) Some parents_after_parent by auto
    qed
    then show ?thesis using Cons.prems(1) Some by auto
  qed simp
  show ?case
  proof (cases "lr_id x = i")
    case True
    then show ?thesis using Cons.prems skip [of x] by (auto simp: find_key_def)
  next
    case False
    then have f: "find_key lr_id i rs = Some r" using Cons.prems(2) by (simp add: find_key_def)
    then have "r \<in> set rs" by (auto dest: find_key_SomeD)
    with f False Cons skip [of r] show ?thesis by simp
  qed
qed (simp add: find_key_def)

lemma GetLayer_run:
  assumes "no_faults s" "find_key lr_id i (layers (db s)) = Some r"
  shows "GetLayer i s = (Inr (scanLayer r), s\<lparr>tick := Suc (tick s)\<rparr>)"
  using assms by (simp add: GetLayer_def sql_query_def sql_no_faults comp_simps)

lemma null_string_scan: "l_ParentLayerID (scanLayer r) = null_string (lr_parent r)"
  by (simp add: scanLayer_def)

lemma layer_chain_loop_run:
  assumes "wf_layers (layers (db s))" "[] \<notin> lr_id ` set (layers (db s))" "no_faults s"
    and "case i of None \<Rightarrow> True | Some x \<Rightarrow> x \<in> lr_id ` set (layers (db s))"
    and "length (chain_rows (rev (layers (db s))) i) \<le> fuel"
  shows "\<exists>t. layer_chain_loop fuel n (null_string i) s =
    (Inr (map scanLayer (chain_rows (rev (layers (db s))) i)), t)"
  using assms
proof (induction fuel arbitrary: i s)
  case 0
  have "i = None"
  proof (rule ccontr)
    assume "i \<noteq> None"
    then obtain x where x: "i = Some x" "x \<in> lr_id ` set (rev (layers (db s)))" using 0(4) by auto
    then have "length (map lr_id (chain_rows (rev (layers (db s))) i)) = length (chain_ids (rev (layers (db s))) i)"
      using chain_rows_ids [OF parents_after_rev [OF 0(1)], of i] by simp
    then show False using 0(5) chain_ids_hd [of x "rev (layers (db s))"] x(1) by auto
  qed
  then show ?case by (simp add: layer_chain_loop.simps null_string_def ok_run)
next
  case (Suc fuel)
  show ?case
  proof (cases i)
    case None
    then show ?thesis by (simp add: layer_chain_loop.simps null_string_def ok_run)
  next
    case (Some x)
    then obtain r where r: "r \<in> set (layers (db s))" "lr_id r = x" using Suc.prems(4) by auto
    have dist: "distinct (map lr_id (layers (db s)))" using Suc.prems(1) by (simp add: wf_layers_def)
    have f: "find_key lr_id x (layers (db s)) = Some r" "find_key lr_id x (rev (layers (db s))) = Some r"
      using r dist by (simp_all add: find_key_Some_iff rev_map [symmetric])
    have cr: "chain_rows (rev (layers (db s))) i = r # chain_rows (rev (layers (db s))) (lr_parent r)"
      using chain_rows_find [OF parents_after_rev [OF Suc.prems(1)] f(2)] Some by simp
    let ?s = "s\<lparr>tick := Suc (tick s)\<rparr>"
    have "\<exists>t. layer_chain_loop fuel n (null_string (lr_parent r)) ?s =
        (Inr (map scanLayer (chain_rows (rev (layers (db ?s))) (lr_parent r))), t)"
    proof (rule Suc.IH)
      show "no_faults ?s" using Suc.prems(3) by (simp add: no_faults_def)
      show "case lr_parent r of None \<Rightarrow> True | Some p \<Rightarrow> p \<in> lr_id ` set (layers (db ?s))"
        using wf_layers_parent [OF Suc.prems(1) r(1)] by (auto split: option.splits)
    qed (use Suc.prems cr in auto)
    moreover have "x \<noteq> []" using Suc.prems(2) r by (metis image_eqI)
    ultimately show ?thesis using Some GetLayer_run [OF Suc.prems(3) f(1)] cr
      by (subst layer_chain_loop.simps) (auto simp: null_string_def comp_simps null_string_scan)
  qed
qed

text \<open>
  The loop over parent layers ends: with no failing statement, \<open>LayerChain\<close> of a branch whose base layer
  exists returns the chain from the base layer to the oldest one, each layer at most once.
\<close>

theorem layer_chain_returns:
  assumes "wf_tables (db s)" "[] \<notin> lr_id ` set (layers (db s))" "no_faults s"
    and "find_key row_id i (branches (db s)) = Some b" "scanBranch (secrets s) b = Inr br"
    and "case row_base_layer_id b of None \<Rightarrow> True | Some x \<Rightarrow> x \<in> lr_id ` set (layers (db s))"
  shows "\<exists>ls t. LayerChain i s = (Inr ls, t) \<and> map l_ID ls = layer_chain_of (db s) b \<and> distinct (map l_ID ls)"
proof -
  have wl: "wf_layers (layers (db s))" using assms(1) by (simp add: wf_tables_def)
  let ?s = "s\<lparr>tick := Suc (tick s)\<rparr>"
  let ?rows = "chain_rows (rev (layers (db s))) (row_base_layer_id b)"
  have "find (\<lambda>r. row_id r = i) (branches (db s)) = Some b" using assms(4) by (simp add: find_key_def)
  then have gb: "getBranch (\<lambda>r. row_id r = i) s = (Inr br, ?s)"
    using assms(3,5) by (simp add: getBranch_def sql_query_def sql_no_faults comp_simps)
  have base: "br_BaseLayerID br = null_string (row_base_layer_id b)"
    using assms(5) by (auto simp: scanBranch_def split: sum.splits)
  have "\<exists>t. layer_chain_loop (length (layers (db ?s))) (br_Name br) (null_string (row_base_layer_id b)) ?s =
      (Inr (map scanLayer (chain_rows (rev (layers (db ?s))) (row_base_layer_id b))), t)"
    by (rule layer_chain_loop_run) (use assms wl chain_rows_length [of "rev (layers (db s))"] in \<open>auto simp: no_faults_def split: option.splits\<close>)
  then obtain t where "LayerChain i s = (Inr (map scanLayer ?rows), t)"
    by (auto simp: LayerChain_def comp_simps gb base)
  moreover have "map l_ID (map scanLayer ?rows) = map lr_id ?rows" by (simp add: scanLayer_def)
  moreover have "map lr_id ?rows = layer_chain_of (db s) b" unfolding layer_chain_of_def
    by (rule chain_rows_ids [OF parents_after_rev [OF wl]]) (use assms(6) in \<open>auto split: option.splits\<close>)
  moreover have "distinct (map lr_id ?rows)"
    using wl by (intro chain_rows_distinct) (simp add: wf_layers_def rev_map [symmetric])
  ultimately show ?thesis by metis
qed


text \<open>
  After a freeze commits, parent and child both stand on the new layer, above exactly the chain
  the parent had before, and every other branch whose base layer exists keeps its chain.
\<close>

theorem freeze_extends_chain:
  assumes "wf_tables (db s)" "CommitFreezeCtx c p ch lv rw ci h po r s = (Inr l, t)" "p \<noteq> ch"
    and "find_key row_id p (branches (db s)) = Some row" "b \<in> set (branches (db t))"
  shows "if row_id b \<in> {p, ch} then layer_chain_of (db t) b = l_ID l # layer_chain_of (db s) row
    else b \<in> set (branches (db s)) \<and> (row_base_layer_id b \<in> Some ` lr_id ` set (layers (db s)) \<longrightarrow>
      layer_chain_of (db t) b = layer_chain_of (db s) b)"
proof -
  obtain now now2 where l: "l_ID l \<notin> lr_id ` set (layers (db s))"
    and d: "layers (db t) = layers (db s) @ [\<lparr>lr_id = l_ID l, lr_source_id = row_source_id row,
        lr_volume = lv, lr_parent = row_base_layer_id row\<rparr>]"
      "branches (db t) = update_where (\<lambda>r. row_id r = ch) (\<lambda>r. r\<lparr>row_base_layer_id := Some (l_ID l), row_updated_at := now2\<rparr>)
        (update_where (\<lambda>r. row_id r = p) (\<lambda>r. r\<lparr>row_rw_volume := rw, row_base_layer_id := Some (l_ID l),
          row_container_id := ci, row_host := h, row_port := po, row_state := BranchReady, row_updated_at := now\<rparr>)
          (branches (db s)))"
  proof -
    obtain row' now now2 a where "find_key row_id p (branches (db s)) = Some row'"
      and "l_ID l \<notin> lr_id ` set (layers (db s))" and
      "db t = (db s)\<lparr>layers := layers (db s) @ [\<lparr>lr_id = l_ID l, lr_source_id = row_source_id row',
        lr_volume = lv, lr_parent = row_base_layer_id row'\<rparr>],
      branches := update_where (\<lambda>r. row_id r = ch) (\<lambda>r. r\<lparr>row_base_layer_id := Some (l_ID l), row_updated_at := now2\<rparr>)
        (update_where (\<lambda>r. row_id r = p) (\<lambda>r. r\<lparr>row_rw_volume := rw, row_base_layer_id := Some (l_ID l),
          row_container_id := ci, row_host := h, row_port := po, row_state := BranchReady, row_updated_at := now\<rparr>)
          (branches (db s))), transitions := transitions (db s) @ [a]\<rparr>"
      using commit_freeze_effect [OF assms(2)] unfolding freeze_effect_def by blast
    then show thesis using assms(4) by (intro that) simp_all
  qed
  define f where "f = (\<lambda>r. r\<lparr>row_rw_volume := rw, row_base_layer_id := Some (l_ID l),
          row_container_id := ci, row_host := h, row_port := po, row_state := BranchReady, row_updated_at := now\<rparr> :: branch_row)"
  define g where "g = (\<lambda>r. r\<lparr>row_base_layer_id := Some (l_ID l), row_updated_at := now2\<rparr> :: branch_row)"
  have fg: "row_id (f x) = row_id x" "row_id (g x) = row_id x" "row_base_layer_id (f x) = Some (l_ID l)"
    "row_base_layer_id (g x) = Some (l_ID l)" for x by (simp_all add: f_def g_def)
  obtain b0 x where b0: "b0 \<in> set (branches (db s))" "x = (if row_id b0 = p then f b0 else b0)"
    "b = (if row_id x = ch then g x else x)"
    using assms(5) unfolding d(2) f_def [symmetric] g_def [symmetric] set_update_where by auto
  have "row_id b \<in> {p, ch} \<Longrightarrow> row_base_layer_id b = Some (l_ID l)" "row_id b \<notin> {p, ch} \<Longrightarrow> b = b0"
    using b0(2,3) by (auto simp: fg split: if_splits)
  then show ?thesis using b0(1) l by (auto simp: layer_chain_of_def d(1))
qed

subsection \<open>Witnesses\<close>

definition sample_layers :: reg_st where
  "sample_layers = sample_freeze\<lparr>db := (db sample_freeze)\<lparr>
     layers := [\<lparr>lr_id = ''l1'', lr_source_id = ''s1'', lr_volume = ''v1'', lr_parent = None\<rparr>,
                \<lparr>lr_id = ''l2'', lr_source_id = ''s1'', lr_volume = ''v2'', lr_parent = Some ''l1''\<rparr>],
     branches := [(sample_row ''b1'' ''p'' BranchResetting)\<lparr>row_base_layer_id := Some ''l2''\<rparr>,
       sample_row ''b2'' ''c'' BranchCreating]\<rparr>\<rparr>"

lemma sample_layers_wf: "wf_tables (db sample_layers)"
  by (simp add: sample_layers_def sample_freeze_def sample_row_def sample_env_def empty_tables_def wf_tables_def
      wf_layers_def unique_source_names_def unique_live_names_def live_row_def)

lemma sample_layers_no_faults: "no_faults sample_layers"
  by (simp add: no_faults_def sample_layers_def sample_freeze_def sample_env_def)

lemma sample_chain:
  "layer_chain_of (db sample_layers) ((sample_row ''b1'' ''p'' BranchResetting)\<lparr>row_base_layer_id := Some ''l2''\<rparr>) =
     [''l2'', ''l1'']"
  by (simp add: layer_chain_of_def sample_layers_def)

theorem layer_refcount_is_exact_witness:
  "\<exists>t. CountBranchesReferencingLayer ''l1'' sample_layers = (Inr 1, t)"
proof -
  obtain n t where n: "CountBranchesReferencingLayer ''l1'' sample_layers = (Inr n, t)"
    using sql_no_faults [OF sample_layers_no_faults]
    by (auto simp: CountBranchesReferencingLayer_def sql_query_def comp_simps)
  moreover have "n = 1" using layer_refcount_is_exact [OF sample_layers_wf n]
    by (simp add: sample_layers_def sample_row_def count_where_def live_row_def layer_chain_of_def)
  ultimately show ?thesis by blast
qed

theorem layer_chain_returns_witness:
  "\<exists>ls t. LayerChain ''b1'' sample_layers = (Inr ls, t) \<and> map l_ID ls = [''l2'', ''l1'']"
proof -
  have "\<exists>ls t. LayerChain ''b1'' sample_layers = (Inr ls, t) \<and>
      map l_ID ls = layer_chain_of (db sample_layers) ((sample_row ''b1'' ''p'' BranchResetting)\<lparr>row_base_layer_id := Some ''l2''\<rparr>) \<and>
      distinct (map l_ID ls)"
    by (rule layer_chain_returns [OF sample_layers_wf _ sample_layers_no_faults])
      (auto simp: sample_layers_def sample_freeze_def sample_env_def sample_row_def find_key_def scanBranch_def
        decryptColumn_def decrypt_def encPrefix_def has_prefix_def)
  then show ?thesis unfolding sample_chain by auto
qed

theorem freeze_extends_chain_witness:
  "\<exists>l t b. CommitFreezeCtx Background ''b1'' ''b2'' ''v3'' ''n'' ''c'' ''h'' 1 ''freeze'' sample_layers = (Inr l, t) \<and>
     b \<in> set (branches (db t)) \<and> row_id b = ''b2'' \<and> layer_chain_of (db t) b = [l_ID l, ''l2'', ''l1'']"
proof -
  define r where "r = CommitFreezeCtx Background ''b1'' ''b2'' ''v3'' ''n'' ''c'' ''h'' 1 ''freeze'' sample_layers"
  have hex: "length xs = 8 \<Longrightarrow> hex_encode xs \<noteq> ''l1'' \<and> hex_encode xs \<noteq> ''l2''" for xs
    using hex_encode_length [of xs] by auto
  have "\<exists>l. fst r = Inr l" by (simp add: r_def tx_simps sample_simps sample_layers_def hex)
  then obtain l where l: "CommitFreezeCtx Background ''b1'' ''b2'' ''v3'' ''n'' ''c'' ''h'' 1 ''freeze'' sample_layers = (Inr l, snd r)"
    unfolding r_def by (metis prod.collapse)
  have "''b2'' \<in> row_id ` set (branches (db (snd r)))"
    by (simp add: r_def tx_simps sample_simps sample_layers_def hex)
  then obtain b where b: "b \<in> set (branches (db (snd r)))" "row_id b = ''b2''" by auto
  have "find_key row_id ''b1'' (branches (db sample_layers)) =
      Some ((sample_row ''b1'' ''p'' BranchResetting)\<lparr>row_base_layer_id := Some ''l2''\<rparr>)"
    by (simp add: sample_layers_def find_key_def sample_row_def)
  from freeze_extends_chain [OF sample_layers_wf l _ this b(1)] b l
  show ?thesis unfolding sample_chain by auto
qed

end
