(* ===== verification/Registry_Access.thy ===== *)
theory Registry_Access
  imports Registry_Layers
begin

text \<open>
  What callers read back from the registry: the password stored for a branch, and the actor an API
  token stands for between its creation and its revocation.
\<close>

section \<open>Branch passwords\<close>

lemma find_live_name:
  assumes "unique_live_names rows" "r \<in> set rows" "live_row r"
  shows "find (\<lambda>x. row_name x = row_name r \<and> row_state x \<noteq> BranchDestroyed) rows = Some r"
proof -
  have "find (\<lambda>x. row_name x = row_name r \<and> row_state x \<noteq> BranchDestroyed) rows =
      find_key row_name (row_name r) (filter live_row rows)"
    unfolding find_key_def by (induction rows) (auto simp: live_row_def)
  also have "\<dots> = Some r" using assms by (subst find_key_Some_iff) (auto simp: unique_live_names_def)
  finally show ?thesis .
qed

lemma encrypt_frame: "encrypt box p s = (Inr c, t) \<Longrightarrow> db t = db s \<and> secrets t = secrets s \<and> sql_fault t = sql_fault s"
  for s :: "'z reg_st_scheme"
  by (auto simp: encrypt_def rand_bytes_def comp_simps Let_def split: option.splits if_splits)

lemma set_password_okD:
  assumes "SetBranchPassword i p s = (Inr (), t)"
  obtains c u now where "encrypt (secrets s) p s = (Inr c, u)" "secrets t = secrets s" "sql_fault t = sql_fault s"
    "db t = (db s)\<lparr>branches := update_where (\<lambda>r. row_id r = i) (\<lambda>r. r\<lparr>row_password := c, row_updated_at := now\<rparr>) (branches (db s))\<rparr>"
    "unique_live_names (branches (db t))"
proof -
  obtain c u now v n where c: "encrypt (secrets s) p s = (Inr c, u)" and now: "db_now u = (Inr now, v)"
    and up: "sql_exec (update_branches (\<lambda>r. row_id r = i) (\<lambda>r. r\<lparr>row_password := c, row_updated_at := now\<rparr>)) v = (Inr n, t)"
    using assms unfolding SetBranchPassword_def
    by (auto simp: bnd_Inr_iff gets_run wrapping_Inr_iff ok_run raise_run split: if_splits)
  have v: "db v = db s" "secrets v = secrets s" "sql_fault v = sql_fault s"
    using encrypt_frame [OF c] now by (auto simp: db_now_def time_now_def comp_simps Let_def)
  have "secrets t = secrets v \<and> sql_fault t = sql_fault v"
    using up by (auto simp: sql_exec_def comp_simps sql_def split: option.splits sum.splits prod.splits)
  moreover have "unique_live_names (branches (db t))"
    using sql_exec_okD [OF up] by (auto simp: update_branches_def Let_def eq_commute [of _ "db t"] split: if_splits)
  ultimately show thesis using that c v update_branches_runD [OF up] by simp
qed

text \<open>
  C14: The password stored for a live branch is the one its next reader gets, encrypted at rest with
  any AEAD whose opening inverts its sealing, or in plain text when no key is configured (unless the
  password itself starts with the ciphertext tag).
\<close>

theorem stored_password_reads_back:
  assumes "wf_tables (db s)" "no_faults s" "SetBranchPassword i p s = (Inr (), t)"
    and "case secrets s of Some b \<Rightarrow> aead_ok b | None \<Rightarrow> \<not> has_prefix p encPrefix"
    and "r \<in> set (branches (db s))" "row_id r = i" "live_row r"
  shows "\<exists>b u. GetBranchByName (row_name r) t = (Inr b, u) \<and> br_ID b = i \<and> br_Password b = p"
proof -
  obtain c u now where c: "encrypt (secrets s) p s = (Inr c, u)"
    and t: "secrets t = secrets s" "sql_fault t = sql_fault s"
    and d: "db t = (db s)\<lparr>branches := update_where (\<lambda>r. row_id r = i) (\<lambda>r. r\<lparr>row_password := c, row_updated_at := now\<rparr>) (branches (db s))\<rparr>"
    and un: "unique_live_names (branches (db t))"
    using set_password_okD [OF assms(3)] by metis
  let ?r = "r\<lparr>row_password := c, row_updated_at := now\<rparr>"
  have "?r \<in> set (branches (db t))" using assms(5,6) d by (force simp: set_update_where)
  then have f: "find (\<lambda>x. row_name x = row_name r \<and> row_state x \<noteq> BranchDestroyed) (branches (db t)) = Some ?r"
    using find_live_name [OF un, of ?r] assms(7) by (simp add: live_row_def)
  have "decryptColumn (secrets t) c = Inr p" unfolding t(1)
  proof (cases "secrets s")
    case None
    then show "decryptColumn (secrets s) c = Inr p"
      using assms(4) c by (simp add: encrypt_def comp_simps decryptColumn_def decrypt_plain)
  next
    case (Some b)
    then show "decryptColumn (secrets s) c = Inr p"
      using assms(4) c by (simp add: decryptColumn_def decrypt_encrypt_some)
  qed
  then have sc: "\<exists>b. scanBranch (secrets t) ?r = Inr b \<and> br_ID b = i \<and> br_Password b = p"
    using assms(6) by (simp add: scanBranch_def)
  have "no_faults t" using assms(2) t(2) by (simp add: no_faults_def)
  then show ?thesis using f sc
    by (auto simp: GetBranchByName_def getBranch_def sql_query_def sql_no_faults comp_simps)
qed

theorem stored_password_reads_back_witness:
  "\<exists>t b u. SetBranchPassword ''b1'' ''pw'' (sample_freeze\<lparr>secrets := Some shift_aead\<rparr>) = (Inr (), t) \<and>
     GetBranchByName ''p'' t = (Inr b, u) \<and> br_Password b = ''pw''"
proof -
  let ?s = "sample_freeze\<lparr>secrets := Some shift_aead\<rparr>"
  have "fst (SetBranchPassword ''b1'' ''pw'' ?s) = Inr ()"
    by (simp add: SetBranchPassword_def encrypt_def rand_bytes_def tx_simps sample_simps)
  then obtain t where t: "SetBranchPassword ''b1'' ''pw'' ?s = (Inr (), t)" by (metis prod.collapse)
  have "\<exists>b u. GetBranchByName (row_name (sample_row ''b1'' ''p'' BranchResetting)) t = (Inr b, u) \<and>
      br_ID b = ''b1'' \<and> br_Password b = ''pw''"
    by (rule stored_password_reads_back [OF _ _ t])
      (use sample_freeze_wf shift_aead_ok in \<open>auto simp: no_faults_def sample_freeze_def sample_env_def sample_row_def live_row_def\<close>)
  then show ?thesis using t by (auto simp: sample_row_def)
qed

section \<open>API tokens\<close>

lemma create_token_okD:
  assumes "CreateAPIToken sha n role s = (Inr tok, t)"
  obtains r where "tk_name r = n" "tk_role r = role" "tk_hash r = hashToken sha tok" "ValidRole role"
    "tk_hash r \<notin> tk_hash ` set (api_tokens (db s))" "tk_name r \<notin> tk_name ` set (api_tokens (db s))"
    "api_tokens (db t) = api_tokens (db s) @ [r]" "length tok = 32" "sql_fault t = sql_fault s"
proof -
  obtain s1 i s2 now s3 where tok: "rand_hex 16 s = (Inr tok, s1)" and i: "newID s1 = (Inr i, s2)"
    and now: "db_now s2 = (Inr now, s3)" and v: "ValidRole role"
    and ins: "sql_exec (insert_token \<lparr>tk_id = i, tk_name = n, tk_hash = hashToken sha tok,
             tk_role = role, tk_created_at = now\<rparr>) s3 = (Inr (), t)"
    using assms unfolding CreateAPIToken_def
    by (auto simp: bnd_Inr_iff wrapping_Inr_iff ok_run raise_run split: if_splits)
  have s3: "db s3 = db s" "sql_fault s3 = sql_fault s" using tok i now
    by (auto simp: newID_def rand_hex_def db_now_def time_now_def comp_simps Let_def)
  have "sql_fault t = sql_fault s3"
    using ins by (auto simp: sql_exec_def comp_simps sql_def split: option.splits sum.splits prod.splits)
  with s3 sql_exec_okD [OF ins] rand_hex_length [OF tok] v show thesis
    by (intro that [of "\<lparr>tk_id = i, tk_name = n, tk_hash = hashToken sha tok, tk_role = role, tk_created_at = now\<rparr>"])
      (auto simp: insert_token_def eq_commute [of _ "db t"] split: if_splits)
qed

text \<open>
  A minted token authenticates as its name and role from its creation on, and no longer once it
  is revoked, whatever other tokens exist; only roles the code knows are ever minted.
\<close>

theorem token_lifecycle:
  assumes "wf_tables (db s)" "no_faults s" "CreateAPIToken sha n role s = (Inr tok, t)"
  shows "ValidRole role \<and> (\<exists>u. LookupAPITokenActor sha tok t = (Inr (Some (n, role)), u)) \<and>
    (\<exists>v w. RevokeAPIToken n t = (Inr (), v) \<and> LookupAPITokenActor sha tok v = (Inr None, w))"
proof -
  obtain r where r: "tk_name r = n" "tk_role r = role" "tk_hash r = hashToken sha tok" "ValidRole role"
    "tk_hash r \<notin> tk_hash ` set (api_tokens (db s))" "tk_name r \<notin> tk_name ` set (api_tokens (db s))"
    "api_tokens (db t) = api_tokens (db s) @ [r]" "length tok = 32" and nf: "sql_fault t = (\<lambda>_. None)"
    using create_token_okD [OF assms(3)] assms(2) unfolding no_faults_def by metis
  have "find_key tk_hash (hashToken sha tok) (api_tokens (db t)) = Some r"
    using r assms(1) by (subst find_key_Some_iff) (auto simp: wf_tables_def)
  then have "\<exists>u. LookupAPITokenActor sha tok t = (Inr (Some (n, role)), u)"
    using r nf by (auto simp: LookupAPITokenActor_def sql_query_def sql_def comp_simps)
  moreover define v where "v = t\<lparr>tick := Suc (tick t), db := (db t)\<lparr>api_tokens := delete_where (\<lambda>x. tk_name x = n) (api_tokens (db t))\<rparr>\<rparr>"
  have "RevokeAPIToken n t = (Inr (), v)"
    using r nf by (auto simp: RevokeAPIToken_def sql_exec_def sql_def comp_simps v_def count_where_def)
  moreover have "find_key tk_hash (hashToken sha tok) (api_tokens (db v)) = None"
    using r by (auto simp: find_key_None_iff v_def image_iff)
  then have "\<exists>w. LookupAPITokenActor sha tok v = (Inr None, w)"
    using nf by (auto simp: LookupAPITokenActor_def sql_query_def sql_def comp_simps v_def)
  ultimately show ?thesis using r(4) by blast
qed

theorem token_lifecycle_witness:
  "\<exists>tok t u. CreateAPIToken (\<lambda>x. x) ''ci'' RoleOperator sample_freeze = (Inr tok, t) \<and>
     LookupAPITokenActor (\<lambda>x. x) tok t = (Inr (Some (''ci'', RoleOperator)), u)"
proof -
  have "\<exists>tok. fst (CreateAPIToken (\<lambda>x. x) ''ci'' RoleOperator sample_freeze) = Inr tok"
    by (simp add: CreateAPIToken_def ValidRole_def insert_token_def tx_simps sample_simps)
  then obtain tok t where "CreateAPIToken (\<lambda>x. x) ''ci'' RoleOperator sample_freeze = (Inr tok, t)"
    by (metis prod.collapse)
  moreover have "no_faults sample_freeze" by (simp add: no_faults_def sample_freeze_def sample_env_def)
  ultimately show ?thesis using token_lifecycle [OF sample_freeze_wf] by blast
qed

end
