(* ===== verification/Cow_Plan.thy ===== *)
theory Cow_Plan
  imports Prelude
begin

text \<open>
  Package \<open>internal/cow\<close> (\<open>plan.go\<close>): the names of layers for the three copy-on-write backends,
  the zfs command lines and the overlay plan of a branch container, in the order of the file.
  The two embedded shell scripts are named, not translated. The lemmas say which names can
  collide; the interface \<open>layer_names\<close> is what the engine relies on, and the planner provides it
  for every backend.
\<close>

section \<open>Definitions\<close>

datatype script = EntrypointScript | EntrypointScriptDirect

definition MergedPath :: string where "MergedPath = ''/pgbranch/merged''"
definition RWPath :: string where "RWPath = ''/pgbranch/rw''"
definition DirectDataPath :: string where "DirectDataPath = RWPath @ ''/data''"

datatype backend = BackendOverlay | BackendZFS | BackendCSI

definition ParseBackend :: "string \<Rightarrow> err + backend" where
  "ParseBackend s =
     (if s = ''overlay'' then Inr BackendOverlay
      else if s = ''zfs'' then Inr BackendZFS
      else if s = ''csi'' then Inr BackendCSI
      else Inl (Msg (''unknown cow backend '' @ go_quote s @ '' (want '' @ go_quote ''overlay'' @
        '', '' @ go_quote ''zfs'' @ '' or '' @ go_quote ''csi'' @ '')'')))"

record planner =
  Backend :: backend
  Dataset :: string

definition SourceVolumeName :: "string \<Rightarrow> int \<Rightarrow> string" where
  "SourceVolumeName source gen =
     (if gen \<le> 1 then ''pgbranch-src-'' @ source
      else ''pgbranch-src-'' @ source @ ''-g'' @ int_str gen)"

definition BranchRWVolumeName :: "string \<Rightarrow> string" where
  "BranchRWVolumeName branch = ''pgbranch-br-'' @ branch @ ''-rw''"

definition BranchRWVolumeNameGen :: "string \<Rightarrow> int \<Rightarrow> string" where
  "BranchRWVolumeNameGen branch gen =
     (if gen \<le> 1 then BranchRWVolumeName branch
      else BranchRWVolumeName branch @ ''-g'' @ int_str gen)"

definition SourceLayerName :: "planner \<Rightarrow> string \<Rightarrow> int \<Rightarrow> string" where
  "SourceLayerName p source gen =
     (if Backend p = BackendZFS then Dataset p @ ''/src-'' @ source @ ''-g'' @ int_str gen
      else SourceVolumeName source gen)"

definition BranchLayerName :: "planner \<Rightarrow> string \<Rightarrow> string" where
  "BranchLayerName p branch =
     (if Backend p = BackendZFS then Dataset p @ ''/br-'' @ branch
      else BranchRWVolumeName branch)"

definition SnapshotName :: "planner \<Rightarrow> string \<Rightarrow> string \<Rightarrow> string" where
  "SnapshotName p sourceDataset branch = sourceDataset @ ''@br-'' @ branch"

definition Mountpoint :: "planner \<Rightarrow> string \<Rightarrow> string" where
  "Mountpoint p dataset = ''/'' @ dataset"

definition Entrypoint :: "planner \<Rightarrow> script" where
  "Entrypoint p = (if Backend p = BackendZFS \<or> Backend p = BackendCSI then EntrypointScriptDirect
                   else EntrypointScript)"

definition ZFSCreate :: "planner \<Rightarrow> string \<Rightarrow> string list" where
  "ZFSCreate p dataset = [''zfs'', ''create'', ''-p'', dataset]"

definition ZFSSnapshot :: "planner \<Rightarrow> string \<Rightarrow> string \<Rightarrow> string list" where
  "ZFSSnapshot p sourceDataset branch = [''zfs'', ''snapshot'', SnapshotName p sourceDataset branch]"

definition ZFSClone :: "planner \<Rightarrow> string \<Rightarrow> string \<Rightarrow> string list" where
  "ZFSClone p sourceDataset branch =
     [''zfs'', ''clone'', SnapshotName p sourceDataset branch, BranchLayerName p branch]"

definition ZFSDestroyClone :: "planner \<Rightarrow> string \<Rightarrow> string list" where
  "ZFSDestroyClone p branch = [''zfs'', ''destroy'', ''-r'', BranchLayerName p branch]"

definition ZFSDestroySnapshot :: "planner \<Rightarrow> string \<Rightarrow> string \<Rightarrow> string list" where
  "ZFSDestroySnapshot p sourceDataset branch =
     [''zfs'', ''destroy'', ''-r'', SnapshotName p sourceDataset branch]"

definition ZFSDestroyDataset :: "planner \<Rightarrow> string \<Rightarrow> string list" where
  "ZFSDestroyDataset p dataset = [''zfs'', ''destroy'', ''-r'', dataset]"

definition ZFSUsed :: "planner \<Rightarrow> string \<Rightarrow> string list" where
  "ZFSUsed p dataset = [''zfs'', ''list'', ''-Hp'', ''-o'', ''used'', dataset]"

record plan =
  SourceVolume :: string
  RWVolume :: string
  LayerVolumes :: "string list"
  Lowers :: "string list"

definition LowerMountTarget :: "nat \<Rightarrow> string" where
  "LowerMountTarget i = ''/pgbranch/lower'' @ nat_str i"

definition PlanBranch :: "string \<Rightarrow> string \<Rightarrow> string list \<Rightarrow> plan" where
  "PlanBranch rwVolume sourceVolume layerVolumes =
     \<lparr>SourceVolume = sourceVolume, RWVolume = rwVolume, LayerVolumes = layerVolumes,
      Lowers = map (\<lambda>i. LowerMountTarget (i + 1) @ ''/upper'') [0..<length layerVolumes]
               @ [LowerMountTarget 0 @ ''/data'']\<rparr>"

definition LowerEnv :: "plan \<Rightarrow> string" where
  "LowerEnv p = strings_join (Lowers p) '':''"

section \<open>Names that cannot collide\<close>

text \<open>Reading a name from its end: the digits, then the marker in front of them.\<close>

lemma takeWhile_run:
  "set ds \<subseteq> D \<Longrightarrow> x \<notin> D \<Longrightarrow> takeWhile (\<lambda>c. c \<in> D) (rev ds @ x # u) = rev ds"
  by (subst takeWhile_append2) auto

lemma digit_run_unique:
  assumes "u @ x # ds = v @ y # es" "set ds \<subseteq> D" "set es \<subseteq> D" "x \<notin> D" "y \<notin> D"
  shows "u = v \<and> x = y \<and> ds = es"
proof -
  have r: "rev ds @ x # rev u = rev es @ y # rev v"
    using arg_cong [OF assms(1), of rev] by simp
  have "rev ds = takeWhile (\<lambda>c. c \<in> D) (rev es @ y # rev v)"
    using takeWhile_run [OF assms(2,4), of "rev u"] by (simp add: r)
  also have "\<dots> = rev es" by (rule takeWhile_run [OF assms(3,5)])
  finally have "ds = es" by simp
  with assms(1) show ?thesis by simp
qed

lemma int_str_pos: "0 \<le> i \<Longrightarrow> int_str i = nat_str (nat i)"
  by (simp add: int_str_def)

lemma int_str_inj_pos: "0 \<le> i \<Longrightarrow> 0 \<le> j \<Longrightarrow> int_str i = int_str j \<longleftrightarrow> i = j"
  by (simp add: int_str_pos nat_str_inj eq_nat_nat_iff)

lemma int_str_digits: "0 \<le> i \<Longrightarrow> set (int_str i) \<subseteq> digit_chars"
  by (simp add: int_str_pos nat_str_digits)

lemma g_not_digit [simp]: "CHR ''g'' \<notin> digit_chars" "CHR ''w'' \<notin> digit_chars"
  by (simp_all add: digit_chars_def)

lemma gen_suffix_inj:
  assumes "a @ ''-g'' @ int_str i = b @ ''-g'' @ int_str j" "0 \<le> i" "0 \<le> j"
  shows "a = b \<and> i = j"
proof -
  have "(a @ ''-'') @ CHR ''g'' # int_str i = (b @ ''-'') @ CHR ''g'' # int_str j"
    using assms(1) by simp
  then have "a @ ''-'' = b @ ''-'' \<and> int_str i = int_str j"
    using digit_run_unique [where D = digit_chars] int_str_digits assms(2,3) by (metis g_not_digit(1))
  then show ?thesis using assms(2,3) by (simp add: int_str_inj_pos)
qed

lemma last_digit: "0 \<le> i \<Longrightarrow> last (a @ int_str i) \<in> digit_chars"
  using int_str_digits [of i] nat_str_nonempty [of "nat i"]
  by (metis int_str_pos last_appendR last_in_set subsetD)

lemma BranchRWVolumeName_inj: "BranchRWVolumeName a = BranchRWVolumeName b \<longleftrightarrow> a = b"
  by (simp add: BranchRWVolumeName_def)

lemma BranchRWVolumeName_not_gen:
  assumes "1 < i"
  shows "BranchRWVolumeName a \<noteq> BranchRWVolumeName b @ ''-g'' @ int_str i"
proof
  assume "BranchRWVolumeName a = BranchRWVolumeName b @ ''-g'' @ int_str i"
  then have "last (BranchRWVolumeName a) = last ((BranchRWVolumeName b @ ''-g'') @ int_str i)" by simp
  moreover have "last (BranchRWVolumeName a) = CHR ''w''"
    by (simp add: BranchRWVolumeName_def)
  moreover have "last ((BranchRWVolumeName b @ ''-g'') @ int_str i) \<in> digit_chars"
    using assms by (intro last_digit) simp
  ultimately show False by (metis g_not_digit(2))
qed

lemma BranchRWVolumeNameGen_inj:
  assumes "1 \<le> i" "1 \<le> j"
  shows "BranchRWVolumeNameGen a i = BranchRWVolumeNameGen b j \<longleftrightarrow> a = b \<and> i = j"
proof (cases "i \<le> 1"; cases "j \<le> 1")
  assume "i \<le> 1" "j \<le> 1"
  then show ?thesis using assms by (simp add: BranchRWVolumeNameGen_def BranchRWVolumeName_inj)
next
  assume "i \<le> 1" "\<not> j \<le> 1"
  then show ?thesis using BranchRWVolumeName_not_gen [of j a b]
    by (auto simp: BranchRWVolumeNameGen_def)
next
  assume "\<not> i \<le> 1" "j \<le> 1"
  then show ?thesis using BranchRWVolumeName_not_gen [of i b a]
    by (auto simp: BranchRWVolumeNameGen_def dest: sym)
next
  assume ij: "\<not> i \<le> 1" "\<not> j \<le> 1"
  show ?thesis
  proof
    assume "BranchRWVolumeNameGen a i = BranchRWVolumeNameGen b j"
    then have "BranchRWVolumeName a @ ''-g'' @ int_str i = BranchRWVolumeName b @ ''-g'' @ int_str j"
      using ij by (simp add: BranchRWVolumeNameGen_def)
    then have "BranchRWVolumeName a = BranchRWVolumeName b \<and> i = j"
      using ij by (intro gen_suffix_inj) auto
    then show "a = b \<and> i = j" by (simp add: BranchRWVolumeName_inj)
  qed simp
qed

lemma SourceLayerName_not_BranchLayerName: "SourceLayerName p s g \<noteq> BranchLayerName p b"
  by (simp add: SourceLayerName_def BranchLayerName_def SourceVolumeName_def BranchRWVolumeName_def)

lemma BranchLayerName_inj: "BranchLayerName p a = BranchLayerName p b \<longleftrightarrow> a = b"
  by (simp add: BranchLayerName_def BranchRWVolumeName_inj)

lemma SnapshotName_inj:
  assumes "SnapshotName p d a = SnapshotName p e b" "CHR ''@'' \<notin> set a" "CHR ''@'' \<notin> set b"
  shows "d = e \<and> a = b"
proof -
  have "d @ CHR ''@'' # (''br-'' @ a) = e @ CHR ''@'' # (''br-'' @ b)"
    using assms(1) by (simp add: SnapshotName_def)
  then have "d = e \<and> CHR ''@'' = CHR ''@'' \<and> ''br-'' @ a = ''br-'' @ b"
    by (rule digit_run_unique [where D = "- {CHR ''@''}"]) (use assms(2,3) in auto)
  then show ?thesis by simp
qed

text \<open>
  What the engine relies on: branch layers of different names differ, and no source layer is a
  branch layer. Laws about source layers follow the backend: on zfs every generation carries its
  suffix, so they are injective; the volume names of the other backends are not.
\<close>

locale layer_names =
  fixes source_layer :: "string \<Rightarrow> int \<Rightarrow> string"
    and branch_layer :: "string \<Rightarrow> string"
  assumes branch_layer_inj: "branch_layer a = branch_layer b \<Longrightarrow> a = b"
    and source_not_branch: "source_layer s g \<noteq> branch_layer b"
begin

lemma distinct_branch_layers: "distinct names \<longleftrightarrow> distinct (map branch_layer names)"
  by (auto simp: distinct_map inj_on_def dest: branch_layer_inj)

lemma removing_branch_layer_keeps_sources:
  "source_layer s g \<in> V \<Longrightarrow> source_layer s g \<in> V - {branch_layer b}"
  using source_not_branch by simp

lemma removing_branch_layer_keeps_others:
  "a \<noteq> b \<Longrightarrow> branch_layer a \<in> V \<Longrightarrow> branch_layer a \<in> V - {branch_layer b}"
  using branch_layer_inj by blast

end

locale generation_names = layer_names +
  assumes source_layer_inj:
    "1 \<le> g \<Longrightarrow> 1 \<le> h \<Longrightarrow> source_layer s g = source_layer t h \<Longrightarrow> s = t \<and> g = h"
begin

lemma next_generation_fresh: "1 \<le> g \<Longrightarrow> source_layer s (g + 1) \<noteq> source_layer t g"
  using source_layer_inj [of "g + 1" g s t] by auto

end

interpretation planner_names: layer_names "SourceLayerName p" "BranchLayerName p" for p
  by unfold_locales (simp_all add: BranchLayerName_inj SourceLayerName_not_BranchLayerName)

interpretation zfs_names: generation_names
  "SourceLayerName \<lparr>Backend = BackendZFS, Dataset = d\<rparr>"
  "BranchLayerName \<lparr>Backend = BackendZFS, Dataset = d\<rparr>" for d
proof unfold_locales
  fix g h :: int and s t :: string
  let ?p = "\<lparr>Backend = BackendZFS, Dataset = d\<rparr>"
  assume "1 \<le> g" "1 \<le> h" "SourceLayerName ?p s g = SourceLayerName ?p t h"
  then have "s @ ''-g'' @ int_str g = t @ ''-g'' @ int_str h"
    by (simp add: SourceLayerName_def)
  then show "s = t \<and> g = h"
    using \<open>1 \<le> g\<close> \<open>1 \<le> h\<close> by (intro gen_suffix_inj) auto
qed

section \<open>Properties\<close>

text \<open>
  writable volumes of branches never share a name. Two rw volume names are equal only for
  the same branch name and the same freeze generation.
\<close>

theorem rw_volume_names_injective:
  assumes "1 \<le> i" "1 \<le> j" "BranchRWVolumeNameGen a i = BranchRWVolumeNameGen b j"
  shows "a = b \<and> i = j"
  using assms BranchRWVolumeNameGen_inj by blast

theorem rw_volume_names_injective_witness:
  "BranchRWVolumeNameGen ''pr-1'' 2 = ''pgbranch-br-pr-1-rw-g2'' \<and> (''pr-1'' = ''pr-1'' \<and> (2::int) = 2)"
  using rw_volume_names_injective [of 2 2 "''pr-1''" "''pr-1''"]
  by (simp add: BranchRWVolumeNameGen_def BranchRWVolumeName_def int_str_def nat_str.simps)

text \<open>
  the volume name of a source generation is not unique (overlay and csi backends). The second
  generation of a source and the first generation of a source whose name ends in \<open>-g2\<close> are
  seeded into the same volume.
\<close>

theorem source_volume_names_collide:
  "SourceVolumeName (s @ ''-g2'') 1 = SourceVolumeName s 2"
  by (simp add: SourceVolumeName_def int_str_def nat_str.simps)

text \<open>
  on the zfs backend, source datasets are injective in name and generation, so a refresh
  never seeds into a dataset in use.
\<close>

theorem zfs_source_layers_injective:
  assumes "1 \<le> g" "1 \<le> h"
    and "SourceLayerName \<lparr>Backend = BackendZFS, Dataset = d\<rparr> s g
       = SourceLayerName \<lparr>Backend = BackendZFS, Dataset = d\<rparr> t h"
  shows "s = t \<and> g = h"
  using assms by (rule zfs_names.source_layer_inj)

theorem zfs_source_layers_injective_witness:
  "SourceLayerName \<lparr>Backend = BackendZFS, Dataset = ''tank''\<rparr> ''main'' 2 = ''tank/src-main-g2''
   \<and> ''main'' = ''main'' \<and> (2::int) = 2"
  using zfs_source_layers_injective [of 2 2 "''tank''" "''main''" "''main''"]
  by (simp add: SourceLayerName_def int_str_def nat_str.simps)

lemma LowerMountTarget_no_colon: "CHR '':'' \<notin> set (LowerMountTarget i)"
  using nat_str_digits [of i] by (auto simp: LowerMountTarget_def digit_chars_def)

text \<open>
  the overlay stack handed to the container is exactly the plan: splitting
  \<open>PGBRANCH_LOWERS\<close> at its colons gives one lower directory per frozen layer, newest first, and
  the source's data directory last.
\<close>

theorem lower_env_is_the_stack:
  "strings_split (LowerEnv (PlanBranch rw src layers)) (CHR '':'') =
     map (\<lambda>i. LowerMountTarget (i + 1) @ ''/upper'') [0..<length layers] @ [LowerMountTarget 0 @ ''/data'']"
  unfolding LowerEnv_def
  by (subst strings_split_join) (auto simp: PlanBranch_def LowerMountTarget_no_colon)

end
