(* ===== verification/Runtime_Driver.thy ===== *)
theory Runtime_Driver
  imports Registry_Access Cow_Plan
begin

text \<open>
  Package \<open>internal/runtime\<close> (\<open>runtime.go\<close>): the interface through which the engine reaches containers and
  volumes. Docker and Kubernetes are outside the model: a driver is any family of functions from the
  calls made so far and a request to an error or a reply, so every theorem about the engine holds for
  every driver. Each call is recorded in a trace. While a call runs, other requests of the same
  daemon may use the registry: which operations they run is a parameter of the state too.
\<close>

section \<open>Requests and replies\<close>

type_synonym labels = "(string \<times> string) list"

definition LabelInstance :: string where "LabelInstance = ''pgbranch.instance''"

datatype mount_kind = MountVolume | MountHostPath

record mount =
  Kind :: mount_kind
  Volume :: string
  Target :: string
  ReadOnly :: bool

record helper_spec =
  hs_Image :: string
  hs_Cmd :: "string list"
  hs_Env :: "string list"
  hs_Mounts :: "mount list"
  hs_Network :: string
  hs_User :: string
  hs_Privileged :: bool
  hs_HostDevices :: "string list"

record branch_spec =
  bs_Name :: string
  bs_Image :: string
  bs_Env :: "string list"
  bs_Mounts :: "mount list"
  bs_Entrypoint :: "string list"
  bs_Labels :: labels
  bs_Network :: string

record container_info =
  ci_ID :: string
  ci_Running :: bool
  ci_Host :: string
  ci_Port :: int
  ci_Labels :: labels

definition volume_mount :: "string \<Rightarrow> string \<Rightarrow> bool \<Rightarrow> mount" where
  "volume_mount v target ro = \<lparr>Kind = MountVolume, Volume = v, Target = target, ReadOnly = ro\<rparr>"

definition helper :: "string \<Rightarrow> string list \<Rightarrow> string list \<Rightarrow> mount list \<Rightarrow> helper_spec" where
  "helper img cmd env mounts = \<lparr>hs_Image = img, hs_Cmd = cmd, hs_Env = env, hs_Mounts = mounts,
     hs_Network = [], hs_User = [], hs_Privileged = False, hs_HostDevices = []\<rparr>"

section \<open>The driver\<close>

datatype drv_call =
    CEnsureImage string
  | CCreateVolume string labels
  | CRemoveVolume string
  | CCloneVolume string string labels
  | CRunHelper helper_spec
  | CStartBranch branch_spec
  | CExec string "string list"
  | CExecOutput string "string list"
  | CInspect string
  | CStopRemove string
  | CListManaged
  | CListManagedVolumes string

text \<open>
  One recorded call: whether its context could be cancelled, the request, whether it succeeded and
  the text it returned (the id of a started container, the output of a command).
\<close>

record drv_event =
  ev_cancellable :: bool
  ev_call :: drv_call
  ev_ok :: bool
  ev_out :: string

type_synonym hist = "drv_event list"

record driver =
  EnsureImage :: "hist \<Rightarrow> string \<Rightarrow> err option"
  CreateVolume :: "hist \<Rightarrow> string \<Rightarrow> labels \<Rightarrow> err option"
  RemoveVolume :: "hist \<Rightarrow> string \<Rightarrow> err option"
  CloneVolume :: "hist \<Rightarrow> string \<Rightarrow> string \<Rightarrow> labels \<Rightarrow> err option"
  RunHelper :: "hist \<Rightarrow> helper_spec \<Rightarrow> err + string"
  StartBranch :: "hist \<Rightarrow> branch_spec \<Rightarrow> err + string"
  Exec :: "hist \<Rightarrow> string \<Rightarrow> string list \<Rightarrow> err option"
  ExecOutput :: "hist \<Rightarrow> string \<Rightarrow> string list \<Rightarrow> err + string"
  Inspect :: "hist \<Rightarrow> string \<Rightarrow> err + container_info"
  StopRemove :: "hist \<Rightarrow> string \<Rightarrow> err option"
  ListManaged :: "hist \<Rightarrow> err + container_info list"
  ListManagedVolumes :: "hist \<Rightarrow> string \<Rightarrow> err + string list"

record sys = reg_st +
  drv :: driver
  others :: "nat \<Rightarrow> reg_op list"
  trace :: hist
  warnings :: "(string \<times> err) list"

definition unit_reply :: "err option \<Rightarrow> err + unit" where
  "unit_reply r = (case r of None \<Rightarrow> Inr () | Some e \<Rightarrow> Inl e)"

text \<open>Other requests run while the call blocks; then its reply arrives and the call is recorded.\<close>

definition interleaved :: "('z sys_scheme, unit) comp" where
  "interleaved s = (Inr (), run_ops (others s (tick s)) (s\<lparr>tick := Suc (tick s)\<rparr>))"

definition reply :: "ctx \<Rightarrow> drv_call \<Rightarrow> (driver \<Rightarrow> hist \<Rightarrow> err + 'a) \<Rightarrow> ('a \<Rightarrow> string) \<Rightarrow> ('z sys_scheme, 'a) comp" where
  "reply c call f out s =
     (let r = f (drv s) (trace s) in
      (r, s\<lparr>trace := trace s @ [\<lparr>ev_cancellable = ctx_cancellable c, ev_call = call,
        ev_ok = (case r of Inl _ \<Rightarrow> False | Inr _ \<Rightarrow> True),
        ev_out = (case r of Inl _ \<Rightarrow> [] | Inr x \<Rightarrow> out x)\<rparr>]\<rparr>))"

definition call :: "ctx \<Rightarrow> drv_call \<Rightarrow> (driver \<Rightarrow> hist \<Rightarrow> err + 'a) \<Rightarrow> ('a \<Rightarrow> string) \<Rightarrow> ('z sys_scheme, 'a) comp" where
  "call c cl f out = bnd interleaved (\<lambda>_. reply c cl f out)"

definition drv_EnsureImage :: "ctx \<Rightarrow> string \<Rightarrow> ('z sys_scheme, unit) comp" where
  "drv_EnsureImage c img = call c (CEnsureImage img) (\<lambda>d h. unit_reply (EnsureImage d h img)) (\<lambda>_. [])"

definition drv_CreateVolume :: "ctx \<Rightarrow> string \<Rightarrow> labels \<Rightarrow> ('z sys_scheme, unit) comp" where
  "drv_CreateVolume c name ls = call c (CCreateVolume name ls) (\<lambda>d h. unit_reply (CreateVolume d h name ls)) (\<lambda>_. [])"

definition drv_RemoveVolume :: "ctx \<Rightarrow> string \<Rightarrow> ('z sys_scheme, unit) comp" where
  "drv_RemoveVolume c name = call c (CRemoveVolume name) (\<lambda>d h. unit_reply (RemoveVolume d h name)) (\<lambda>_. [])"

definition drv_CloneVolume :: "ctx \<Rightarrow> string \<Rightarrow> string \<Rightarrow> labels \<Rightarrow> ('z sys_scheme, unit) comp" where
  "drv_CloneVolume c src dst ls =
     call c (CCloneVolume src dst ls) (\<lambda>d h. unit_reply (CloneVolume d h src dst ls)) (\<lambda>_. [])"

definition drv_RunHelper :: "ctx \<Rightarrow> helper_spec \<Rightarrow> ('z sys_scheme, string) comp" where
  "drv_RunHelper c spec = call c (CRunHelper spec) (\<lambda>d h. RunHelper d h spec) (\<lambda>x. x)"

definition drv_StartBranch :: "ctx \<Rightarrow> branch_spec \<Rightarrow> ('z sys_scheme, string) comp" where
  "drv_StartBranch c spec = call c (CStartBranch spec) (\<lambda>d h. StartBranch d h spec) (\<lambda>x. x)"

definition drv_Exec :: "ctx \<Rightarrow> string \<Rightarrow> string list \<Rightarrow> ('z sys_scheme, unit) comp" where
  "drv_Exec c cid cmd = call c (CExec cid cmd) (\<lambda>d h. unit_reply (Exec d h cid cmd)) (\<lambda>_. [])"

definition drv_ExecOutput :: "ctx \<Rightarrow> string \<Rightarrow> string list \<Rightarrow> ('z sys_scheme, string) comp" where
  "drv_ExecOutput c cid cmd = call c (CExecOutput cid cmd) (\<lambda>d h. ExecOutput d h cid cmd) (\<lambda>x. x)"

definition drv_Inspect :: "ctx \<Rightarrow> string \<Rightarrow> ('z sys_scheme, container_info) comp" where
  "drv_Inspect c cid = call c (CInspect cid) (\<lambda>d h. Inspect d h cid) ci_Host"

definition drv_StopRemove :: "ctx \<Rightarrow> string \<Rightarrow> ('z sys_scheme, unit) comp" where
  "drv_StopRemove c cid = call c (CStopRemove cid) (\<lambda>d h. unit_reply (StopRemove d h cid)) (\<lambda>_. [])"

definition drv_ListManaged :: "ctx \<Rightarrow> ('z sys_scheme, container_info list) comp" where
  "drv_ListManaged c = call c CListManaged ListManaged (\<lambda>_. [])"

definition drv_ListManagedVolumes :: "ctx \<Rightarrow> string \<Rightarrow> ('z sys_scheme, string list) comp" where
  "drv_ListManagedVolumes c inst =
     call c (CListManagedVolumes inst) (\<lambda>d h. ListManagedVolumes d h inst) (\<lambda>_. [])"

lemmas drv_defs = drv_EnsureImage_def drv_CreateVolume_def drv_RemoveVolume_def drv_CloneVolume_def
  drv_RunHelper_def drv_StartBranch_def drv_Exec_def drv_ExecOutput_def drv_Inspect_def drv_StopRemove_def
  drv_ListManaged_def drv_ListManagedVolumes_def

section \<open>Invariants across driver calls\<close>

context registry_invariant
begin

lemma run_ops_keeps: "I s \<Longrightarrow> I (run_ops xs s)"
proof (induction xs arbitrary: s)
  case (Cons x xs)
  have "I (snd (reg_run x s))" using op_keeps [of x] Cons.prems by (simp add: keeps_def)
  then show ?case using Cons.IH by (simp add: run_ops_def)
qed (simp add: run_ops_def)

end

text \<open>
  What reading requires of an invariant: it ignores the clock, the trace and the warnings, and whatever
  other requests do during a call keeps it.
\<close>

locale reading =
  fixes I :: "'y sys_scheme \<Rightarrow> bool"
  assumes time_free: "env_free I"
    and trace_free: "I (s\<lparr>trace := h\<rparr>) = I s"
    and warnings_free: "I (s\<lparr>warnings := w\<rparr>) = I s"
    and others_keep: "keeps I interleaved"
begin

lemma call_keeps [keeps_rules]: "keeps I (call c cl f out)"
proof -
  have "keeps I (reply c cl f out)"
    by (simp add: keeps_def reply_def Let_def trace_free)
  then show ?thesis unfolding call_def using others_keep by (intro keeps_rules)
qed

lemma drv_keeps [keeps_rules]:
  "keeps I (drv_EnsureImage c n)" "keeps I (drv_CreateVolume c n ls)" "keeps I (drv_RemoveVolume c n)"
  "keeps I (drv_CloneVolume c n m ls)" "keeps I (drv_RunHelper c h)" "keeps I (drv_StartBranch c b)"
  "keeps I (drv_Exec c n cmd)" "keeps I (drv_ExecOutput c n cmd)" "keeps I (drv_Inspect c n)"
  "keeps I (drv_StopRemove c n)" "keeps I (drv_ListManaged c)" "keeps I (drv_ListManagedVolumes c n)"
  unfolding drv_defs by (rule call_keeps)+

lemmas reads_keep [keeps_rules] = keeps_reads [OF time_free] keeps_time_now [OF time_free]
  keeps_rand_hex [OF time_free] keeps_getBranch [OF time_free] keeps_listBranches [OF time_free]

end

text \<open>
  What the engine relies on of an invariant of the registry: the registry operations of this and of
  other requests keep it, and it does not look at the trace or the warnings.
\<close>

locale engine_invariant = registry_invariant I
  for I :: "'y sys_scheme \<Rightarrow> bool" +
  assumes no_trace: "I (s\<lparr>trace := h\<rparr>) = I s"
    and no_warnings: "I (s\<lparr>warnings := w\<rparr>) = I s"

sublocale engine_invariant \<subseteq> reading I
proof
  show "keeps I interleaved"
    using clock_free by (simp add: keeps_def interleaved_def run_ops_keeps env_freeD)
qed (simp_all add: clock_free no_trace no_warnings)

interpretation wf_sys: engine_invariant "on_db wf_tables"
  by unfold_locales (simp_all add: keeps_wf_reg_run on_db_def)

interpretation journal_sys: engine_invariant journal_inv
  by unfold_locales (simp_all add: journal_inv_def on_db_def no_faults_def)


text \<open>With no other requests, a computation that only reads and calls the driver leaves the tables alone.\<close>

definition alone_on :: "tables \<Rightarrow> 'z sys_scheme \<Rightarrow> bool" where
  "alone_on d s \<longleftrightarrow> others s = (\<lambda>_. []) \<and> db s = d"

interpretation alone: reading "alone_on d" for d
  by unfold_locales (auto simp: alone_on_def env_free_def keeps_def interleaved_def run_ops_def)

text \<open>Time only passes, and the registry operations never touch the trace.\<close>

interpretation clock_sys: engine_invariant "\<lambda>s. w \<le> wall s" for w
proof unfold_locales
  show "keeps (\<lambda>s. w \<le> wall s) (reg_run x)" for x
    by (rule keeps_free_reg_run) (auto simp: env_free_def db_free_def)
qed (auto simp: env_free_def)

interpretation quiet: registry_invariant "\<lambda>s. trace s = h" for h
proof unfold_locales
  show "keeps (\<lambda>s. trace s = h) (reg_run x)" for x
    by (rule keeps_free_reg_run) (auto simp: env_free_def db_free_def)
qed (auto simp: env_free_def)

section \<open>The calls a computation makes\<close>

definition emits :: "('z sys_scheme, 'a) comp \<Rightarrow> (err + 'a \<Rightarrow> hist \<Rightarrow> bool) \<Rightarrow> bool" where
  "emits m P \<longleftrightarrow> (\<forall>s r t. m s = (r, t) \<longrightarrow> (\<exists>evs. trace t = trace s @ evs \<and> P r evs))"

lemma emitsI: "(\<And>s r t. m s = (r, t) \<Longrightarrow> \<exists>evs. trace t = trace s @ evs \<and> P r evs) \<Longrightarrow> emits m P"
  by (simp add: emits_def)

lemma emitsD:
  assumes "emits m P" "m s = (r, t)"
  obtains evs where "trace t = trace s @ evs" "P r evs"
  using assms unfolding emits_def by blast

lemma emits_weaken: "emits m P \<Longrightarrow> (\<And>r evs. P r evs \<Longrightarrow> Q r evs) \<Longrightarrow> emits m Q"
  unfolding emits_def by meson

lemma emits_silent:
  assumes "\<And>h. keeps (\<lambda>s. trace s = h) m"
  shows "emits m (\<lambda>r evs. evs = [])"
proof (rule emitsI)
  fix s r t assume "m s = (r, t)"
  then have "trace t = trace s" using keepsD [OF assms [of "trace s"]] by blast
  then show "\<exists>evs. trace t = trace s @ evs \<and> evs = []" by simp
qed

lemma emits_bnd:
  assumes "emits m P" "\<And>x. emits (f x) (Q x)"
  shows "emits (bnd m f) (\<lambda>r evs. (\<exists>e. r = Inl e \<and> P (Inl e) evs) \<or>
     (\<exists>x a b. evs = a @ b \<and> P (Inr x) a \<and> Q x r b))"
proof (rule emitsI)
  fix s r t assume m: "bnd m f s = (r, t)"
  show "\<exists>evs. trace t = trace s @ evs \<and> ((\<exists>e. r = Inl e \<and> P (Inl e) evs) \<or>
     (\<exists>x a b. evs = a @ b \<and> P (Inr x) a \<and> Q x r b))"
  proof (cases "m s")
    case (Pair v u)
    show ?thesis
    proof (cases v)
      case (Inl e)
      then have "r = Inl e" "u = t" using m Pair by (auto simp: bnd_def)
      then show ?thesis using emitsD [OF assms(1) Pair] Inl by metis
    next
      case (Inr x)
      then have "f x u = (r, t)" using m Pair by (simp add: bnd_def)
      then show ?thesis using emitsD [OF assms(1) Pair] emitsD [OF assms(2)] Inr by (metis append.assoc)
    qed
  qed
qed

lemma emits_on_error:
  assumes "emits m P" "\<And>e. emits (h e) (Q e)"
  shows "emits (on_error m h) (\<lambda>r evs. (\<exists>x. r = Inr x \<and> P (Inr x) evs) \<or>
     (\<exists>e a b. evs = a @ b \<and> P (Inl e) a \<and> Q e r b))"
proof (rule emitsI)
  fix s r t assume m: "on_error m h s = (r, t)"
  show "\<exists>evs. trace t = trace s @ evs \<and> ((\<exists>x. r = Inr x \<and> P (Inr x) evs) \<or>
     (\<exists>e a b. evs = a @ b \<and> P (Inl e) a \<and> Q e r b))"
  proof (cases "m s")
    case (Pair v u)
    show ?thesis
    proof (cases v)
      case (Inl e)
      then have "h e u = (r, t)" using m Pair by (simp add: on_error_def)
      then show ?thesis using emitsD [OF assms(1) Pair] emitsD [OF assms(2)] Inl by (metis append.assoc)
    next
      case (Inr x)
      then have "r = Inr x" "u = t" using m Pair by (auto simp: on_error_def)
      then show ?thesis using emitsD [OF assms(1) Pair] Inr by metis
    qed
  qed
qed

definition ev_of :: "ctx \<Rightarrow> drv_call \<Rightarrow> ('a \<Rightarrow> string) \<Rightarrow> err + 'a \<Rightarrow> drv_event" where
  "ev_of c cl out r = \<lparr>ev_cancellable = ctx_cancellable c, ev_call = cl,
     ev_ok = (case r of Inl _ \<Rightarrow> False | Inr _ \<Rightarrow> True), ev_out = (case r of Inl _ \<Rightarrow> [] | Inr x \<Rightarrow> out x)\<rparr>"

lemma emits_call: "emits (call c cl f out) (\<lambda>r evs. evs = [ev_of c cl out r])"
proof (rule emitsI)
  fix s :: "'a sys_scheme" and r t assume "call c cl f out s = (r, t)"
  moreover have "trace (run_ops (others s (tick s)) (s\<lparr>tick := Suc (tick s)\<rparr>)) = trace s"
    by (rule quiet.run_ops_keeps) simp
  ultimately show "\<exists>evs. trace t = trace s @ evs \<and> evs = [ev_of c cl out r]"
    by (auto simp: call_def comp_simps interleaved_def reply_def ev_of_def Let_def)
qed

lemma emits_ok: "emits (ok x) (\<lambda>r evs. r = Inr x \<and> evs = [])"
  by (simp add: emits_def comp_simps)

lemma emits_raise: "emits (raise e) (\<lambda>r evs. r = Inl e \<and> evs = [])"
  by (simp add: emits_def comp_simps)

end
