(* ===== verification/Registry_Audit.thy ===== *)
theory Registry_Audit
  imports Runtime_Driver
begin

text \<open>
  The journal as an audit log: no statement of the registry deletes or rewrites a journal entry, so what
  was recorded at one moment is a prefix of what is recorded later, whatever runs in between.
\<close>

definition log_extends :: "transition_row list \<Rightarrow> tables \<Rightarrow> bool" where
  "log_extends h d \<longleftrightarrow> prefix h (transitions d)"

lemma keeps_in_tx_any: "keeps (on_db J) m \<Longrightarrow> keeps (on_db J) (in_tx check m)"
  by (rule keeps_in_tx) (metis keepsD)

lemma log_exec:
  assumes "\<And>d x d'. f d = Inr (x, d') \<Longrightarrow> prefix (transitions d) (transitions d')"
  shows "keeps (on_db (log_extends h)) (sql_exec f)"
  by (rule keeps_sql_exec) (use assms prefix_order.trans in \<open>fastforce simp: log_extends_def\<close>)

lemma statements_extend_log:
  "keeps (on_db (log_extends h)) (sql_exec (insert_source r))"
  "keeps (on_db (log_extends h)) (sql_exec (update_sources p f))"
  "keeps (on_db (log_extends h)) (sql_exec (insert_branch br))"
  "keeps (on_db (log_extends h)) (sql_exec (update_branches q g))"
  "keeps (on_db (log_extends h)) (sql_exec (insert_layer l))"
  "keeps (on_db (log_extends h)) (sql_exec (delete_layer i))"
  "keeps (on_db (log_extends h)) (sql_exec (insert_transition e j st to re ac at))"
  "keeps (on_db (log_extends h)) (sql_exec (insert_mask m))"
  "keeps (on_db (log_extends h)) (sql_exec (insert_token k))"
  by (rule log_exec; auto simp: insert_source_def update_sources_def insert_branch_def update_branches_def insert_layer_def
      delete_layer_def insert_transition_def insert_mask_def insert_token_def Let_def split: if_splits option.splits)+

lemmas plain_statements [keeps_rules del] = keeps_free_sql_exec keeps_free_in_tx keeps_free_transaction keeps_free_journal
  keeps_free_insert_masks keeps_free_TransitionBranchCtx

lemma insert_masks_extend_log: "keeps (on_db (log_extends h)) (insert_masks i n ms)"
  by (induction ms arbitrary: n) (auto intro!: keeps_rules statements_extend_log)

lemma journal_extends_log: "keeps (on_db (log_extends h)) (journal c e i f g r)"
  unfolding journal_def by (intro keeps_rules statements_extend_log env_free_on_db)

lemma transition_extends_log: "keeps (on_db (log_extends h)) (TransitionBranchCtx c i st r)"
  unfolding TransitionBranchCtx_def transition_in_tx_def read_state_def
  by (intro keeps_rules statements_extend_log journal_extends_log env_free_on_db)

lemma keeps_log_reg_run: "keeps (on_db (log_extends h)) (reg_run x)"
  by (cases x; simp only: reg_run.simps ignore_def reg_op_defs)
    (intro keeps_rules keeps_in_tx_any statements_extend_log insert_masks_extend_log journal_extends_log
      transition_extends_log env_free_on_db; (rule log_exec, auto)?)+

interpretation audit_sys: engine_invariant "on_db (log_extends h)" for h
  by unfold_locales (simp_all add: keeps_log_reg_run, simp_all add: on_db_def)

end
