(* ===== verification/Registry_Directory.thy ===== *)
theory Registry_Directory
  imports Registry_Audit
begin

text \<open>
  The abstract specification of the registry: a directory of live branches. A name is free or holds the
  source and the state of its branch; names are taken by creation, move along the legal transitions,
  become free again when a destruction finishes, and all names of a source are freed when the source is
  deleted. Every registry operation, also one that fails half-way, refines at most a few such steps, and
  lookups answer what the directory holds.
\<close>

section \<open>The specification\<close>

type_synonym dir = "string \<rightharpoonup> string \<times> branch_state"

inductive dir_step :: "dir \<Rightarrow> dir \<Rightarrow> bool" where
  dir_create: "v n = None \<Longrightarrow> dir_step v (v(n \<mapsto> (src, BranchCreating)))"
| dir_move: "v n = Some (src, st) \<Longrightarrow> legalBranchTransition st to \<Longrightarrow> to \<noteq> BranchDestroyed \<Longrightarrow>
    dir_step v (v(n \<mapsto> (src, to)))"
| dir_free: "v n = Some (src, BranchDestroying) \<Longrightarrow> dir_step v (v(n := None))"
| dir_purge: "dir_step v (\<lambda>n. case v n of None \<Rightarrow> None | Some x \<Rightarrow> if fst x = src then None else Some x)"

inductive_cases dir_stepE [elim]: "dir_step v w"

text \<open>The directory a list of rows stands for.\<close>

definition listing :: "branch_row list \<Rightarrow> dir" where
  "listing rows n = map_option (\<lambda>r. (row_source_id r, row_state r)) (find (\<lambda>r. row_name r = n \<and> live_row r) rows)"

definition directory :: "tables \<Rightarrow> dir" where
  "directory d = listing (branches d)"

section \<open>What the statements do to the directory\<close>

lemma listing_Nil [simp]: "listing [] n = None"
  by (simp add: listing_def)

lemma listing_Cons:
  "listing (r # rows) n = (if row_name r = n \<and> live_row r then Some (row_source_id r, row_state r) else listing rows n)"
  by (simp add: listing_def)

lemma listing_None_iff: "listing rows n = None \<longleftrightarrow> n \<notin> row_name ` set (filter live_row rows)"
  by (auto simp: listing_def find_None_iff)

lemma listing_update_same:
  assumes "\<And>r. row_name (f r) = row_name r" "\<And>r. row_state (f r) = row_state r" "\<And>r. row_source_id (f r) = row_source_id r"
  shows "listing (update_where p f rows) = listing rows"
proof
  show "listing (update_where p f rows) n = listing rows n" for n
    by (induction rows) (auto simp: update_where_def listing_Cons live_row_def assms)
qed

lemma listing_append:
  "live_row r \<Longrightarrow> row_name r \<notin> row_name ` set (filter live_row rows) \<Longrightarrow>
   listing (rows @ [r]) = (listing rows)(row_name r \<mapsto> (row_source_id r, row_state r))"
proof
  fix n assume "live_row r" "row_name r \<notin> row_name ` set (filter live_row rows)"
  then show "listing (rows @ [r]) n = ((listing rows)(row_name r \<mapsto> (row_source_id r, row_state r))) n"
    by (induction rows) (auto simp: listing_Cons split: if_splits)
qed

lemma listing_delete:
  assumes "unique_live_names rows"
  shows "listing (delete_where (\<lambda>r. row_source_id r = src) rows) =
    (\<lambda>n. case listing rows n of None \<Rightarrow> None | Some x \<Rightarrow> if fst x = src then None else Some x)"
proof
  fix n
  show "listing (delete_where (\<lambda>r. row_source_id r = src) rows) n =
    (case listing rows n of None \<Rightarrow> None | Some x \<Rightarrow> if fst x = src then None else Some x)"
    using assms
  proof (induction rows)
    case (Cons r rows)
    have ih: "listing (delete_where (\<lambda>r. row_source_id r = src) rows) n =
      (case listing rows n of None \<Rightarrow> None | Some x \<Rightarrow> if fst x = src then None else Some x)"
      using Cons by (auto simp: unique_live_names_def split: if_splits)
    have "listing rows n = None" if "row_name r = n" "live_row r"
      using that Cons.prems by (auto simp: unique_live_names_def listing_None_iff)
    then show ?case using ih by (auto simp: delete_where_def listing_Cons)
  qed (simp add: delete_where_def)
qed

lemma listing_move:
  assumes "distinct (map row_id rows)" "unique_live_names rows" "row \<in> set rows" "live_row row"
    and "\<And>r. row_name (f r) = row_name r" "\<And>r. row_state (f r) = to" "\<And>r. row_source_id (f r) = row_source_id r"
  shows "listing rows (row_name row) = Some (row_source_id row, row_state row)"
    and "listing (update_where (\<lambda>r. row_id r = row_id row) f rows) =
      (listing rows)(row_name row := if to = BranchDestroyed then None else Some (row_source_id row, to))"
proof -
  show "listing rows (row_name row) = Some (row_source_id row, row_state row)"
    using assms(2-4) by (induction rows) (force simp: listing_Cons unique_live_names_def split: if_splits)+
  show "listing (update_where (\<lambda>r. row_id r = row_id row) f rows) =
      (listing rows)(row_name row := if to = BranchDestroyed then None else Some (row_source_id row, to))"
    using assms(1-4)
  proof (induction rows)
    case (Cons r rows)
    show ?case
    proof (cases "r = row")
      case True
      have "\<forall>x \<in> set rows. row_id x \<noteq> row_id row" using Cons.prems(1) True by (auto simp: image_iff)
      then have upd: "update_where (\<lambda>r. row_id r = row_id row) f rows = rows" by (simp add: update_where_def map_idI)
      have free: "listing rows (row_name row) = None"
        using Cons.prems(2,4) True by (simp add: listing_None_iff unique_live_names_def)
      show ?thesis
      proof
        fix n
        show "listing (update_where (\<lambda>r. row_id r = row_id row) f (r # rows)) n =
            ((listing (r # rows))(row_name row := if to = BranchDestroyed then None else Some (row_source_id row, to))) n"
          using True upd free Cons.prems(4)
          by (simp add: update_where_def listing_Cons live_row_def assms(5-7))
      qed
    next
      case False
      then have row: "row \<in> set rows" "row_id r \<noteq> row_id row" using Cons.prems(1,3) by force+
      have "row_name r \<noteq> row_name row" if "live_row r"
        using that row Cons.prems(2,4) by (auto simp: unique_live_names_def)
      moreover have "listing (update_where (\<lambda>r. row_id r = row_id row) f rows) =
          (listing rows)(row_name row := if to = BranchDestroyed then None else Some (row_source_id row, to))"
        using Cons.IH Cons.prems row by (auto simp: unique_live_names_def split: if_splits)
      ultimately show ?thesis using row(2) by (intro ext) (auto simp: update_where_def listing_Cons)
    qed
  qed simp
qed

lemma legal_from_live: "legalBranchTransition st to \<Longrightarrow> st \<noteq> BranchDestroyed"
  by (cases st) (auto simp: legalBranchTransition_def)

lemma legal_to_destroyed: "legalBranchTransition st BranchDestroyed \<Longrightarrow> st = BranchDestroying"
  by (cases st) (auto simp: legalBranchTransition_def)

lemma dir_step_move:
  assumes "distinct (map row_id rows)" "unique_live_names rows" "row \<in> set rows" "legalBranchTransition (row_state row) to"
    and "\<And>r. row_name (f r) = row_name r" "\<And>r. row_state (f r) = to" "\<And>r. row_source_id (f r) = row_source_id r"
  shows "dir_step (listing rows) (listing (update_where (\<lambda>r. row_id r = row_id row) f rows))"
proof -
  have "live_row row" using legal_from_live [OF assms(4)] by (simp add: live_row_def)
  note m = listing_move [OF assms(1-3) this, of f to, OF assms(5-7)]
  show ?thesis
  proof (cases "to = BranchDestroyed")
    case True
    then show ?thesis using m legal_to_destroyed assms(4) dir_free by simp
  next
    case False
    then show ?thesis using m dir_move [where v = "listing rows", OF m(1) assms(4) False] by simp
  qed
qed

text \<open>A branch by its id, and what a transition does to it and to the directory.\<close>

definition row_at :: "tables \<Rightarrow> string \<Rightarrow> string \<Rightarrow> string \<Rightarrow> branch_state \<Rightarrow> bool" where
  "row_at d i n src st \<longleftrightarrow> wf_tables d \<and> (\<exists>r. find_key row_id i (branches d) = Some r \<and> row_name r = n \<and>
     row_source_id r = src \<and> row_state r = st)"

lemma transition_moves_row:
  assumes "TransitionBranchCtx c i to reason s = (Inr (), t)" "wf_tables (db s)" "find_key row_id i (branches (db s)) = Some r"
  shows "\<exists>now. find_key row_id i (branches (db t)) = Some (r\<lparr>row_state := to, row_updated_at := now\<rparr>)"
proof -
  obtain row now a where e: "find_key row_id i (branches (db s)) = Some row"
      "db t = (db s)\<lparr>branches := update_where (\<lambda>r. row_id r = i) (\<lambda>r. r\<lparr>row_state := to, row_updated_at := now\<rparr>) (branches (db s)),
         transitions := transitions (db s) @ [a]\<rparr>"
    using transition_okD [OF assms(1,2)] unfolding transition_effect_def by blast
  then show ?thesis using assms(3) by (intro exI [of _ now]) (simp add: find_key_update)
qed

lemma transition_row:
  assumes "row_at (db s) i n src st" "TransitionBranchCtx c i to reason s = (Inr (), t)"
  shows "legalBranchTransition st to" "row_at (db t) i n src to"
    "directory (db t) = (directory (db s))(n := if to = BranchDestroyed then None else Some (src, to))"
proof -
  obtain r where r: "find_key row_id i (branches (db s)) = Some r" "row_name r = n" "row_source_id r = src" "row_state r = st"
    and w: "wf_tables (db s)" using assms(1) by (auto simp: row_at_def)
  obtain row now a where e: "find_key row_id i (branches (db s)) = Some row" "legalBranchTransition (row_state row) to"
      "db t = (db s)\<lparr>branches := update_where (\<lambda>r. row_id r = i) (\<lambda>r. r\<lparr>row_state := to, row_updated_at := now\<rparr>) (branches (db s)),
         transitions := transitions (db s) @ [a]\<rparr>"
    using transition_okD [OF assms(2) w] unfolding transition_effect_def by blast
  let ?f = "\<lambda>r. r\<lparr>row_state := to, row_updated_at := now\<rparr>"
  show leg: "legalBranchTransition st to" using e(1,2) r by simp
  have i: "r \<in> set (branches (db s))" "i = row_id r" using find_key_SomeD [OF r(1)] by auto
  have "live_row r" using r(4) legal_from_live [OF leg] by (simp add: live_row_def)
  moreover have "distinct (map row_id (branches (db s)))" "unique_live_names (branches (db s))" using w by (auto simp: wf_tables_def)
  ultimately show "directory (db t) = (directory (db s))(n := if to = BranchDestroyed then None else Some (src, to))"
    using listing_move(2) [of "branches (db s)" r ?f to] i r(2,3) by (simp add: directory_def e(3))
  have "wf_tables (db t)" using keepsD [OF keeps_wf_TransitionBranchCtx _ assms(2)] w by (simp add: on_db_def)
  then show "row_at (db t) i n src to" using transition_moves_row [OF assms(2) w r(1)] r by (auto simp: row_at_def)
qed

section \<open>Every operation refines the specification\<close>

definition refines :: "dir \<Rightarrow> tables \<Rightarrow> bool" where
  "refines v d \<longleftrightarrow> wf_tables d \<and> dir_step\<^sup>*\<^sup>* v (directory d)"

lemma refines_same: "refines v d \<Longrightarrow> wf_tables d' \<Longrightarrow> directory d' = directory d \<Longrightarrow> refines v d'"
  by (simp add: refines_def)

lemma refines_step: "refines v d \<Longrightarrow> wf_tables d' \<Longrightarrow> dir_step (directory d) (directory d') \<Longrightarrow> refines v d'"
  by (auto simp: refines_def)

lemma refines_opI:
  assumes "keeps (on_db wf_tables) m"
    and "\<And>s r t. wf_tables (db s) \<Longrightarrow> m s = (r, t) \<Longrightarrow> directory (db t) = directory (db s) \<or> dir_step (directory (db s)) (directory (db t))"
  shows "keeps (on_db (refines v)) m"
proof (rule keepsI)
  fix s r t assume s: "on_db (refines v) s" "m s = (r, t)"
  then have w: "wf_tables (db s)" "wf_tables (db t)"
    using keepsD [OF assms(1) _ s(2)] by (auto simp: on_db_def refines_def)
  have "refines v (db s)" using s(1) by (simp add: on_db_def)
  from refines_same [OF this w(2)] refines_step [OF this w(2)] show "on_db (refines v) t"
    using assms(2) [OF w(1) s(2)] by (simp only: on_db_def) blast
qed

text \<open>Operations that leave the branches alone, or change neither name, state nor source of a branch.\<close>

definition same_dir :: "dir \<Rightarrow> tables \<Rightarrow> bool" where
  "same_dir v d \<longleftrightarrow> directory d = v"

lemma refines_quiet:
  assumes "keeps (on_db wf_tables) m" "\<And>w. keeps (on_db (same_dir w)) m"
  shows "keeps (on_db (refines v)) m"
  using assms(1)
proof (rule refines_opI)
  fix s r t assume "m s = (r, t)"
  then show "directory (db t) = directory (db s) \<or> dir_step (directory (db s)) (directory (db t))"
    using keepsD [OF assms(2) [of "directory (db s)"], of s r t] by (simp add: on_db_def same_dir_def)
qed

lemma same_dir_exec:
  assumes "\<And>d x d'. f d = Inr (x, d') \<Longrightarrow> branches d' = branches d"
  shows "keeps (on_db (same_dir v)) (sql_exec f)"
  by (rule keeps_sql_exec) (use assms in \<open>fastforce simp: same_dir_def directory_def\<close>)

lemma same_dir_update:
  assumes "\<And>r. row_name (f r) = row_name r" "\<And>r. row_state (f r) = row_state r" "\<And>r. row_source_id (f r) = row_source_id r"
  shows "keeps (on_db (same_dir v)) (sql_exec (update_branches p f))"
  by (rule keeps_sql_exec) (auto dest!: update_branches_okD simp: same_dir_def directory_def listing_update_same assms)

lemma same_dir_statements:
  "keeps (on_db (same_dir v)) (sql_exec (insert_source r))"
  "keeps (on_db (same_dir v)) (sql_exec (update_sources p f))"
  "keeps (on_db (same_dir v)) (sql_exec (insert_layer l))"
  "keeps (on_db (same_dir v)) (sql_exec (delete_layer i))"
  "keeps (on_db (same_dir v)) (sql_exec (insert_transition e j st to re ac at))"
  "keeps (on_db (same_dir v)) (sql_exec (insert_mask m))"
  "keeps (on_db (same_dir v)) (sql_exec (insert_token k))"
  by (rule same_dir_exec; auto simp: insert_source_def update_sources_def insert_layer_def delete_layer_def
      insert_transition_def insert_mask_def insert_token_def Let_def split: if_splits option.splits)+

lemma same_dir_masks: "keeps (on_db (same_dir v)) (insert_masks i n ms)"
  by (induction ms arbitrary: n) (auto intro!: keeps_rules same_dir_statements)

lemma same_dir_journal: "keeps (on_db (same_dir v)) (journal c e i f g r)"
  unfolding journal_def by (intro keeps_rules same_dir_statements env_free_on_db)

lemma same_dir_ops:
  "keeps (on_db (same_dir v)) (CreateSource src)" "keeps (on_db (same_dir v)) (SetSourceState i st r)"
  "keeps (on_db (same_dir v)) (BumpSourceGeneration i vol)" "keeps (on_db (same_dir v)) (SetBranchPassword i pw)"
  "keeps (on_db (same_dir v)) (SetBranchContainer i ci)" "keeps (on_db (same_dir v)) (TouchBranch i)"
  "keeps (on_db (same_dir v)) (SetMaskScripts i ms)" "keeps (on_db (same_dir v)) (CreateLayer l)"
  "keeps (on_db (same_dir v)) (DeleteLayer i)" "keeps (on_db (same_dir v)) (CreateAPIToken sha n role)"
  "keeps (on_db (same_dir v)) (RevokeAPIToken n)" "keeps (on_db (same_dir v)) ensureInstanceID"
  unfolding reg_op_defs
  by (intro keeps_rules keeps_in_tx_any same_dir_statements same_dir_masks same_dir_journal same_dir_update env_free_on_db;
      ((rule same_dir_exec, force split: if_splits) | simp)?)+

lemma refines_ops:
  "keeps (on_db (refines v)) (CreateSource src)" "keeps (on_db (refines v)) (SetSourceState i st r)"
  "keeps (on_db (refines v)) (BumpSourceGeneration i vol)" "keeps (on_db (refines v)) (SetBranchPassword i pw)"
  "keeps (on_db (refines v)) (SetBranchContainer i ci)" "keeps (on_db (refines v)) (TouchBranch i)"
  "keeps (on_db (refines v)) (SetMaskScripts i ms)" "keeps (on_db (refines v)) (CreateLayer l)"
  "keeps (on_db (refines v)) (DeleteLayer i)" "keeps (on_db (refines v)) (CreateAPIToken sha n role)"
  "keeps (on_db (refines v)) (RevokeAPIToken n)" "keeps (on_db (refines v)) ensureInstanceID"
  by (rule refines_quiet [OF _ same_dir_ops(1)] refines_quiet [OF _ same_dir_ops(2)] refines_quiet [OF _ same_dir_ops(3)]
      refines_quiet [OF _ same_dir_ops(4)] refines_quiet [OF _ same_dir_ops(5)] refines_quiet [OF _ same_dir_ops(6)]
      refines_quiet [OF _ same_dir_ops(7)] refines_quiet [OF _ same_dir_ops(8)] refines_quiet [OF _ same_dir_ops(9)]
      refines_quiet [OF _ same_dir_ops(10)] refines_quiet [OF _ same_dir_ops(11)] refines_quiet [OF _ same_dir_ops(12)],
      rule keeps_wf_ops)+

lemma refines_transition: "keeps (on_db (refines v)) (TransitionBranchCtx c i to r)"
proof (rule refines_opI [OF keeps_wf_TransitionBranchCtx])
  fix s :: "'a reg_st_scheme" and res t
  assume w: "wf_tables (db s)" and run: "TransitionBranchCtx c i to r s = (res, t)"
  show "directory (db t) = directory (db s) \<or> dir_step (directory (db s)) (directory (db t))"
  proof (cases res)
    case (Inl e)
    then have "db t = db s" using transition_errD run by blast
    then show ?thesis by simp
  next
    case (Inr x)
    then have "transition_effect c i to r (db s) (db t)" using transition_okD run w by (cases x) auto
    then obtain row now a where e: "find_key row_id i (branches (db s)) = Some row" "legalBranchTransition (row_state row) to"
      "db t = (db s)\<lparr>branches := update_where (\<lambda>r. row_id r = i) (\<lambda>r. r\<lparr>row_state := to, row_updated_at := now\<rparr>) (branches (db s)),
         transitions := transitions (db s) @ [a]\<rparr>"
      unfolding transition_effect_def by blast
    have row: "row \<in> set (branches (db s))" "i = row_id row" using find_key_SomeD [OF e(1)] by auto
    have "distinct (map row_id (branches (db s)))" "unique_live_names (branches (db s))" using w by (auto simp: wf_tables_def)
    from dir_step_move [OF this row(1) e(2), of "\<lambda>r. r\<lparr>row_state := to, row_updated_at := now\<rparr>"] show ?thesis
      by (simp add: directory_def e(3) row(2))
  qed
qed

lemma refines_mark_ready: "keeps (on_db (refines v)) (MarkBranchReadyCtx c i ci h p)"
proof -
  have upd: "keeps (on_db wf_tables) (sql_exec (update_branches (\<lambda>r. row_id r = i)
      (\<lambda>r. r\<lparr>row_container_id := ci, row_host := h, row_port := p\<rparr>)))"
    by (rule keeps_sql_exec) (auto intro: wf_update_branches)
  show ?thesis unfolding MarkBranchReadyCtx_def
    by (intro keeps_rules refines_transition refines_quiet upd same_dir_update) simp_all
qed

lemma refines_insert:
  assumes "row_state r = BranchCreating"
  shows "keeps (on_db (refines v)) (sql_exec (insert_branch r))"
proof (rule refines_opI [OF keeps_wf_insert_branch])
  fix s :: "'a reg_st_scheme" and res t
  assume run: "sql_exec (insert_branch r) s = (res, t)"
  show "directory (db t) = directory (db s) \<or> dir_step (directory (db s)) (directory (db t))"
  proof (cases res)
    case (Inl e)
    then have "db t = db s" using sql_exec_errD run by blast
    then show ?thesis by simp
  next
    case (Inr x)
    then have d: "unique_live_names (branches (db s) @ [r])" "db t = (db s)\<lparr>branches := branches (db s) @ [r]\<rparr>"
      using run by (auto dest!: sql_exec_okD simp: insert_branch_def split: if_splits)
    have live: "live_row r" using assms by (simp add: live_row_def)
    with d(1) have new: "row_name r \<notin> row_name ` set (filter live_row (branches (db s)))"
      by (simp add: unique_live_names_def)
    then have "listing (branches (db s)) (row_name r) = None" by (simp add: listing_None_iff)
    from dir_create [where v = "listing (branches (db s))", OF this] show ?thesis using listing_append [OF live new] by (simp add: directory_def d(2) assms)
  qed
qed

lemma refines_create: "keeps (on_db (refines v)) (CreateBranchCtx c b)"
  unfolding CreateBranchCtx_def
  by (intro keeps_rules env_free_on_db refines_insert refines_quiet [OF keeps_wf_journal same_dir_journal]) simp

lemma refines_freeze: "keeps (on_db (refines v)) (CommitFreezeCtx c p ch lv rw ci h po r)"
proof (rule refines_opI [OF keeps_wf_CommitFreezeCtx])
  fix s :: "'a reg_st_scheme" and res t
  assume w: "wf_tables (db s)" and run: "CommitFreezeCtx c p ch lv rw ci h po r s = (res, t)"
  show "directory (db t) = directory (db s) \<or> dir_step (directory (db s)) (directory (db t))"
  proof (cases res)
    case (Inl e)
    then have "db t = db s" using transaction_errD run unfolding CommitFreezeCtx_def by fastforce
    then show ?thesis by simp
  next
    case (Inr l)
    define f where "f now r = r\<lparr>row_rw_volume := rw, row_base_layer_id := Some (l_ID l), row_container_id := ci,
        row_host := h, row_port := po, row_state := BranchReady, row_updated_at := now\<rparr>" for now :: string and r :: branch_row
    from commit_freeze_effect [OF run [unfolded Inr]] obtain row now now2 where
      row: "find_key row_id p (branches (db s)) = Some row" "row_state row = BranchResetting"
      and d: "branches (db t) = update_where (\<lambda>r. row_id r = ch) (\<lambda>r. r\<lparr>row_base_layer_id := Some (l_ID l), row_updated_at := now2\<rparr>)
        (update_where (\<lambda>r. row_id r = p) (f now) (branches (db s)))"
      unfolding freeze_effect_def f_def by auto
    have i: "row \<in> set (branches (db s))" "p = row_id row" using find_key_SomeD [OF row(1)] by auto
    have "distinct (map row_id (branches (db s)))" "unique_live_names (branches (db s))" using w by (auto simp: wf_tables_def)
    from dir_step_move [OF this i(1), of BranchReady "f now"]
    have "dir_step (listing (branches (db s))) (listing (update_where (\<lambda>r. row_id r = p) (f now) (branches (db s))))"
      by (simp add: row(2) i(2) f_def legalBranchTransition_def)
    then show ?thesis by (simp add: directory_def d listing_update_same)
  qed
qed

lemma refines_delete_source: "keeps (on_db (refines v)) (DeleteSource i)"
proof (rule refines_opI [OF keeps_wf_DeleteSource])
  fix s :: "'a reg_st_scheme" and res t
  assume w: "wf_tables (db s)" and run: "DeleteSource i s = (res, t)"
  have "branches (db t) = branches (db s) \<or> branches (db t) = delete_where (\<lambda>r. row_source_id r = i) (branches (db s))"
    using run unfolding DeleteSource_def
    by (cases res) (auto dest!: in_tx_result sql_db sql_exec_plainD simp: ok_simps split: if_splits)
  then show "directory (db t) = directory (db s) \<or> dir_step (directory (db s)) (directory (db t))"
    using listing_delete [of "branches (db s)" i] w dir_purge [of "directory (db s)" i]
    by (auto simp: directory_def wf_tables_def)
qed

lemma refines_reg_run: "keeps (on_db (refines v)) (reg_run x)"
  by (cases x) (simp_all add: keeps_ignore refines_ops refines_transition refines_mark_ready refines_create refines_freeze
      refines_delete_source)

interpretation directory_sys: engine_invariant "on_db (refines v)" for v
  by unfold_locales (simp_all add: refines_reg_run, simp_all add: on_db_def)

section \<open>Lookups answer by the directory\<close>

lemma found_row:
  assumes "GetBranchByName n s = (Inr b, t)"
  obtains row where "find (\<lambda>r. row_name r = n \<and> row_state r \<noteq> BranchDestroyed) (branches (db s)) = Some row"
    "scanBranch (secrets s) row = Inr b" "db t = db s" "row \<in> set (branches (db s))" "row_name row = n" "live_row row"
proof -
  let ?q = "\<lambda>r. row_name r = n \<and> row_state r \<noteq> BranchDestroyed"
  obtain x u where q: "sql_query (\<lambda>d. find ?q (branches d)) s = (Inr x, u)" and
    c: "(case x of None \<Rightarrow> raise (Sentinel ErrNotFound)
      | Some row \<Rightarrow> (case scanBranch (secrets s) row of Inl e \<Rightarrow> raise e | Inr b \<Rightarrow> ok b)) u = (Inr b, t)"
    using assms unfolding GetBranchByName_def getBranch_def by (auto simp: ok_simps gets_def)
  have e: "find ?q (branches (db s)) = x" "db u = db s" using sql_query_okD [OF q] by auto
  obtain row where row: "x = Some row" "scanBranch (secrets s) row = Inr b" "db t = db s"
    using c e(2) by (cases x; cases "scanBranch (secrets s) (the x)") (auto simp: ok_simps)
  then show thesis using e(1) find_Some_iff [of ?q "branches (db s)" row] by (intro that) (auto simp: live_row_def)
qed

lemma found_in_directory:
  assumes "GetBranchByName n s = (Inr b, t)"
  shows "directory (db s) n = Some (br_SourceID b, br_State b) \<and> br_Name b = n \<and> db t = db s"
proof -
  obtain row where "find (\<lambda>r. row_name r = n \<and> row_state r \<noteq> BranchDestroyed) (branches (db s)) = Some row"
    "scanBranch (secrets s) row = Inr b" "db t = db s" "row_name row = n"
    by (rule found_row [OF assms])
  then show ?thesis by (auto simp: scanBranch_def directory_def listing_def live_row_def split: sum.splits)
qed

lemma found_row_at:
  assumes "GetBranchByName n s = (Inr b, t)" "wf_tables (db s)"
  shows "row_at (db s) (br_ID b) n (br_SourceID b) (br_State b)"
proof -
  obtain row where row: "scanBranch (secrets s) row = Inr b" "row \<in> set (branches (db s))" "row_name row = n"
    by (rule found_row [OF assms(1)])
  then have "find_key row_id (row_id row) (branches (db s)) = Some row"
    using assms(2) by (subst find_key_Some_iff) (auto simp: wf_tables_def)
  then show ?thesis using row assms(2) by (auto simp: row_at_def scanBranch_def split: sum.splits)
qed

lemma missing_in_directory:
  assumes "directory (db s) n = None" "no_faults s"
  shows "fst (GetBranchByName n s) = Inl (Sentinel ErrNotFound)"
  using assms unfolding GetBranchByName_def getBranch_def
  by (auto simp: comp_simps sql_query_def sql_no_faults directory_def listing_def live_row_def split: option.splits)

end
