(* ===== verification/Pgctl_Seed.thy ===== *)
theory Pgctl_Seed
  imports Registry_Directory
begin

text \<open>
  Package \<open>internal/pgctl\<close> (\<open>seed.go\<close>, \<open>seeddump.go\<close>): the helper containers that fill a source volume, with
  the shell script of the dump mode and its quoting.
\<close>

record seed_spec =
  ss_Image :: string
  ss_Volume :: string
  ss_MountKind :: mount_kind
  ss_Network :: string
  ss_Host :: string
  ss_Port :: int
  ss_User :: string
  ss_Password :: string

record seed_dump_spec = seed_spec +
  sd_Database :: string
  sd_Schemas :: "string list"

definition newline :: string where "newline = [CHR 0x0A]"
definition squote :: char where "squote = CHR 0x27"
definition dquote :: char where "dquote = CHR 0x22"
definition bslash :: char where "bslash = CHR 0x5C"

definition seed_mount :: "'a seed_spec_scheme \<Rightarrow> mount" where
  "seed_mount s = \<lparr>Kind = ss_MountKind s, Volume = ss_Volume s, Target = ''/seed'', ReadOnly = False\<rparr>"

definition prepare_seed :: "ctx \<Rightarrow> 'a seed_spec_scheme \<Rightarrow> ('z sys_scheme, unit) comp" where
  "prepare_seed c s = wrapping ''prepare seed volume: ''
     (bnd (drv_RunHelper c (helper ''alpine:3.21''
        [''sh'', ''-c'', ''mkdir -p /seed && chown 999:999 /seed''] [] [seed_mount s])) (\<lambda>_. ok ()))"

definition Seed :: "ctx \<Rightarrow> seed_spec \<Rightarrow> ('z sys_scheme, unit) comp" where
  "Seed c s =
     bnd (prepare_seed c s) (\<lambda>_.
     wrapping ''pg_basebackup: '' (bnd (drv_RunHelper c
       ((helper (ss_Image s)
          [''pg_basebackup'', ''-h'', ss_Host s, ''-p'', int_str (ss_Port s), ''-U'', ss_User s,
           ''-D'', ''/seed/data'', ''-X'', ''stream'', ''--checkpoint=fast'', ''--no-password'']
          [''PGPASSWORD='' @ ss_Password s] [seed_mount s])
        \<lparr>hs_User := ''postgres'', hs_Network := ss_Network s\<rparr>)) (\<lambda>_. ok ())))"

definition replace_quotes :: "string \<Rightarrow> string" where
  "replace_quotes s = replace_char s squote [squote, bslash, squote, squote]"

definition shellQuote :: "string \<Rightarrow> string" where
  "shellQuote s = [squote] @ replace_quotes s @ [squote]"

text \<open>The text of \<open>seedDumpScript\<close> with its two placeholders filled in by \<open>fmt.Sprintf\<close>.\<close>

definition dquoted :: "string \<Rightarrow> string" where
  "dquoted s = [dquote] @ s @ [dquote]"

definition seedDumpScript :: "string \<Rightarrow> string \<Rightarrow> string" where
  "seedDumpScript dropPublic schemaFlags =
     ''set -euo pipefail'' @ newline @
     ''initdb -D /seed/data --username='' @ dquoted ''$PGB_USER'' @ '' --pwfile=<(printf '' @ [squote] @ ''%s'' @ [bslash] @ ''n'' @ [squote] @
       '' '' @ dquoted ''$PGB_PASSWORD'' @ '') '' @ [bslash] @ newline @
     ''  --auth-local=trust --auth-host=scram-sha-256 --encoding=UTF8'' @ newline @
     ''echo '' @ dquoted ''host all all all scram-sha-256'' @ '' >> /seed/data/pg_hba.conf'' @ newline @
     ''echo '' @ dquoted (''listen_addresses = '' @ [squote] @ ''*'' @ [squote]) @ '' >> /seed/data/postgresql.conf'' @ newline @
     ''pg_ctl -D /seed/data -o '' @ dquoted (''-c listen_addresses='' @ [squote, squote] @ '' -c unix_socket_directories=/tmp'') @ '' -w start'' @ newline @
     ''if [ '' @ dquoted ''$PGB_DB'' @ '' != postgres ]; then createdb -h /tmp -U '' @ dquoted ''$PGB_USER'' @ '' '' @ dquoted ''$PGB_DB'' @ ''; fi'' @ newline @
     dropPublic @ ''PGPASSWORD='' @ dquoted ''$PGB_PASSWORD'' @ '' pg_dump --no-owner --no-acl'' @ schemaFlags @ '' '' @ [bslash] @ newline @
     ''  -h '' @ dquoted ''$PGB_REMOTE_HOST'' @ '' -p '' @ dquoted ''$PGB_REMOTE_PORT'' @ '' -U '' @ dquoted ''$PGB_USER'' @ '' -d '' @ dquoted ''$PGB_DB'' @ '' '' @ [bslash] @ newline @
     ''  | psql -h /tmp -U '' @ dquoted ''$PGB_USER'' @ '' -d '' @ dquoted ''$PGB_DB'' @ '' -v ON_ERROR_STOP=1 -q'' @ newline @
     ''pg_ctl -D /seed/data -w stop -m fast'' @ newline"

definition drop_public :: string where
  "drop_public = ''psql -h /tmp -U '' @ dquoted ''$PGB_USER'' @ '' -d '' @ dquoted ''$PGB_DB'' @ '' -q -c '' @ [squote] @ ''DROP SCHEMA public CASCADE'' @ [squote] @ newline"

definition SeedDump :: "ctx \<Rightarrow> seed_dump_spec \<Rightarrow> ('z sys_scheme, unit) comp" where
  "SeedDump c s =
     bnd (prepare_seed c s) (\<lambda>_.
     let database = (if sd_Database s = '''' then ''postgres'' else sd_Database s);
         schemaFlags = concat (map (\<lambda>schema. '' -n '' @ shellQuote schema) (sd_Schemas s));
         dropPublic = (if ''public'' \<in> set (sd_Schemas s) then drop_public else '''')
     in wrapping ''pg_dump seed: '' (bnd (drv_RunHelper c
       ((helper (ss_Image s) [''bash'', ''-c'', seedDumpScript dropPublic schemaFlags]
          [''PGB_USER='' @ ss_User s, ''PGB_PASSWORD='' @ ss_Password s, ''PGB_DB='' @ database,
           ''PGB_REMOTE_HOST='' @ ss_Host s, ''PGB_REMOTE_PORT='' @ int_str (ss_Port s)] [seed_mount s])
        \<lparr>hs_User := ''postgres'', hs_Network := ss_Network s\<rparr>)) (\<lambda>_. ok ())))"

section \<open>Shell words\<close>

text \<open>
  How a POSIX shell reads a line of words that are plain, single-quoted or backslash-escaped: a blank
  ends a word, single quotes keep everything literal, a backslash keeps the next character. The result
  is the list of words, or nothing for a quote that never ends.
\<close>

fun sh_words :: "bool \<Rightarrow> string option \<Rightarrow> string \<Rightarrow> string list option" where
  "sh_words True w [] = None"
| "sh_words False w [] = Some (case w of None \<Rightarrow> [] | Some x \<Rightarrow> [x])"
| "sh_words True w (c # cs) =
     (if c = CHR 0x27 then sh_words False w cs
      else sh_words True (Some (case w of None \<Rightarrow> [c] | Some x \<Rightarrow> x @ [c])) cs)"
| "sh_words False w (c # cs) =
     (if c = CHR 0x27 then sh_words True (Some (case w of None \<Rightarrow> [] | Some x \<Rightarrow> x)) cs
      else if c = CHR 0x20 then
        map_option (\<lambda>ws. (case w of None \<Rightarrow> [] | Some x \<Rightarrow> [x]) @ ws) (sh_words False None cs)
      else if c = CHR 0x5C then
        (case cs of [] \<Rightarrow> None | d # ds \<Rightarrow> sh_words False (Some (case w of None \<Rightarrow> [d] | Some x \<Rightarrow> x @ [d])) ds)
      else sh_words False (Some (case w of None \<Rightarrow> [c] | Some x \<Rightarrow> x @ [c])) cs)"

lemma sh_words_inside:
  "sh_words True (Some x) (replace_quotes a @ [CHR 0x27] @ r) = sh_words False (Some (x @ a)) r"
  by (induction a arbitrary: x) (auto simp: replace_quotes_def replace_char_def squote_def bslash_def)

lemma sh_words_shellQuote:
  "sh_words False None (shellQuote a @ r) = sh_words False (Some a) r"
  using sh_words_inside [of "[]" a r] by (simp add: shellQuote_def squote_def)

end
