(* ===== verification/Engine_Core.thy ===== *)
theory Engine_Core
  imports Pgctl_Seed
begin

text \<open>
  Package \<open>internal/engine\<close>, the parts every saga uses: the engine and its options, compensation
  logging, the quota and the TTL policy (\<open>engine.go\<close>), name validation, labels, readiness and masking
  (\<open>saga.go\<close>) and the zfs helpers with the backend-neutral layer primitives (\<open>zfs.go\<close>). Metrics and
  log lines are dropped, except that a swallowed error is recorded as a warning.
\<close>

section \<open>The engine\<close>

record engine =
  defaultImage :: string
  planner :: planner
  rotateCredentials :: bool
  maxBranches :: int
  defaultTTL :: int
  maxTTL :: int
  scripts :: "script \<Rightarrow> string"

type_synonym option_fn = "engine \<Rightarrow> engine"

definition WithCredentialRotation :: option_fn where
  "WithCredentialRotation e = e\<lparr>rotateCredentials := True\<rparr>"

definition WithMaxBranches :: "int \<Rightarrow> option_fn" where
  "WithMaxBranches n e = e\<lparr>maxBranches := n\<rparr>"

definition WithTTLPolicy :: "int \<Rightarrow> int \<Rightarrow> option_fn" where
  "WithTTLPolicy dflt mx e = e\<lparr>defaultTTL := dflt, maxTTL := mx\<rparr>"

definition NewWithPlanner :: "(script \<Rightarrow> string) \<Rightarrow> string \<Rightarrow> planner \<Rightarrow> option_fn list \<Rightarrow> engine" where
  "NewWithPlanner embedded img p opts =
     fold (\<lambda>f e. f e) opts \<lparr>defaultImage = img, planner = p, rotateCredentials = False, maxBranches = 0,
       defaultTTL = 0, maxTTL = 0, scripts = embedded\<rparr>"

definition New :: "(script \<Rightarrow> string) \<Rightarrow> string \<Rightarrow> option_fn list \<Rightarrow> engine" where
  "New embedded img opts = NewWithPlanner embedded img \<lparr>Backend = BackendOverlay, Dataset = []\<rparr> opts"

text \<open>A swallowed error: recorded as a warning, control flow unchanged.\<close>

definition logCompensationErr :: "string \<Rightarrow> ('z sys_scheme, 'a) comp \<Rightarrow> ('z sys_scheme, unit) comp" where
  "logCompensationErr kind m =
     bnd (attempt m) (\<lambda>r. case r of
        Inl e \<Rightarrow> modify (\<lambda>s. s\<lparr>warnings := warnings s @ [(kind, e)]\<rparr>)
      | Inr _ \<Rightarrow> ok ())"

text \<open>A result that the code drops without logging.\<close>

definition dropped :: "('z sys_scheme, 'a) comp \<Rightarrow> ('z sys_scheme, unit) comp" where
  "dropped m = bnd (attempt m) (\<lambda>_. ok ())"

definition checkQuota :: "engine \<Rightarrow> ('z sys_scheme, unit) comp" where
  "checkQuota e =
     (if maxBranches e \<le> 0 then ok ()
      else bnd CountLiveBranches (\<lambda>n.
        if maxBranches e \<le> int n then
          raise (Wrap [] (Sentinel ErrQuotaExceeded)
            ('': '' @ nat_str n @ '' live branch(es) at the --max-branches='' @ int_str (maxBranches e) @ '' cap''))
        else ok ()))"

definition effective_ttl :: "engine \<Rightarrow> int \<Rightarrow> int" where
  "effective_ttl e ttl =
     (let t1 = (if ttl \<le> 0 \<and> 0 < defaultTTL e then defaultTTL e else ttl)
      in if 0 < maxTTL e \<and> maxTTL e < t1 then maxTTL e else t1)"

definition expiresAtFor :: "engine \<Rightarrow> int \<Rightarrow> ('z sys_scheme, string) comp" where
  "expiresAtFor e ttl =
     (let t = effective_ttl e ttl in
      if t \<le> 0 then ok '''' else bnd time_now (\<lambda>now. ok (rfc3339 (now + t))))"

definition image_of :: "engine \<Rightarrow> string \<Rightarrow> string" where
  "image_of e pgVersion = (if pgVersion = '''' then defaultImage e else ''postgres:'' @ pgVersion)"

section \<open>Names and labels\<close>

definition name_start :: "char \<Rightarrow> bool" where
  "name_start c \<longleftrightarrow> (97 \<le> (of_char c :: nat) \<and> (of_char c :: nat) \<le> 122) \<or> (48 \<le> (of_char c :: nat) \<and> (of_char c :: nat) \<le> 57)"

text \<open>\<open>^[a-z0-9][a-z0-9-]{0,40}$\<close>\<close>

definition branchNameRe :: "string \<Rightarrow> bool" where
  "branchNameRe s \<longleftrightarrow> (case s of [] \<Rightarrow> False
     | c # cs \<Rightarrow> name_start c \<and> list_all (\<lambda>x. name_start x \<or> x = CHR ''-'') cs \<and> length cs \<le> 40)"

definition validateName :: "string \<Rightarrow> string \<Rightarrow> err option" where
  "validateName kind name =
     (if branchNameRe name then None
      else Some (Wrap [] (Sentinel ErrInvalidName)
        ('' '' @ go_quote name @ '': '' @ kind @ '' name must match [a-z0-9][a-z0-9-]{0,40} (lowercase letters, digits and hyphens, starting with a letter or digit, at most 41 characters)'')))"

definition validateBranchName :: "string \<Rightarrow> err option" where
  "validateBranchName name = validateName ''branch'' name"

definition validateSourceName :: "string \<Rightarrow> err option" where
  "validateSourceName name = validateName ''source'' name"

definition instanceLabels :: "labels \<Rightarrow> ('z sys_scheme, labels) comp" where
  "instanceLabels ls = gets (\<lambda>s. filter (\<lambda>(k, _). k \<noteq> LabelInstance) ls @ [(LabelInstance, instanceID s)])"

definition branchLabels :: "branch \<Rightarrow> ('z sys_scheme, labels) comp" where
  "branchLabels b = instanceLabels [(''pgbranch.managed'', ''true''), (''pgbranch.role'', ''branch''),
     (''pgbranch.branch.id'', br_ID b), (''pgbranch.branch.name'', br_Name b)]"

definition volumeLabels :: "string \<Rightarrow> string \<Rightarrow> ('z sys_scheme, labels) comp" where
  "volumeLabels key v = instanceLabels [(''pgbranch.managed'', ''true''), (key, v)]"

section \<open>zfs helpers and layer primitives (\<open>zfs.go\<close>)\<close>

definition zfsHelperImage :: string where "zfsHelperImage = ''alpine:3.21''"

text \<open>\<open>^[A-Za-z0-9@%_+=:,./-]+$\<close>\<close>

definition shellSafeRe :: "string \<Rightarrow> bool" where
  "shellSafeRe s \<longleftrightarrow> s \<noteq> [] \<and> list_all (\<lambda>c.
     (65 \<le> (of_char c :: nat) \<and> (of_char c :: nat) \<le> 90) \<or> (97 \<le> (of_char c :: nat) \<and> (of_char c :: nat) \<le> 122) \<or>
     (48 \<le> (of_char c :: nat) \<and> (of_char c :: nat) \<le> 57) \<or> c \<in> set ''@%_+=:,./-'') s"

definition shellQuoteArg :: "string \<Rightarrow> string" where
  "shellQuoteArg a = (if shellSafeRe a then a else shellQuote a)"

definition shellJoin :: "string list \<Rightarrow> string" where
  "shellJoin argv = strings_join (map shellQuoteArg argv) '' ''"

definition zfsSpec :: "string \<Rightarrow> helper_spec" where
  "zfsSpec script = (helper zfsHelperImage [''sh'', ''-c'', ''apk add --quiet zfs && '' @ script] [] [])
     \<lparr>hs_Privileged := True, hs_HostDevices := [''/dev/zfs'']\<rparr>"

definition zfsHelperSpec :: "string list \<Rightarrow> helper_spec" where
  "zfsHelperSpec argv = zfsSpec (shellJoin argv)"

definition zfsDestroySpec :: "string list \<Rightarrow> helper_spec" where
  "zfsDestroySpec argv = zfsSpec (''{ '' @ shellJoin argv @ '' || ! zfs list -t all '' @ shellQuoteArg (last argv) @ '' >/dev/null 2>&1; }'')"

definition is_zfs :: "engine \<Rightarrow> bool" where
  "is_zfs e \<longleftrightarrow> Backend (planner e) = BackendZFS"

definition is_csi :: "engine \<Rightarrow> bool" where
  "is_csi e \<longleftrightarrow> Backend (planner e) = BackendCSI"

definition runZFS :: "ctx \<Rightarrow> helper_spec \<Rightarrow> ('z sys_scheme, unit) comp" where
  "runZFS c spec = bnd (drv_RunHelper c spec) (\<lambda>_. ok ())"

definition createSourceLayer :: "engine \<Rightarrow> ctx \<Rightarrow> string \<Rightarrow> labels \<Rightarrow> ('z sys_scheme, unit) comp" where
  "createSourceLayer e c name ls =
     (if is_zfs e then runZFS c (zfsHelperSpec (ZFSCreate (planner e) name))
      else drv_CreateVolume c name ls)"

definition removeSourceLayer :: "engine \<Rightarrow> ctx \<Rightarrow> string \<Rightarrow> ('z sys_scheme, unit) comp" where
  "removeSourceLayer e c name =
     (if is_zfs e then runZFS c (zfsDestroySpec (ZFSDestroyDataset (planner e) name))
      else drv_RemoveVolume c name)"

definition removeBranchLayer :: "engine \<Rightarrow> ctx \<Rightarrow> branch \<Rightarrow> ('z sys_scheme, unit) comp" where
  "removeBranchLayer e c b =
     (if is_zfs e then
        bnd (wrapping ''destroy zfs clone: '' (runZFS c (zfsDestroySpec (ZFSDestroyClone (planner e) (br_Name b))))) (\<lambda>_.
        wrapping ''destroy zfs snapshot: ''
          (runZFS c (zfsDestroySpec (ZFSDestroySnapshot (planner e) (br_SourceVolume b) (br_Name b)))))
      else drv_RemoveVolume c (br_RWVolume b))"

definition seedTarget :: "engine \<Rightarrow> string \<Rightarrow> string \<times> mount_kind" where
  "seedTarget e l = (if is_zfs e then (Mountpoint (planner e) l, MountHostPath) else (l, MountVolume))"

section \<open>Readiness, address, masking\<close>

definition ctx_err :: err where "ctx_err = Msg ''context canceled''"

text \<open>
  The readiness loop takes fuel. An iteration that goes on slept for a second, so
  \<open>wait_fuel\<close> units are enough (shown below).
\<close>

fun wait_ready_loop :: "nat \<Rightarrow> ctx \<Rightarrow> string \<Rightarrow> int \<Rightarrow> err option \<Rightarrow> ('z sys_scheme, unit) comp" where
  "wait_ready_loop 0 c cid deadline lastErr = raise (Msg ''readiness loop out of fuel'')"
| "wait_ready_loop (Suc n) c cid deadline lastErr =
     bnd time_now (\<lambda>now.
     if now < deadline then
       bnd (attempt (drv_Exec c cid [''pg_isready'', ''-U'', ''postgres'', ''-h'', ''/var/run/postgresql''])) (\<lambda>r.
       case r of
         Inr _ \<Rightarrow> ok ()
       | Inl er \<Rightarrow> bnd (sleep_or_done (ctx_cancellable c) second) (\<lambda>dn.
           if dn then raise ctx_err else wait_ready_loop n c cid deadline (Some er)))
     else lift_err lastErr)"

definition wait_fuel :: "int \<Rightarrow> nat" where
  "wait_fuel timeout = nat (timeout div second) + 2"

definition waitReady :: "ctx \<Rightarrow> string \<Rightarrow> int \<Rightarrow> ('z sys_scheme, unit) comp" where
  "waitReady c cid timeout =
     bnd time_now (\<lambda>now. wait_ready_loop (wait_fuel timeout) c cid (now + timeout) None)"

fun inspect_loop :: "nat \<Rightarrow> ctx \<Rightarrow> string \<Rightarrow> int \<Rightarrow> ('z sys_scheme, container_info) comp" where
  "inspect_loop 0 c cid deadline = raise (Msg ''inspect loop out of fuel'')"
| "inspect_loop (Suc n) c cid deadline =
     bnd (drv_Inspect c cid) (\<lambda>info.
     if ci_Host info \<noteq> '''' then ok info
     else bnd time_now (\<lambda>now.
       if deadline < now then raise (Msg (''instance '' @ cid @ '' reported no address within 30s''))
       else bnd (sleep_or_done (ctx_cancellable c) second) (\<lambda>dn.
         if dn then raise ctx_err else inspect_loop n c cid deadline)))"

definition inspectAddr :: "ctx \<Rightarrow> string \<Rightarrow> ('z sys_scheme, container_info) comp" where
  "inspectAddr c cid =
     bnd time_now (\<lambda>now. inspect_loop (wait_fuel (30 * second)) c cid (now + 30 * second))"

definition psqlCmd :: "source \<Rightarrow> string \<Rightarrow> string list" where
  "psqlCmd src stmt =
     (let user = (if src_ConnUser src = '''' then ''postgres'' else src_ConnUser src);
          database = (if src_ConnDB src = '''' then ''postgres'' else src_ConnDB src)
      in [''psql'', ''-v'', ''ON_ERROR_STOP=1'', ''-U'', user, ''-d'', database, ''-c'', stmt])"

definition applyMasking :: "ctx \<Rightarrow> string \<Rightarrow> source \<Rightarrow> ('z sys_scheme, unit) comp" where
  "applyMasking c cid src =
     bnd (wrapping ''load mask scripts: '' (GetMaskScripts (src_ID src))) (\<lambda>scs.
     for_each scs (\<lambda>sc. wrapping (''masking script '' @ go_quote (ms_Name sc) @ '': '')
       (drv_Exec c cid (psqlCmd src (ms_SQL sc)))))"

definition rotateBranchCredentials :: "engine \<Rightarrow> ctx \<Rightarrow> string \<Rightarrow> branch \<Rightarrow> source \<Rightarrow> ('z sys_scheme, unit) comp" where
  "rotateBranchCredentials e c cid b src =
     (if \<not> rotateCredentials e then ok ()
      else bnd (rand_hex 16) (\<lambda>pw.
        let user = (if src_ConnUser src = '''' then ''postgres'' else src_ConnUser src);
            stmt = ''ALTER ROLE '' @ [dquote] @ replace_char user dquote [dquote, dquote] @ [dquote] @
              '' WITH PASSWORD '' @ [squote] @ pw @ [squote]
        in bnd (wrapping (''rotate credentials for branch '' @ go_quote (br_Name b) @ '': '')
             (drv_Exec c cid (psqlCmd src stmt))) (\<lambda>_.
           wrapping (''persist rotated password for branch '' @ go_quote (br_Name b) @ '': '')
             (SetBranchPassword (br_ID b) pw))))"

definition awaitAndMark :: "engine \<Rightarrow> ctx \<Rightarrow> branch \<Rightarrow> source \<Rightarrow> string \<Rightarrow> ('z sys_scheme, unit) comp" where
  "awaitAndMark e c b src cid =
     bnd (SetBranchContainer (br_ID b) cid) (\<lambda>_.
     bnd (wrapping ''instance never became ready: '' (waitReady c cid (90 * second))) (\<lambda>_.
     bnd (applyMasking c cid src) (\<lambda>_.
     bnd (rotateBranchCredentials e c cid b src) (\<lambda>_.
     bnd (inspectAddr c cid) (\<lambda>info.
     MarkBranchReadyCtx c (br_ID b) cid (ci_Host info) (ci_Port info))))))"


section \<open>Invariants\<close>

context reading
begin

lemma log_keeps [keeps_rules]: "keeps I m \<Longrightarrow> keeps I (logCompensationErr k m)"
  unfolding logCompensationErr_def by (intro keeps_rules keeps_modify) (simp_all add: warnings_free)

lemma dropped_keeps [keeps_rules]: "keeps I m \<Longrightarrow> keeps I (dropped m)"
  unfolding dropped_def by (intro keeps_rules)

lemma sleep_keeps [keeps_rules]: "keeps I (sleep_or_done b second)"
  by (rule keeps_sleep [OF time_free]) (simp add: second_def)

lemma wait_loop_keeps [keeps_rules]: "keeps I (wait_ready_loop n c cid dl le)"
  by (induction n arbitrary: le) (simp_all add: keeps_rules)

lemma inspect_loop_keeps [keeps_rules]: "keeps I (inspect_loop n c cid dl)"
  by (induction n) (simp_all add: keeps_rules)

lemma core_keeps [keeps_rules]:
  "keeps I (checkQuota e)" "keeps I (expiresAtFor e ttl)" "keeps I (instanceLabels ls)"
  "keeps I (branchLabels b)" "keeps I (volumeLabels k v)" "keeps I (runZFS c spec)"
  "keeps I (createSourceLayer e c n ls)" "keeps I (removeSourceLayer e c n)" "keeps I (removeBranchLayer e c b)"
  "keeps I (waitReady c cid d)" "keeps I (inspectAddr c cid)" "keeps I (applyMasking c cid src)"
  unfolding checkQuota_def expiresAtFor_def instanceLabels_def branchLabels_def volumeLabels_def runZFS_def
    createSourceLayer_def removeSourceLayer_def removeBranchLayer_def waitReady_def inspectAddr_def
    applyMasking_def
  by (intro keeps_rules reads_keep)+

lemma seed_keeps [keeps_rules]: "keeps I (prepare_seed c x)" "keeps I (Seed c y)" "keeps I (SeedDump c z)"
  unfolding prepare_seed_def Seed_def SeedDump_def by (intro keeps_rules)+

end

context engine_invariant
begin

lemma rotate_keeps [keeps_rules]: "keeps I (rotateBranchCredentials e c cid b src)"
  unfolding rotateBranchCredentials_def by (intro keeps_rules reads_keep)

lemma await_keeps [keeps_rules]: "keeps I (awaitAndMark e c b src cid)"
  unfolding awaitAndMark_def by (intro keeps_rules)

end

section \<open>The TTL policy\<close>

text \<open>
  A branch is created without an expiry exactly when neither a TTL was requested nor a default is
  configured, also when a maximum is; in every other case it expires after the requested or the default
  TTL, cut to the maximum.
\<close>

theorem ttl_policy:
  assumes "expiresAtFor e ttl s = (Inr x, t)"
  shows "if ttl \<le> 0 \<and> defaultTTL e \<le> 0 then x = []
    else \<exists>d. x = rfc3339 (wall t + d) \<and> x \<noteq> [] \<and> 0 < d \<and> (0 < maxTTL e \<longrightarrow> d \<le> maxTTL e) \<and>
      (d = maxTTL e \<or> d = (if 0 < ttl then ttl else defaultTTL e))"
  using assms by (auto simp: expiresAtFor_def effective_ttl_def Let_def comp_simps time_now_def split: if_splits)

section \<open>Command lines survive the shell\<close>

lemma sh_words_safe:
  assumes "list_all (\<lambda>c. c \<noteq> CHR 0x27 \<and> c \<noteq> CHR 0x20 \<and> c \<noteq> CHR 0x5C) a"
  shows "sh_words False (Some x) (a @ r) = sh_words False (Some (x @ a)) r"
  using assms by (induction a arbitrary: x) auto

lemma shellSafe_chars:
  "shellSafeRe a \<Longrightarrow> list_all (\<lambda>c. c \<noteq> CHR 0x27 \<and> c \<noteq> CHR 0x20 \<and> c \<noteq> CHR 0x5C) a"
  unfolding shellSafeRe_def by (auto simp: list_all_iff)

lemma sh_words_shellQuoteArg: "sh_words False None (shellQuoteArg a @ r) = sh_words False (Some a) r"
proof (cases "shellSafeRe a")
  case True
  then obtain x xs where a: "a = x # xs" by (cases a) (auto simp: shellSafeRe_def)
  have "sh_words False None ((x # xs) @ r) = sh_words False (Some [x]) (xs @ r)"
    using shellSafe_chars [OF True] a by simp
  also have "\<dots> = sh_words False (Some (x # xs)) r"
    using sh_words_safe [of xs "[x]" r] shellSafe_chars [OF True] a by simp
  finally show ?thesis using True a by (simp add: shellQuoteArg_def)
next
  case False
  then show ?thesis by (simp add: shellQuoteArg_def sh_words_shellQuote)
qed

lemma sh_words_shellJoin: "sh_words False None (shellJoin argv) = Some argv"
proof (induction argv)
  case Nil
  then show ?case by (simp add: shellJoin_def)
next
  case (Cons a argv)
  show ?case
  proof (cases argv)
    case Nil
    then show ?thesis using sh_words_shellQuoteArg [of a "[]"] by (simp add: shellJoin_def)
  next
    case (Cons b bs)
    have "shellJoin (a # argv) = shellQuoteArg a @ CHR 0x20 # shellJoin argv"
      by (simp add: shellJoin_def Cons)
    then show ?thesis using sh_words_shellQuoteArg [of a] Cons.IH by simp
  qed
qed

lemma shell_join_inj: "shellJoin a = shellJoin b \<Longrightarrow> a = b"
  by (metis option.inject sh_words_shellJoin)

text \<open>
  The shell reads back exactly the argument vector: whatever characters an argument contains,
  splitting the quoted line into shell words gives the words it was built from.
\<close>

theorem shell_join_roundtrip: "sh_words False None (shellJoin argv) = Some argv"
  by (rule sh_words_shellJoin)

section \<open>The waiting loops end\<close>

lemma sleep_result:
  obtains dn t where "sleep_or_done b d s = (Inr dn, t)" "dn \<or> wall s + d \<le> wall t"
  by (cases "b \<and> ctx_done s (tick s)") (auto simp: sleep_or_done_def)

lemma wait_ready_loop_stable:
  "deadline \<le> wall s + int n * second \<Longrightarrow>
   wait_ready_loop (Suc n + k) c cid deadline le s = wait_ready_loop (Suc n) c cid deadline le s"
  for s :: "'z sys_scheme"
proof (induction n arbitrary: s le)
  case 0
  then show ?case by (simp add: comp_simps time_now_def Let_def)
next
  case (Suc n)
  let ?ex = "drv_Exec c cid [''pg_isready'', ''-U'', ''postgres'', ''-h'', ''/var/run/postgresql''] :: ('z sys_scheme, unit) comp"
  have up: "wall u \<le> wall v" if "?ex u = (r, v)" for u v :: "'z sys_scheme" and r
    using keepsD [OF clock_sys.drv_keeps(7) _ that, of "wall u"] by simp
  obtain now s1 where now: "time_now s = (Inr now, s1)" "wall s \<le> wall s1"
    by (simp add: time_now_def Let_def)
  show ?case
  proof (cases "now < deadline")
    case False
    then show ?thesis by (simp add: comp_simps now)
  next
    case True
    obtain r s2 where ex: "?ex s1 = (r, s2)" by (cases "?ex s1")
    obtain dn s3 where sl: "sleep_or_done (ctx_cancellable c) second s2 = (Inr dn, s3)"
      "dn \<or> wall s2 + second \<le> wall s3" by (rule sleep_result)
    have "deadline \<le> wall s3 + int n * second" if "\<not> dn"
      using Suc.prems now(2) up [OF ex] sl(2) that by (simp add: algebra_simps)
    then have "wait_ready_loop (Suc n + k) c cid deadline (Some er) s3 =
        wait_ready_loop (Suc n) c cid deadline (Some er) s3" if "\<not> dn" for er
      using Suc.IH that by blast
    then show ?thesis using True
      by (cases r) (auto simp: bnd_run attempt_run now ex sl(1) ok_run simp del: wait_ready_loop.simps
          simp: wait_ready_loop.simps(2) [of "Suc n"] wait_ready_loop.simps(2) [of "Suc (n + k)"])
  qed
qed


lemma inspect_loop_stable:
  "deadline < wall s + int n * second \<Longrightarrow>
   inspect_loop (Suc n + k) c cid deadline s = inspect_loop (Suc n) c cid deadline s"
  for s :: "'z sys_scheme"
proof (induction n arbitrary: s)
  case 0
  show ?case
  proof (cases "drv_Inspect c cid s")
    case (Pair r u)
    have "wall s \<le> wall u" using keepsD [OF clock_sys.drv_keeps(9) _ Pair, of "wall s"] by simp
    with 0 Pair show ?thesis by (cases r) (auto simp: bnd_run time_now_def Let_def raise_run)
  qed
next
  case (Suc n)
  show ?case
  proof (cases "drv_Inspect c cid s")
    case (Pair r u)
    have up: "wall s \<le> wall u" using keepsD [OF clock_sys.drv_keeps(9) _ Pair, of "wall s"] by simp
    obtain now s1 where now: "time_now u = (Inr now, s1)" "wall u \<le> wall s1"
      by (simp add: time_now_def Let_def)
    obtain dn s3 where sl: "sleep_or_done (ctx_cancellable c) second s1 = (Inr dn, s3)"
      "dn \<or> wall s1 + second \<le> wall s3" by (rule sleep_result)
    have "deadline < wall s3 + int n * second" if "\<not> dn"
      using Suc.prems up now(2) sl(2) that by (simp add: algebra_simps)
    then have "inspect_loop (Suc n + k) c cid deadline s3 = inspect_loop (Suc n) c cid deadline s3" if "\<not> dn"
      using Suc.IH that by blast
    then show ?thesis
      by (cases r) (auto simp: bnd_run Pair now sl(1) simp del: inspect_loop.simps
          simp: inspect_loop.simps(2) [of "Suc n"] inspect_loop.simps(2) [of "Suc (n + k)"])
  qed
qed

lemma wait_fuel_enough: "timeout < (int (wait_fuel timeout) - 1) * second"
proof -
  have "timeout < (timeout div second + 1) * second"
    by (metis add.commute distrib_right div_mult_mod_eq mult_1 add_strict_left_mono pos_mod_bound
        second_def zero_less_numeral)
  also have "\<dots> \<le> (int (wait_fuel timeout) - 1) * second"
    by (rule mult_right_mono) (auto simp: wait_fuel_def second_def)
  finally show ?thesis .
qed

text \<open>
  Waiting for a branch to become ready ends: more fuel than the loop gets never changes what
  \<open>waitReady\<close> and \<open>inspectAddr\<close> return or do, for every driver and every clock, because each further
  iteration waits a second and the deadline is fixed.
\<close>

theorem waiting_loops_end:
  "bnd time_now (\<lambda>now. wait_ready_loop (wait_fuel timeout + k) c cid (now + timeout) None) s =
     waitReady c cid timeout s \<and>
   bnd time_now (\<lambda>now. inspect_loop (wait_fuel (30 * second) + k) c cid (now + 30 * second)) s = inspectAddr c cid s"
proof -
  obtain now s1 where now: "time_now s = (Inr now, s1)" "wall s1 = now"
    by (simp add: time_now_def Let_def)
  have m: "wait_fuel x = Suc (nat (x div second) + 1)" for x by (simp add: wait_fuel_def)
  have enough: "x < int (nat (x div second) + 1) * second" for x
    using wait_fuel_enough [of x] by (simp add: m)
  have "wait_ready_loop (wait_fuel timeout + k) c cid (now + timeout) None s1 =
      wait_ready_loop (wait_fuel timeout) c cid (now + timeout) None s1"
    unfolding m by (rule wait_ready_loop_stable) (use enough [of timeout] now(2) in linarith)
  moreover have "inspect_loop (wait_fuel (30 * second) + k) c cid (now + 30 * second) s1 =
      inspect_loop (wait_fuel (30 * second)) c cid (now + 30 * second) s1"
    unfolding m by (rule inspect_loop_stable) (use enough [of "30 * second"] now(2) in linarith)
  ultimately show ?thesis
    unfolding waitReady_def inspectAddr_def by (simp only: bnd_run now(1) prod.case sum.case simp_thms)
qed

section \<open>What readiness means\<close>

definition isready_cmd :: "string list" where
  "isready_cmd = [''pg_isready'', ''-U'', ''postgres'', ''-h'', ''/var/run/postgresql'']"


lemma quiet_time_now: "emits time_now (\<lambda>r evs. evs = [])"
  by (rule emits_silent) (auto simp: keeps_def time_now_def Let_def)

lemma quiet_sleep: "emits (sleep_or_done b d) (\<lambda>r evs. evs = [])"
  by (rule emits_silent) (auto simp: keeps_def sleep_or_done_def)

lemma emits_attempt: "emits m P \<Longrightarrow> emits (attempt m) (\<lambda>r evs. \<exists>v. r = Inr v \<and> P v evs)"
  unfolding emits_def by (auto simp: comp_simps split: prod.splits)

definition probes :: "string \<Rightarrow> err option \<Rightarrow> err + unit \<Rightarrow> hist \<Rightarrow> bool" where
  "probes cid le r evs \<longleftrightarrow> (\<forall>ev \<in> set evs. ev_call ev = CExec cid isready_cmd) \<and>
     (r = Inr () \<longrightarrow> (if evs = [] then le = None else ev_ok (last evs)))"

definition probe_step :: "nat \<Rightarrow> ctx \<Rightarrow> string \<Rightarrow> int \<Rightarrow> ('z sys_scheme, unit) comp" where
  "probe_step n c cid dl = bnd (attempt (drv_Exec c cid isready_cmd)) (\<lambda>v. case v of
     Inl er \<Rightarrow> bnd (sleep_or_done (ctx_cancellable c) second)
       (\<lambda>dn. if dn then raise ctx_err else wait_ready_loop n c cid dl (Some er))
   | Inr _ \<Rightarrow> ok ())"

lemma wait_ready_loop_Suc:
  "wait_ready_loop (Suc n) c cid dl le =
     bnd time_now (\<lambda>now. if now < dl then probe_step n c cid dl else lift_err le)"
  unfolding wait_ready_loop.simps probe_step_def isready_cmd_def by (rule refl)

lemma bnd_time_now:
  "bnd time_now f s = f (wall s + int (elapse s (tick s)))
     (s\<lparr>wall := wall s + int (elapse s (tick s)), tick := Suc (tick s)\<rparr>)"
  by (simp add: bnd_run time_now_def Let_def)

lemma probe_step_emits:
  assumes "\<And>le. emits (wait_ready_loop n c cid dl le :: ('z sys_scheme, unit) comp) (probes cid le)"
  shows "emits (probe_step n c cid dl :: ('z sys_scheme, unit) comp) (\<lambda>r evs. probes cid le r evs \<and> evs \<noteq> [])"
proof -
  have ex: "emits (attempt (drv_Exec c cid isready_cmd) :: ('z sys_scheme, err + unit) comp)
      (\<lambda>r evs. \<exists>v. r = Inr v \<and> evs = [ev_of c (CExec cid isready_cmd) (\<lambda>_. []) v])"
    unfolding drv_Exec_def by (intro emits_attempt emits_call)
  have tail: "emits (bnd (sleep_or_done (ctx_cancellable c) second)
      (\<lambda>dn. if dn then raise ctx_err else wait_ready_loop n c cid dl (Some er)) :: ('z sys_scheme, unit) comp)
      (probes cid (Some er))" for er
    by (rule emits_weaken [OF emits_bnd [OF quiet_sleep, where Q = "\<lambda>_. probes cid (Some er)"]])
      (auto simp: assms probes_def intro: emits_weaken [OF emits_raise])
  have "emits ((case v of Inl er \<Rightarrow> bnd (sleep_or_done (ctx_cancellable c) second)
      (\<lambda>dn. if dn then raise ctx_err else wait_ready_loop n c cid dl (Some er)) | Inr x \<Rightarrow> ok ()) :: ('z sys_scheme, unit) comp)
      (case v of Inl er \<Rightarrow> probes cid (Some er) | Inr x \<Rightarrow> (\<lambda>r evs. r = Inr () \<and> evs = []))" for v :: "err + unit"
    using tail emits_ok by (cases v) auto
  from emits_bnd [OF ex this] show ?thesis unfolding probe_step_def
  proof (rule emits_weaken, goal_cases)
    case (1 r evs)
    then obtain v :: "err + unit" and b where "evs = ev_of c (CExec cid isready_cmd) (\<lambda>_. []) v # b"
      "(case v of Inl er \<Rightarrow> probes cid (Some er) | Inr x \<Rightarrow> (\<lambda>r evs. r = Inr () \<and> evs = [])) r b"
      by auto
    then show ?case by (cases v) (auto simp: probes_def ev_of_def)
  qed
qed

lemma wait_ready_loop_probes: "emits (wait_ready_loop n c cid dl le :: ('z sys_scheme, unit) comp) (probes cid le)"
proof (induction n arbitrary: le)
  case 0
  show ?case by (simp add: emits_def raise_run probes_def)
next
  case (Suc n)
  have "emits (if now < dl then probe_step n c cid dl else lift_err le :: ('z sys_scheme, unit) comp) (probes cid le)" for now
  proof (cases "now < dl")
    case True
    then show ?thesis using probe_step_emits [OF Suc] by simp (rule emits_weaken, blast, blast)
  next
    case False
    then show ?thesis by (auto simp: emits_def lift_err_run probes_def split: option.splits)
  qed
  from emits_bnd [OF quiet_time_now this] show ?case
    unfolding wait_ready_loop_Suc by (rule emits_weaken) (auto simp: probes_def)
qed

lemma waitReady_probes: "emits (waitReady c cid d) (probes cid None)"
  unfolding waitReady_def
  by (rule emits_weaken [OF emits_bnd [OF quiet_time_now wait_ready_loop_probes]]) (auto simp: probes_def)

text \<open>
  When \<open>waitReady\<close> reports success, its last probe of the instance succeeded, or it made no probe at
  all; the latter happens exactly when the deadline has already passed at the first look at the clock, and
  is then still reported as success.
\<close>

theorem ready_means_probed:
  assumes "waitReady c cid d s = (Inr (), t)" "0 < d"
  shows "(\<exists>evs ev. trace t = trace s @ evs @ [ev] \<and> ev_call ev = CExec cid isready_cmd \<and> ev_ok ev) \<or>
    trace t = trace s \<and> nat d \<le> elapse s (Suc (tick s))"
proof -
  let ?w = "wall s + int (elapse s (tick s))"
  let ?s1 = "s\<lparr>wall := ?w, tick := Suc (tick s)\<rparr>"
  define n where "n = Suc (nat (d div second))"
  have n: "wait_fuel d = Suc n" by (simp add: wait_fuel_def n_def)
  have run: "(if ?w + int (elapse s (Suc (tick s))) < ?w + d then probe_step n c cid (?w + d) else lift_err None)
      (?s1\<lparr>wall := ?w + int (elapse s (Suc (tick s))), tick := Suc (Suc (tick s))\<rparr>) = (Inr (), t)"
    using assms(1) unfolding waitReady_def n wait_ready_loop_Suc bnd_time_now by (simp del: wait_ready_loop.simps)
  show ?thesis
  proof (cases "int (elapse s (Suc (tick s))) < d")
    case True
    then have "probe_step n c cid (?w + d)
        (?s1\<lparr>wall := ?w + int (elapse s (Suc (tick s))), tick := Suc (Suc (tick s))\<rparr>) = (Inr (), t)"
      using run by simp
    from emitsD [OF probe_step_emits [OF wait_ready_loop_probes] this]
    obtain evs where "trace t = trace s @ evs" "probes cid None (Inr ()) evs" "evs \<noteq> []" by auto
    then show ?thesis unfolding probes_def
      by (intro disjI1 exI [of _ "butlast evs"] exI [of _ "last evs"]) auto
  next
    case False
    then show ?thesis using run by (auto simp: lift_err_run)
  qed
qed


subsection \<open>Witnesses\<close>

text \<open>A driver that agrees to everything, and a system on top of the sample registry.\<close>

definition agreeable :: driver where
  "agreeable = \<lparr>EnsureImage = (\<lambda>_ _. None), CreateVolume = (\<lambda>_ _ _. None), RemoveVolume = (\<lambda>_ _. None),
     CloneVolume = (\<lambda>_ _ _ _. None), RunHelper = (\<lambda>_ _. Inr []), StartBranch = (\<lambda>h _. Inr (''c'' @ nat_str (length h))),
     Exec = (\<lambda>_ _ _. None), ExecOutput = (\<lambda>_ _ _. Inr []),
     Inspect = (\<lambda>_ i. Inr \<lparr>ci_ID = i, ci_Running = True, ci_Host = ''127.0.0.1'', ci_Port = 5432, ci_Labels = []\<rparr>),
     StopRemove = (\<lambda>_ _. None), ListManaged = (\<lambda>_. Inr []), ListManagedVolumes = (\<lambda>_ _. Inr [])\<rparr>"

definition sample_sys :: "tables \<Rightarrow> sys" where
  "sample_sys d = \<lparr>sql_fault = (\<lambda>_. None), elapse = (\<lambda>_. 0), rand_byte = (\<lambda>n i. n mod 256), ctx_done = (\<lambda>_. False),
     tick = 0, wall = 0, db = d, instanceID = ''i1'', secrets = None, drv = agreeable, others = (\<lambda>_. []),
     trace = [], warnings = []\<rparr>"

definition sample_engine :: engine where
  "sample_engine = \<lparr>defaultImage = ''postgres'', planner = \<lparr>Backend = BackendOverlay, Dataset = []\<rparr>,
     rotateCredentials = False, maxBranches = 0, defaultTTL = 0, maxTTL = 7200 * second, scripts = (\<lambda>_. [])\<rparr>"

lemmas call_simps = drv_defs call_def interleaved_def reply_def run_ops_def unit_reply_def sample_sys_def
  agreeable_def comp_simps Let_def

theorem ttl_policy_witness:
  "\<exists>x t d. expiresAtFor sample_engine 0 (sample_sys empty_tables) = (Inr [], t) \<and>
     expiresAtFor sample_engine (86400 * second) (sample_sys empty_tables) = (Inr x, t\<lparr>tick := 1\<rparr>) \<and>
     x = rfc3339 d \<and> d \<le> 7200 * second"
proof -
  have a: "expiresAtFor sample_engine 0 (sample_sys empty_tables) = (Inr [], sample_sys empty_tables)"
    by (simp add: expiresAtFor_def effective_ttl_def sample_engine_def ok_run second_def)
  have b: "expiresAtFor sample_engine (86400 * second) (sample_sys empty_tables) =
      (Inr (rfc3339 (7200 * second)), (sample_sys empty_tables)\<lparr>tick := 1\<rparr>)"
    by (simp add: expiresAtFor_def effective_ttl_def sample_engine_def sample_sys_def comp_simps time_now_def second_def)
  from ttl_policy [OF b] obtain d where "rfc3339 (7200 * second) = rfc3339 d" "d \<le> 7200 * second"
    by (auto simp: sample_engine_def sample_sys_def second_def)
  with a b show ?thesis by blast
qed

theorem ready_means_probed_witness:
  "\<exists>t ev. waitReady Background ''c1'' (90 * second) (sample_sys empty_tables) = (Inr (), t) \<and>
     trace t = [ev] \<and> ev_ok ev"
proof -
  have f: "wait_fuel (90 * second) = Suc (Suc 90)" by (simp add: wait_fuel_def second_def)
  have "fst (waitReady Background ''c1'' (90 * second) (sample_sys empty_tables)) = Inr () \<and>
    length (trace (snd (waitReady Background ''c1'' (90 * second) (sample_sys empty_tables)))) = 1"
    unfolding waitReady_def f wait_ready_loop_Suc bnd_time_now
    by (simp add: probe_step_def call_simps second_def)
  then obtain t where t: "waitReady Background ''c1'' (90 * second) (sample_sys empty_tables) = (Inr (), t)"
    "length (trace t) = 1" by (metis prod.collapse snd_conv)
  from ready_means_probed [OF t(1)] t(2) have "\<exists>ev. trace t = [ev] \<and> ev_ok ev"
    by (auto simp: sample_sys_def second_def)
  with t(1) show ?thesis by blast
qed

end
