(* ===== verification/Engine_Saga.thy ===== *)
theory Engine_Saga
  imports Engine_Core
begin

text \<open>
  Package \<open>internal/engine\<close>, file \<open>saga.go\<close> and the sagas of \<open>csi.go\<close>: provisioning on the three backends
  with its compensations, and the create, reset and destroy sagas with the garbage collection of
  layers and source volumes.
\<close>

section \<open>Compensations\<close>

text \<open>The closure \<open>fail\<close>: the registered compensations run in reverse order, then the error is returned.\<close>

definition unwind :: "('z sys_scheme, unit) comp list \<Rightarrow> ('z sys_scheme, unit) comp" where
  "unwind undo = for_each (rev undo) (\<lambda>m. m)"

definition step_or :: "('z sys_scheme, unit) comp list \<Rightarrow> (err \<Rightarrow> err) \<Rightarrow> ('z sys_scheme, 'a) comp \<Rightarrow> ('z sys_scheme, 'a) comp"
  where "step_or undo wrap m = on_error m (\<lambda>er. bnd (unwind undo) (\<lambda>_. raise (wrap er)))"

definition wrap_as :: "string \<Rightarrow> err \<Rightarrow> err" where
  "wrap_as p er = Wrap p er []"

section \<open>Overlay\<close>

definition layerVolumes :: "layer list \<Rightarrow> string list" where
  "layerVolumes chain = map l_Volume chain"

definition entrypoint_env :: "engine \<Rightarrow> script \<Rightarrow> string list" where
  "entrypoint_env e sc = [''PGBRANCH_ENTRYPOINT='' @ scripts e sc]"

definition write_entrypoint :: string where
  "write_entrypoint = ''printf '' @ [squote] @ ''%s'' @ [squote] @ '' '' @ dquoted ''$PGBRANCH_ENTRYPOINT'' @
     '' > /pgbranch/rw/entrypoint.sh && chmod 0755 /pgbranch/rw/entrypoint.sh''"

definition installOverlayEntrypoint :: "engine \<Rightarrow> ctx \<Rightarrow> string \<Rightarrow> ('z sys_scheme, unit) comp" where
  "installOverlayEntrypoint e c rw =
     bnd (drv_RunHelper c (helper ''alpine:3.21''
       [''sh'', ''-c'', write_entrypoint @ '' && mkdir -p /pgbranch/rw/upper /pgbranch/rw/work'']
       (entrypoint_env e EntrypointScript) [volume_mount rw RWPath False])) (\<lambda>_. ok ())"

definition overlay_mounts :: "plan \<Rightarrow> mount list" where
  "overlay_mounts p = volume_mount (SourceVolume p) (LowerMountTarget 0) True #
     map (\<lambda>i. volume_mount (LayerVolumes p ! i) (LowerMountTarget (i + 1)) True) [0..<length (LayerVolumes p)] @
     [volume_mount (RWVolume p) RWPath False]"

definition branch_container :: "string \<Rightarrow> string \<Rightarrow> string list \<Rightarrow> mount list \<Rightarrow> labels \<Rightarrow> branch_spec" where
  "branch_container name img env mounts ls =
     \<lparr>bs_Name = ''pgbranch-br-'' @ name, bs_Image = img, bs_Env = env, bs_Mounts = mounts,
      bs_Entrypoint = [''/bin/sh'', RWPath @ ''/entrypoint.sh''], bs_Labels = ls, bs_Network = []\<rparr>"

definition startOverlayBranch :: "ctx \<Rightarrow> string \<Rightarrow> plan \<Rightarrow> string \<Rightarrow> labels \<Rightarrow> ('z sys_scheme, string) comp" where
  "startOverlayBranch c name p img ls =
     drv_StartBranch c (branch_container name img
       [''PGDATA='' @ MergedPath, ''PGBRANCH_LOWERS='' @ LowerEnv p] (overlay_mounts p) ls)"

definition undo_volume :: "ctx \<Rightarrow> string \<Rightarrow> ('z sys_scheme, unit) comp" where
  "undo_volume c v = logCompensationErr ''undo'' (drv_RemoveVolume (WithoutCancel c) v)"

definition undo_container :: "ctx \<Rightarrow> string \<Rightarrow> ('z sys_scheme, unit) comp" where
  "undo_container c cid = logCompensationErr ''undo'' (drv_StopRemove (WithoutCancel c) cid)"

definition provisionOverlay :: "engine \<Rightarrow> ctx \<Rightarrow> branch \<Rightarrow> source \<Rightarrow> ('z sys_scheme, unit) comp" where
  "provisionOverlay e c b src =
     bnd (LayerChain (br_ID b)) (\<lambda>chain.
     let p = PlanBranch (br_RWVolume b) (br_SourceVolume b) (layerVolumes chain) in
     bnd (volumeLabels ''pgbranch.branch.id'' (br_ID b)) (\<lambda>vls.
     bnd (step_or [] (wrap_as ''create rw volume: '') (drv_CreateVolume c (RWVolume p) vls)) (\<lambda>_.
     let undo1 = [undo_volume c (RWVolume p)] in
     bnd (step_or undo1 (wrap_as ''install entrypoint: '') (installOverlayEntrypoint e c (RWVolume p))) (\<lambda>_.
     bnd (branchLabels b) (\<lambda>ls.
     bnd (step_or undo1 (wrap_as ''start instance: '')
       (startOverlayBranch c (br_Name b) p (image_of e (src_PGVersion src)) ls)) (\<lambda>cid.
     step_or (undo1 @ [undo_container c cid]) (\<lambda>er. er) (awaitAndMark e c b src cid)))))))"

section \<open>zfs\<close>

definition undo_zfs :: "ctx \<Rightarrow> string list \<Rightarrow> ('z sys_scheme, unit) comp" where
  "undo_zfs c argv = logCompensationErr ''undo'' (runZFS (WithoutCancel c) (zfsDestroySpec argv))"

definition provisionZFS :: "engine \<Rightarrow> ctx \<Rightarrow> branch \<Rightarrow> source \<Rightarrow> ('z sys_scheme, unit) comp" where
  "provisionZFS e c b src =
     (let p = planner e;
          undo1 = [undo_zfs c (ZFSDestroySnapshot p (br_SourceVolume b) (br_Name b))];
          undo2 = undo1 @ [undo_zfs c (ZFSDestroyClone p (br_Name b))];
          cloneMount = \<lparr>Kind = MountHostPath, Volume = Mountpoint p (br_RWVolume b), Target = RWPath, ReadOnly = False\<rparr>
      in
      bnd (step_or [] (wrap_as ''zfs snapshot: '')
        (runZFS c (zfsHelperSpec (ZFSSnapshot p (br_SourceVolume b) (br_Name b))))) (\<lambda>_.
      bnd (step_or undo1 (wrap_as ''zfs clone: '')
        (runZFS c (zfsHelperSpec (ZFSClone p (br_SourceVolume b) (br_Name b))))) (\<lambda>_.
      bnd (step_or undo2 (wrap_as ''install entrypoint: '')
        (drv_RunHelper c (helper ''alpine:3.21'' [''sh'', ''-c'', write_entrypoint]
          (entrypoint_env e EntrypointScriptDirect) [cloneMount]))) (\<lambda>_.
      bnd (branchLabels b) (\<lambda>ls.
      bnd (step_or undo2 (wrap_as ''start instance: '')
        (drv_StartBranch c (branch_container (br_Name b) (image_of e (src_PGVersion src))
          [''PGDATA='' @ DirectDataPath] [cloneMount] ls))) (\<lambda>cid.
      step_or (undo2 @ [undo_container c cid]) (\<lambda>er. er) (awaitAndMark e c b src cid)))))))"

section \<open>csi (\<open>csi.go\<close>)\<close>

definition installDirectEntrypoint :: "engine \<Rightarrow> ctx \<Rightarrow> string \<Rightarrow> ('z sys_scheme, unit) comp" where
  "installDirectEntrypoint e c v =
     bnd (drv_RunHelper c (helper ''alpine:3.21'' [''sh'', ''-c'', write_entrypoint]
       (entrypoint_env e EntrypointScriptDirect) [volume_mount v RWPath False])) (\<lambda>_. ok ())"

definition startDirectBranch :: "ctx \<Rightarrow> string \<Rightarrow> string \<Rightarrow> string \<Rightarrow> labels \<Rightarrow> ('z sys_scheme, string) comp" where
  "startDirectBranch c name v img ls =
     drv_StartBranch c (branch_container name img [''PGDATA='' @ DirectDataPath] [volume_mount v RWPath False] ls)"

definition csiQuiesceTarget :: "branch \<Rightarrow> ('z sys_scheme, branch option) comp" where
  "csiQuiesceTarget b =
     (if br_ParentBranchName b = '''' then ok None
      else bnd (attempt (GetBranchByName (br_ParentBranchName b))) (\<lambda>r.
        case r of
          Inl er \<Rightarrow> if errors_is er ErrNotFound then ok None else raise er
        | Inr p \<Rightarrow>
            if br_RWVolume p \<noteq> br_SourceVolume b \<or> br_ContainerID p = '''' then ok None
            else if br_State p \<noteq> BranchReady then
              raise (Msg (''parent branch '' @ go_quote (br_Name p) @ '' is '' @ branch_state_str (br_State p) @ '', not ready''))
            else ok (Some p)))"

text \<open>The closure \<open>failed\<close> of a restart: mark the branch failed, return the error.\<close>

definition restart_failed :: "ctx \<Rightarrow> branch \<Rightarrow> err option \<Rightarrow> err \<Rightarrow> ('z sys_scheme, 'a) comp" where
  "restart_failed c b cause er =
     bnd (logCompensationErr ''transition'' (TransitionBranchCtx c (br_ID b) BranchFailed
       (case cause of
          None \<Rightarrow> ''restart failed: '' @ err_msg er
        | Some ca \<Rightarrow> ''clone failed ('' @ err_msg ca @ ''); restart failed: '' @ err_msg er))) (\<lambda>_. raise er)"

definition restartCSIBranch :: "engine \<Rightarrow> ctx \<Rightarrow> branch \<Rightarrow> source \<Rightarrow> err option \<Rightarrow> ('z sys_scheme, unit) comp" where
  "restartCSIBranch e c b src cause =
     bnd (branchLabels b) (\<lambda>ls.
     bnd (on_error (startDirectBranch c (br_Name b) (br_RWVolume b) (image_of e (src_PGVersion src)) ls)
       (restart_failed c b cause)) (\<lambda>cid.
     bnd (logCompensationErr ''transition'' (SetBranchContainer (br_ID b) cid)) (\<lambda>_.
     bnd (on_error (waitReady c cid (90 * second)) (\<lambda>er.
       bnd (logCompensationErr ''undo'' (drv_StopRemove c cid)) (\<lambda>_. restart_failed c b cause er))) (\<lambda>_.
     bnd (on_error (inspectAddr c cid) (restart_failed c b cause)) (\<lambda>info.
     MarkBranchReadyCtx c (br_ID b) cid (ci_Host info) (ci_Port info))))))"

definition quiesceParent :: "ctx \<Rightarrow> branch \<Rightarrow> source \<Rightarrow> branch \<Rightarrow> ('z sys_scheme, unit) comp" where
  "quiesceParent c b src p =
     bnd (TransitionBranchCtx c (br_ID p) BranchResetting (''stop for clone to '' @ br_Name b)) (\<lambda>_.
     bnd (on_error (drv_Exec c (br_ContainerID p) (psqlCmd src ''CHECKPOINT'')) (\<lambda>er.
       bnd (logCompensationErr ''transition'' (TransitionBranchCtx c (br_ID p) BranchReady
         (''clone to '' @ br_Name b @ '' aborted: checkpoint failed''))) (\<lambda>_.
       raise (Wrap (''checkpoint parent '' @ go_quote (br_Name p) @ '': '') er [])))) (\<lambda>_.
     on_error (drv_StopRemove c (br_ContainerID p)) (\<lambda>er.
       bnd (logCompensationErr ''transition'' (TransitionBranchCtx c (br_ID p) BranchFailed
         (''stop for clone to '' @ br_Name b @ '' failed: '' @ err_msg er))) (\<lambda>_.
       raise (Wrap (''stop parent '' @ go_quote (br_Name p) @ '': '') er [])))))"

text \<open>\<open>fail\<close> while the parent is down restarts it after the compensations, with a context that cannot be cancelled.\<close>

definition csi_fail :: "engine \<Rightarrow> ctx \<Rightarrow> source \<Rightarrow> branch option \<Rightarrow> ('z sys_scheme, unit) comp list \<Rightarrow> (err \<Rightarrow> err)
    \<Rightarrow> ('z sys_scheme, 'a) comp \<Rightarrow> ('z sys_scheme, 'a) comp" where
  "csi_fail e c src parent undo wrap m = on_error m (\<lambda>er.
     bnd (unwind undo) (\<lambda>_.
     bnd (case parent of None \<Rightarrow> ok ()
       | Some p \<Rightarrow> dropped (restartCSIBranch e (WithoutCancel c) p src (Some (wrap er)))) (\<lambda>_.
     raise (wrap er))))"

definition provisionCSI :: "engine \<Rightarrow> ctx \<Rightarrow> branch \<Rightarrow> source \<Rightarrow> ('z sys_scheme, unit) comp" where
  "provisionCSI e c b src =
     bnd (csiQuiesceTarget b) (\<lambda>parent.
     bnd (case parent of None \<Rightarrow> ok () | Some p \<Rightarrow> quiesceParent c b src p) (\<lambda>_.
     bnd (volumeLabels ''pgbranch.branch.id'' (br_ID b)) (\<lambda>vls.
     bnd (csi_fail e c src parent [] (wrap_as ''clone volume: '')
       (drv_CloneVolume c (br_SourceVolume b) (br_RWVolume b) vls)) (\<lambda>_.
     let undo1 = [undo_volume c (br_RWVolume b)] in
     bnd (csi_fail e c src parent undo1 (wrap_as ''install entrypoint: '') (installDirectEntrypoint e c (br_RWVolume b))) (\<lambda>_.
     bnd (case parent of None \<Rightarrow> ok ()
       | Some p \<Rightarrow> step_or undo1 (wrap_as (''restart parent '' @ go_quote (br_Name p) @ '': '')) (restartCSIBranch e c p src None)) (\<lambda>_.
     bnd (branchLabels b) (\<lambda>ls.
     bnd (step_or undo1 (wrap_as ''start instance: '')
       (startDirectBranch c (br_Name b) (br_RWVolume b) (image_of e (src_PGVersion src)) ls)) (\<lambda>cid.
     step_or (undo1 @ [undo_container c cid]) (\<lambda>er. er) (awaitAndMark e c b src cid)))))))))"

definition provision :: "engine \<Rightarrow> ctx \<Rightarrow> branch \<Rightarrow> source \<Rightarrow> ('z sys_scheme, unit) comp" where
  "provision e c b src =
     (if is_zfs e then provisionZFS e c b src
      else if is_csi e then provisionCSI e c b src
      else provisionOverlay e c b src)"

section \<open>Create and reset\<close>

definition new_branch :: "string \<Rightarrow> string \<Rightarrow> string \<Rightarrow> string \<Rightarrow> string \<Rightarrow> string \<Rightarrow> branch" where
  "new_branch name sourceID rw srcVol expiresAt parentName =
     \<lparr>br_ID = [], br_Name = name, br_SourceID = sourceID, br_ContainerID = [], br_RWVolume = rw,
      br_SourceVolume = srcVol, br_ExpiresAt = expiresAt, br_Host = [], br_BaseLayerID = [],
      br_ParentBranchName = parentName, br_Password = [], br_Port = 0, br_State = BranchCreating, br_CreatedAt = []\<rparr>"

definition mark_failed :: "ctx \<Rightarrow> branch \<Rightarrow> ('z sys_scheme, 'a) comp \<Rightarrow> ('z sys_scheme, 'a) comp" where
  "mark_failed c b m = on_error m (\<lambda>er.
     bnd (logCompensationErr ''transition'' (TransitionBranchCtx c (br_ID b) BranchFailed (err_msg er))) (\<lambda>_. raise er))"

definition not_ready :: "string \<Rightarrow> string \<Rightarrow> string \<Rightarrow> err" where
  "not_ready what name st = Msg (what @ go_quote name @ '' is '' @ st @ '', not ready'')"

definition eng_CreateBranch :: "engine \<Rightarrow> ctx \<Rightarrow> string \<Rightarrow> string \<Rightarrow> int \<Rightarrow> ('z sys_scheme, branch) comp" where
  "eng_CreateBranch e c name sourceName ttl =
     bnd (lift_err (validateBranchName name)) (\<lambda>_.
     bnd (checkQuota e) (\<lambda>_.
     bnd (wrapping (''source '' @ go_quote sourceName @ '': '') (GetSourceByName sourceName)) (\<lambda>src.
     if src_State src \<noteq> SourceReady then raise (not_ready ''source '' sourceName (source_state_str (src_State src)))
     else
     bnd (expiresAtFor e ttl) (\<lambda>expiresAt.
     bnd (CreateBranchCtx c (new_branch name (src_ID src) (BranchLayerName (planner e) name) (src_Volume src) expiresAt [])) (\<lambda>b.
     bnd (mark_failed c b (provision e c b src)) (\<lambda>_.
     GetBranchByName name))))))"

definition ResetBranch :: "engine \<Rightarrow> ctx \<Rightarrow> string \<Rightarrow> ('z sys_scheme, branch) comp" where
  "ResetBranch e c name =
     bnd (GetBranchByName name) (\<lambda>b.
     bnd (GetSourceByID (br_SourceID b)) (\<lambda>src.
     bnd (TransitionBranchCtx c (br_ID b) BranchResetting ''reset requested'') (\<lambda>_.
     bnd (mark_failed c b (if br_ContainerID b \<noteq> '''' then wrapping ''remove container: '' (drv_StopRemove c (br_ContainerID b)) else ok ())) (\<lambda>_.
     bnd (mark_failed c b (wrapping ''remove branch layer: '' (removeBranchLayer e c b))) (\<lambda>_.
     bnd (mark_failed c b (wrapping (''reset '' @ go_quote name @ '': '') (provision e c b src))) (\<lambda>_.
     GetBranchByName name))))))"

section \<open>Destroy and garbage collection\<close>

fun gcLayers :: "engine \<Rightarrow> ctx \<Rightarrow> layer list \<Rightarrow> ('z sys_scheme, unit) comp" where
  "gcLayers e c [] = ok ()"
| "gcLayers e c (l # ls) =
     bnd (attempt (CountBranchesReferencingLayer (l_ID l))) (\<lambda>r.
     case r of
       Inl _ \<Rightarrow> ok ()
     | Inr n \<Rightarrow>
         if 0 < n then ok ()
         else bnd (attempt (bnd (removeSourceLayer e c (l_Volume l)) (\<lambda>_. DeleteLayer (l_ID l)))) (\<lambda>r.
           case r of Inl _ \<Rightarrow> ok () | Inr _ \<Rightarrow> gcLayers e c ls))"

definition gcSourceVolume :: "engine \<Rightarrow> ctx \<Rightarrow> string \<Rightarrow> string \<Rightarrow> ('z sys_scheme, unit) comp" where
  "gcSourceVolume e c sourceID volume =
     (if volume = '''' then ok ()
      else bnd (attempt (GetSourceByID sourceID)) (\<lambda>r.
        if (case r of Inr src \<Rightarrow> src_Volume src = volume | Inl _ \<Rightarrow> False) then ok ()
        else bnd (attempt (CountLiveBranchesByVolume volume)) (\<lambda>r1.
          case r1 of Inl _ \<Rightarrow> ok () | Inr n1 \<Rightarrow>
          if 0 < n1 then ok ()
          else bnd (attempt (CountLiveBranchesByRWVolume volume)) (\<lambda>r2.
            case r2 of Inl _ \<Rightarrow> ok () | Inr n2 \<Rightarrow>
            if 0 < n2 then ok () else dropped (removeSourceLayer e c volume)))))"

definition forced_from_transient :: "branch \<Rightarrow> bool" where
  "forced_from_transient b \<longleftrightarrow> br_State b = BranchCreating \<or> br_State b = BranchResetting"

definition destroyLayer :: "engine \<Rightarrow> ctx \<Rightarrow> branch \<Rightarrow> ('z sys_scheme, unit) comp" where
  "destroyLayer e c b =
     (if forced_from_transient b then
        bnd (CountLiveBranchesReferencingRW (br_Name b) (br_RWVolume b)) (\<lambda>referenced.
        if 0 < referenced then ok ()
        else wrapping ''remove branch layer: '' (removeBranchLayer e c b))
      else wrapping ''remove branch layer: '' (removeBranchLayer e c b))"

definition DestroyBranch :: "engine \<Rightarrow> ctx \<Rightarrow> string \<Rightarrow> ('z sys_scheme, unit) comp" where
  "DestroyBranch e c name =
     bnd (GetBranchByName name) (\<lambda>b.
     bnd (if is_zfs e then
            bnd (CountLiveBranchesByVolume (br_RWVolume b)) (\<lambda>n.
              if 0 < n then raise (Msg (''branch '' @ go_quote name @ '' has '' @ nat_str n @
                '' child branch(es) cloned from it; destroy them first'')) else ok ())
          else ok ()) (\<lambda>_.
     bnd (LayerChain (br_ID b)) (\<lambda>chain.
     bnd (if forced_from_transient b then
            TransitionBranchCtx c (br_ID b) BranchFailed (''destroy requested: forcing stuck '' @ branch_state_str (br_State b))
          else ok ()) (\<lambda>_.
     bnd (TransitionBranchCtx c (br_ID b) BranchDestroying ''destroy requested'') (\<lambda>_.
     bnd (if br_ContainerID b \<noteq> '''' then wrapping ''remove container: '' (drv_StopRemove c (br_ContainerID b)) else ok ()) (\<lambda>_.
     bnd (destroyLayer e c b) (\<lambda>_.
     bnd (TransitionBranchCtx c (br_ID b) BranchDestroyed '''') (\<lambda>_.
     bnd (gcLayers e c chain) (\<lambda>_.
     gcSourceVolume e c (br_SourceID b) (br_SourceVolume b))))))))))"

section \<open>Invariants\<close>

context engine_invariant
begin

lemma for_each_keeps: "(\<And>x. x \<in> set xs \<Longrightarrow> keeps I (f x)) \<Longrightarrow> keeps I (for_each xs f)"
  by (induction xs) (simp_all add: keeps_ok keeps_bnd)

lemma step_or_keeps [keeps_rules]:
  assumes "\<And>u. u \<in> set undo \<Longrightarrow> keeps I u" "keeps I m"
  shows "keeps I (step_or undo w m)"
proof -
  have "keeps I (unwind undo)" unfolding unwind_def by (rule for_each_keeps) (simp add: assms(1))
  then show ?thesis unfolding step_or_def using assms(2) by (intro keeps_rules)
qed

lemma undo_keeps [keeps_rules]:
  "keeps I (undo_volume c v)" "keeps I (undo_container c v)" "keeps I (undo_zfs c argv)"
  unfolding undo_volume_def undo_container_def undo_zfs_def by (intro keeps_rules)+

lemma start_keeps [keeps_rules]:
  "keeps I (installOverlayEntrypoint e c v)" "keeps I (installDirectEntrypoint e c v)"
  "keeps I (startOverlayBranch c n p img ls)" "keeps I (startDirectBranch c n v img ls)"
  unfolding installOverlayEntrypoint_def installDirectEntrypoint_def startOverlayBranch_def startDirectBranch_def
  by (intro keeps_rules)+

lemma provision_overlay_keeps [keeps_rules]: "keeps I (provisionOverlay e c b src)"
  unfolding provisionOverlay_def Let_def by (intro keeps_rules reads_keep) (auto intro: undo_keeps)

lemma provision_zfs_keeps [keeps_rules]: "keeps I (provisionZFS e c b src)"
  unfolding provisionZFS_def Let_def by (intro keeps_rules reads_keep) (auto intro: undo_keeps)

lemma restart_keeps [keeps_rules]: "keeps I (restartCSIBranch e c b src cause)"
  unfolding restartCSIBranch_def restart_failed_def by (intro keeps_rules)

lemma csi_fail_keeps [keeps_rules]:
  assumes "\<And>u. u \<in> set undo \<Longrightarrow> keeps I u" "keeps I m"
  shows "keeps I (csi_fail e c src p undo w m)"
proof -
  have "keeps I (unwind undo)" unfolding unwind_def by (rule for_each_keeps) (simp add: assms(1))
  then show ?thesis unfolding csi_fail_def using assms(2) by (intro keeps_rules)
qed

lemma provision_csi_keeps [keeps_rules]: "keeps I (provisionCSI e c b src)"
  unfolding provisionCSI_def csiQuiesceTarget_def quiesceParent_def Let_def
  by (intro keeps_rules reads_keep) (auto intro: undo_keeps)

lemma provision_keeps [keeps_rules]: "keeps I (provision e c b src)"
  unfolding provision_def by (intro keeps_rules)

lemma mark_failed_keeps [keeps_rules]: "keeps I m \<Longrightarrow> keeps I (mark_failed c b m)"
  unfolding mark_failed_def by (intro keeps_rules)

lemma gc_layers_keeps [keeps_rules]: "keeps I (gcLayers e c ls)"
  by (induction ls) (auto intro!: keeps_rules reads_keep)

lemma saga_keeps [keeps_rules]:
  "keeps I (eng_CreateBranch e c n sn ttl)" "keeps I (ResetBranch e c n)" "keeps I (gcSourceVolume e c i v)"
  "keeps I (destroyLayer e c b)"
  unfolding eng_CreateBranch_def ResetBranch_def gcSourceVolume_def destroyLayer_def
  by (intro keeps_rules reads_keep)+

lemma destroy_keeps [keeps_rules]: "keeps I (DestroyBranch e c n)"
  unfolding DestroyBranch_def by (intro keeps_rules reads_keep)

end

end
