(* ===== verification/Engine_Sources.thy ===== *)
theory Engine_Sources
  imports Engine_Saga
begin

text \<open>
  Package \<open>internal/engine\<close>, the source sagas and the measuring and reaping primitives of \<open>engine.go\<close>.
\<close>

definition seedSource :: "engine \<Rightarrow> ctx \<Rightarrow> source \<Rightarrow> string \<Rightarrow> string \<Rightarrow> ('z sys_scheme, unit) comp" where
  "seedSource e c s l password =
     (let (vol, kind) = seedTarget e l;
          spec = \<lparr>ss_Image = image_of e (src_PGVersion s), ss_Volume = vol, ss_MountKind = kind,
            ss_Network = src_Network s, ss_Host = src_ConnHost s, ss_Port = src_ConnPort s,
            ss_User = src_ConnUser s, ss_Password = password\<rparr>
      in if src_SeedVia s = SeedViaDump then
           SeedDump c (seed_spec.extend spec \<lparr>sd_Database = src_ConnDB s, sd_Schemas = src_DumpSchemas s\<rparr>)
         else Seed c spec)"

definition sourceLabels :: "string \<Rightarrow> ('z sys_scheme, labels) comp" where
  "sourceLabels name = volumeLabels ''pgbranch.source.name'' name"

definition AddSource :: "engine \<Rightarrow> ctx \<Rightarrow> source \<Rightarrow> string \<Rightarrow> ('z sys_scheme, unit) comp" where
  "AddSource e c s0 password =
     bnd (lift_err (validateSourceName (src_Name s0))) (\<lambda>_.
     bnd (CreateSource (s0\<lparr>src_Volume := SourceLayerName (planner e) (src_Name s0) 1\<rparr>)) (\<lambda>s.
     bnd (sourceLabels (src_Name s)) (\<lambda>ls.
     bnd (on_error (createSourceLayer e c (src_Volume s) ls) (\<lambda>er.
       bnd (logCompensationErr ''transition'' (SetSourceState (src_ID s) SourceFailed ''source layer create failed'')) (\<lambda>_.
       raise er))) (\<lambda>_.
     bnd (on_error (seedSource e c s (src_Volume s) password) (\<lambda>er.
       bnd (logCompensationErr ''undo'' (removeSourceLayer e (WithoutCancel c) (src_Volume s))) (\<lambda>_.
       bnd (logCompensationErr ''transition'' (SetSourceState (src_ID s) SourceFailed (err_msg er))) (\<lambda>_.
       raise (Wrap (''seed source '' @ go_quote (src_Name s) @ '': '') er []))))) (\<lambda>_.
     SetSourceState (src_ID s) SourceReady ''seed complete'')))))"

definition RefreshSource :: "engine \<Rightarrow> ctx \<Rightarrow> string \<Rightarrow> string \<Rightarrow> ('z sys_scheme, unit) comp" where
  "RefreshSource e c name password =
     bnd (wrapping (''source '' @ go_quote name @ '': '') (GetSourceByName name)) (\<lambda>src.
     if src_State src \<noteq> SourceReady then raise (not_ready ''source '' name (source_state_str (src_State src)))
     else
     let newVol = SourceLayerName (planner e) name (src_Generation src + 1) in
     bnd (sourceLabels name) (\<lambda>ls.
     bnd (createSourceLayer e c newVol ls) (\<lambda>_.
     bnd (on_error (seedSource e c src newVol password) (\<lambda>er.
       bnd (dropped (removeSourceLayer e (WithoutCancel c) newVol)) (\<lambda>_.
       raise (Wrap (''refresh source '' @ go_quote name @ '': '') er [])))) (\<lambda>_.
     bnd (BumpSourceGeneration (src_ID src) newVol) (\<lambda>_.
     gcSourceVolume e c (src_ID src) (src_Volume src))))))"

definition check_unreferenced :: "string \<Rightarrow> layer \<Rightarrow> ('z sys_scheme, unit) comp" where
  "check_unreferenced name l =
     bnd (CountBranchesReferencingLayer (l_ID l)) (\<lambda>n.
     if 0 < n then raise (Msg (''source '' @ go_quote name @ '' has a frozen layer ('' @ l_Volume l @
       '') still referenced by '' @ nat_str n @ '' live branch(es); destroy them first''))
     else ok ())"

definition RemoveSource :: "engine \<Rightarrow> ctx \<Rightarrow> string \<Rightarrow> ('z sys_scheme, unit) comp" where
  "RemoveSource e c name =
     bnd (wrapping (''source '' @ go_quote name @ '': '') (GetSourceByName name)) (\<lambda>src.
     bnd (CountLiveBranchesBySource (src_ID src)) (\<lambda>n.
     if 0 < n then raise (Msg (''source '' @ go_quote name @ '' has '' @ nat_str n @ '' live branch(es); destroy them first''))
     else
     bnd (ListLayersBySource (src_ID src)) (\<lambda>ls.
     bnd (for_each ls (check_unreferenced name)) (\<lambda>_.
     bnd (for_each ls (\<lambda>l. wrapping (''remove layer volume '' @ go_quote (l_Volume l) @ '': '')
       (removeSourceLayer e c (l_Volume l)))) (\<lambda>_.
     bnd (attempt (removeSourceLayer e c (src_Volume src))) (\<lambda>r.
     case r of
       Inl er \<Rightarrow> if src_State src = SourceReady then raise (Wrap ''remove source layer: '' er [])
                 else DeleteSource (src_ID src)
     | Inr _ \<Rightarrow> DeleteSource (src_ID src)))))))"

text \<open>\<open>strings.Fields\<close> (white space of ASCII) and \<open>strconv.ParseInt(s, 10, 64)\<close>\<close>

definition is_space :: "char \<Rightarrow> bool" where
  "is_space c \<longleftrightarrow> of_char c \<in> {9, 10, 11, 12, 13, 32 :: nat}"

fun fields_from :: "string \<Rightarrow> string \<Rightarrow> string list" where
  "fields_from w [] = (if w = [] then [] else [w])"
| "fields_from w (c # cs) =
     (if is_space c then (if w = [] then fields_from [] cs else w # fields_from [] cs)
      else fields_from (w @ [c]) cs)"

definition strings_Fields :: "string \<Rightarrow> string list" where
  "strings_Fields s = fields_from [] s"

definition digit_value :: "char \<Rightarrow> int option" where
  "digit_value c = (let k = (of_char c :: nat) in if 48 \<le> k \<and> k \<le> 57 then Some (int (k - 48)) else None)"

fun digits_value :: "int \<Rightarrow> string \<Rightarrow> int option" where
  "digits_value acc [] = Some acc"
| "digits_value acc (c # cs) = (case digit_value c of None \<Rightarrow> None | Some d \<Rightarrow> digits_value (10 * acc + d) cs)"

definition ParseInt64 :: "string \<Rightarrow> int option" where
  "ParseInt64 s =
     (let (neg, ds) = (case s of [] \<Rightarrow> (False, []) | c # cs \<Rightarrow>
         if c = CHR ''+'' then (False, cs) else if c = CHR ''-'' then (True, cs) else (False, s))
      in if ds = [] then None
         else case digits_value 0 ds of
           None \<Rightarrow> None
         | Some v \<Rightarrow> (let w = (if neg then - v else v) in
             if - (2 ^ 63) \<le> w \<and> w < 2 ^ 63 then Some w else None))"

definition BranchUsage :: "engine \<Rightarrow> ctx \<Rightarrow> string \<Rightarrow> ('z sys_scheme, int) comp" where
  "BranchUsage e c name =
     bnd (GetBranchByName name) (\<lambda>b.
     let spec = (if is_zfs e then zfsHelperSpec (ZFSUsed (planner e) (br_RWVolume b))
       else helper ''alpine:3.21'' [''du'', ''-sb'', RWPath] [] [volume_mount (br_RWVolume b) RWPath True])
     in bnd (wrapping (''measure branch '' @ go_quote name @ '' usage: '') (drv_RunHelper c spec)) (\<lambda>out.
     case strings_Fields out of
       [] \<Rightarrow> raise (Msg (''measure branch '' @ go_quote name @ '' usage: empty measurement output''))
     | f # _ \<Rightarrow> (case ParseInt64 f of
         None \<Rightarrow> raise (Msg (''measure branch '' @ go_quote name @ '' usage: unparseable measurement output '' @ go_quote out))
       | Some n \<Rightarrow> ok n)))"

fun reap_each :: "engine \<Rightarrow> ctx \<Rightarrow> branch list \<Rightarrow> ('z sys_scheme, string list \<times> err list) comp" where
  "reap_each e c [] = ok ([], [])"
| "reap_each e c (b # bs) =
     bnd (attempt (DestroyBranch e c (br_Name b))) (\<lambda>r.
     bnd (reap_each e c bs) (\<lambda>(ds, es).
     ok (case r of
         Inl er \<Rightarrow> (ds, Wrap (''reap '' @ go_quote (br_Name b) @ '': '') er [] # es)
       | Inr _ \<Rightarrow> (br_Name b # ds, es))))"

text \<open>The destroyed names come back next to the joined error.\<close>

definition ReapExpired :: "engine \<Rightarrow> ctx \<Rightarrow> int \<Rightarrow> ('z sys_scheme, string list \<times> err option) comp" where
  "ReapExpired e c now =
     bnd (ListExpiredBranches (rfc3339 now)) (\<lambda>expired.
     bnd (reap_each e c expired) (\<lambda>(ds, es).
     ok (ds, if es = [] then None else Some (Joined es))))"

context reading
begin

lemma usage_keeps [keeps_rules]: "keeps I (BranchUsage e c n)"
  unfolding BranchUsage_def Let_def by (intro keeps_rules reads_keep)

end

context engine_invariant
begin

lemma seed_source_keeps [keeps_rules]: "keeps I (seedSource e c s l pw)" "keeps I (sourceLabels n)"
  unfolding seedSource_def sourceLabels_def Let_def by (intro keeps_rules)+

lemma reap_each_keeps [keeps_rules]: "keeps I (reap_each e c bs)"
  by (induction bs) (auto intro!: keeps_rules)

lemma source_saga_keeps [keeps_rules]:
  "keeps I (AddSource e c s pw)" "keeps I (RefreshSource e c n pw)" "keeps I (RemoveSource e c n)"
  "keeps I (ReapExpired e c now)"
  unfolding AddSource_def RefreshSource_def RemoveSource_def check_unreferenced_def
    ReapExpired_def Let_def
  by (intro keeps_rules reads_keep)+

end

section \<open>Reading a measurement\<close>

lemma digit_value_char: "d < 10 \<Longrightarrow> digit_value (digit_char d) = Some (int d)"
  by (simp add: digit_value_def digit_char_def Let_def of_char_of)

lemma digits_value_append:
  "digits_value a (xs @ ys) = (case digits_value a xs of None \<Rightarrow> None | Some b \<Rightarrow> digits_value b ys)"
  by (induction xs arbitrary: a) (auto split: option.splits)

lemma digits_value_nat_str: "digits_value 0 (nat_str n) = Some (int n)"
proof (induction n rule: nat_str.induct)
  case (1 n)
  show ?case
  proof (cases "n < 10")
    case True
    then show ?thesis by (simp add: nat_str.simps [of n] digit_value_char)
  next
    case False
    then have "digits_value 0 (nat_str (n div 10)) = Some (int (n div 10))" using 1 by simp
    moreover have "10 * int (n div 10) + int (n mod 10) = int n"
      by (metis of_nat_add of_nat_mult of_nat_numeral mult_div_mod_eq)
    ultimately show ?thesis using False
      by (simp add: nat_str.simps [of n] digits_value_append digit_value_char)
  qed
qed


lemma nat_str_head: "\<exists>c cs. nat_str n = c # cs \<and> c \<in> digit_chars"
  using nat_str_digits [of n] nat_str_nonempty [of n] by (cases "nat_str n") auto

lemma digit_not_sign: "c \<in> digit_chars \<Longrightarrow> c \<noteq> CHR ''+'' \<and> c \<noteq> CHR ''-''"
  by (auto simp: digit_chars_def)

lemma ParseInt64_int_str: "- (2 ^ 63) \<le> i \<Longrightarrow> i < 2 ^ 63 \<Longrightarrow> ParseInt64 (int_str i) = Some i"
proof -
  assume i: "- (2 ^ 63) \<le> i" "i < 2 ^ 63"
  obtain c cs where n: "nat_str (nat i) = c # cs" "c \<in> digit_chars" using nat_str_head by blast
  show ?thesis
  proof (cases "i < 0")
    case True
    then show ?thesis using i digits_value_nat_str [of "nat (- i)"]
      by (simp add: ParseInt64_def int_str_def)
  next
    case False
    then show ?thesis using i digits_value_nat_str [of "nat i"] n digit_not_sign [OF n(2)]
      by (simp add: ParseInt64_def int_str_def)
  qed
qed

lemma digit_not_space: "c \<in> digit_chars \<Longrightarrow> \<not> is_space c"
  by (auto simp: digit_chars_def is_space_def)

lemma fields_word:
  "(\<forall>c \<in> set w. \<not> is_space c) \<Longrightarrow> fields_from x (w @ r) = fields_from (x @ w) r"
  by (induction w arbitrary: x) auto

text \<open>
  A measurement survives its text form: the byte count that \<open>du\<close> or \<open>zfs list\<close> prints, followed by a tab
  or newline and whatever else, is the number the API reports, over the whole 64-bit range.
\<close>

theorem usage_reads_measurement:
  assumes "0 \<le> i" "i < 2 ^ 63" "is_space x"
  shows "ParseInt64 (hd (strings_Fields (int_str i @ x # rest))) = Some i"
proof -
  have "\<forall>c \<in> set (int_str i). \<not> is_space c"
    using int_str_digits [OF assms(1)] digit_not_space by blast
  moreover have "int_str i \<noteq> []" using assms(1) by (simp add: int_str_def)
  ultimately have "hd (strings_Fields (int_str i @ x # rest)) = int_str i"
    using assms(3) by (simp add: strings_Fields_def fields_word)
  then show ?thesis using assms by (simp add: ParseInt64_int_str)
qed

theorem usage_reads_measurement_witness:
  "ParseInt64 (hd (strings_Fields (''4096'' @ CHR 0x09 # ''/pgbranch/rw''))) = Some 4096"
  using usage_reads_measurement [of 4096 "CHR 0x09" "''/pgbranch/rw''"]
  by (simp add: int_str_def nat_str.simps is_space_def)

end
