(* ===== verification/Engine_Freeze.thy ===== *)
theory Engine_Freeze
  imports Engine_Sources
begin

text \<open>
  Package \<open>internal/engine\<close>, file \<open>freeze.go\<close>: branch-from-branch. On the overlay backend the parent's
  writable volume is frozen into a layer; parent and child then run above it.
\<close>

text \<open>\<open>restoreParent\<close>: back onto the original volume and chain; the parent ends ready or is marked failed.\<close>

definition restore_failed :: "ctx \<Rightarrow> branch \<Rightarrow> err \<Rightarrow> err \<Rightarrow> ('z sys_scheme, unit) comp" where
  "restore_failed c parent cause er =
     logCompensationErr ''transition'' (TransitionBranchCtx c (br_ID parent) BranchFailed
       (''freeze failed ('' @ err_msg cause @ ''); parent restore failed: '' @ err_msg er))"

definition restoreParent :: "engine \<Rightarrow> ctx \<Rightarrow> branch \<Rightarrow> source \<Rightarrow> plan \<Rightarrow> err \<Rightarrow> ('z sys_scheme, unit) comp" where
  "restoreParent e c parent src origPlan cause =
     bnd (branchLabels parent) (\<lambda>ls.
     bnd (attempt (startOverlayBranch c (br_Name parent) origPlan (image_of e (src_PGVersion src)) ls)) (\<lambda>r.
     case r of
       Inl er \<Rightarrow> restore_failed c parent cause er
     | Inr cid \<Rightarrow>
         bnd (logCompensationErr ''transition'' (SetBranchContainer (br_ID parent) cid)) (\<lambda>_.
         bnd (attempt (waitReady c cid (90 * second))) (\<lambda>w.
         case w of
           Inl er \<Rightarrow> bnd (logCompensationErr ''undo'' (drv_StopRemove c cid)) (\<lambda>_. restore_failed c parent cause er)
         | Inr _ \<Rightarrow>
             bnd (attempt (inspectAddr c cid)) (\<lambda>i.
             case i of
               Inl er \<Rightarrow> restore_failed c parent cause er
             | Inr info \<Rightarrow> logCompensationErr ''transition''
                 (MarkBranchReadyCtx c (br_ID parent) cid (ci_Host info) (ci_Port info)))))))"

text \<open>\<open>fail\<close>: the compensations in reverse order, then the parent is restored, then the error.\<close>

definition freeze_or :: "engine \<Rightarrow> ctx \<Rightarrow> branch \<Rightarrow> source \<Rightarrow> plan \<Rightarrow> ('z sys_scheme, unit) comp list \<Rightarrow> (err \<Rightarrow> err)
    \<Rightarrow> ('z sys_scheme, 'a) comp \<Rightarrow> ('z sys_scheme, 'a) comp" where
  "freeze_or e c parent src origPlan undo wrap m = on_error m (\<lambda>er.
     bnd (unwind undo) (\<lambda>_.
     bnd (restoreParent e (WithoutCancel c) parent src origPlan (wrap er)) (\<lambda>_. raise (wrap er))))"

text \<open>Steps 1 and 2: CHECKPOINT and stop, with the parent's way back.\<close>

definition freezeStop :: "ctx \<Rightarrow> branch \<Rightarrow> branch \<Rightarrow> source \<Rightarrow> ('z sys_scheme, unit) comp" where
  "freezeStop c child parent src =
     bnd (TransitionBranchCtx c (br_ID parent) BranchResetting (''freeze for child '' @ br_Name child)) (\<lambda>_.
     bnd (on_error (drv_Exec c (br_ContainerID parent) (psqlCmd src ''CHECKPOINT'')) (\<lambda>er.
       bnd (logCompensationErr ''transition'' (TransitionBranchCtx c (br_ID parent) BranchReady
         (''freeze for child '' @ br_Name child @ '' aborted: checkpoint failed''))) (\<lambda>_.
       raise (Wrap (''checkpoint parent '' @ go_quote (br_Name parent) @ '': '') er [])))) (\<lambda>_.
     on_error (drv_StopRemove c (br_ContainerID parent)) (\<lambda>er.
       bnd (logCompensationErr ''transition'' (TransitionBranchCtx c (br_ID parent) BranchFailed
         (''freeze for child '' @ br_Name child @ '': stop parent failed: '' @ err_msg er))) (\<lambda>_.
       raise (Wrap (''stop parent '' @ go_quote (br_Name parent) @ '': '') er [])))))"

text \<open>Steps 5 to 7: the child over the frozen chain, the commit, the child ready.\<close>

definition freezeChild :: "engine \<Rightarrow> ctx \<Rightarrow> branch \<Rightarrow> branch \<Rightarrow> source \<Rightarrow> plan \<Rightarrow> plan \<Rightarrow> string \<Rightarrow> string
    \<Rightarrow> ('z sys_scheme, unit) comp list \<Rightarrow> ('z sys_scheme, unit) comp" where
  "freezeChild e c child parent src origPlan childPlan newRW parentCID undo2 =
     bnd (volumeLabels ''pgbranch.branch.id'' (br_ID child)) (\<lambda>cvls.
     bnd (freeze_or e c parent src origPlan undo2 (wrap_as ''create rw volume: '')
       (drv_CreateVolume c (RWVolume childPlan) cvls)) (\<lambda>_.
     let undo3 = undo2 @ [undo_volume c (RWVolume childPlan)] in
     bnd (freeze_or e c parent src origPlan undo3 (wrap_as ''install entrypoint: '')
       (installOverlayEntrypoint e c (RWVolume childPlan))) (\<lambda>_.
     bnd (branchLabels child) (\<lambda>cls.
     bnd (freeze_or e c parent src origPlan undo3 (wrap_as ''start instance: '')
       (startOverlayBranch c (br_Name child) childPlan (image_of e (src_PGVersion src)) cls)) (\<lambda>childCID.
     let undo4 = undo3 @ [undo_container c childCID] in
     bnd (logCompensationErr ''transition'' (SetBranchContainer (br_ID child) childCID)) (\<lambda>_.
     bnd (freeze_or e c parent src origPlan undo4 (wrap_as ''instance never became ready: '')
       (waitReady c childCID (90 * second))) (\<lambda>_.
     bnd (freeze_or e c parent src origPlan undo4 (\<lambda>er. er) (applyMasking c childCID src)) (\<lambda>_.
     bnd (freeze_or e c parent src origPlan undo4 (\<lambda>er. er) (rotateBranchCredentials e c childCID child src)) (\<lambda>_.
     bnd (freeze_or e c parent src origPlan undo4 (\<lambda>er. er) (inspectAddr c childCID)) (\<lambda>childInfo.
     bnd (freeze_or e c parent src origPlan undo4 (\<lambda>er. er) (inspectAddr c parentCID)) (\<lambda>parentInfo.
     bnd (freeze_or e c parent src origPlan undo4 (wrap_as ''commit freeze: '')
       (CommitFreezeCtx c (br_ID parent) (br_ID child) (br_RWVolume parent) newRW parentCID
          (ci_Host parentInfo) (ci_Port parentInfo) (''freeze for child '' @ br_Name child @ '' complete''))) (\<lambda>_.
     MarkBranchReadyCtx c (br_ID child) childCID (ci_Host childInfo) (ci_Port childInfo)))))))))))))"

definition freezeAndProvision :: "engine \<Rightarrow> ctx \<Rightarrow> branch \<Rightarrow> branch \<Rightarrow> source \<Rightarrow> ('z sys_scheme, unit) comp" where
  "freezeAndProvision e c child parent src =
     bnd (LayerChain (br_ID parent)) (\<lambda>chain.
     let origPlan = PlanBranch (br_RWVolume parent) (br_SourceVolume parent) (layerVolumes chain);
         frozen = br_RWVolume parent # layerVolumes chain;
         newRW = BranchRWVolumeNameGen (br_Name parent) (int (length chain) + 2);
         parentPlan = PlanBranch newRW (br_SourceVolume parent) frozen;
         childPlan = PlanBranch (br_RWVolume child) (br_SourceVolume child) frozen
     in
     bnd (freezeStop c child parent src) (\<lambda>_.
     bnd (volumeLabels ''pgbranch.branch.id'' (br_ID parent)) (\<lambda>pvls.
     bnd (freeze_or e c parent src origPlan [] (wrap_as ''create parent rw volume: '') (drv_CreateVolume c newRW pvls)) (\<lambda>_.
     let undo1 = [undo_volume c newRW] in
     bnd (freeze_or e c parent src origPlan undo1 (wrap_as ''install parent entrypoint: '') (installOverlayEntrypoint e c newRW)) (\<lambda>_.
     bnd (branchLabels parent) (\<lambda>pls.
     bnd (freeze_or e c parent src origPlan undo1 (wrap_as (''restart parent '' @ go_quote (br_Name parent) @ '': ''))
       (startOverlayBranch c (br_Name parent) parentPlan (image_of e (src_PGVersion src)) pls)) (\<lambda>parentCID.
     let undo2 = undo1 @ [undo_container c parentCID] in
     bnd (logCompensationErr ''transition'' (SetBranchContainer (br_ID parent) parentCID)) (\<lambda>_.
     bnd (freeze_or e c parent src origPlan undo2
       (wrap_as (''parent '' @ go_quote (br_Name parent) @ '' never became ready after freeze: ''))
       (waitReady c parentCID (90 * second))) (\<lambda>_.
     bnd (logCompensationErr ''transition'' (TouchBranch (br_ID parent))) (\<lambda>_.
     bnd (logCompensationErr ''transition'' (TouchBranch (br_ID child))) (\<lambda>_.
     freezeChild e c child parent src origPlan childPlan newRW parentCID undo2)))))))))))"

definition CreateBranchFrom :: "engine \<Rightarrow> ctx \<Rightarrow> string \<Rightarrow> string \<Rightarrow> int \<Rightarrow> ('z sys_scheme, branch) comp" where
  "CreateBranchFrom e c name parentName ttl =
     bnd (lift_err (validateBranchName name)) (\<lambda>_.
     bnd (checkQuota e) (\<lambda>_.
     bnd (wrapping (''parent branch '' @ go_quote parentName @ '': '') (GetBranchByName parentName)) (\<lambda>parent.
     if br_State parent \<noteq> BranchReady then
       raise (not_ready ''parent branch '' parentName (branch_state_str (br_State parent)))
     else
     bnd (GetSourceByID (br_SourceID parent)) (\<lambda>src.
     bnd (expiresAtFor e ttl) (\<lambda>expiresAt.
     bnd (CreateBranchCtx c (new_branch name (br_SourceID parent) (BranchLayerName (planner e) name)
       (if is_zfs e \<or> is_csi e then br_RWVolume parent else br_SourceVolume parent) expiresAt parentName)) (\<lambda>child.
     bnd (mark_failed c child
       (if is_csi e then provisionCSI e c child src
        else if is_zfs e then provisionZFS e c child src
        else freezeAndProvision e c child parent src)) (\<lambda>_.
     GetBranchByName name)))))))"

context engine_invariant
begin

lemma restore_keeps [keeps_rules]: "keeps I (restoreParent e c p src pl ca)"
  unfolding restoreParent_def restore_failed_def by (intro keeps_rules)

lemma freeze_or_keeps [keeps_rules]:
  assumes "\<And>u. u \<in> set undo \<Longrightarrow> keeps I u" "keeps I m"
  shows "keeps I (freeze_or e c p src pl undo w m)"
proof -
  have "keeps I (unwind undo)" unfolding unwind_def by (rule for_each_keeps) (simp add: assms(1))
  then show ?thesis unfolding freeze_or_def using assms(2) by (intro keeps_rules)
qed

lemma freeze_stop_keeps [keeps_rules]: "keeps I (freezeStop c ch p src)"
  unfolding freezeStop_def by (intro keeps_rules)

lemma freeze_child_keeps [keeps_rules]:
  assumes "\<And>u. u \<in> set undo \<Longrightarrow> keeps I u"
  shows "keeps I (freezeChild e c ch p src op cp rw pc undo)"
  unfolding freezeChild_def Let_def
  by (intro keeps_rules) (auto intro: undo_keeps assms)

lemma freeze_keeps [keeps_rules]: "keeps I (freezeAndProvision e c ch p src)"
  unfolding freezeAndProvision_def Let_def
  by (intro keeps_rules reads_keep) (auto intro: undo_keeps)

lemma create_from_keeps [keeps_rules]: "keeps I (CreateBranchFrom e c n pn ttl)"
  unfolding CreateBranchFrom_def by (intro keeps_rules reads_keep)

end

end
