(* ===== verification/Engine_Reconcile.thy ===== *)
theory Engine_Reconcile
  imports Engine_Freeze
begin

text \<open>
  Package \<open>internal/engine\<close>, file \<open>reconcile.go\<close>: the read-only plan that compares the registry with what
  the driver reports, and its application with a re-check before every destructive step.
\<close>

datatype action_kind = ActionReap | ActionFailStuck | ActionRemoveOrphanContainer | ActionGCLayer | ActionGCVolume

fun action_kind_str :: "action_kind \<Rightarrow> string" where
  "action_kind_str ActionReap = ''reap''"
| "action_kind_str ActionFailStuck = ''fail_stuck''"
| "action_kind_str ActionRemoveOrphanContainer = ''remove_orphan_container''"
| "action_kind_str ActionGCLayer = ''gc_layer''"
| "action_kind_str ActionGCVolume = ''gc_volume''"

record action =
  a_Kind :: action_kind
  a_Target :: string
  a_Reason :: string

type_synonym reconcile_plan = "action list"

definition Drift :: "reconcile_plan \<Rightarrow> bool" where
  "Drift p \<longleftrightarrow> 0 < length p"

definition act :: "action_kind \<Rightarrow> string \<Rightarrow> string \<Rightarrow> action" where
  "act k target reason = \<lparr>a_Kind = k, a_Target = target, a_Reason = reason\<rparr>"

text \<open>\<open>time.Duration.String()\<close>\<close>

definition frac_str :: "nat \<Rightarrow> int \<Rightarrow> string" where
  "frac_str k v = (let ds = rev (dropWhile (\<lambda>c. c = CHR ''0'') (rev (pad k v))) in if ds = [] then [] else ''.'' @ ds)"

definition duration_str :: "int \<Rightarrow> string" where
  "duration_str d =
     (let u = abs d; sgn = (if d < 0 then ''-'' else []);
          body = (if u = 0 then ''0s''
            else if u < 1000 then int_str u @ ''ns''
            else if u < 1000000 then int_str (u div 1000) @ frac_str 3 (u mod 1000) @ [CHR 0xC2, CHR 0xB5] @ ''s''
            else if u < second then int_str (u div 1000000) @ frac_str 6 (u mod 1000000) @ ''ms''
            else let secs = u div second; f = frac_str 9 (u mod second); m = secs div 60; h = m div 60 in
              (if 0 < h then int_str h @ ''h'' else []) @ (if 0 < m then int_str (m mod 60) @ ''m'' else []) @
              int_str (secs mod 60) @ f @ ''s'')
      in sgn @ body)"

definition lookup_label :: "labels \<Rightarrow> string \<Rightarrow> string" where
  "lookup_label ls k = (case map_of ls k of None \<Rightarrow> '''' | Some v \<Rightarrow> v)"

definition plan_reaps :: "int \<Rightarrow> ('z sys_scheme, reconcile_plan) comp" where
  "plan_reaps now =
     bnd (ListExpiredBranches (rfc3339 now)) (\<lambda>expired.
     ok (map (\<lambda>b. act ActionReap (br_Name b) (''ttl expired at '' @ br_ExpiresAt b)) expired))"

definition plan_stuck :: "int \<Rightarrow> int \<Rightarrow> ('z sys_scheme, reconcile_plan) comp" where
  "plan_stuck now stuckTimeout =
     bnd (ListStuckBranches (rfc3339 (now - stuckTimeout))) (\<lambda>stuck.
     ok (map (\<lambda>b. act ActionFailStuck (br_Name b)
       (''stuck in '' @ branch_state_str (br_State b) @ '' longer than '' @ duration_str stuckTimeout)) stuck))"

definition known_containers :: "branch list \<Rightarrow> string set" where
  "known_containers live = set (filter (\<lambda>i. i \<noteq> '''') (map br_ContainerID live))"

definition plan_orphans :: "ctx \<Rightarrow> ('z sys_scheme, reconcile_plan) comp" where
  "plan_orphans c =
     bnd ListLiveBranches (\<lambda>live.
     bnd (drv_ListManaged c) (\<lambda>managed.
     bnd (gets instanceID) (\<lambda>inst.
     ok (map (\<lambda>k. act ActionRemoveOrphanContainer (ci_ID k) ''managed container with no live branch row'')
       (filter (\<lambda>k. lookup_label (ci_Labels k) LabelInstance = inst \<and> ci_ID k \<notin> known_containers live) managed)))))"

fun plan_layers :: "layer list \<Rightarrow> ('z sys_scheme, reconcile_plan) comp" where
  "plan_layers [] = ok []"
| "plan_layers (l # ls) =
     bnd (CountBranchesReferencingLayer (l_ID l)) (\<lambda>n.
     bnd (plan_layers ls) (\<lambda>rest.
     ok (if n = 0 then act ActionGCLayer (l_Volume l) ''frozen layer referenced by 0 live branches'' # rest else rest)))"

definition plan_volumes :: "ctx \<Rightarrow> reconcile_plan \<Rightarrow> ('z sys_scheme, reconcile_plan) comp" where
  "plan_volumes c layer_actions =
     bnd (gets instanceID) (\<lambda>inst.
     bnd (drv_ListManagedVolumes c inst) (\<lambda>vols.
     if vols = [] then ok []
     else bnd LiveVolumeSet (\<lambda>liveVols.
       ok (map (\<lambda>v. act ActionGCVolume v ''managed volume owned by no live branch or source'')
         (filter (\<lambda>v. v \<notin> liveVols \<and> v \<notin> a_Target ` set layer_actions) vols)))))"

definition PlanReconcile :: "ctx \<Rightarrow> int \<Rightarrow> int \<Rightarrow> ('z sys_scheme, reconcile_plan) comp" where
  "PlanReconcile c now stuckTimeout =
     bnd (plan_reaps now) (\<lambda>p1.
     bnd (plan_stuck now stuckTimeout) (\<lambda>p2.
     bnd (plan_orphans c) (\<lambda>p3.
     bnd (bnd ListLayers plan_layers) (\<lambda>p4.
     bnd (plan_volumes c p4) (\<lambda>p5.
     ok (p1 @ p2 @ p3 @ p4 @ p5))))))"

section \<open>Applying an action\<close>

text \<open>A branch that is gone counts as nothing to do.\<close>

definition if_found :: "string \<Rightarrow> (branch \<Rightarrow> ('z sys_scheme, bool) comp) \<Rightarrow> ('z sys_scheme, bool) comp" where
  "if_found name k =
     bnd (attempt (GetBranchByName name)) (\<lambda>r.
     case r of
       Inl er \<Rightarrow> if errors_is er ErrNotFound then ok False else raise er
     | Inr b \<Rightarrow> k b)"

definition apply_reap :: "engine \<Rightarrow> ctx \<Rightarrow> string \<Rightarrow> ('z sys_scheme, bool) comp" where
  "apply_reap e c target = if_found target (\<lambda>b.
     if br_ExpiresAt b = '''' \<or> br_State b = BranchDestroyed then ok False
     else bnd (DestroyBranch e c (br_Name b)) (\<lambda>_. ok True))"

definition apply_fail_stuck :: "engine \<Rightarrow> ctx \<Rightarrow> string \<Rightarrow> ('z sys_scheme, bool) comp" where
  "apply_fail_stuck e c target = if_found target (\<lambda>b.
     if \<not> forced_from_transient b then ok False
     else
     bnd (if br_ContainerID b \<noteq> '''' then dropped (drv_StopRemove c (br_ContainerID b)) else ok ()) (\<lambda>_.
     bnd (CountLiveBranchesReferencingRW (br_Name b) (br_RWVolume b)) (\<lambda>referenced.
     bnd (if 0 < referenced then ok () else dropped (removeBranchLayer e c b)) (\<lambda>_.
     bnd (TransitionBranchCtx c (br_ID b) BranchFailed (''reconcile: stuck '' @ branch_state_str (br_State b))) (\<lambda>_.
     ok True)))))"

definition apply_orphan :: "ctx \<Rightarrow> string \<Rightarrow> ('z sys_scheme, bool) comp" where
  "apply_orphan c target =
     bnd ListLiveBranches (\<lambda>live.
     if target \<in> set (map br_ContainerID live) then ok False
     else bnd (drv_StopRemove c target) (\<lambda>_. ok True))"

definition apply_gc_layer :: "engine \<Rightarrow> ctx \<Rightarrow> string \<Rightarrow> ('z sys_scheme, bool) comp" where
  "apply_gc_layer e c target =
     bnd ListLayers (\<lambda>ls.
     case find (\<lambda>l. l_Volume l = target) ls of
       None \<Rightarrow> ok False
     | Some l \<Rightarrow>
         bnd (CountBranchesReferencingLayer (l_ID l)) (\<lambda>n.
         if 0 < n then ok False
         else bnd (removeSourceLayer e c (l_Volume l)) (\<lambda>_. bnd (DeleteLayer (l_ID l)) (\<lambda>_. ok True))))"

definition apply_gc_volume :: "ctx \<Rightarrow> string \<Rightarrow> ('z sys_scheme, bool) comp" where
  "apply_gc_volume c target =
     bnd LiveVolumeSet (\<lambda>liveVols.
     if target \<in> liveVols then ok False
     else bnd (drv_RemoveVolume c target) (\<lambda>_. ok True))"

definition applyAction :: "engine \<Rightarrow> ctx \<Rightarrow> action \<Rightarrow> ('z sys_scheme, bool) comp" where
  "applyAction e c a =
     (case a_Kind a of
        ActionReap \<Rightarrow> apply_reap e c (a_Target a)
      | ActionFailStuck \<Rightarrow> apply_fail_stuck e c (a_Target a)
      | ActionRemoveOrphanContainer \<Rightarrow> apply_orphan c (a_Target a)
      | ActionGCLayer \<Rightarrow> apply_gc_layer e c (a_Target a)
      | ActionGCVolume \<Rightarrow> apply_gc_volume c (a_Target a))"

fun apply_each :: "engine \<Rightarrow> ctx \<Rightarrow> reconcile_plan \<Rightarrow> ('z sys_scheme, reconcile_plan \<times> err list) comp" where
  "apply_each e c [] = ok ([], [])"
| "apply_each e c (a # as) =
     bnd (attempt (applyAction e c a)) (\<lambda>r.
     bnd (apply_each e c as) (\<lambda>(taken, es).
     ok (case r of
         Inl er \<Rightarrow> (taken, Wrap (action_kind_str (a_Kind a) @ '' '' @ a_Target a @ '': '') er [] # es)
       | Inr applied \<Rightarrow> (if applied then (a # taken, es) else (taken, es)))))"

text \<open>The actions taken, with the joined errors of the others.\<close>

definition ApplyReconcile :: "engine \<Rightarrow> ctx \<Rightarrow> int \<Rightarrow> int \<Rightarrow> ('z sys_scheme, reconcile_plan \<times> err option) comp" where
  "ApplyReconcile e c now stuckTimeout =
     bnd (PlanReconcile c now stuckTimeout) (\<lambda>p.
     bnd (apply_each e c p) (\<lambda>(taken, es).
     ok (taken, if es = [] then None else Some (Joined es))))"

definition Reconcile :: "engine \<Rightarrow> ctx \<Rightarrow> int \<Rightarrow> int \<Rightarrow> ('z sys_scheme, reconcile_plan \<times> err option) comp" where
  "Reconcile e c now stuckTimeout = ApplyReconcile e c now stuckTimeout"

definition summarize :: "reconcile_plan \<Rightarrow> (action_kind \<times> nat) list" where
  "summarize p = map (\<lambda>k. (k, count_list (map a_Kind p) k)) (remdups (map a_Kind p))"

text \<open>
  \<open>RunReconcile\<close>: a pass at start, then one per tick until the context is done; \<open>ticks\<close> are the times the
  ticker delivered before that.
\<close>

definition RunReconcile :: "engine \<Rightarrow> ctx \<Rightarrow> int \<Rightarrow> int list \<Rightarrow> ('z sys_scheme, unit) comp" where
  "RunReconcile e c stuckTimeout ticks =
     bnd time_now (\<lambda>now.
     bnd (dropped (Reconcile e c now stuckTimeout)) (\<lambda>_.
     for_each ticks (\<lambda>t. dropped (Reconcile e c t stuckTimeout))))"

lemma keeps_action_kind [keeps_rules]:
  "keeps I m1 \<Longrightarrow> keeps I m2 \<Longrightarrow> keeps I m3 \<Longrightarrow> keeps I m4 \<Longrightarrow> keeps I m5 \<Longrightarrow>
   keeps I (case k of ActionReap \<Rightarrow> m1 | ActionFailStuck \<Rightarrow> m2 | ActionRemoveOrphanContainer \<Rightarrow> m3
     | ActionGCLayer \<Rightarrow> m4 | ActionGCVolume \<Rightarrow> m5)"
  by (simp split: action_kind.splits)

context reading
begin

lemma plan_layers_keeps [keeps_rules]: "keeps I (plan_layers ls)"
  by (induction ls) (auto intro!: keeps_rules reads_keep)

lemma plan_parts_keep:
  "keeps I (plan_reaps now)" "keeps I (plan_stuck now st)" "keeps I (plan_orphans c)" "keeps I ListLayers" "keeps I (plan_layers ls)"
  unfolding plan_reaps_def plan_stuck_def plan_orphans_def by (intro keeps_rules reads_keep)+

lemma plan_keeps [keeps_rules]: "keeps I (PlanReconcile c now st)"
  unfolding PlanReconcile_def plan_reaps_def plan_stuck_def plan_orphans_def plan_volumes_def
  by (intro keeps_rules reads_keep)

end

context engine_invariant
begin

lemma apply_action_keeps [keeps_rules]: "keeps I (applyAction e c a)"
  unfolding applyAction_def apply_reap_def apply_fail_stuck_def apply_orphan_def apply_gc_layer_def
    apply_gc_volume_def if_found_def
  by (intro keeps_rules reads_keep)

lemma apply_each_keeps [keeps_rules]: "keeps I (apply_each e c as)"
  by (induction as) (auto intro!: keeps_rules)

lemma reconcile_keeps [keeps_rules]: "keeps I (ApplyReconcile e c now st)" "keeps I (Reconcile e c now st)"
  unfolding ApplyReconcile_def Reconcile_def by (intro keeps_rules)+

lemma run_reconcile_keeps [keeps_rules]: "keeps I (RunReconcile e c st ts)"
  unfolding RunReconcile_def by (intro keeps_rules reads_keep)

end

end
