(* ===== verification/Diffutil.thy ===== *)
theory Diffutil
  imports Prelude "HOL-Library.Sublist"
begin

text \<open>
  Package \<open>internal/diffutil\<close>: the line diff behind schema comparison. The edit script (common prefix and
  suffix trimmed, the middle by the longest-common-subsequence table) and the grouping of changes into
  unified hunks are modelled as written. The script turns the first text into the second, no script
  keeps more lines, and the printed hunks, applied as a patch, give the second text.
\<close>

section \<open>The edit script\<close>

definition contextLines :: nat where "contextLines = 3"

record diff_op =
  kind :: char
  line :: string

definition mk_op :: "char \<Rightarrow> string \<Rightarrow> diff_op" where
  "mk_op k l = \<lparr>kind = k, line = l\<rparr>"

definition splitLines :: "string \<Rightarrow> string list" where
  "splitLines s =
     (let lines = strings_split s (CHR 0x0A) in
      if 0 < length lines \<and> last lines = '''' then butlast lines else lines)"

text \<open>Row \<open>i\<close> of the table from row \<open>i + 1\<close>, right to left; then all rows, bottom up.\<close>

fun lcs_row :: "string \<Rightarrow> string list \<Rightarrow> nat list \<Rightarrow> nat list" where
  "lcs_row x [] below = [0]"
| "lcs_row x (y # ys) below =
     (let right = lcs_row x ys (tl below) in
      (if x = y then hd (tl below) + 1 else max (hd below) (hd right)) # right)"

fun lcs_table :: "string list \<Rightarrow> string list \<Rightarrow> nat list list" where
  "lcs_table [] b = [replicate (length b + 1) 0]"
| "lcs_table (x # xs) b = (let t = lcs_table xs b in lcs_row x b (hd t) # t)"

function lcs_walk :: "string list \<Rightarrow> string list \<Rightarrow> nat list list \<Rightarrow> nat \<Rightarrow> nat \<Rightarrow> diff_op list" where
  "lcs_walk a b lcs i j =
     (if i < length a \<and> j < length b then
        (if a ! i = b ! j then mk_op (CHR '' '') (a ! i) # lcs_walk a b lcs (i + 1) (j + 1)
         else if lcs ! i ! (j + 1) \<le> lcs ! (i + 1) ! j then mk_op (CHR ''-'') (a ! i) # lcs_walk a b lcs (i + 1) j
         else mk_op (CHR ''+'') (b ! j) # lcs_walk a b lcs i (j + 1))
      else map (mk_op (CHR ''-'')) (drop i a) @ map (mk_op (CHR ''+'')) (drop j b))"
  by pat_completeness auto
termination by (relation "measure (\<lambda>(a, b, _, i, j). (length a - i) + (length b - j))") auto

declare lcs_walk.simps [simp del]

definition lcsOps :: "string list \<Rightarrow> string list \<Rightarrow> diff_op list" where
  "lcsOps a b = lcs_walk a b (lcs_table a b) 0 0"

fun common_prefix :: "string list \<Rightarrow> string list \<Rightarrow> nat" where
  "common_prefix (x # xs) (y # ys) = (if x = y then Suc (common_prefix xs ys) else 0)"
| "common_prefix _ _ = 0"

text \<open>The suffix loop stops at the prefix already taken.\<close>

definition common_suffix :: "nat \<Rightarrow> string list \<Rightarrow> string list \<Rightarrow> nat" where
  "common_suffix p a b = common_prefix (rev (drop p a)) (rev (drop p b))"

definition diffOps :: "string list \<Rightarrow> string list \<Rightarrow> diff_op list" where
  "diffOps a b =
     (let p = common_prefix a b; s = common_suffix p a b in
      map (mk_op (CHR '' '')) (take p a) @
      lcsOps (drop p (take (length a - s) a)) (drop p (take (length b - s) b)) @
      map (mk_op (CHR '' '')) (drop (length a - s) a))"

section \<open>Hunks\<close>

definition is_change :: "diff_op \<Rightarrow> bool" where
  "is_change x \<longleftrightarrow> kind x \<noteq> CHR '' ''"

text \<open>Lines consumed before each operation, leaving out those of one kind.\<close>

fun consumed :: "char \<Rightarrow> nat \<Rightarrow> diff_op list \<Rightarrow> nat list" where
  "consumed k n [] = [n]"
| "consumed k n (x # xs) = n # consumed k (if kind x \<noteq> k then n + 1 else n) xs"

fun last_of_group :: "nat \<Rightarrow> nat list \<Rightarrow> nat \<times> nat list" where
  "last_of_group x [] = (x, [])"
| "last_of_group x (y # ys) = (if y - x \<le> 2 * contextLines then last_of_group y ys else (x, y # ys))"

lemma last_of_group_length: "length (snd (last_of_group x ys)) \<le> length ys"
  by (induction ys arbitrary: x) (auto simp: le_SucI)

function hunk_ranges :: "nat \<Rightarrow> nat list \<Rightarrow> (nat \<times> nat) list" where
  "hunk_ranges n [] = []"
| "hunk_ranges n (c # cs) =
     (let g = last_of_group c cs in
      (c - contextLines, min (n - 1) (fst g + contextLines)) # hunk_ranges n (snd g))"
  by pat_completeness auto
termination
  by (relation "measure (\<lambda>(n, cs). length cs)") (auto simp: less_Suc_eq_le last_of_group_length)

record hunk =
  h_aStart :: nat
  h_aCount :: nat
  h_bStart :: nat
  h_bCount :: nat
  h_ops :: "diff_op list"

definition mk_hunk :: "diff_op list \<Rightarrow> nat \<times> nat \<Rightarrow> hunk" where
  "mk_hunk ops r =
     (let (start, stop) = r; aAt = consumed (CHR ''+'') 0 ops; bAt = consumed (CHR ''-'') 0 ops;
          aCount = aAt ! (stop + 1) - aAt ! start; bCount = bAt ! (stop + 1) - bAt ! start
      in \<lparr>h_aStart = (if aCount = 0 then aAt ! start else aAt ! start + 1), h_aCount = aCount,
          h_bStart = (if bCount = 0 then bAt ! start else bAt ! start + 1), h_bCount = bCount,
          h_ops = drop start (take (stop + 1) ops)\<rparr>)"

definition change_indices :: "diff_op list \<Rightarrow> nat list" where
  "change_indices ops = filter (\<lambda>i. is_change (ops ! i)) [0..<length ops]"

definition hunks :: "diff_op list \<Rightarrow> hunk list" where
  "hunks ops = map (mk_hunk ops) (hunk_ranges (length ops) (change_indices ops))"

definition render_hunk :: "hunk \<Rightarrow> string" where
  "render_hunk h = ''@@ -'' @ nat_str (h_aStart h) @ '','' @ nat_str (h_aCount h) @ '' +'' @ nat_str (h_bStart h) @ '','' @
     nat_str (h_bCount h) @ '' @@'' @ [CHR 0x0A] @ concat (map (\<lambda>x. kind x # line x @ [CHR 0x0A]) (h_ops h))"

definition renderHunks :: "diff_op list \<Rightarrow> string" where
  "renderHunks ops = concat (map render_hunk (hunks ops))"

definition Unified :: "string \<Rightarrow> string \<Rightarrow> string" where
  "Unified a b =
     (let ops = diffOps (splitLines a) (splitLines b) in
      if list_ex is_change ops then renderHunks ops else '''')"

section \<open>What a script says about its two texts\<close>

definition old_lines :: "diff_op list \<Rightarrow> string list" where
  "old_lines ops = map line (filter (\<lambda>x. kind x \<noteq> CHR ''+'') ops)"

definition new_lines :: "diff_op list \<Rightarrow> string list" where
  "new_lines ops = map line (filter (\<lambda>x. kind x \<noteq> CHR ''-'') ops)"

definition kept :: "diff_op list \<Rightarrow> string list" where
  "kept ops = map line (filter (\<lambda>x. \<not> is_change x) ops)"

lemma sides_append [simp]:
  "old_lines (xs @ ys) = old_lines xs @ old_lines ys" "new_lines (xs @ ys) = new_lines xs @ new_lines ys"
  "kept (xs @ ys) = kept xs @ kept ys"
  by (simp_all add: old_lines_def new_lines_def kept_def)

lemma sides_Nil [simp]: "old_lines [] = []" "new_lines [] = []" "kept [] = []"
  by (simp_all add: old_lines_def new_lines_def kept_def)

lemma sides_Cons [simp]:
  "old_lines (mk_op (CHR '' '') l # xs) = l # old_lines xs" "new_lines (mk_op (CHR '' '') l # xs) = l # new_lines xs"
  "kept (mk_op (CHR '' '') l # xs) = l # kept xs"
  "old_lines (mk_op (CHR ''-'') l # xs) = l # old_lines xs" "new_lines (mk_op (CHR ''-'') l # xs) = new_lines xs"
  "kept (mk_op (CHR ''-'') l # xs) = kept xs"
  "old_lines (mk_op (CHR ''+'') l # xs) = old_lines xs" "new_lines (mk_op (CHR ''+'') l # xs) = l # new_lines xs"
  "kept (mk_op (CHR ''+'') l # xs) = kept xs"
  by (simp_all add: old_lines_def new_lines_def kept_def is_change_def mk_op_def)

lemma sides_map [simp]:
  "old_lines (map (mk_op (CHR '' '')) ls) = ls" "new_lines (map (mk_op (CHR '' '')) ls) = ls"
  "kept (map (mk_op (CHR '' '')) ls) = ls"
  "old_lines (map (mk_op (CHR ''-'')) ls) = ls" "new_lines (map (mk_op (CHR ''-'')) ls) = []"
  "kept (map (mk_op (CHR ''-'')) ls) = []"
  "old_lines (map (mk_op (CHR ''+'')) ls) = []" "new_lines (map (mk_op (CHR ''+'')) ls) = ls"
  "kept (map (mk_op (CHR ''+'')) ls) = []"
  by (induction ls) simp_all

lemma lcs_walk_sides:
  "old_lines (lcs_walk a b t i j) = drop i a \<and> new_lines (lcs_walk a b t i j) = drop j b"
proof (induction a b t i j rule: lcs_walk.induct)
  case (1 a b t i j)
  show ?case
  proof (cases "i < length a \<and> j < length b")
    case True
    then have "drop i a = a ! i # drop (Suc i) a" "drop j b = b ! j # drop (Suc j) b" by (simp_all add: Cons_nth_drop_Suc)
    then show ?thesis using 1 True by (subst (1 2) lcs_walk.simps) auto
  next
    case False
    then show ?thesis by (subst (1 2) lcs_walk.simps) auto
  qed
qed

lemma common_prefix_le: "common_prefix a b \<le> length a \<and> common_prefix a b \<le> length b"
  by (induction a b rule: common_prefix.induct) auto

lemma common_prefix_eq: "take (common_prefix a b) a = take (common_prefix a b) b"
  by (induction a b rule: common_prefix.induct) auto

text \<open>The three parts the texts are cut into.\<close>

lemma diff_parts:
  obtains pre mid_a mid_b suf where "a = pre @ mid_a @ suf" "b = pre @ mid_b @ suf"
    "diffOps a b = map (mk_op (CHR '' '')) pre @ lcsOps mid_a mid_b @ map (mk_op (CHR '' '')) suf"
proof -
  define p where "p = common_prefix a b"
  define s where "s = common_suffix p a b"
  have p: "p \<le> length a" "p \<le> length b" "take p a = take p b"
    using common_prefix_le [of a b] common_prefix_eq [of a b] unfolding p_def by auto
  have s: "s \<le> length a - p" "s \<le> length b - p"
    using common_prefix_le [of "rev (drop p a)" "rev (drop p b)"] unfolding s_def common_suffix_def by auto
  have "take s (rev (drop p a)) = take s (rev (drop p b))"
    using common_prefix_eq unfolding s_def common_suffix_def .
  then have suf: "drop (length a - s) a = drop (length b - s) b"
    using p s by (simp add: take_rev)
  have parts: "x = take p x @ drop p (take (length x - s) x) @ drop (length x - s) x"
    if "p \<le> length x" "s \<le> length x - p" for x :: "string list"
  proof -
    have "take p x = take p (take (length x - s) x)" using that by (simp add: min_absorb1)
    then have "take p x @ drop p (take (length x - s) x) = take (length x - s) x"
      by (metis append_take_drop_id)
    then show ?thesis by (metis append.assoc append_take_drop_id)
  qed
  show thesis
    by (rule that [of "take p a" "drop p (take (length a - s) a)" "drop (length a - s) a" "drop p (take (length b - s) b)"])
      (use parts [of a] parts [of b] p s suf in \<open>auto simp: diffOps_def Let_def p_def [symmetric] s_def [symmetric]\<close>)
qed

lemma diff_sides: "old_lines (diffOps a b) = a \<and> new_lines (diffOps a b) = b"
  by (rule diff_parts [of a b]) (simp add: lcsOps_def lcs_walk_sides)

section \<open>No script keeps more lines\<close>

fun lcs_len :: "string list \<Rightarrow> string list \<Rightarrow> nat" where
  "lcs_len [] b = 0"
| "lcs_len (x # xs) [] = 0"
| "lcs_len (x # xs) (y # ys) =
     (if x = y then lcs_len xs ys + 1 else max (lcs_len xs (y # ys)) (lcs_len (x # xs) ys))"

lemma lcs_len_Nil2 [simp]: "lcs_len a [] = 0"
  by (cases a) simp_all

lemma lcs_row_correct:
  assumes "length below = length b + 1" "\<forall>j \<le> length b. below ! j = lcs_len xs (drop j b)"
  shows "length (lcs_row x b below) = length b + 1 \<and>
    (\<forall>j \<le> length b. lcs_row x b below ! j = lcs_len (x # xs) (drop j b))"
  using assms
proof (induction b arbitrary: below)
  case (Cons y ys)
  obtain v w rest where below: "below = v # w # rest" using Cons.prems(1) by (cases below; cases "tl below") auto
  have v: "v = lcs_len xs (y # ys)" and "w = lcs_len xs ys"
    using Cons.prems(2) below by (metis drop0 nth_Cons_0 zero_le, metis One_nat_def Suc_le_mono drop0 drop_Suc_Cons length_Cons nth_Cons_0 nth_Cons_Suc zero_le)
  have IH: "length (lcs_row x ys (w # rest)) = length ys + 1 \<and>
      (\<forall>j \<le> length ys. lcs_row x ys (w # rest) ! j = lcs_len (x # xs) (drop j ys))"
    using Cons.prems below by (intro Cons.IH) auto
  then have "hd (lcs_row x ys (w # rest)) = lcs_len (x # xs) ys" by (cases "lcs_row x ys (w # rest)") auto
  then show ?case using IH v \<open>w = _\<close> below by (auto simp: Let_def nth_Cons split: nat.splits)
qed simp

lemma lcs_table_correct:
  "length (lcs_table a b) = length a + 1 \<and> (\<forall>i \<le> length a. length (lcs_table a b ! i) = length b + 1 \<and>
     (\<forall>j \<le> length b. lcs_table a b ! i ! j = lcs_len (drop i a) (drop j b)))"
proof (induction a)
  case (Cons x xs)
  obtain r t where t: "lcs_table xs b = r # t" using Cons by (cases "lcs_table xs b") auto
  have "length r = length b + 1" "\<forall>j \<le> length b. r ! j = lcs_len xs (drop j b)"
    using Cons t by (metis drop0 nth_Cons_0 zero_le)+
  from lcs_row_correct [OF this, of x] show ?case using Cons t
    by (auto simp: Let_def nth_Cons split: nat.splits)
qed (auto simp: nth_Cons split: nat.splits)

lemma kept_walk:
  assumes "t = lcs_table a b" "i \<le> length a" "j \<le> length b"
  shows "length (kept (lcs_walk a b t i j)) = lcs_len (drop i a) (drop j b)"
  using assms
proof (induction a b t i j rule: lcs_walk.induct)
  case (1 a b t i j)
  show ?case
  proof (cases "i < length a \<and> j < length b")
    case True
    then have d: "drop i a = a ! i # drop (Suc i) a" "drop j b = b ! j # drop (Suc j) b"
      by (simp_all add: Cons_nth_drop_Suc)
    have "t ! i ! (j + 1) = lcs_len (drop i a) (drop (Suc j) b)" "t ! (i + 1) ! j = lcs_len (drop (Suc i) a) (drop j b)"
      using lcs_table_correct [of a b] True 1(4) by auto
    then show ?thesis using 1 True by (subst lcs_walk.simps) (auto simp: d)
  next
    case False
    then show ?thesis using 1(5,6) by (subst lcs_walk.simps) auto
  qed
qed

lemma subseq_tl: "subseq c (x # xs) \<Longrightarrow> subseq (tl c) xs"
  by (cases c) (auto split: if_splits intro: subseq_Cons')

lemma common_subseq_le: "subseq c a \<Longrightarrow> subseq c b \<Longrightarrow> length c \<le> lcs_len a b"
proof (induction a b arbitrary: c rule: lcs_len.induct)
  case (3 x xs y ys)
  show ?case
  proof (cases "x = y")
    case True
    have "subseq (tl c) xs" "subseq (tl c) ys" using 3(4,5) by (simp_all add: subseq_tl)
    then show ?thesis using 3(1) [of "tl c"] True by auto
  next
    case False
    then have "subseq c xs \<or> subseq c ys" using 3(4,5) by (cases c) (auto split: if_splits)
    then show ?thesis using 3 False by (auto simp: le_max_iff_disj)
  qed
qed auto

lemma kept_subseq: "subseq (kept ops) (old_lines ops)" "subseq (kept ops) (new_lines ops)"
  by (induction ops) (auto simp: kept_def old_lines_def new_lines_def is_change_def)

lemma lcsOps_kept: "length (kept (lcsOps a b)) = lcs_len a b"
  unfolding lcsOps_def by (simp add: kept_walk)

lemma subseq_butlast: "subseq c (xs @ [z]) \<Longrightarrow> subseq (butlast c) xs"
proof (induction xs arbitrary: c)
  case Nil
  then show ?case by (cases c) (auto split: if_splits)
next
  case (Cons x xs)
  show ?case
  proof (cases c)
    case (Cons d ds)
    then have "if d = x then subseq ds (xs @ [z]) else subseq (d # ds) (xs @ [z])"
      using Cons.prems by simp
    then show ?thesis using Cons Cons.IH [of ds] Cons.IH [of c] by (cases "d = x") auto
  qed simp
qed

lemma lcs_len_snoc: "lcs_len (xs @ [z]) (ys @ [z]) \<le> lcs_len xs ys + 1"
proof -
  let ?c = "kept (lcsOps (xs @ [z]) (ys @ [z]))"
  have "subseq ?c (xs @ [z])" "subseq ?c (ys @ [z])"
    using kept_subseq [of "lcsOps (xs @ [z]) (ys @ [z])"] by (simp_all add: lcsOps_def lcs_walk_sides)
  from common_subseq_le [OF this [THEN subseq_butlast]] show ?thesis by (simp add: lcsOps_kept)
qed

lemma lcs_len_suffix: "lcs_len (xs @ s) (ys @ s) \<le> lcs_len xs ys + length s"
proof (induction s rule: rev_induct)
  case (snoc z s)
  then show ?case using lcs_len_snoc [of "xs @ s" z "ys @ s"] by simp
qed simp

lemma lcs_len_prefix: "lcs_len (p @ xs) (p @ ys) = length p + lcs_len xs ys"
  by (induction p) simp_all

lemma kept_diff: "lcs_len a b \<le> length (kept (diffOps a b))"
proof (rule diff_parts [of a b])
  fix pre ma mb suf assume "a = pre @ ma @ suf" "b = pre @ mb @ suf"
    "diffOps a b = map (mk_op (CHR '' '')) pre @ lcsOps ma mb @ map (mk_op (CHR '' '')) suf"
  then show ?thesis using lcs_len_suffix [of ma suf mb] by (simp add: lcs_len_prefix lcsOps_kept)
qed

text \<open>
  C20: The edit script is right and as short as possible: dropping its additions gives the first text,
  dropping its deletions the second, and no common subsequence of the two texts is longer than the lines
  it keeps, although the common prefix and suffix are cut off before the table is filled.
\<close>

theorem diff_script_is_minimal:
  assumes "subseq c a" "subseq c b"
  shows "old_lines (diffOps a b) = a \<and> new_lines (diffOps a b) = b \<and> length c \<le> length (kept (diffOps a b))"
  using diff_sides common_subseq_le [OF assms] kept_diff le_trans by blast

theorem diff_script_is_minimal_witness:
  "subseq [''b''] [''a'', ''b''] \<and> subseq [''b''] [''b'', ''c''] \<and>
   1 \<le> length (kept (diffOps [''a'', ''b''] [''b'', ''c'']))"
  using diff_script_is_minimal [of "[''b'']" "[''a'', ''b'']" "[''b'', ''c'']"] by simp

section \<open>The hunks are a patch\<close>

text \<open>
  What \<open>patch(1)\<close> does with unified hunks, strictly: it goes to the line a hunk names, insists that the
  old lines are there and puts the new ones in their place.
\<close>

fun patch :: "nat \<Rightarrow> hunk list \<Rightarrow> string list \<Rightarrow> string list option" where
  "patch pos [] a = Some (drop pos a)"
| "patch pos (h # hs) a =
     (let at = (if h_aCount h = 0 then h_aStart h else h_aStart h - 1) in
      if pos \<le> at \<and> take (h_aCount h) (drop at a) = old_lines (h_ops h) then
        map_option (\<lambda>r. take (at - pos) (drop pos a) @ new_lines (h_ops h) @ r) (patch (at + h_aCount h) hs a)
      else None)"

lemma consumed_nth: "i \<le> length xs \<Longrightarrow> consumed k n xs ! i = n + length (filter (\<lambda>x. kind x \<noteq> k) (take i xs))"
  by (induction k n xs arbitrary: i rule: consumed.induct) (auto simp: nth_Cons split: nat.splits)

text \<open>Ranges that cover every change from position \<open>k\<close> on.\<close>

fun covers :: "diff_op list \<Rightarrow> nat \<Rightarrow> (nat \<times> nat) list \<Rightarrow> bool" where
  "covers ops k [] \<longleftrightarrow> list_all (\<lambda>x. \<not> is_change x) (drop k ops)"
| "covers ops k ((s, e) # rs) \<longleftrightarrow> k \<le> s \<and> s \<le> e \<and> e < length ops \<and>
     list_all (\<lambda>x. \<not> is_change x) (drop k (take s ops)) \<and> covers ops (e + 1) rs"

lemma unchanged_sides: "list_all (\<lambda>x. \<not> is_change x) xs \<Longrightarrow> old_lines xs = new_lines xs"
  by (induction xs) (auto simp: old_lines_def new_lines_def is_change_def)

lemma mk_hunk_at:
  assumes "s \<le> e" "e < length ops"
  shows "(if h_aCount (mk_hunk ops (s, e)) = 0 then h_aStart (mk_hunk ops (s, e)) else h_aStart (mk_hunk ops (s, e)) - 1)
      = length (old_lines (take s ops))"
    and "h_aCount (mk_hunk ops (s, e)) = length (old_lines (drop s (take (e + 1) ops)))"
    and "h_bCount (mk_hunk ops (s, e)) = length (new_lines (drop s (take (e + 1) ops)))"
proof -
  have "take (e + 1) ops = take s ops @ drop s (take (e + 1) ops)"
    using assms by (metis append_take_drop_id min.absorb1 take_take trans_le_add1)
  then have split: "length (filter P (take (e + 1) ops)) = length (filter P (take s ops)) + length (filter P (drop s (take (e + 1) ops)))" for P
    by (metis filter_append length_append)
  show "(if h_aCount (mk_hunk ops (s, e)) = 0 then h_aStart (mk_hunk ops (s, e)) else h_aStart (mk_hunk ops (s, e)) - 1)
      = length (old_lines (take s ops))"
    and "h_aCount (mk_hunk ops (s, e)) = length (old_lines (drop s (take (e + 1) ops)))"
    and "h_bCount (mk_hunk ops (s, e)) = length (new_lines (drop s (take (e + 1) ops)))"
    using assms split [of "\<lambda>x. kind x \<noteq> CHR ''+''"] split [of "\<lambda>x. kind x \<noteq> CHR ''-''"]
    by (simp_all add: mk_hunk_def Let_def consumed_nth old_lines_def new_lines_def)
qed

lemma patch_covers:
  "covers ops k rs \<Longrightarrow> k \<le> length ops \<Longrightarrow>
   patch (length (old_lines (take k ops))) (map (mk_hunk ops) rs) (old_lines ops) = Some (new_lines (drop k ops))"
proof (induction rs arbitrary: k)
  case Nil
  have "old_lines ops = old_lines (take k ops) @ old_lines (drop k ops)"
    by (metis append_take_drop_id sides_append(1))
  then show ?case using Nil unchanged_sides by simp
next
  case (Cons r rs)
  obtain s e where r: "r = (s, e)" by (cases r)
  define G where "G = drop k (take s ops)"
  define B where "B = drop s (take (e + 1) ops)"
  define D where "D = drop (e + 1) ops"
  define old where "old = old_lines ops"
  have c: "k \<le> s" "s \<le> e" "e < length ops" "old_lines G = new_lines G" "covers ops (e + 1) rs"
    using Cons.prems(1) r unchanged_sides by (auto simp: G_def)
  have ts: "take s ops = take k ops @ G"
    using c(1) unfolding G_def by (metis append_take_drop_id min.absorb1 take_take)
  have te: "take (e + 1) ops = take k ops @ G @ B"
    using c(2) ts unfolding B_def by (metis append.assoc append_take_drop_id min.absorb1 take_take trans_le_add1)
  have all: "ops = take k ops @ G @ B @ D"
    by (metis append.assoc append_take_drop_id te D_def)
  then have rest: "drop k ops = G @ B @ D" by (metis append_take_drop_id same_append_eq)
  have "old = old_lines (take k ops) @ old_lines G @ old_lines B @ old_lines D"
    using arg_cong [OF all, of old_lines] by (simp add: old_def)
  then have parts: "take (length (old_lines G)) (drop (length (old_lines (take k ops))) old) = old_lines G"
      "take (length (old_lines B)) (drop (length (old_lines (take k ops)) + length (old_lines G)) old) = old_lines B"
    by simp_all
  have "patch (length (old_lines (take k ops)) + length (old_lines G) + length (old_lines B)) (map (mk_hunk ops) rs) old =
      Some (new_lines D)"
    using Cons.IH [OF c(5)] c(3) te by (simp add: old_def D_def add.assoc)
  moreover have "h_ops (mk_hunk ops (s, e)) = B" by (simp add: mk_hunk_def Let_def B_def)
  moreover note mk_hunk_at(1,2) [OF c(2,3), unfolded ts, folded B_def]
  ultimately show ?case
    using c(4) parts unfolding old_def [symmetric] rest by (simp add: r Let_def)
qed

lemma sorted_le_last: "sorted_wrt (<) xs \<Longrightarrow> x \<in> set xs \<Longrightarrow> x \<le> last xs" for x :: nat
  by (induction xs) (auto simp: less_imp_le)

lemma last_of_group_covers:
  assumes "sorted_wrt (<) (c # cs)"
  shows "\<exists>g. cs = g @ snd (last_of_group c cs) \<and> fst (last_of_group c cs) = last (c # g) \<and>
    (case snd (last_of_group c cs) of [] \<Rightarrow> True | y # _ \<Rightarrow> fst (last_of_group c cs) + 2 * contextLines < y)"
  using assms
proof (induction cs arbitrary: c)
  case (Cons y ys)
  show ?case
  proof (cases "y - c \<le> 2 * contextLines")
    case True
    from Cons.IH [of y] Cons.prems obtain g where "ys = g @ snd (last_of_group y ys)" "fst (last_of_group y ys) = last (y # g)"
      "case snd (last_of_group y ys) of [] \<Rightarrow> True | z # _ \<Rightarrow> fst (last_of_group y ys) + 2 * contextLines < z" by auto
    moreover have eq: "last_of_group c (y # ys) = last_of_group y ys" using True by simp
    ultimately show ?thesis unfolding eq by (intro exI [of _ "y # g"]) auto
  qed auto
qed simp

lemma unchanged_between:
  assumes "\<And>i. k \<le> i \<Longrightarrow> i < s \<Longrightarrow> i < length ops \<Longrightarrow> \<not> is_change (ops ! i)"
  shows "list_all (\<lambda>x. \<not> is_change x) (drop k (take s ops))"
proof -
  have "\<not> is_change (drop k (take s ops) ! n)" if "n < min (length ops) s - k" for n
  proof -
    have "k + n < length (take s ops)" using that by (simp add: min_def split: if_splits)
    then show ?thesis using assms [of "k + n"] by (simp add: nth_drop)
  qed
  then show ?thesis by (simp add: list_all_length)
qed

lemma hunk_ranges_cover:
  assumes "sorted_wrt (<) cs" "set cs = {i. k \<le> i \<and> i < length ops \<and> is_change (ops ! i)}"
    and "case cs of [] \<Rightarrow> True | c # _ \<Rightarrow> k \<le> c - contextLines"
  shows "covers ops k (hunk_ranges (length ops) cs)"
  using assms
proof (induction "length ops" cs arbitrary: k rule: hunk_ranges.induct)
  case 1
  then show ?case using unchanged_between [of k "length ops" ops] by auto
next
  case (2 c cs)
  let ?l = "fst (last_of_group c cs)" and ?rest = "snd (last_of_group c cs)"
  let ?e = "min (length ops - 1) (?l + contextLines)"
  obtain g where g: "cs = g @ ?rest" "?l = last (c # g)"
    "case ?rest of [] \<Rightarrow> True | y # _ \<Rightarrow> ?l + 2 * contextLines < y"
    using last_of_group_covers [OF 2(2)] by blast
  have srt: "sorted_wrt (<) ((c # g) @ ?rest)" using 2(2) g(1) by (metis append_Cons)
  have l: "?l \<in> set (c # g)" "\<And>x. x \<in> set (c # g) \<Longrightarrow> x \<le> ?l"
    using sorted_le_last [of "c # g"] srt last_in_set [of "c # g"] unfolding g(2) sorted_wrt_append by (auto simp del: last.simps)
  have cs: "set (c # g) \<union> set ?rest = {i. k \<le> i \<and> i < length ops \<and> is_change (ops ! i)}"
    using 2(3) g(1) by (metis append_Cons set_append)
  have ln: "?l < length ops" and cn: "c < length ops" using l(1) cs by auto
  have far: "?l + 2 * contextLines < x" if "x \<in> set ?rest" for x
    using g(3) srt that by (cases ?rest) (auto simp: sorted_wrt_append)
  have rest: "set ?rest = {i. ?e + 1 \<le> i \<and> i < length ops \<and> is_change (ops ! i)}"
  proof (intro equalityI subsetI CollectI)
    fix x assume x: "x \<in> set ?rest"
    then have "x \<in> {i. k \<le> i \<and> i < length ops \<and> is_change (ops ! i)}" unfolding cs [symmetric] by simp
    moreover have "?l + 2 * contextLines < x" using far x .
    ultimately show "?e + 1 \<le> x \<and> x < length ops \<and> is_change (ops ! x)"
      by (simp add: contextLines_def)
  next
    fix x assume x: "x \<in> {i. ?e + 1 \<le> i \<and> i < length ops \<and> is_change (ops ! i)}"
    then have "?l < x" using ln by auto
    moreover have "k \<le> ?l" using l(1) cs by auto
    ultimately have "x \<in> set (c # g) \<union> set ?rest" using x unfolding cs by auto
    then show "x \<in> set ?rest" using l(2) [of x] \<open>?l < x\<close> by auto
  qed
  have "case ?rest of [] \<Rightarrow> True | y # _ \<Rightarrow> ?e + 1 \<le> y - contextLines"
    using g(3) by (auto simp: contextLines_def split: list.splits)
  then have "covers ops (?e + 1) (hunk_ranges (length ops) ?rest)"
    using srt by (intro 2(1) [OF refl _ rest]) (simp_all add: sorted_wrt_append)
  moreover have "list_all (\<lambda>x. \<not> is_change x) (drop k (take (c - contextLines) ops))"
  proof (rule unchanged_between)
    fix i assume "k \<le> i" "i < c - contextLines" "i < length ops"
    then have "i \<notin> set (c # cs)" using 2(2) by auto
    then show "\<not> is_change (ops ! i)" using 2(3) \<open>k \<le> i\<close> \<open>i < length ops\<close> by auto
  qed
  moreover have "c \<le> ?l" using l(2) by simp
  ultimately show ?case using 2(4) ln cn by (auto simp: Let_def)
qed

lemma patch_hunks: "patch 0 (hunks ops) (old_lines ops) = Some (new_lines ops)"
proof -
  have "covers ops 0 (hunk_ranges (length ops) (change_indices ops))"
    by (rule hunk_ranges_cover) (auto simp: change_indices_def sorted_wrt_filter split: list.splits)
  from patch_covers [OF this] show ?thesis by (simp add: hunks_def)
qed

text \<open>
  C21: The hunks printed by a diff are a correct patch: applied to the first text, each at the line its
  header names and over exactly the old lines it shows, they give the second text.
\<close>

theorem hunks_are_a_patch:
  "patch 0 (hunks (diffOps (splitLines a) (splitLines b))) (splitLines a) = Some (splitLines b)"
  using patch_hunks [of "diffOps (splitLines a) (splitLines b)"] by (simp add: diff_sides)

lemma renderHunks_nonempty: "list_ex is_change ops \<Longrightarrow> renderHunks ops \<noteq> []"
proof -
  assume "list_ex is_change ops"
  then obtain i where "i \<in> set (change_indices ops)"
    by (auto simp: change_indices_def list_ex_length)
  then obtain c cs where "change_indices ops = c # cs" by (cases "change_indices ops") auto
  then show ?thesis by (simp add: renderHunks_def hunks_def render_hunk_def Let_def)
qed

text \<open>
  \<open>Unified\<close> prints nothing exactly when the two texts have the same lines, which ignores a difference
  of one trailing newline.
\<close>

theorem unified_empty_iff_same_lines: "Unified a b = [] \<longleftrightarrow> splitLines a = splitLines b"
proof
  assume u: "Unified a b = []"
  let ?ops = "diffOps (splitLines a) (splitLines b)"
  have "\<not> list_ex is_change ?ops" using u renderHunks_nonempty by (auto simp: Unified_def Let_def split: if_splits)
  then have "old_lines ?ops = new_lines ?ops" by (intro unchanged_sides) (simp add: list_all_iff list_ex_iff)
  then show "splitLines a = splitLines b" by (simp add: diff_sides)
next
  assume eq: "splitLines a = splitLines b"
  have "common_prefix x x = length x" for x by (induction x) auto
  then have "\<not> list_ex is_change (diffOps (splitLines a) (splitLines a))"
    by (simp add: diffOps_def common_suffix_def lcsOps_def lcs_walk.simps list_ex_iff is_change_def mk_op_def)
  then show "Unified a b = []" by (simp add: Unified_def eq)
qed

end
