(* ===== verification/Engine_Diff.thy ===== *)
theory Engine_Diff
  imports Engine_Sources Diffutil "HOL-Library.AList"
begin

text \<open>
  Package \<open>internal/engine\<close>, file \<open>diff.go\<close>: comparing a branch with a throwaway clone of its own base.
  JSON decoding and encoding of sampled rows are parameters.
\<close>

section \<open>Data\<close>

text \<open>A decoded row: its column names and values. \<open>json_lib\<close> is what is used of \<open>encoding/json\<close>.\<close>

type_synonym 'v row = "(string \<times> 'v) list"

record 'v json_lib =
  unmarshal_row :: "string \<Rightarrow> err + 'v row"
  marshal :: "'v option \<Rightarrow> string"

record 'v table_delta =
  td_Table :: string
  td_BaseRows :: int
  td_BranchRows :: int
  td_Delta :: int
  td_SampleRows :: "'v row list"

record 'v diff_result =
  SchemaDiff :: string
  Tables :: "'v table_delta list"

definition sq :: "string \<Rightarrow> string" where
  "sq x = [squote] @ x @ [squote]"

definition rowEstimateSQL :: string where
  "rowEstimateSQL = ''SELECT relname || '' @ sq ''|'' @ '' || reltuples::bigint FROM pg_class c JOIN pg_namespace n ON n.oid=c.relnamespace WHERE c.relkind='' @
     sq ''r'' @ '' AND n.nspname NOT IN ('' @ sq ''pg_catalog'' @ '','' @ sq ''information_schema'' @ '') ORDER BY relname''"

definition defaultSampleRows :: int where "defaultSampleRows = 20"

text \<open>The only option sets the sample cap.\<close>

type_synonym diff_options = int

definition WithDataSample :: "int \<Rightarrow> diff_options \<Rightarrow> diff_options" where
  "WithDataSample n sample = (if n \<le> 0 then defaultSampleRows else n)"

section \<open>Statements inside an instance\<close>

definition quoteLiteral :: "string \<Rightarrow> string" where
  "quoteLiteral s = [squote] @ replace_char s squote [squote, squote] @ [squote]"

definition quoteIdent :: "string \<Rightarrow> string" where
  "quoteIdent s = [dquote] @ replace_char s dquote [dquote, dquote] @ [dquote]"

definition or_postgres :: "string \<Rightarrow> string" where
  "or_postgres s = (if s = '''' then ''postgres'' else s)"

definition psqlOutput :: "ctx \<Rightarrow> string \<Rightarrow> source \<Rightarrow> string \<Rightarrow> ('z sys_scheme, string) comp" where
  "psqlOutput c cid src stmt =
     drv_ExecOutput c cid [''psql'', ''-tA'', ''-v'', ''ON_ERROR_STOP=1'', ''-U'', or_postgres (src_ConnUser src),
       ''-d'', or_postgres (src_ConnDB src), ''-h'', ''/var/run/postgresql'', ''-c'', stmt]"

definition pgDumpSchemaCmd :: "source \<Rightarrow> string list" where
  "pgDumpSchemaCmd src = [''pg_dump'', ''-U'', or_postgres (src_ConnUser src), ''-h'', ''/var/run/postgresql'',
     ''--schema-only'', ''--no-owner'', ''--no-acl'', or_postgres (src_ConnDB src)]"

definition stripDumpNoise :: "string \<Rightarrow> string" where
  "stripDumpNoise dump = strings_join
     (filter (\<lambda>ln. \<not> (has_prefix ln (bslash # ''restrict '') \<or> has_prefix ln (bslash # ''unrestrict '')))
       (strings_split dump (CHR 0x0A))) newline"

text \<open>\<open>strings.TrimSpace\<close> (white space of ASCII) and \<open>strings.Cut\<close> at a byte\<close>

definition strings_TrimSpace :: "string \<Rightarrow> string" where
  "strings_TrimSpace s = rev (dropWhile is_space (rev (dropWhile is_space s)))"

definition strings_Cut :: "string \<Rightarrow> char \<Rightarrow> (string \<times> string) option" where
  "strings_Cut s k = (if k \<in> set s then Some (takeWhile (\<lambda>x. x \<noteq> k) s, tl (dropWhile (\<lambda>x. x \<noteq> k) s)) else None)"

text \<open>The error of \<open>strconv.ParseInt\<close>\<close>

definition parse_int_err :: "string \<Rightarrow> err" where
  "parse_int_err s = Msg (''strconv.ParseInt: parsing '' @ go_quote s @ '': '' @
     (let ds = (case s of [] \<Rightarrow> [] | x # xs \<Rightarrow> if x = CHR ''+'' \<or> x = CHR ''-'' then xs else s)
      in if ds \<noteq> [] \<and> digits_value 0 ds \<noteq> None then ''value out of range'' else ''invalid syntax''))"

fun parse_estimates :: "string list \<Rightarrow> (string \<times> int) list \<Rightarrow> err + (string \<times> int) list" where
  "parse_estimates [] rows = Inr rows"
| "parse_estimates (l # ls) rows =
     (let line = strings_TrimSpace l in
      if line = '''' then parse_estimates ls rows
      else case strings_Cut line (CHR ''|'') of
        None \<Rightarrow> Inl (Msg (''unparseable row estimate line '' @ go_quote line))
      | Some (name, cnt) \<Rightarrow> (case ParseInt64 cnt of
          None \<Rightarrow> Inl (Wrap (''unparseable row estimate line '' @ go_quote line @ '': '') (parse_int_err cnt) [])
        | Some n \<Rightarrow> parse_estimates ls (AList.update name (max n 0) rows)))"

definition lift_sum :: "err + 'a \<Rightarrow> ('s, 'a) comp" where
  "lift_sum r = (case r of Inl e \<Rightarrow> raise e | Inr x \<Rightarrow> ok x)"

definition rowEstimates :: "ctx \<Rightarrow> string \<Rightarrow> source \<Rightarrow> ('z sys_scheme, (string \<times> int) list) comp" where
  "rowEstimates c cid src =
     bnd (psqlOutput c cid src rowEstimateSQL) (\<lambda>out.
     lift_sum (parse_estimates (strings_split out (CHR 0x0A)) []))"

definition estimate :: "(string \<times> int) list \<Rightarrow> string \<Rightarrow> int" where
  "estimate rows n = (case map_of rows n of None \<Rightarrow> 0 | Some k \<Rightarrow> k)"

definition tableDeltas :: "(string \<times> int) list \<Rightarrow> (string \<times> int) list \<Rightarrow> 'v table_delta list" where
  "tableDeltas base branch =
     map (\<lambda>n. \<lparr>td_Table = n, td_BaseRows = estimate base n, td_BranchRows = estimate branch n,
       td_Delta = estimate branch n - estimate base n, td_SampleRows = []\<rparr>)
     (sorted_list_of_set (fst ` set base \<union> fst ` set branch))"

section \<open>Sampling\<close>

definition rowKey :: "'v json_lib \<Rightarrow> 'v row \<Rightarrow> string list \<Rightarrow> string" where
  "rowKey J row pk = strings_join (map (\<lambda>col. marshal J (map_of row col)) pk) [CHR 0x00]"

definition pkColumnsSQL :: "string \<Rightarrow> string" where
  "pkColumnsSQL lit = ''SELECT a.attname FROM pg_index i JOIN pg_class c ON c.oid=i.indrelid JOIN pg_namespace n ON n.oid=c.relnamespace JOIN pg_attribute a ON a.attrelid=c.oid AND a.attnum=ANY(i.indkey) WHERE i.indisprimary AND c.relname='' @
     lit @ '' AND n.nspname NOT IN ('' @ sq ''pg_catalog'' @ '','' @ sq ''information_schema'' @ '') ORDER BY array_position(i.indkey, a.attnum)''"

definition primaryKeyColumns :: "ctx \<Rightarrow> string \<Rightarrow> source \<Rightarrow> string \<Rightarrow> ('z sys_scheme, string list) comp" where
  "primaryKeyColumns c cid src table =
     bnd (psqlOutput c cid src (pkColumnsSQL (quoteLiteral table))) (\<lambda>out.
     ok (filter (\<lambda>l. l \<noteq> '''') (map strings_TrimSpace (strings_split out (CHR 0x0A)))))"

fun decode_rows :: "'v json_lib \<Rightarrow> string list \<Rightarrow> err + 'v row list" where
  "decode_rows J [] = Inr []"
| "decode_rows J (l # ls) =
     (case unmarshal_row J l of
        Inl e \<Rightarrow> Inl (Wrap (''decode sample row '' @ go_quote l @ '': '') e [])
      | Inr r \<Rightarrow> (case decode_rows J ls of Inl e \<Rightarrow> Inl e | Inr rs \<Rightarrow> Inr (r # rs)))"

definition sample_stmt :: "string \<Rightarrow> string list \<Rightarrow> int \<Rightarrow> string" where
  "sample_stmt table pk capN = ''SELECT to_jsonb(t.*) FROM '' @ quoteIdent table @ '' t ORDER BY '' @
     strings_join (map quoteIdent pk) '', '' @ '' LIMIT '' @ int_str capN"

definition sampleTableRows :: "'v json_lib \<Rightarrow> ctx \<Rightarrow> string \<Rightarrow> source \<Rightarrow> string \<Rightarrow> string list \<Rightarrow> int
    \<Rightarrow> ('z sys_scheme, 'v row list) comp" where
  "sampleTableRows J c cid src table pk capN =
     bnd (psqlOutput c cid src (sample_stmt table pk capN)) (\<lambda>out.
     lift_sum (decode_rows J (filter (\<lambda>l. l \<noteq> '''') (map strings_TrimSpace (strings_split out (CHR 0x0A))))))"

text \<open>The branch rows whose key is not among the base keys, cut at the cap.\<close>

definition only_on_branch :: "'v json_lib \<Rightarrow> string list \<Rightarrow> int \<Rightarrow> 'v row list \<Rightarrow> 'v row list \<Rightarrow> 'v row list" where
  "only_on_branch J pk capN branchRows baseRows =
     take (nat capN) (filter (\<lambda>r. rowKey J r pk \<notin> (\<lambda>x. rowKey J x pk) ` set baseRows) branchRows)"

definition sample_table :: "'v json_lib \<Rightarrow> ctx \<Rightarrow> string \<Rightarrow> string \<Rightarrow> source \<Rightarrow> int \<Rightarrow> 'v table_delta
    \<Rightarrow> ('z sys_scheme, 'v table_delta) comp" where
  "sample_table J c branchCID baseCID src capN td =
     (if td_BranchRows td \<le> td_BaseRows td then ok td
      else bnd (primaryKeyColumns c branchCID src (td_Table td)) (\<lambda>pk.
        if pk = [] then ok td
        else bnd (sampleTableRows J c branchCID src (td_Table td) pk capN) (\<lambda>branchRows.
          bnd (sampleTableRows J c baseCID src (td_Table td) pk capN) (\<lambda>baseRows.
          ok (td\<lparr>td_SampleRows := only_on_branch J pk capN branchRows baseRows\<rparr>)))))"

fun sampleNewRows :: "'v json_lib \<Rightarrow> ctx \<Rightarrow> string \<Rightarrow> string \<Rightarrow> source \<Rightarrow> int \<Rightarrow> 'v table_delta list
    \<Rightarrow> ('z sys_scheme, 'v table_delta list) comp" where
  "sampleNewRows J c branchCID baseCID src capN [] = ok []"
| "sampleNewRows J c branchCID baseCID src capN (td # tds) =
     bnd (sample_table J c branchCID baseCID src capN td) (\<lambda>t.
     bnd (sampleNewRows J c branchCID baseCID src capN tds) (\<lambda>ts. ok (t # ts)))"

section \<open>The diff\<close>

text \<open>\<open>defer\<close> of a step that cannot fail: it runs on every path, then the result is returned.\<close>

definition deferred :: "('s, unit) comp \<Rightarrow> ('s, 'a) comp \<Rightarrow> ('s, 'a) comp" where
  "deferred fin m = bnd (attempt m) (\<lambda>r. bnd fin (\<lambda>_. lift_sum r))"

definition diff_wrap :: "string \<Rightarrow> string \<Rightarrow> ('s, 'a) comp \<Rightarrow> ('s, 'a) comp" where
  "diff_wrap name what m = wrapping (''diff '' @ go_quote name @ '': '' @ what) m"

definition compare :: "'v json_lib \<Rightarrow> ctx \<Rightarrow> string \<Rightarrow> branch \<Rightarrow> source \<Rightarrow> diff_options \<Rightarrow> branch
    \<Rightarrow> ('z sys_scheme, 'v diff_result) comp" where
  "compare J c name b src sample twRow =
     bnd (diff_wrap name ''dump base schema: '' (drv_ExecOutput c (br_ContainerID twRow) (pgDumpSchemaCmd src))) (\<lambda>baseDump.
     bnd (diff_wrap name ''dump branch schema: '' (drv_ExecOutput c (br_ContainerID b) (pgDumpSchemaCmd src))) (\<lambda>branchDump.
     bnd (diff_wrap name ''base row estimates: '' (rowEstimates c (br_ContainerID twRow) src)) (\<lambda>baseRows.
     bnd (diff_wrap name ''branch row estimates: '' (rowEstimates c (br_ContainerID b) src)) (\<lambda>branchRows.
     let schema = Unified (stripDumpNoise baseDump) (stripDumpNoise branchDump);
         tds = tableDeltas baseRows branchRows
     in if 0 < sample then
          bnd (diff_wrap name ''sample rows: ''
            (sampleNewRows J c (br_ContainerID b) (br_ContainerID twRow) src sample tds)) (\<lambda>tds'.
          ok \<lparr>SchemaDiff = schema, Tables = tds'\<rparr>)
        else ok \<lparr>SchemaDiff = schema, Tables = tds\<rparr>))))"

definition throwaway :: "engine \<Rightarrow> branch \<Rightarrow> string \<Rightarrow> string \<Rightarrow> branch" where
  "throwaway e b twName expiresAt =
     (new_branch twName (br_SourceID b) (BranchLayerName (planner e) twName) (br_SourceVolume b) expiresAt [])
       \<lparr>br_BaseLayerID := br_BaseLayerID b\<rparr>"

definition DiffBranch :: "'v json_lib \<Rightarrow> engine \<Rightarrow> ctx \<Rightarrow> string \<Rightarrow> (diff_options \<Rightarrow> diff_options) list
    \<Rightarrow> ('z sys_scheme, 'v diff_result) comp" where
  "DiffBranch J e c name opts =
     (let sample = fold (\<lambda>f x. f x) opts 0 in
      bnd (GetBranchByName name) (\<lambda>b.
      if br_State b \<noteq> BranchReady then raise (not_ready ''branch '' name (branch_state_str (br_State b)))
      else
      bnd (GetSourceByID (br_SourceID b)) (\<lambda>src.
      bnd (rand_hex 3) (\<lambda>suffix.
      let twName = ''diff-'' @ suffix in
      bnd time_now (\<lambda>now.
      bnd (diff_wrap name [] (CreateBranchCtx c (throwaway e b twName (rfc3339 (now + 3600 * second))))) (\<lambda>tw.
      deferred (logCompensationErr ''cleanup'' (DestroyBranch e (WithoutCancel c) (br_Name tw)))
        (bnd (on_error (provision e c tw src) (\<lambda>er.
           bnd (logCompensationErr ''transition'' (TransitionBranchCtx c (br_ID tw) BranchFailed (err_msg er))) (\<lambda>_.
           raise (Wrap (''diff '' @ go_quote name @ '': provision base clone: '') er [])))) (\<lambda>_.
         bnd (GetBranchByName (br_Name tw)) (\<lambda>twRow.
         compare J c name b src sample twRow)))))))))"

lemma keeps_lift_sum [keeps_rules]: "keeps I (lift_sum r)"
  unfolding lift_sum_def by (intro keeps_rules)

lemma keeps_deferred [keeps_rules]: "keeps I fin \<Longrightarrow> keeps I m \<Longrightarrow> keeps I (deferred fin m)"
  unfolding deferred_def by (intro keeps_rules)

lemma keeps_diff_wrap [keeps_rules]: "keeps I m \<Longrightarrow> keeps I (diff_wrap n w m)"
  unfolding diff_wrap_def by (intro keeps_rules)

context engine_invariant
begin

lemma diff_steps_keep [keeps_rules]:
  "keeps I (psqlOutput c cid src stmt)" "keeps I (rowEstimates c cid src)" "keeps I (primaryKeyColumns c cid src t)"
  "keeps I (sampleTableRows J c cid src t pk n)" "keeps I (sample_table J c b1 b2 src n td)"
  unfolding psqlOutput_def rowEstimates_def primaryKeyColumns_def sampleTableRows_def sample_table_def
  by (intro keeps_rules)+

lemma sample_new_rows_keep [keeps_rules]: "keeps I (sampleNewRows J c b1 b2 src n tds)"
  by (induction tds) (auto intro!: keeps_rules)

lemma diff_keeps [keeps_rules]: "keeps I (compare J c n b src k tw)" "keeps I (DiffBranch J e c n opts)"
  unfolding compare_def DiffBranch_def Let_def by (intro keeps_rules reads_keep)+

end

section \<open>Names inside SQL text\<close>

text \<open>
  How the SQL lexer reads a quoted literal or identifier: a doubled quote stands for one, a single one
  ends the token. The result is the content and the rest of the statement.
\<close>

fun read_token :: "char \<Rightarrow> string \<Rightarrow> string \<Rightarrow> (string \<times> string) option" where
  "read_token q acc [] = None"
| "read_token q acc (x # xs) =
     (if x \<noteq> q then read_token q (acc @ [x]) xs
      else case xs of
        [] \<Rightarrow> Some (acc, [])
      | y # ys \<Rightarrow> if y = q then read_token q (acc @ [q]) ys else Some (acc, xs))"

lemma read_token_replace:
  "y \<noteq> q \<Longrightarrow> read_token q acc (replace_char s q [q, q] @ q # y # r) = Some (acc @ s, y # r)"
  by (induction s arbitrary: acc) (auto simp: replace_char_def)

text \<open>
  A table or column name never breaks out of the statement it is put into: whatever characters it
  contains, the lexer reads the quoted form back as that name and goes on with the rest of the statement.
\<close>

theorem quoted_names_read_back:
  "read_token squote [] (tl (quoteLiteral s @ CHR '' '' # r)) = Some (s, CHR '' '' # r) \<and>
   read_token dquote [] (tl (quoteIdent s @ CHR '' '' # r)) = Some (s, CHR '' '' # r)"
  using read_token_replace [of "CHR '' ''" squote "[]" s r] read_token_replace [of "CHR '' ''" dquote "[]" s r]
  by (simp add: quoteLiteral_def quoteIdent_def squote_def dquote_def)

section \<open>What a sample shows\<close>

text \<open>What the join key relies on of \<open>json.Marshal\<close>: it is injective and its output has no zero byte.\<close>

definition json_ok :: "'v json_lib \<Rightarrow> bool" where
  "json_ok J \<longleftrightarrow> inj (marshal J) \<and> (\<forall>v. CHR 0x00 \<notin> set (marshal J v))"

lemma rowKey_eq_iff:
  assumes "json_ok J" "pk \<noteq> []"
  shows "rowKey J r pk = rowKey J x pk \<longleftrightarrow> (\<forall>col \<in> set pk. map_of r col = map_of x col)"
proof
  assume "rowKey J r pk = rowKey J x pk"
  then have "strings_split (rowKey J r pk) (CHR 0x00) = strings_split (rowKey J x pk) (CHR 0x00)" by simp
  then have "map (\<lambda>col. marshal J (map_of r col)) pk = map (\<lambda>col. marshal J (map_of x col)) pk"
    using assms unfolding rowKey_def by (simp add: strings_split_join json_ok_def)
  then show "\<forall>col \<in> set pk. map_of r col = map_of x col"
    using assms(1) by (auto simp: json_ok_def dest: injD)
next
  assume "\<forall>col \<in> set pk. map_of r col = map_of x col"
  then have "map (\<lambda>col. marshal J (map_of r col)) pk = map (\<lambda>col. marshal J (map_of x col)) pk" by simp
  then show "rowKey J r pk = rowKey J x pk" unfolding rowKey_def by (rule arg_cong)
qed

text \<open>
  A sample is bounded and compares rows by their primary key: it never has more rows than the cap, and
  it shows exactly those of the (at most cap) branch rows read whose key values no base row read has.
\<close>

theorem sample_compares_keys:
  assumes "json_ok J" "pk \<noteq> []" "length branchRows \<le> nat capN"
  shows "length (only_on_branch J pk capN branchRows baseRows) \<le> nat capN \<and>
    (r \<in> set (only_on_branch J pk capN branchRows baseRows) \<longleftrightarrow>
       r \<in> set branchRows \<and> \<not> (\<exists>x \<in> set baseRows. \<forall>col \<in> set pk. map_of r col = map_of x col))"
proof -
  have "length (filter P branchRows) \<le> nat capN" for P
    using assms(3) length_filter_le le_trans by blast
  then show ?thesis using rowKey_eq_iff [OF assms(1,2)] by (auto simp: only_on_branch_def)
qed

definition num_json :: "nat json_lib" where
  "num_json = \<lparr>unmarshal_row = (\<lambda>l. Inl (Msg l)), marshal = (\<lambda>v. case v of None \<Rightarrow> ''null'' | Some n \<Rightarrow> nat_str n)\<rparr>"

lemma num_json_ok: "json_ok num_json"
proof -
  have null: "nat_str n \<noteq> ''null''" for n using nat_str_digits [of n] by (auto simp: digit_chars_def)
  have "inj (marshal num_json)" using null null [symmetric] by (auto simp: num_json_def inj_def nat_str_inj split: option.splits)
  moreover have "CHR 0x00 \<notin> set (marshal num_json v)" for v
    using nat_str_digits by (cases v) (auto simp: num_json_def digit_chars_def dest!: subsetD)
  ultimately show ?thesis by (simp add: json_ok_def)
qed

definition num_row :: "nat \<Rightarrow> nat row" where
  "num_row n = [(''id'', n)]"

theorem sample_compares_keys_witness:
  "json_ok num_json \<and> num_row 3 \<in> set (only_on_branch num_json [''id''] 2 [num_row 2, num_row 3] [num_row 2])"
  using sample_compares_keys [OF num_json_ok, of "[''id'']" "[num_row 2, num_row 3]" 2 "[num_row 2]" "num_row 3"]
  by (simp add: num_json_ok num_row_def)

text \<open>
  A sampled row need not be new. Both sides are cut at the cap before they are compared, so once rows
  with small keys are deleted on the branch, a row that the base has beyond its cut is shown as existing on
  the branch only, and the rows that are new are cut off.
\<close>

theorem sample_can_show_base_rows:
  "\<exists>base branch r. length base < length branch \<and> r \<in> set base \<and> r \<in> set branch \<and>
     r \<in> set (only_on_branch num_json [''id''] 2 (take 2 branch) (take 2 base)) \<and>
     (\<exists>x \<in> set branch - set base. x \<notin> set (only_on_branch num_json [''id''] 2 (take 2 branch) (take 2 base)))"
proof -
  let ?base = "map num_row [1, 2, 3]" and ?branch = "map num_row [2, 3, 4, 5]"
  have key: "rowKey num_json r [''id''] = rowKey num_json x [''id''] \<longleftrightarrow> map_of r ''id'' = map_of x ''id''" for r x
    using rowKey_eq_iff [OF num_json_ok, of "[''id'']"] by simp
  have "num_row 3 \<in> set (only_on_branch num_json [''id''] 2 (take 2 ?branch) (take 2 ?base))"
    "num_row 4 \<notin> set (only_on_branch num_json [''id''] 2 (take 2 ?branch) (take 2 ?base))"
    by (auto simp: only_on_branch_def key num_row_def)
  moreover have "num_row 4 \<in> set ?branch - set ?base" by (simp add: num_row_def)
  ultimately show ?thesis
    by (intro exI [of _ ?base] exI [of _ ?branch] exI [of _ "num_row 3"]) auto
qed

end
