(* ===== verification/Engine_Runs.thy ===== *)
theory Engine_Runs
  imports Engine_Reconcile Engine_Diff
begin

text \<open>
  What the daemon does between two requests: the operations of the engine in any order, on any
  backend, with any driver, next to direct operations on the registry (mask scripts, tokens). States
  reachable this way keep the invariants of the registry, because every saga is a composition of
  operations that keep them.
\<close>

datatype eng_op =
    EAddSource ctx source string
  | ERefreshSource ctx string string
  | ERemoveSource ctx string
  | ECreateBranch ctx string string int
  | ECreateBranchFrom ctx string string int
  | EResetBranch ctx string
  | EDestroyBranch ctx string
  | EReapExpired ctx int
  | EReconcile ctx int int
  | EBranchUsage ctx string
  | EDiffBranch "string json_lib" ctx string int
  | ERegistry reg_op

definition done_with :: "('s, 'a) comp \<Rightarrow> ('s, unit) comp" where
  "done_with m = bnd m (\<lambda>_. ok ())"

fun eng_run :: "engine \<Rightarrow> eng_op \<Rightarrow> ('z sys_scheme, unit) comp" where
  "eng_run e (EAddSource c s pw) = AddSource e c s pw"
| "eng_run e (ERefreshSource c n pw) = RefreshSource e c n pw"
| "eng_run e (ERemoveSource c n) = RemoveSource e c n"
| "eng_run e (ECreateBranch c n sn ttl) = done_with (eng_CreateBranch e c n sn ttl)"
| "eng_run e (ECreateBranchFrom c n pn ttl) = done_with (CreateBranchFrom e c n pn ttl)"
| "eng_run e (EResetBranch c n) = done_with (ResetBranch e c n)"
| "eng_run e (EDestroyBranch c n) = DestroyBranch e c n"
| "eng_run e (EReapExpired c now) = done_with (ReapExpired e c now)"
| "eng_run e (EReconcile c now st) = done_with (Reconcile e c now st)"
| "eng_run e (EBranchUsage c n) = done_with (BranchUsage e c n)"
| "eng_run e (EDiffBranch J c n k) = done_with (DiffBranch J e c n (if 0 < k then [WithDataSample k] else []))"
| "eng_run e (ERegistry x) = reg_run x"

inductive eng_reach :: "'z sys_scheme \<Rightarrow> 'z sys_scheme \<Rightarrow> bool" for s0 where
  start: "eng_reach s0 s0"
| step: "eng_reach s0 s \<Longrightarrow> eng_run e x s = (r, t) \<Longrightarrow> eng_reach s0 t"

inductive_cases eng_reachE [elim]: "eng_reach s0 s"

lemma keeps_done_with [keeps_rules]: "keeps I m \<Longrightarrow> keeps I (done_with m)"
  unfolding done_with_def by (intro keeps_rules)

context engine_invariant
begin

lemma eng_run_keeps: "keeps I (eng_run e x)"
  by (cases x) (simp_all add: keeps_rules op_keeps)

lemma eng_reach_keeps: "eng_reach s0 s \<Longrightarrow> I s0 \<Longrightarrow> I s"
  by (induction rule: eng_reach.induct) (auto intro: keepsD [OF eng_run_keeps])

end

lemma eng_reach_trans: "eng_reach s1 s2 \<Longrightarrow> eng_reach s0 s1 \<Longrightarrow> eng_reach s0 s2"
  by (induction rule: eng_reach.induct) (auto intro: eng_reach.step)

lemma eng_reach_reg: "eng_reach s0 s \<Longrightarrow> eng_reach s0 (snd (reg_run x s))"
  by (metis eng_reach.step eng_run.simps(12) prod.collapse)

lemma eng_reach_run_ops: "eng_reach s0 s \<Longrightarrow> eng_reach s0 (run_ops xs s)"
proof (induction xs arbitrary: s)
  case (Cons x xs)
  from Cons.IH [OF eng_reach_reg [OF Cons.prems]] show ?case by (simp add: run_ops_def)
qed (simp add: run_ops_def)

end
