(* ===== verification/Engine_Liveness.thy ===== *)
theory Engine_Liveness
  imports Engine_Runs
begin

text \<open>
  What the engine achieves when nothing stands in its way: with a driver that carries out every call, a
  database that answers and nobody else interfering, creating a branch succeeds on every backend and ends
  with a ready branch. \<open>works P m Q\<close> is total correctness: from a state satisfying \<open>P\<close> the computation returns
  a value, and \<open>Q\<close> holds of it and of the final state.
\<close>

section \<open>Total correctness\<close>

definition works :: "('s \<Rightarrow> bool) \<Rightarrow> ('s, 'a) comp \<Rightarrow> ('a \<Rightarrow> 's \<Rightarrow> bool) \<Rightarrow> bool" where
  "works P m Q \<longleftrightarrow> (\<forall>s. P s \<longrightarrow> (\<exists>x t. m s = (Inr x, t) \<and> Q x t))"

lemma worksI: "(\<And>s. P s \<Longrightarrow> \<exists>x t. m s = (Inr x, t) \<and> Q x t) \<Longrightarrow> works P m Q"
  by (simp add: works_def)

lemma worksD:
  assumes "works P m Q" "P s"
  obtains x t where "m s = (Inr x, t)" "Q x t"
  using assms unfolding works_def by blast

lemma works_weaken: "works P m Q \<Longrightarrow> (\<And>s. P' s \<Longrightarrow> P s) \<Longrightarrow> (\<And>x s. Q x s \<Longrightarrow> Q' x s) \<Longrightarrow> works P' m Q'"
  unfolding works_def by meson

lemma works_keep: "(\<And>s. P s \<Longrightarrow> \<exists>x t. m s = (Inr x, t)) \<Longrightarrow> keeps P m \<Longrightarrow> works P m (\<lambda>_. P)"
  by (rule worksI) (meson keepsD)

lemma works_ok: "(\<And>s. P s \<Longrightarrow> Q x s) \<Longrightarrow> works P (ok x) Q"
  by (simp add: works_def ok_run)

lemma works_gets: "(\<And>s. P s \<Longrightarrow> Q (f s) s) \<Longrightarrow> works P (gets f) Q"
  by (simp add: works_def gets_run)

lemma works_bnd: "works P m Q \<Longrightarrow> (\<And>x. works (Q x) (f x) R) \<Longrightarrow> works P (bnd m f) R"
  unfolding works_def bnd_Inr_iff by meson

lemma works_wrapping: "works P m Q \<Longrightarrow> works P (wrapping p m) Q"
  by (simp add: works_def wrapping_Inr_iff)

lemma works_on_error: "works P m Q \<Longrightarrow> works P (on_error m h) Q"
  unfolding works_def on_error_run by fastforce

lemma works_step_or: "works P m Q \<Longrightarrow> works P (step_or undo w m) Q"
  unfolding step_or_def by (rule works_on_error)

lemma works_pre: "(\<And>s. P s \<Longrightarrow> works (\<lambda>u. u = s) m Q) \<Longrightarrow> works P m Q"
  unfolding works_def by blast

lemma works_for_each: "(\<And>x. works P (f x) (\<lambda>_. P)) \<Longrightarrow> works P (for_each xs f) (\<lambda>_. P)"
  by (induction xs) (auto intro: works_ok works_bnd)

section \<open>Calm waters\<close>

text \<open>A driver that carries out whatever it is asked, and reports an address.\<close>

definition obliging :: "driver \<Rightarrow> bool" where
  "obliging D \<longleftrightarrow> (\<forall>h x y ls cmd sp hs.
     EnsureImage D h x = None \<and> CreateVolume D h x ls = None \<and> RemoveVolume D h x = None \<and> CloneVolume D h x y ls = None \<and>
     (\<exists>r. RunHelper D h hs = Inr r) \<and> (\<exists>r. StartBranch D h sp = Inr r) \<and> Exec D h x cmd = None \<and>
     (\<exists>r. ExecOutput D h x cmd = Inr r) \<and> (\<exists>r. Inspect D h x = Inr r \<and> ci_Host r \<noteq> []) \<and> StopRemove D h x = None)"

definition calm :: "'z sys_scheme \<Rightarrow> bool" where
  "calm s \<longleftrightarrow> no_faults s \<and> others s = (\<lambda>_. []) \<and> obliging (drv s) \<and> (\<forall>k. int (elapse s k) < 90 * second) \<and>
     (case secrets s of None \<Rightarrow> True | Some b \<Rightarrow> aead_ok b)"

lemma calm_updates [simp]:
  "calm (s\<lparr>tick := n\<rparr>) = calm s" "calm (s\<lparr>wall := w\<rparr>) = calm s" "calm (s\<lparr>trace := h\<rparr>) = calm s"
  "calm (s\<lparr>warnings := ws\<rparr>) = calm s" "calm (s\<lparr>db := d\<rparr>) = calm s"
  by (simp_all add: calm_def no_faults_def)

lemma calm_call:
  assumes "calm s" "\<And>h. \<exists>x. f (drv s) h = Inr x"
  shows "\<exists>x t. call c cl f out s = (Inr x, t)"
  using assms by (auto simp: call_def interleaved_def reply_def run_ops_def comp_simps calm_def Let_def split: sum.splits)

lemma calm_drv:
  assumes "calm s"
  shows "\<exists>x t. drv_CreateVolume c v ls s = (Inr x, t)" "\<exists>x t. drv_RemoveVolume c v s = (Inr x, t)"
    "\<exists>x t. drv_CloneVolume c v w ls s = (Inr x, t)" "\<exists>x t. drv_RunHelper c hs s = (Inr x, t)"
    "\<exists>x t. drv_StartBranch c sp s = (Inr x, t)" "\<exists>x t. drv_Exec c i cmd s = (Inr x, t)"
    "\<exists>x t. drv_StopRemove c i s = (Inr x, t)"
  using assms unfolding drv_defs by (intro calm_call; auto simp: calm_def obliging_def unit_reply_def)+

lemma calm_query: "calm s \<Longrightarrow> sql_query f s = (Inr (f (db s)), s\<lparr>tick := Suc (tick s)\<rparr>)"
  by (simp add: sql_query_def calm_def sql_no_faults comp_simps)

lemma calm_exec:
  "calm s \<Longrightarrow> f (db s) = Inr (x, d) \<Longrightarrow> sql_exec f s = (Inr x, s\<lparr>tick := Suc (tick s), db := d\<rparr>)"
  by (simp add: sql_exec_def calm_def sql_no_faults comp_simps)

lemma calm_wait: "calm s \<Longrightarrow> \<exists>x t. waitReady c cid (90 * second) s = (Inr x, t)"
proof -
  assume s: "calm s"
  have f: "wait_fuel (90 * second) = Suc (Suc 90)" by (simp add: wait_fuel_def second_def)
  let ?u = "s\<lparr>wall := wall s + int (elapse s (tick s)) + int (elapse s (Suc (tick s))), tick := Suc (Suc (tick s))\<rparr>"
  have "calm ?u" using s by simp
  then obtain x t where "drv_Exec c cid [''pg_isready'', ''-U'', ''postgres'', ''-h'', ''/var/run/postgresql''] ?u = (Inr x, t)"
    using calm_drv(6) by blast
  moreover have "int (elapse s (Suc (tick s))) < 90 * second" using s by (simp add: calm_def)
  ultimately show ?thesis unfolding waitReady_def f wait_ready_loop.simps(2)
    by (simp add: bnd_run time_now_def Let_def attempt_run ok_run)
qed

lemma calm_inspect: "calm s \<Longrightarrow> \<exists>x t. inspectAddr c cid s = (Inr x, t)"
proof -
  assume s: "calm s"
  have f: "wait_fuel (30 * second) = Suc (Suc 30)" by (simp add: wait_fuel_def second_def)
  let ?u = "s\<lparr>wall := wall s + int (elapse s (tick s)), tick := Suc (tick s)\<rparr>"
  have "\<exists>x t. drv_Inspect c cid ?u = (Inr x, t) \<and> ci_Host x \<noteq> []"
    using s unfolding drv_Inspect_def
    by (auto simp: call_def interleaved_def reply_def run_ops_def comp_simps calm_def obliging_def Let_def split: sum.splits)
  then show ?thesis unfolding inspectAddr_def f inspect_loop.simps(2)
    by (auto simp: bnd_run time_now_def Let_def ok_run)
qed

section \<open>A branch on its way\<close>

text \<open>
  The registry holds the branch with the given id, name and source in the given state, without a base
  layer, with a password that can be read, and apart from it the directory is \<open>v\<close>.
\<close>

definition readable :: "'z reg_st_scheme \<Rightarrow> branch_row \<Rightarrow> bool" where
  "readable s r \<longleftrightarrow> (\<exists>pw. decryptColumn (secrets s) (row_password r) = Inr pw)"

definition is_row :: "'z reg_st_scheme \<Rightarrow> string \<Rightarrow> string \<Rightarrow> string \<Rightarrow> branch_state \<Rightarrow> branch_row \<Rightarrow> bool" where
  "is_row s i n src st r \<longleftrightarrow> row_id r = i \<and> row_name r = n \<and> row_source_id r = src \<and> row_state r = st \<and>
     row_base_layer_id r = None \<and> readable s r"

definition owns :: "dir \<Rightarrow> string \<Rightarrow> string \<Rightarrow> string \<Rightarrow> branch_state \<Rightarrow> 'z sys_scheme \<Rightarrow> bool" where
  "owns v i n src st s \<longleftrightarrow> calm s \<and> wf_tables (db s) \<and> directory (db s) = v(n \<mapsto> (src, st)) \<and>
     (\<exists>r. find_key row_id i (branches (db s)) = Some r \<and> is_row s i n src st r)"

lemma owns_calm: "owns v i n src st s \<Longrightarrow> calm s"
  by (simp add: owns_def)

lemma owns_updates [simp]:
  "owns v i n src st (s\<lparr>tick := k\<rparr>) = owns v i n src st s" "owns v i n src st (s\<lparr>wall := w\<rparr>) = owns v i n src st s"
  "owns v i n src st (s\<lparr>trace := h\<rparr>) = owns v i n src st s" "owns v i n src st (s\<lparr>warnings := ws\<rparr>) = owns v i n src st s"
  by (simp_all add: owns_def is_row_def readable_def)

interpretation owning: reading "owns v i n src st" for v i n src st
proof
  have "others s = (\<lambda>_. [])" if "owns v i n src st s" for s :: "'a sys_scheme" using owns_calm [OF that] by (simp add: calm_def)
  then show "keeps (owns v i n src st) (interleaved :: ('a sys_scheme, unit) comp)"
    by (simp add: keeps_def interleaved_def run_ops_def)
qed (simp_all add: env_free_def)

lemma owning_calls:
  "works (owns v i n src st) (drv_CreateVolume c x ls) (\<lambda>_. owns v i n src st)"
  "works (owns v i n src st) (drv_RemoveVolume c x) (\<lambda>_. owns v i n src st)"
  "works (owns v i n src st) (drv_CloneVolume c x y ls) (\<lambda>_. owns v i n src st)"
  "works (owns v i n src st) (drv_RunHelper c hs) (\<lambda>_. owns v i n src st)"
  "works (owns v i n src st) (drv_StartBranch c sp) (\<lambda>_. owns v i n src st)"
  "works (owns v i n src st) (drv_Exec c x cmd) (\<lambda>_. owns v i n src st)"
  "works (owns v i n src st) (drv_StopRemove c x) (\<lambda>_. owns v i n src st)"
  "works (owns v i n src st) (waitReady c x (90 * second)) (\<lambda>_. owns v i n src st)"
  "works (owns v i n src st) (inspectAddr c x) (\<lambda>_. owns v i n src st)"
  by (rule works_keep; (rule calm_drv calm_wait calm_inspect, erule owns_calm)?; rule owning.drv_keeps owning.core_keeps)+

lemma owning_reads:
  "works (owns v i n src st) (sql_query f) (\<lambda>_. owns v i n src st)"
  "works (owns v i n src st) time_now (\<lambda>_. owns v i n src st)"
  "works (owns v i n src st) db_now (\<lambda>_. owns v i n src st)"
  "works (owns v i n src st) (rand_hex k) (\<lambda>_. owns v i n src st)"
proof -
  show "works (owns v i n src st) (sql_query f) (\<lambda>_. owns v i n src st)" by (rule worksI) (simp add: calm_query [OF owns_calm])
  show "works (owns v i n src st) db_now (\<lambda>_. owns v i n src st)" by (rule worksI) (simp add: db_now_def time_now_def comp_simps Let_def)
qed (rule worksI, simp add: time_now_def rand_hex_def Let_def)+

text \<open>An update of the row that changes neither name, source, state nor base layer.\<close>

lemma owning_update:
  assumes "\<And>r. row_id (f r) = row_id r" "\<And>r. row_name (f r) = row_name r" "\<And>r. row_source_id (f r) = row_source_id r"
    "\<And>r. row_state (f r) = row_state r" "\<And>r. row_base_layer_id (f r) = row_base_layer_id r"
    and "owns v i n src st s" "\<And>r. is_row s i n src st r \<Longrightarrow> readable s (f r)"
  shows "\<exists>k t. sql_exec (update_branches (\<lambda>r. row_id r = i) f) s = (Inr k, t) \<and> 0 < k \<and> owns v i n src st t"
proof -
  let ?rows = "branches (db s)" and ?d = "(db s)\<lparr>branches := update_where (\<lambda>r. row_id r = i) f (branches (db s))\<rparr>"
  have s: "calm s" "wf_tables (db s)" "directory (db s) = v(n \<mapsto> (src, st))" using assms(6) by (auto simp: owns_def)
  obtain r where r: "find_key row_id i ?rows = Some r" "is_row s i n src st r" using assms(6) by (auto simp: owns_def)
  have "map row_name (filter live_row (update_where p f rows)) = map row_name (filter live_row rows)" for p rows
    by (induction rows) (simp_all add: update_where_def live_row_def assms(2,4))
  then have "unique_live_names (branches ?d)" using s(2) by (simp add: unique_live_names_def wf_tables_def)
  then have u: "update_branches (\<lambda>r. row_id r = i) f (db s) = Inr (count_where (\<lambda>r. row_id r = i) ?rows, ?d)"
    by (simp add: update_branches_def Let_def)
  have "0 < count_where (\<lambda>r. row_id r = i) ?rows" using find_key_SomeD [OF r(1)] by (auto simp: count_where_pos)
  moreover have "wf_tables ?d" using wf_update_branches [OF s(2) u] assms(1,3) by simp
  moreover have "directory ?d = v(n \<mapsto> (src, st))" using s(3) by (simp add: directory_def listing_update_same assms(2-4))
  moreover have "find_key row_id i (branches ?d) = Some (f r)" using r(1) by (simp add: find_key_update assms(1))
  moreover have "is_row s i n src st (f r)" using r(2) assms(7) by (simp add: is_row_def assms(1-5))
  ultimately show ?thesis using calm_exec [of s "update_branches (\<lambda>r. row_id r = i) f", OF s(1) u] s(1)
    by (auto simp: owns_def is_row_def readable_def)
qed

lemma owning_container: "works (owns v i n src st) (SetBranchContainer i ci) (\<lambda>_. owns v i n src st)"
  unfolding SetBranchContainer_def
proof (rule works_bnd [OF owning_reads(3)], rule works_bnd)
  fix now
  show "works (owns v i n src st) (sql_exec (update_branches (\<lambda>r. row_id r = i) (\<lambda>r. r\<lparr>row_container_id := ci, row_updated_at := now\<rparr>)))
      (\<lambda>_. owns v i n src st)"
    by (rule worksI) (use owning_update [of "\<lambda>r. r\<lparr>row_container_id := ci, row_updated_at := now\<rparr>"] in
        \<open>fastforce simp: is_row_def readable_def\<close>)
qed (simp add: works_ok)

lemma hex_not_tagged: "set p \<subseteq> hex_chars \<Longrightarrow> \<not> has_prefix p encPrefix"
  by (cases p; cases "tl p") (auto simp: has_prefix_def encPrefix_def hex_chars_def)

lemma owning_password:
  assumes "set pw \<subseteq> hex_chars"
  shows "works (owns v i n src st) (SetBranchPassword i pw) (\<lambda>_. owns v i n src st)"
proof (rule worksI)
  fix s :: "'a sys_scheme" assume s: "owns v i n src st s"
  obtain x u where e: "encrypt (secrets s) pw s = (Inr x, u)" using encrypt_total by blast
  have "keeps (owns v i n src st) (encrypt (secrets s) pw)" by (rule keeps_encrypt [OF owning.time_free])
  from keepsD [OF this s e] have u: "owns v i n src st u" .
  have sec: "secrets u = secrets s" using encrypt_frame [OF e] by simp
  have plain: "decryptColumn (secrets s) x = Inr pw"
  proof (cases "secrets s")
    case None
    then show ?thesis using e hex_not_tagged [OF assms] by (simp add: encrypt_def comp_simps decryptColumn_def decrypt_plain)
  next
    case (Some b)
    then show ?thesis using e s by (simp add: owns_def calm_def decryptColumn_def decrypt_encrypt_some)
  qed
  obtain now w where w: "db_now u = (Inr now, w)" "owns v i n src st w" using owning_reads(3) u by (rule worksD)
  have "secrets w = secrets s" using w(1) sec by (auto simp: db_now_def time_now_def comp_simps Let_def)
  then have "\<exists>k t. sql_exec (update_branches (\<lambda>r. row_id r = i) (\<lambda>r. r\<lparr>row_password := x, row_updated_at := now\<rparr>)) w = (Inr k, t) \<and>
      0 < k \<and> owns v i n src st t"
    using owning_update [OF _ _ _ _ _ w(2), of "\<lambda>r. r\<lparr>row_password := x, row_updated_at := now\<rparr>"] plain by (simp add: readable_def)
  then show "\<exists>x t. SetBranchPassword i pw s = (Inr x, t) \<and> owns v i n src st t"
    unfolding SetBranchPassword_def using e w(1) by (auto simp: bnd_run gets_run wrapping_run ok_run)
qed

lemma unique_update:
  assumes "\<And>r. row_name (f r) = row_name r" "\<And>r. p r \<Longrightarrow> live_row r" "unique_live_names rows"
  shows "unique_live_names (update_where p f rows)"
proof -
  have sub: "row_name ` set (filter live_row (update_where p f rows)) \<subseteq> row_name ` set (filter live_row rows)" for rows
    using assms(1,2) by (force simp: set_update_where)
  show ?thesis using assms(3)
  proof (induction rows)
    case (Cons r rows)
    then show ?case using sub [of rows] assms(1,2) by (auto simp: unique_live_names_def update_where_def)
  qed (simp add: update_where_def)
qed

lemma calm_transition:
  assumes "owns v i n src st s" "legalBranchTransition st to"
  shows "\<exists>t. TransitionBranchCtx c i to reason s = (Inr (), t)"
proof -
  have s: "calm s" "wf_tables (db s)" using assms(1) by (auto simp: owns_def)
  obtain r where r: "find_key row_id i (branches (db s)) = Some r" "row_state r = st" "row_id r = i" "r \<in> set (branches (db s))"
    using assms(1) find_key_SomeD by (fastforce simp: owns_def is_row_def)
  define s1 where "s1 = s\<lparr>tick := Suc (tick s)\<rparr>"
  have s1: "calm s1" "db s1 = db s" using s by (simp_all add: s1_def)
  have rd: "read_state i s1 = (Inr st, s1\<lparr>tick := Suc (tick s1)\<rparr>)"
    using r(1,2) s1 by (simp add: read_state_def bnd_run calm_query ok_run)
  obtain now s2 where now: "db_now (s1\<lparr>tick := Suc (tick s1)\<rparr>) = (Inr now, s2)" "calm s2" "db s2 = db s"
    using s1 by (auto simp: db_now_def time_now_def comp_simps Let_def)
  let ?p = "\<lambda>r. row_id r = i \<and> row_state r = st" and ?f = "\<lambda>r. r\<lparr>row_state := to, row_updated_at := now\<rparr>"
  have "unique_live_names (update_where ?p ?f (branches (db s)))"
    by (rule unique_update) (use s(2) legal_from_live [OF assms(2)] in \<open>auto simp: live_row_def wf_tables_def\<close>)
  then have "update_branches ?p ?f (db s2) = Inr (count_where ?p (branches (db s)), (db s)\<lparr>branches := update_where ?p ?f (branches (db s))\<rparr>)"
    using s(2) now(3) by (simp add: update_branches_def Let_def wf_tables_def)
  from calm_exec [of s2 "update_branches ?p ?f", OF now(2) this] obtain s3 where
    up: "sql_exec (update_branches ?p ?f) s2 = (Inr (count_where ?p (branches (db s))), s3)" "calm s3" using now(2) by simp
  have pos: "0 < count_where ?p (branches (db s))" using r by (auto simp: count_where_pos)
  obtain s4 where j: "journal c ''branch'' i (branch_state_str st) (branch_state_str to) reason s3 = (Inr (), s4)"
    using journal_no_faults up(2) unfolding calm_def by blast
  have "transition_in_tx c i to reason s1 = (Inr (), s4)"
    unfolding transition_in_tx_def using rd assms(2) now(1) up(1) pos j by (simp add: bnd_run)
  moreover have "keeps no_faults (transition_in_tx c i to reason)"
    unfolding transition_in_tx_def journal_def read_state_def by (intro keeps_rules keeps_free_sql_exec) simp_all
  ultimately have "no_faults s4" using keepsD [of no_faults] s1(1) by (metis calm_def)
  then show ?thesis unfolding TransitionBranchCtx_def transaction_def in_tx_def
    using \<open>transition_in_tx c i to reason s1 = (Inr (), s4)\<close> s(1)
    by (simp add: bnd_run sql_no_faults calm_def s1_def)
qed

lemma calm_kept: "keeps calm (reg_run x)"
  by (rule keeps_free_reg_run) (auto simp: env_free_def db_free_def)

lemma owning_transition:
  assumes "legalBranchTransition st to" "to \<noteq> BranchDestroyed"
  shows "works (owns v i n src st) (TransitionBranchCtx c i to reason) (\<lambda>_. owns v i n src to)"
proof (rule worksI)
  fix s :: "'a sys_scheme" assume s: "owns v i n src st s"
  then obtain t where t: "TransitionBranchCtx c i to reason s = (Inr (), t)" using calm_transition assms(1) by blast
  have w: "wf_tables (db s)" "calm s" using s by (auto simp: owns_def)
  have wt: "wf_tables (db t)" "calm t" "secrets t = secrets s"
    using keepsD [OF keeps_wf_TransitionBranchCtx _ t] w(1)
      keepsD [OF calm_kept [of "OpTransition c i to reason", simplified] w(2) t]
      keepsD [OF keeps_free_TransitionBranchCtx _ t, of "\<lambda>u. secrets u = secrets s"]
    by (simp_all add: on_db_def env_free_def db_free_def)
  obtain r where r: "find_key row_id i (branches (db s)) = Some r" "is_row s i n src st r" using s by (auto simp: owns_def)
  have i: "r \<in> set (branches (db s))" "i = row_id r" using find_key_SomeD [OF r(1)] by auto
  have at: "row_at (db s) i n src st" using r w(1) by (simp add: row_at_def is_row_def)
  have "directory (db t) = v(n \<mapsto> (src, to))" using transition_row(3) [OF at t] assms(2) s by (simp add: owns_def)
  moreover obtain now where "find_key row_id i (branches (db t)) = Some (r\<lparr>row_state := to, row_updated_at := now\<rparr>)"
    using transition_moves_row [OF t w(1) r(1)] by blast
  ultimately have "owns v i n src to t" using r(2) wt by (simp add: owns_def is_row_def readable_def)
  then show "\<exists>x t. TransitionBranchCtx c i to reason s = (Inr x, t) \<and> owns v i n src to t" using t by blast
qed

section \<open>Provisioning\<close>

lemma owning_mark_ready:
  assumes "legalBranchTransition st BranchReady"
  shows "works (owns v i n src st) (MarkBranchReadyCtx c i ci h p) (\<lambda>_. owns v i n src BranchReady)"
  unfolding MarkBranchReadyCtx_def
proof (rule works_bnd)
  show "works (owns v i n src st) (sql_exec (update_branches (\<lambda>r. row_id r = i)
      (\<lambda>r. r\<lparr>row_container_id := ci, row_host := h, row_port := p\<rparr>))) (\<lambda>_. owns v i n src st)"
    by (rule worksI) (use owning_update [of "\<lambda>r. r\<lparr>row_container_id := ci, row_host := h, row_port := p\<rparr>"] in
        \<open>fastforce simp: is_row_def readable_def\<close>)
qed (rule owning_transition [OF assms], simp)

lemma owning_masking: "works (owns v i n src st) (applyMasking c cid so) (\<lambda>_. owns v i n src st)"
  unfolding applyMasking_def GetMaskScripts_def
  by (intro works_bnd [OF works_wrapping [OF owning_reads(1)]] works_for_each works_wrapping owning_calls)

lemma owning_rotate: "br_ID b = i \<Longrightarrow> works (owns v i n src st) (rotateBranchCredentials e c cid b so) (\<lambda>_. owns v i n src st)"
proof -
  assume b: "br_ID b = i"
  have r: "works (owns v i n src st) (rand_hex k) (\<lambda>x s. owns v i n src st s \<and> set x \<subseteq> hex_chars)" for k
    by (rule worksI) (simp add: rand_hex_def hex_encode_chars)
  show ?thesis
  proof (cases "rotateCredentials e")
    case True
    have k: "works (\<lambda>s. owns v i n src st s \<and> set pw \<subseteq> hex_chars) (bnd (wrapping x (drv_Exec c cid cmd)) (\<lambda>_. wrapping y (SetBranchPassword i pw)))
        (\<lambda>_. owns v i n src st)" for pw x y cmd
    proof (cases "set pw \<subseteq> hex_chars")
      case True
      then show ?thesis
        by (intro works_weaken [OF works_bnd [OF works_wrapping [OF owning_calls(6)] works_wrapping [OF owning_password]]]) auto
    qed (simp add: works_def)
    show ?thesis unfolding rotateBranchCredentials_def Let_def b using True by (simp add: works_bnd [OF r k])
  qed (simp add: rotateBranchCredentials_def works_ok)
qed

lemma owning_await:
  assumes "br_ID b = i" "legalBranchTransition st BranchReady"
  shows "works (owns v i n src st) (awaitAndMark e c b so cid) (\<lambda>_. owns v i n src BranchReady)"
  unfolding awaitAndMark_def assms(1)
  by (intro works_bnd [OF owning_container] works_bnd [OF works_wrapping [OF owning_calls(8)]] works_bnd [OF owning_masking]
      works_bnd [OF owning_rotate [OF assms(1)]] works_bnd [OF owning_calls(9)] owning_mark_ready [OF assms(2)])

lemma owning_labels:
  "works (owns v i n src st) (volumeLabels k x) (\<lambda>_. owns v i n src st)"
  "works (owns v i n src st) (branchLabels b) (\<lambda>_. owns v i n src st)"
  unfolding volumeLabels_def branchLabels_def instanceLabels_def by (rule works_gets, assumption)+

lemma owning_chain: "works (owns v i n src st) (LayerChain i) (\<lambda>_. owns v i n src st)"
proof (rule works_keep)
  fix s :: "'a sys_scheme" assume s: "owns v i n src st s"
  obtain r where r: "find_key row_id i (branches (db s)) = Some r" "is_row s i n src st r" using s by (auto simp: owns_def)
  obtain b where b: "scanBranch (secrets s) r = Inr b" "br_BaseLayerID b = []"
    using r(2) by (auto simp: is_row_def readable_def scanBranch_def null_string_def)
  then show "\<exists>x t. LayerChain i s = (Inr x, t)"
    using r(1) [unfolded find_key_def]
    by (simp add: calm_query [OF owns_calm [OF s]] LayerChain_def getBranch_def comp_simps layer_chain_loop.simps)
qed (rule keeps_reads [OF owning.time_free])

lemma owning_helpers:
  "works (owns v i n src st) (installOverlayEntrypoint e c x) (\<lambda>_. owns v i n src st)"
  "works (owns v i n src st) (installDirectEntrypoint e c x) (\<lambda>_. owns v i n src st)"
  "works (owns v i n src st) (startOverlayBranch c m p img ls) (\<lambda>_. owns v i n src st)"
  "works (owns v i n src st) (startDirectBranch c m x img ls) (\<lambda>_. owns v i n src st)"
  "works (owns v i n src st) (runZFS c sp) (\<lambda>_. owns v i n src st)"
  unfolding installOverlayEntrypoint_def installDirectEntrypoint_def startOverlayBranch_def startDirectBranch_def runZFS_def
  by (intro works_bnd [OF owning_calls(4)] works_ok owning_calls; assumption)+

lemmas provision_works = works_bnd [OF owning_labels(1)] works_bnd [OF owning_labels(2)] works_bnd [OF owning_chain]
  works_bnd [OF works_step_or [OF owning_calls(1)]] works_bnd [OF works_step_or [OF owning_calls(4)]]
  works_bnd [OF works_step_or [OF owning_calls(5)]] works_bnd [OF works_step_or [OF owning_helpers(1)]]
  works_bnd [OF works_step_or [OF owning_helpers(3)]] works_bnd [OF works_step_or [OF owning_helpers(4)]]
  works_bnd [OF works_step_or [OF owning_helpers(5)]]

lemma works_csi_fail: "works P m Q \<Longrightarrow> works P (csi_fail e c so parent undo w m) Q"
  unfolding csi_fail_def by (rule works_on_error)

lemma owning_provision:
  assumes "br_ID b = i" "legalBranchTransition st BranchReady" "br_ParentBranchName b = []"
  shows "works (owns v i n src st :: 'z sys_scheme \<Rightarrow> bool) (provision e c b so) (\<lambda>_. owns v i n src BranchReady)"
proof -
  note await = works_step_or [OF owning_await [OF assms(1,2)]]
  have o: "works (owns v i n src st :: 'z sys_scheme \<Rightarrow> bool) (provisionOverlay e c b so) (\<lambda>_. owns v i n src BranchReady)"
    unfolding provisionOverlay_def Let_def assms(1) by (intro provision_works await)
  have z: "works (owns v i n src st :: 'z sys_scheme \<Rightarrow> bool) (provisionZFS e c b so) (\<lambda>_. owns v i n src BranchReady)"
    unfolding provisionZFS_def Let_def by (intro provision_works await)
  have q: "csiQuiesceTarget b = ok None" by (simp add: csiQuiesceTarget_def assms(3))
  have "works (owns v i n src st :: 'z sys_scheme \<Rightarrow> bool) (provisionCSI e c b so) (\<lambda>_. owns v i n src BranchReady)"
    unfolding provisionCSI_def q Let_def
  proof (rule works_bnd [where Q = "\<lambda>p s. p = None \<and> owns v i n src st s"])
    show "works (owns v i n src st) (ok None) (\<lambda>p s. p = None \<and> owns v i n src st s)" by (simp add: works_ok)
    fix p
    show "works (\<lambda>s. p = None \<and> owns v i n src st s) (bnd (case p of None \<Rightarrow> ok () | Some p \<Rightarrow> quiesceParent c b so p) (\<lambda>_.
       bnd (volumeLabels ''pgbranch.branch.id'' (br_ID b)) (\<lambda>vls.
       bnd (csi_fail e c so p [] (wrap_as ''clone volume: '') (drv_CloneVolume c (br_SourceVolume b) (br_RWVolume b) vls)) (\<lambda>_.
       bnd (csi_fail e c so p [undo_volume c (br_RWVolume b)] (wrap_as ''install entrypoint: '') (installDirectEntrypoint e c (br_RWVolume b))) (\<lambda>_.
       bnd (case p of None \<Rightarrow> ok ()
         | Some p \<Rightarrow> step_or [undo_volume c (br_RWVolume b)] (wrap_as (''restart parent '' @ go_quote (br_Name p) @ '': '')) (restartCSIBranch e c p so None)) (\<lambda>_.
       bnd (branchLabels b) (\<lambda>ls.
       bnd (step_or [undo_volume c (br_RWVolume b)] (wrap_as ''start instance: '')
         (startDirectBranch c (br_Name b) (br_RWVolume b) (image_of e (src_PGVersion so)) ls)) (\<lambda>cid.
       step_or ([undo_volume c (br_RWVolume b)] @ [undo_container c cid]) (\<lambda>er. er) (awaitAndMark e c b so cid)))))))))
       (\<lambda>_. owns v i n src BranchReady)"
    proof (cases p)
      case None
      have ok: "works (owns v i n src st) (ok ()) (\<lambda>_. owns v i n src st)" by (simp add: works_ok)
      show ?thesis unfolding None option.case simp_thms
        by (intro works_bnd [OF ok] provision_works works_bnd [OF works_csi_fail [OF owning_calls(3)]]
            works_bnd [OF works_csi_fail [OF owning_helpers(2)]] await)
    qed (simp add: works_def)
  qed
  with o z show ?thesis by (simp add: provision_def)
qed

section \<open>Creating a branch\<close>

lemma calm_newID: "newID s = (Inr (hex_encode (map (rand_byte s (tick s)) [0..<8])), s\<lparr>tick := Suc (tick s)\<rparr>)"
  by (simp add: newID_def rand_hex_def)

text \<open>What has to hold of a request: a valid free name, room in the quota, a ready source, a fresh random id.\<close>

definition creatable :: "engine \<Rightarrow> string \<Rightarrow> string \<Rightarrow> source_row \<Rightarrow> 'z sys_scheme \<Rightarrow> bool" where
  "creatable e n sn so s \<longleftrightarrow> calm s \<and> wf_tables (db s) \<and> validateBranchName n = None \<and> directory (db s) n = None \<and>
     (maxBranches e \<le> 0 \<or> int (count_where live_row (branches (db s))) < maxBranches e) \<and>
     best_source (filter (\<lambda>r. sr_name r = sn) (sources (db s))) = Some so \<and> so \<in> set (sources (db s)) \<and> sr_state so = SourceReady \<and>
     (\<forall>k. hex_encode (map (rand_byte s k) [0..<8]) \<notin> row_id ` set (branches (db s)))"

lemma creatable_updates [simp]:
  "creatable e n sn so (s\<lparr>tick := k\<rparr>) = creatable e n sn so s" "creatable e n sn so (s\<lparr>wall := w\<rparr>) = creatable e n sn so s"
  by (simp_all add: creatable_def)

lemma create_works:
  assumes "br_Name b = n" "br_SourceID b = sr_id so" "br_BaseLayerID b = []"
  shows "works (\<lambda>s. creatable e n sn so s \<and> directory (db s) = v) (CreateBranchCtx c b)
    (\<lambda>b' s. owns v (br_ID b') n (sr_id so) BranchCreating s \<and> b' = b\<lparr>br_ID := br_ID b', br_State := BranchCreating\<rparr>)"
proof (rule worksI)
  fix s :: "'a sys_scheme" assume s: "creatable e n sn so s \<and> directory (db s) = v"
  then have c: "calm s" "wf_tables (db s)" "directory (db s) n = None" "so \<in> set (sources (db s))" "directory (db s) = v"
    "\<And>k. hex_encode (map (rand_byte s k) [0..<8]) \<notin> row_id ` set (branches (db s))" by (auto simp: creatable_def)
  let ?i = "hex_encode (map (rand_byte s (tick s)) [0..<8])"
  obtain now s1 where now: "db_now (s\<lparr>tick := Suc (tick s)\<rparr>) = (Inr now, s1)" "calm s1" "db s1 = db s" "secrets s1 = secrets s"
    using c(1) by (auto simp: db_now_def time_now_def comp_simps Let_def)
  define row where "row = \<lparr>row_id = ?i, row_name = n, row_source_id = sr_id so, row_state = BranchCreating,
          row_container_id = [], row_rw_volume = br_RWVolume b, row_source_volume = br_SourceVolume b,
          row_expires_at = br_ExpiresAt b, row_host = ''127.0.0.1'', row_base_layer_id = None,
          row_parent_branch_name = br_ParentBranchName b, row_password = [], row_port = 0,
          row_created_at = now, row_updated_at = now\<rparr>"
  have free: "row_name row \<notin> row_name ` set (filter live_row (branches (db s)))"
    using c(3) by (simp add: directory_def listing_None_iff row_def)
  have live: "live_row row" by (simp add: row_def live_row_def)
  have ins: "insert_branch row (db s1) = Inr ((), (db s)\<lparr>branches := branches (db s) @ [row]\<rparr>)"
    using c(2,4,6) free live now(3) by (simp add: insert_branch_def row_def unique_live_names_def wf_tables_def)
  from calm_exec [of s1 "insert_branch row", OF now(2) ins] obtain s2 where
    s2: "sql_exec (insert_branch row) s1 = (Inr (), s2)" "calm s2" "db s2 = (db s)\<lparr>branches := branches (db s) @ [row]\<rparr>" "secrets s2 = secrets s"
    using now(2,4) by simp
  obtain t where j: "journal c ''branch'' ?i [] (branch_state_str BranchCreating) ''created'' s2 = (Inr (), t)"
    using journal_no_faults s2(2) unfolding calm_def by blast
  have run: "CreateBranchCtx c b s = (Inr (b\<lparr>br_ID := ?i, br_State := BranchCreating\<rparr>), t)"
    unfolding CreateBranchCtx_def using now(1) s2(1) j assms
    by (simp add: bnd_run calm_newID Let_def wrapping_run ok_run row_def nullable_def)
  have wt: "wf_tables (db t)" using keepsD [OF keeps_wf_CreateBranchCtx _ run] c(2) by (simp add: on_db_def)
  have ct: "calm t" "secrets t = secrets s"
    using keepsD [OF calm_kept [of "OpCreateBranch c b", simplified keeps_ignore_iff reg_run.simps] c(1) run]
      keepsD [OF keeps_free_journal _ j, of "\<lambda>u. secrets u = secrets s"] s2(4) by (simp_all add: env_free_def db_free_def)
  obtain a where dt: "db t = (db s2)\<lparr>transitions := transitions (db s2) @ [a]\<rparr>" using journal_okD [OF j] by metis
  have "directory (db t) = v(n \<mapsto> (sr_id so, BranchCreating))"
    using listing_append [OF live free] c(5) by (simp add: directory_def dt s2(3)) (simp add: row_def)
  moreover have "find_key row_id ?i (branches (db t)) = Some row"
    using c(6) by (simp add: dt s2(3) find_key_append row_def find_key_None_iff image_iff split: option.splits) (metis find_key_SomeD)
  moreover have "is_row t ?i n (sr_id so) BranchCreating row"
    by (simp add: is_row_def row_def readable_def decryptColumn_def decrypt_def has_prefix_def encPrefix_def)
  ultimately have "owns v ?i n (sr_id so) BranchCreating t" using wt ct by (auto simp: owns_def)
  then show "\<exists>x t. CreateBranchCtx c b s = (Inr x, t) \<and> owns v (br_ID x) n (sr_id so) BranchCreating t \<and>
      x = b\<lparr>br_ID := br_ID x, br_State := BranchCreating\<rparr>"
    using run by simp
qed

lemma owning_lookup:
  assumes "st \<noteq> BranchDestroyed"
  shows "works (owns v i n src st) (GetBranchByName n) (\<lambda>b s. owns v i n src st s \<and> br_Name b = n \<and> br_State b = st)"
proof (rule worksI)
  fix s :: "'a sys_scheme" assume s: "owns v i n src st s"
  obtain r where r: "find_key row_id i (branches (db s)) = Some r" "is_row s i n src st r" using s by (auto simp: owns_def)
  have "unique_live_names (branches (db s))" using s by (simp add: owns_def wf_tables_def)
  then have "find (\<lambda>x. row_name x = n \<and> row_state x \<noteq> BranchDestroyed) (branches (db s)) = Some r"
    using find_live_name [of "branches (db s)" r] find_key_SomeD [OF r(1)] r(2) assms by (simp add: is_row_def live_row_def)
  moreover obtain b where "scanBranch (secrets s) r = Inr b" "br_Name b = n" "br_State b = st"
    using r(2) by (auto simp: is_row_def readable_def scanBranch_def)
  ultimately show "\<exists>x t. GetBranchByName n s = (Inr x, t) \<and> owns v i n src st t \<and> br_Name x = n \<and> br_State x = st"
    using s by (simp add: GetBranchByName_def getBranch_def bnd_run gets_run calm_query [OF owns_calm [OF s]] ok_run)
qed

lemma creatable_reads:
  "works (\<lambda>s :: 'z sys_scheme. creatable e n sn so s \<and> directory (db s) = v) (checkQuota e) (\<lambda>_ s. creatable e n sn so s \<and> directory (db s) = v)"
  "works (\<lambda>s :: 'z sys_scheme. creatable e n sn so s \<and> directory (db s) = v) (GetSourceByName sn)
     (\<lambda>x s. x = scanSource so \<and> creatable e n sn so s \<and> directory (db s) = v)"
  "works (\<lambda>s :: 'z sys_scheme. creatable e n sn so s \<and> directory (db s) = v) (expiresAtFor e ttl) (\<lambda>_ s. creatable e n sn so s \<and> directory (db s) = v)"
proof -
  have live: "live_row = (\<lambda>r. row_state r \<noteq> BranchDestroyed)" by (simp add: fun_eq_iff live_row_def)
  have c: "creatable e n sn so s \<Longrightarrow> calm s" for s :: "'z sys_scheme" by (simp add: creatable_def)
  show "works (\<lambda>s :: 'z sys_scheme. creatable e n sn so s \<and> directory (db s) = v) (checkQuota e) (\<lambda>_ s. creatable e n sn so s \<and> directory (db s) = v)"
  proof (rule worksI)
    fix s :: "'z sys_scheme" assume s: "creatable e n sn so s \<and> directory (db s) = v"
    then have "maxBranches e \<le> 0 \<or> int (count_where live_row (branches (db s))) < maxBranches e" by (simp add: creatable_def)
    then show "\<exists>x t. checkQuota e s = (Inr x, t) \<and> creatable e n sn so t \<and> directory (db t) = v"
      using s c by (auto simp: checkQuota_def CountLiveBranches_def count_branches_def bnd_run calm_query ok_run live)
  qed
  show "works (\<lambda>s :: 'z sys_scheme. creatable e n sn so s \<and> directory (db s) = v) (GetSourceByName sn)
     (\<lambda>x s. x = scanSource so \<and> creatable e n sn so s \<and> directory (db s) = v)"
  proof (rule worksI)
    fix s :: "'z sys_scheme" assume s: "creatable e n sn so s \<and> directory (db s) = v"
    then have "best_source (filter (\<lambda>r. sr_name r = sn) (sources (db s))) = Some so" "calm s" by (simp_all add: creatable_def)
    then show "\<exists>x t. GetSourceByName sn s = (Inr x, t) \<and> x = scanSource so \<and> creatable e n sn so t \<and> directory (db t) = v"
      using s by (simp add: GetSourceByName_def bnd_run calm_query scan_source_opt_def ok_run)
  qed
  show "works (\<lambda>s :: 'z sys_scheme. creatable e n sn so s \<and> directory (db s) = v) (expiresAtFor e ttl) (\<lambda>_ s. creatable e n sn so s \<and> directory (db s) = v)"
    by (rule worksI) (simp add: expiresAtFor_def Let_def bnd_run time_now_def ok_run)
qed

text \<open>
  C5: Creating a branch succeeds. With a driver that carries out every call, no failing statement, nobody
  interfering and less than 90 seconds between two looks at the clock, a request for a valid free name
  within the quota from a ready source returns a branch in state ready on every backend, and the only change
  to the directory of branches is that it now holds this branch.
\<close>

theorem create_branch_succeeds:
  fixes s :: "'z sys_scheme"
  assumes "creatable e n sn so s"
  shows "\<exists>b t. eng_CreateBranch e c n sn ttl s = (Inr b, t) \<and> br_Name b = n \<and> br_State b = BranchReady \<and>
    directory (db t) = (directory (db s))(n \<mapsto> (sr_id so, BranchReady))"
proof -
  let ?v = "directory (db s)"
  let ?P = "\<lambda>u :: 'z sys_scheme. creatable e n sn so u \<and> directory (db u) = ?v"
  let ?Q = "\<lambda>b (u :: 'z sys_scheme). directory (db u) = ?v(n \<mapsto> (sr_id so, BranchReady)) \<and> br_Name b = n \<and> br_State b = BranchReady"
  have val: "lift_err (validateBranchName n) = (ok () :: ('z sys_scheme, unit) comp)" and rdy: "src_State (scanSource so) = SourceReady"
    using assms by (simp_all add: creatable_def lift_err_def scanSource_def)
  have fin: "works (owns ?v i n (sr_id so) BranchReady) (GetBranchByName n) ?Q" for i
    by (rule works_weaken [OF owning_lookup [of BranchReady ?v i n "sr_id so"]]) (auto simp: owns_def)
  let ?nb = "\<lambda>x. new_branch n (sr_id so) (BranchLayerName (planner e) n) (sr_volume so) x []"
  have prov: "works (\<lambda>u. owns ?v (br_ID b') n (sr_id so) BranchCreating u \<and> b' = (?nb x)\<lparr>br_ID := br_ID b', br_State := BranchCreating\<rparr>)
      (bnd (mark_failed c b' (provision e c b' (scanSource so))) (\<lambda>_. GetBranchByName n)) ?Q" for b' x
  proof (cases "b' = (?nb x)\<lparr>br_ID := br_ID b', br_State := BranchCreating\<rparr>")
    case True
    from arg_cong [where f = br_ParentBranchName, OF this] have "br_ParentBranchName b' = []" by (simp add: new_branch_def)
    then have "works (owns ?v (br_ID b') n (sr_id so) BranchCreating) (provision e c b' (scanSource so))
        (\<lambda>_. owns ?v (br_ID b') n (sr_id so) BranchReady)"
      by (intro owning_provision) (simp_all add: legalBranchTransition_def)
    from works_bnd [OF works_on_error [OF this] fin] show ?thesis
      unfolding mark_failed_def by (rule works_weaken) auto
  qed (simp add: works_def)
  have "works ?P (eng_CreateBranch e c n sn ttl) ?Q"
    unfolding eng_CreateBranch_def val
  proof (rule works_bnd [where Q = "\<lambda>_. ?P"], simp add: works_ok, rule works_bnd [OF creatable_reads(1)],
      rule works_bnd [OF works_wrapping [OF creatable_reads(2)]], goal_cases)
    case (1 _ _ src)
    show ?case
    proof (cases "src = scanSource so")
      case True
      have src: "src_ID src = sr_id so" "src_Volume src = sr_volume so" by (simp_all add: True scanSource_def)
      have "works ?P (bnd (expiresAtFor e ttl) (\<lambda>x. bnd (CreateBranchCtx c (?nb x)) (\<lambda>b.
          bnd (mark_failed c b (provision e c b (scanSource so))) (\<lambda>_. GetBranchByName n)))) ?Q"
        by (intro works_bnd [OF creatable_reads(3)] works_bnd [OF create_works prov]) (simp_all add: new_branch_def)
      then show ?thesis using True rdy src by (simp add: works_def)
    qed (simp add: works_def)
  qed
  from worksD [OF this] assms show ?thesis by metis
qed

subsection \<open>Witness\<close>

definition ready_source :: source_row where
  "ready_source = \<lparr>sr_id = ''s1'', sr_name = ''app'', sr_pg_version = ''16'', sr_volume = ''v'', sr_conn_host = [],
     sr_conn_port = 0, sr_conn_user = [], sr_conn_db = [], sr_network = [], sr_seed_via = [], sr_dump_schemas = [],
     sr_state = SourceReady, sr_generation = 1, sr_created_at = [], sr_updated_at = []\<rparr>"

lemma agreeable_obliging: "obliging agreeable"
  by (simp add: obliging_def agreeable_def)

lemma sample_calm: "calm (sample_sys d)"
  by (simp add: calm_def sample_sys_def agreeable_obliging no_faults_def second_def)

theorem create_branch_succeeds_witness:
  "\<exists>b t. eng_CreateBranch sample_engine Background ''pr1'' ''app'' 0 (sample_sys (empty_tables\<lparr>sources := [ready_source]\<rparr>)) = (Inr b, t) \<and>
     br_State b = BranchReady \<and> directory (db t) ''pr1'' = Some (''s1'', BranchReady)"
proof -
  let ?s = "sample_sys (empty_tables\<lparr>sources := [ready_source]\<rparr>)"
  have "db ?s = empty_tables\<lparr>sources := [ready_source]\<rparr>" by (simp add: sample_sys_def)
  then have "creatable sample_engine ''pr1'' ''app'' ready_source ?s"
    by (simp add: creatable_def sample_calm empty_tables_def wf_tables_def wf_layers_def unique_source_names_def unique_live_names_def
        directory_def validateBranchName_def validateName_def branchNameRe_def name_start_def sample_engine_def best_source_def
        ready_source_def)
  from create_branch_succeeds [OF this, of Background 0] show ?thesis by (auto simp: ready_source_def)
qed

end
