(* ===== verification/Docker_Driver.thy ===== *)
theory Docker_Driver
  imports Engine_Liveness Engine_Sources
begin

text \<open>
  The Docker driver (\<open>internal/runtime/docker.go\<close>). The Docker daemon is a parameter: a record with one function
  per API call the driver makes, from the calls made so far to the answer, so that what is shown holds for
  every daemon. Each call is logged with its context. \<open>docker_driver\<close> turns the operations into an
  implementation of the interface of \<open>Runtime_Driver\<close>.
\<close>

section \<open>The Docker API\<close>

datatype mount_type = TypeVolume | TypeBind

record docker_mount =
  dm_Type :: mount_type
  dm_Source :: string
  dm_Target :: string
  dm_ReadOnly :: bool

record container_config =
  cc_Image :: string
  cc_Cmd :: "string list"
  cc_Env :: "string list"
  cc_User :: string
  cc_Entrypoint :: "string list"
  cc_Labels :: labels
  cc_ExposedPorts :: "string list"

record host_config =
  hc_Mounts :: "docker_mount list"
  hc_NetworkMode :: string
  hc_Privileged :: bool
  hc_Devices :: "(string \<times> string \<times> string) list"
  hc_CapAdd :: "string list"
  hc_SecurityOpt :: "string list"
  hc_PortBindings :: "(string \<times> (string \<times> string) list) list"
  hc_RestartPolicy :: string

record container_json =
  cj_ID :: string
  cj_Running :: "bool option"
  cj_Labels :: labels
  cj_Ports :: "(string \<times> string list) list"

datatype docker_call =
    ImageInspect string
  | ImagePull string
  | PullRead string
  | VolumeCreate string labels
  | VolumeRemove string
  | ContainerCreate container_config host_config string
  | ContainerStart string
  | ContainerWait string
  | ContainerLogs string
  | ContainerRemove string
  | ContainerStop string
  | ExecCreate string "string list"
  | ExecAttach string
  | ExecInspect string
  | ContainerInspect string
  | ContainerList "(string \<times> string) list"
  | VolumeList "(string \<times> string) list"

text \<open>A logged call: whether its context could be cancelled and, when it succeeded, the id it returned.\<close>

record docker_event =
  de_cancellable :: bool
  de_call :: docker_call
  de_out :: "string option"

record docker_api =
  da_image_inspect :: "docker_event list \<Rightarrow> string \<Rightarrow> err option"
  da_image_pull :: "docker_event list \<Rightarrow> string \<Rightarrow> err option"
  da_pull_read :: "docker_event list \<Rightarrow> string \<Rightarrow> err option"
  da_volume_create :: "docker_event list \<Rightarrow> string \<Rightarrow> labels \<Rightarrow> err option"
  da_volume_remove :: "docker_event list \<Rightarrow> string \<Rightarrow> err option"
  da_create :: "docker_event list \<Rightarrow> container_config \<Rightarrow> host_config \<Rightarrow> string \<Rightarrow> err + string"
  da_start :: "docker_event list \<Rightarrow> string \<Rightarrow> err option"
  da_wait :: "docker_event list \<Rightarrow> string \<Rightarrow> err + int"
  da_logs :: "docker_event list \<Rightarrow> string \<Rightarrow> err + string"
  da_remove :: "docker_event list \<Rightarrow> string \<Rightarrow> err option"
  da_stop :: "docker_event list \<Rightarrow> string \<Rightarrow> err option"
  da_exec_create :: "docker_event list \<Rightarrow> string \<Rightarrow> string list \<Rightarrow> err + string"
  da_exec_attach :: "docker_event list \<Rightarrow> string \<Rightarrow> err + (string \<times> string)"
  da_exec_inspect :: "docker_event list \<Rightarrow> string \<Rightarrow> err + int"
  da_inspect :: "docker_event list \<Rightarrow> string \<Rightarrow> err + container_json"
  da_list :: "docker_event list \<Rightarrow> (string \<times> string) list \<Rightarrow> err + (string \<times> string \<times> labels) list"
  da_volume_list :: "docker_event list \<Rightarrow> (string \<times> string) list \<Rightarrow> err + string list"
  da_not_found :: "err \<Rightarrow> bool"

record docker_st =
  dk_api :: docker_api
  dk_log :: "docker_event list"

definition dk_call :: "ctx \<Rightarrow> docker_call \<Rightarrow> (docker_api \<Rightarrow> docker_event list \<Rightarrow> err + 'a) \<Rightarrow> ('a \<Rightarrow> string) \<Rightarrow> (docker_st, 'a) comp" where
  "dk_call c cl f out s =
     (let r = f (dk_api s) (dk_log s) in
      (r, s\<lparr>dk_log := dk_log s @ [\<lparr>de_cancellable = ctx_cancellable c, de_call = cl,
        de_out = (case r of Inl _ \<Rightarrow> None | Inr x \<Rightarrow> Some (out x))\<rparr>]\<rparr>))"

definition dk_unit :: "ctx \<Rightarrow> docker_call \<Rightarrow> (docker_api \<Rightarrow> docker_event list \<Rightarrow> err option) \<Rightarrow> (docker_st, unit) comp" where
  "dk_unit c cl f = dk_call c cl (\<lambda>a h. unit_reply (f a h)) (\<lambda>_. [])"

text \<open>\<open>defer\<close> of a call whose result is dropped\<close>

definition deferring :: "('s, 'b) comp \<Rightarrow> ('s, 'a) comp \<Rightarrow> ('s, 'a) comp" where
  "deferring fin m = bnd (attempt m) (\<lambda>r. bnd (attempt fin) (\<lambda>_. case r of Inl e \<Rightarrow> raise e | Inr x \<Rightarrow> ok x))"

section \<open>Images and volumes\<close>

definition dk_EnsureImage :: "ctx \<Rightarrow> string \<Rightarrow> (docker_st, unit) comp" where
  "dk_EnsureImage c ref =
     bnd (attempt (dk_unit c (ImageInspect ref) (\<lambda>a h. da_image_inspect a h ref))) (\<lambda>r.
     case r of
       Inr _ \<Rightarrow> ok ()
     | Inl _ \<Rightarrow>
         bnd (wrapping (''pull '' @ ref @ '': '') (dk_unit c (ImagePull ref) (\<lambda>a h. da_image_pull a h ref))) (\<lambda>_.
         dk_unit c (PullRead ref) (\<lambda>a h. da_pull_read a h ref)))"

definition dk_CreateVolume :: "ctx \<Rightarrow> string \<Rightarrow> labels \<Rightarrow> (docker_st, unit) comp" where
  "dk_CreateVolume c name ls = dk_unit c (VolumeCreate name ls) (\<lambda>a h. da_volume_create a h name ls)"

definition dk_RemoveVolume :: "ctx \<Rightarrow> string \<Rightarrow> (docker_st, unit) comp" where
  "dk_RemoveVolume c name = dk_unit c (VolumeRemove name) (\<lambda>a h. da_volume_remove a h name)"

section \<open>Containers\<close>

definition toMounts :: "mount list \<Rightarrow> docker_mount list" where
  "toMounts ms = map (\<lambda>m. \<lparr>dm_Type = (if Kind m = MountHostPath then TypeBind else TypeVolume), dm_Source = Volume m,
     dm_Target = Target m, dm_ReadOnly = ReadOnly m\<rparr>) ms"

definition helperHostConfig :: "helper_spec \<Rightarrow> host_config" where
  "helperHostConfig spec = \<lparr>hc_Mounts = toMounts (hs_Mounts spec), hc_NetworkMode = hs_Network spec,
     hc_Privileged = hs_Privileged spec, hc_Devices = map (\<lambda>dev. (dev, dev, ''rwm'')) (hs_HostDevices spec),
     hc_CapAdd = [], hc_SecurityOpt = [], hc_PortBindings = [], hc_RestartPolicy = ''''\<rparr>"

definition helper_config :: "helper_spec \<Rightarrow> container_config" where
  "helper_config spec = \<lparr>cc_Image = hs_Image spec, cc_Cmd = hs_Cmd spec, cc_Env = hs_Env spec, cc_User = hs_User spec,
     cc_Entrypoint = [], cc_Labels = [(''pgbranch.managed'', ''true''), (''pgbranch.role'', ''helper'')], cc_ExposedPorts = []\<rparr>"

definition dk_remove :: "ctx \<Rightarrow> string \<Rightarrow> (docker_st, unit) comp" where
  "dk_remove c i = dk_unit c (ContainerRemove i) (\<lambda>a h. da_remove a h i)"

definition dk_logs :: "ctx \<Rightarrow> string \<Rightarrow> (docker_st, string) comp" where
  "dk_logs c i = on_error (dk_call c (ContainerLogs i) (\<lambda>a h. da_logs a h i) (\<lambda>_. [])) (\<lambda>_. ok '''')"

definition dk_RunHelper :: "ctx \<Rightarrow> helper_spec \<Rightarrow> (docker_st, string) comp" where
  "dk_RunHelper c spec =
     bnd (dk_EnsureImage c (hs_Image spec)) (\<lambda>_.
     let cfg = helper_config spec; host = helperHostConfig spec in
     bnd (wrapping ''create helper: '' (dk_call c (ContainerCreate cfg host '''') (\<lambda>a h. da_create a h cfg host '''') (\<lambda>x. x))) (\<lambda>i.
     deferring (dk_remove (WithoutCancel c) i)
       (bnd (wrapping ''start helper: '' (dk_unit c (ContainerStart i) (\<lambda>a h. da_start a h i))) (\<lambda>_.
        bnd (dk_call c (ContainerWait i) (\<lambda>a h. da_wait a h i) (\<lambda>_. [])) (\<lambda>st.
        bnd (dk_logs c i) (\<lambda>out.
        if st \<noteq> 0 then raise (Msg (''helper exited '' @ int_str st @ '': '' @ out)) else ok out))))))"

definition dk_CloneVolume :: "ctx \<Rightarrow> string \<Rightarrow> string \<Rightarrow> labels \<Rightarrow> (docker_st, unit) comp" where
  "dk_CloneVolume c src dst ls =
     wrapping (''clone volume '' @ src @ '' -> '' @ dst @ '': '')
       (bnd (dk_CreateVolume c dst ls) (\<lambda>_.
        bnd (on_error (dk_RunHelper c (helper ''alpine:3.21'' [''sh'', ''-c'', ''cp -a /pgbranch-clone-src/. /pgbranch-clone-dst/''] []
               [volume_mount src ''/pgbranch-clone-src'' True, volume_mount dst ''/pgbranch-clone-dst'' False]))
             (\<lambda>e. bnd (attempt (dk_RemoveVolume (WithoutCancel c) dst)) (\<lambda>_. raise e))) (\<lambda>_. ok ())))"

definition branch_config :: "branch_spec \<Rightarrow> container_config" where
  "branch_config spec = \<lparr>cc_Image = bs_Image spec, cc_Cmd = [], cc_Env = bs_Env spec, cc_User = '''',
     cc_Entrypoint = bs_Entrypoint spec, cc_Labels = bs_Labels spec, cc_ExposedPorts = [''5432/tcp'']\<rparr>"

definition branch_host :: "branch_spec \<Rightarrow> host_config" where
  "branch_host spec = \<lparr>hc_Mounts = toMounts (bs_Mounts spec), hc_NetworkMode = bs_Network spec, hc_Privileged = False,
     hc_Devices = [], hc_CapAdd = [''SYS_ADMIN''], hc_SecurityOpt = [''apparmor=unconfined''],
     hc_PortBindings = [(''5432/tcp'', [(''127.0.0.1'', '''')])], hc_RestartPolicy = ''unless-stopped''\<rparr>"

definition isPortRace :: "err \<Rightarrow> bool" where
  "isPortRace e \<longleftrightarrow> (let msg = err_msg e in strings_contains msg ''address already in use'' \<or>
     strings_contains msg ''port is already allocated'' \<or> strings_contains msg ''failed to set up container networking'')"

text \<open>The loop with the attempts that are left and the error of the last one\<close>

fun start_attempts :: "ctx \<Rightarrow> branch_spec \<Rightarrow> nat \<Rightarrow> err \<Rightarrow> (docker_st, string) comp" where
  "start_attempts c spec 0 lastErr = raise lastErr"
| "start_attempts c spec (Suc k) lastErr =
     (let cfg = branch_config spec; host = branch_host spec in
      bnd (wrapping ''create branch container: '' (dk_call c (ContainerCreate cfg host (bs_Name spec))
        (\<lambda>a h. da_create a h cfg host (bs_Name spec)) (\<lambda>x. x))) (\<lambda>i.
      bnd (attempt (dk_unit c (ContainerStart i) (\<lambda>a h. da_start a h i))) (\<lambda>r.
      case r of
        Inr _ \<Rightarrow> ok i
      | Inl e \<Rightarrow>
          bnd (attempt (dk_remove (WithoutCancel c) i)) (\<lambda>_.
          let er = Wrap ''start branch container: '' e [] in
          if isPortRace e then start_attempts c spec k er else raise er))))"

definition dk_StartBranch :: "ctx \<Rightarrow> branch_spec \<Rightarrow> (docker_st, string) comp" where
  "dk_StartBranch c spec = bnd (dk_EnsureImage c (bs_Image spec)) (\<lambda>_. start_attempts c spec 3 (Msg ''''))"

text \<open>\<open>%v\<close> of a string slice\<close>

definition slice_str :: "string list \<Rightarrow> string" where
  "slice_str xs = ''['' @ strings_join xs '' '' @ '']''"

definition dk_ExecOutput :: "ctx \<Rightarrow> string \<Rightarrow> string list \<Rightarrow> (docker_st, string) comp" where
  "dk_ExecOutput c i cmd =
     bnd (dk_call c (ExecCreate i cmd) (\<lambda>a h. da_exec_create a h i cmd) (\<lambda>x. x)) (\<lambda>ex.
     bnd (dk_call c (ExecAttach ex) (\<lambda>a h. da_exec_attach a h ex) (\<lambda>_. [])) (\<lambda>(stdout, stderr).
     bnd (dk_call c (ExecInspect ex) (\<lambda>a h. da_exec_inspect a h ex) (\<lambda>_. [])) (\<lambda>code.
     if code \<noteq> 0 then raise (Msg (''exec '' @ slice_str cmd @ '' exited '' @ int_str code @ '': '' @ stderr @ stdout))
     else ok stdout)))"

definition dk_Exec :: "ctx \<Rightarrow> string \<Rightarrow> string list \<Rightarrow> (docker_st, unit) comp" where
  "dk_Exec c i cmd = bnd (dk_ExecOutput c i cmd) (\<lambda>_. ok ())"

text \<open>The value of \<open>strconv.Atoi\<close> when its error is ignored: 0 when the text is no number, the nearest bound when it is too large.\<close>

definition atoi_value :: "string \<Rightarrow> int" where
  "atoi_value s =
     (let (neg, ds) = (case s of [] \<Rightarrow> (False, []) | x # xs \<Rightarrow>
         if x = CHR ''+'' then (False, xs) else if x = CHR ''-'' then (True, xs) else (False, s))
      in if ds = [] then 0
         else case digits_value 0 ds of
           None \<Rightarrow> 0
         | Some v \<Rightarrow> if neg then max (- (2 ^ 63)) (- v) else min (2 ^ 63 - 1) v)"

definition dk_Inspect :: "ctx \<Rightarrow> string \<Rightarrow> (docker_st, container_info) comp" where
  "dk_Inspect c i =
     bnd (dk_call c (ContainerInspect i) (\<lambda>a h. da_inspect a h i) (\<lambda>_. [])) (\<lambda>j.
     ok \<lparr>ci_ID = cj_ID j, ci_Running = (cj_Running j = Some True), ci_Host = ''127.0.0.1'',
       ci_Port = (case map_of (cj_Ports j) ''5432/tcp'' of Some (p # _) \<Rightarrow> atoi_value p | _ \<Rightarrow> 0),
       ci_Labels = cj_Labels j\<rparr>)"

definition dk_StopRemove :: "ctx \<Rightarrow> string \<Rightarrow> (docker_st, unit) comp" where
  "dk_StopRemove c i =
     bnd (attempt (dk_unit c (ContainerStop i) (\<lambda>a h. da_stop a h i))) (\<lambda>_.
     bnd (gets (\<lambda>s. da_not_found (dk_api s))) (\<lambda>not_found.
     on_error (dk_remove c i) (\<lambda>e.
       if not_found e \<or> strings_contains (err_msg e) ''already in progress'' then ok () else raise e)))"

definition dk_ListManaged :: "ctx \<Rightarrow> (docker_st, container_info list) comp" where
  "dk_ListManaged c =
     (let f = [(''label'', ''pgbranch.managed=true''), (''label'', ''pgbranch.role=branch'')] in
      bnd (dk_call c (ContainerList f) (\<lambda>a h. da_list a h f) (\<lambda>_. [])) (\<lambda>cs.
      ok (map (\<lambda>(i, st, ls). \<lparr>ci_ID = i, ci_Running = (st = ''running''), ci_Host = '''', ci_Port = 0, ci_Labels = ls\<rparr>) cs)))"

definition dk_ListManagedVolumes :: "ctx \<Rightarrow> string \<Rightarrow> (docker_st, string list) comp" where
  "dk_ListManagedVolumes c inst =
     (let f = [(''label'', ''pgbranch.managed=true''), (''label'', LabelInstance @ ''='' @ inst)] in
      dk_call c (VolumeList f) (\<lambda>a h. da_volume_list a h f) (\<lambda>_. []))"

section \<open>The driver as an implementation of the interface\<close>

definition err_of :: "(err + 'a) \<times> 's \<Rightarrow> err option" where
  "err_of r = (case fst r of Inl e \<Rightarrow> Some e | Inr _ \<Rightarrow> None)"

text \<open>The daemon after the calls that the engine's trace records\<close>

fun dk_do :: "ctx \<Rightarrow> drv_call \<Rightarrow> docker_st \<Rightarrow> docker_st" where
  "dk_do c (CEnsureImage x) s = snd (dk_EnsureImage c x s)"
| "dk_do c (CCreateVolume x ls) s = snd (dk_CreateVolume c x ls s)"
| "dk_do c (CRemoveVolume x) s = snd (dk_RemoveVolume c x s)"
| "dk_do c (CCloneVolume x y ls) s = snd (dk_CloneVolume c x y ls s)"
| "dk_do c (CRunHelper sp) s = snd (dk_RunHelper c sp s)"
| "dk_do c (CStartBranch sp) s = snd (dk_StartBranch c sp s)"
| "dk_do c (CExec i cmd) s = snd (dk_Exec c i cmd s)"
| "dk_do c (CExecOutput i cmd) s = snd (dk_ExecOutput c i cmd s)"
| "dk_do c (CInspect i) s = snd (dk_Inspect c i s)"
| "dk_do c (CStopRemove i) s = snd (dk_StopRemove c i s)"
| "dk_do c CListManaged s = snd (dk_ListManaged c s)"
| "dk_do c (CListManagedVolumes i) s = snd (dk_ListManagedVolumes c i s)"

definition call_ctx :: "drv_event \<Rightarrow> ctx" where
  "call_ctx ev = \<lparr>ctx_actor = None, ctx_cancellable = ev_cancellable ev\<rparr>"

definition dk_after :: "docker_api \<Rightarrow> hist \<Rightarrow> docker_st" where
  "dk_after a h = fold (\<lambda>ev. dk_do (call_ctx ev) (ev_call ev)) h \<lparr>dk_api = a, dk_log = []\<rparr>"

definition docker_driver :: "docker_api \<Rightarrow> driver" where
  "docker_driver a = \<lparr>
     EnsureImage = (\<lambda>h x. err_of (dk_EnsureImage Background x (dk_after a h))),
     CreateVolume = (\<lambda>h x ls. err_of (dk_CreateVolume Background x ls (dk_after a h))),
     RemoveVolume = (\<lambda>h x. err_of (dk_RemoveVolume Background x (dk_after a h))),
     CloneVolume = (\<lambda>h x y ls. err_of (dk_CloneVolume Background x y ls (dk_after a h))),
     RunHelper = (\<lambda>h sp. fst (dk_RunHelper Background sp (dk_after a h))),
     StartBranch = (\<lambda>h sp. fst (dk_StartBranch Background sp (dk_after a h))),
     Exec = (\<lambda>h i cmd. err_of (dk_Exec Background i cmd (dk_after a h))),
     ExecOutput = (\<lambda>h i cmd. fst (dk_ExecOutput Background i cmd (dk_after a h))),
     Inspect = (\<lambda>h i. fst (dk_Inspect Background i (dk_after a h))),
     StopRemove = (\<lambda>h i. err_of (dk_StopRemove Background i (dk_after a h))),
     ListManaged = (\<lambda>h. fst (dk_ListManaged Background (dk_after a h))),
     ListManagedVolumes = (\<lambda>h i. fst (dk_ListManagedVolumes Background i (dk_after a h)))\<rparr>"

lemma deferring_keeps [keeps_rules]: "keeps I fin \<Longrightarrow> keeps I m \<Longrightarrow> keeps I (deferring fin m)"
  unfolding deferring_def by (intro keeps_rules)

lemma dk_call_keeps:
  "keeps (\<lambda>s. dk_api s = a) (dk_call c cl f out)" "keeps (\<lambda>s. dk_api s = a) (dk_unit c cl g)"
  by (simp_all add: keeps_def dk_unit_def dk_call_def Let_def)

lemma attempts_keep_api: "keeps (\<lambda>s. dk_api s = a) (start_attempts c sp k e)"
  by (induction k arbitrary: e) (auto simp: Let_def dk_remove_def intro!: keeps_rules dk_call_keeps)

lemma dk_ops_keep_api:
  "keeps (\<lambda>s. dk_api s = a) (dk_EnsureImage c x)" "keeps (\<lambda>s. dk_api s = a) (dk_CreateVolume c x ls)"
  "keeps (\<lambda>s. dk_api s = a) (dk_RemoveVolume c x)" "keeps (\<lambda>s. dk_api s = a) (dk_RunHelper c hs)"
  "keeps (\<lambda>s. dk_api s = a) (dk_CloneVolume c x y ls)" "keeps (\<lambda>s. dk_api s = a) (dk_StartBranch c bs)"
  "keeps (\<lambda>s. dk_api s = a) (dk_ExecOutput c x cmd)" "keeps (\<lambda>s. dk_api s = a) (dk_Exec c x cmd)"
  "keeps (\<lambda>s. dk_api s = a) (dk_Inspect c x)" "keeps (\<lambda>s. dk_api s = a) (dk_StopRemove c x)"
  "keeps (\<lambda>s. dk_api s = a) (dk_ListManaged c)" "keeps (\<lambda>s. dk_api s = a) (dk_ListManagedVolumes c x)"
  unfolding dk_EnsureImage_def dk_CreateVolume_def dk_RemoveVolume_def dk_CloneVolume_def dk_RunHelper_def dk_StartBranch_def
    dk_Exec_def dk_ExecOutput_def dk_Inspect_def dk_StopRemove_def dk_ListManaged_def dk_ListManagedVolumes_def dk_logs_def
    dk_remove_def Let_def
  by (intro keeps_rules dk_call_keeps attempts_keep_api)+

lemma dk_do_keeps_api: "dk_api (dk_do c cl s) = dk_api s"
  using dk_ops_keep_api [where a = "dk_api s"] by (cases cl) (simp_all add: keeps_def)

lemma dk_after_api [simp]: "dk_api (dk_after a h) = a"
proof -
  have "dk_api (fold (\<lambda>ev. dk_do (call_ctx ev) (ev_call ev)) h s) = dk_api s" for s
    by (induction h arbitrary: s) (simp_all add: dk_do_keeps_api)
  then show ?thesis by (simp add: dk_after_def)
qed

section \<open>What the engine relies on\<close>

text \<open>
  A daemon that carries out what it is asked: the image is there or can be pulled, containers start, commands
  exit with 0. Stopping, reading logs and removing helpers may still fail, and removing a container may find it
  gone or already being removed.
\<close>

definition willing :: "docker_api \<Rightarrow> bool" where
  "willing a \<longleftrightarrow>
     (\<forall>x. (\<forall>h. da_image_inspect a h x = None) \<or> (\<forall>h. da_image_pull a h x = None \<and> da_pull_read a h x = None)) \<and>
     (\<forall>h x ls cfg host n cmd.
     da_volume_create a h x ls = None \<and> da_volume_remove a h x = None \<and> (\<exists>i. da_create a h cfg host n = Inr i) \<and>
     da_start a h x = None \<and> da_wait a h x = Inr 0 \<and> (\<exists>i. da_exec_create a h x cmd = Inr i) \<and>
     (\<exists>o2. da_exec_attach a h x = Inr o2) \<and> da_exec_inspect a h x = Inr 0 \<and> (\<exists>j. da_inspect a h x = Inr j) \<and>
     (case da_remove a h x of None \<Rightarrow> True | Some e \<Rightarrow> da_not_found a e \<or> strings_contains (err_msg e) ''already in progress''))"

definition does :: "docker_api \<Rightarrow> (docker_st, 'a) comp \<Rightarrow> bool" where
  "does a m \<longleftrightarrow> (\<forall>s. dk_api s = a \<longrightarrow> (\<exists>x t. m s = (Inr x, t) \<and> dk_api t = a))"

lemma doesI: "(\<And>s. dk_api s = a \<Longrightarrow> \<exists>x t. m s = (Inr x, t) \<and> dk_api t = a) \<Longrightarrow> does a m"
  by (simp add: does_def)

lemma does_ok: "does a (ok x)"
  by (simp add: does_def ok_run)

lemma does_bnd: "does a m \<Longrightarrow> (\<And>x. does a (f x)) \<Longrightarrow> does a (bnd m f)"
  by (fastforce simp: does_def bnd_run)

lemma does_wrapping: "does a m \<Longrightarrow> does a (wrapping w m)"
  by (fastforce simp: does_def wrapping_run)

lemma does_on_error: "does a m \<Longrightarrow> does a (on_error m f)"
  by (fastforce simp: does_def on_error_run)

lemma does_attempt: "does a m \<Longrightarrow> (\<And>x. does a (f (Inr x))) \<Longrightarrow> does a (bnd (attempt m) f)"
  by (fastforce simp: does_def bnd_run attempt_run)

lemma does_ignored: "keeps (\<lambda>s. dk_api s = a) m \<Longrightarrow> (\<And>x. does a (f x)) \<Longrightarrow> does a (bnd (attempt m) f)"
  by (fastforce simp: does_def keeps_def bnd_run attempt_run split: prod.splits)

lemma does_deferring: "keeps (\<lambda>s. dk_api s = a) fin \<Longrightarrow> does a m \<Longrightarrow> does a (deferring fin m)"
  unfolding deferring_def by (intro does_attempt does_ignored) (simp_all add: does_ok)

lemma does_call: "(\<And>h. \<exists>x. f a h = Inr x) \<Longrightarrow> does a (dk_call c cl f out)"
  by (auto simp: does_def dk_call_def Let_def)

lemma does_unit: "(\<And>h. f a h = None) \<Longrightarrow> does a (dk_unit c cl f)"
  unfolding dk_unit_def by (rule does_call) (simp add: unit_reply_def)

lemma does_fst: "does a m \<Longrightarrow> \<exists>x. fst (m (dk_after a h)) = Inr x"
  unfolding does_def by (metis dk_after_api fst_conv)

lemma does_err_of: "does a m \<Longrightarrow> err_of (m (dk_after a h)) = None"
  using does_fst [of a m h] by (auto simp: err_of_def)

lemma does_image:
  assumes "willing a"
  shows "does a (dk_EnsureImage c x)"
proof (cases "\<forall>h. da_image_inspect a h x = None")
  case True
  then show ?thesis unfolding dk_EnsureImage_def by (intro does_attempt does_unit) (simp_all add: does_ok)
next
  case False
  then have "\<forall>h. da_image_pull a h x = None \<and> da_pull_read a h x = None" using assms unfolding willing_def by blast
  then have "does a (case r of Inr _ \<Rightarrow> ok () | Inl _ \<Rightarrow>
      bnd (wrapping (''pull '' @ x @ '': '') (dk_unit c (ImagePull x) (\<lambda>a h. da_image_pull a h x))) (\<lambda>_.
      dk_unit c (PullRead x) (\<lambda>a h. da_pull_read a h x)))" for r :: "err + unit"
    by (cases r) (auto intro!: does_ok does_bnd does_wrapping does_unit)
  then show ?thesis unfolding dk_EnsureImage_def by (intro does_ignored dk_call_keeps)
qed

lemma willing_calls:
  assumes "willing a"
  shows "does a (dk_unit c1 cl1 (\<lambda>a h. da_volume_create a h x ls))" "does a (dk_unit c2 cl2 (\<lambda>a h. da_volume_remove a h x))"
    "does a (dk_call c3 cl3 (\<lambda>a h. da_create a h cfg host n) out3)" "does a (dk_unit c4 cl4 (\<lambda>a h. da_start a h x))"
    "does a (dk_call c5 cl5 (\<lambda>a h. da_exec_create a h x cmd) out5)" "does a (dk_call c6 cl6 (\<lambda>a h. da_exec_attach a h x) out6)"
    "does a (dk_call c7 cl7 (\<lambda>a h. da_inspect a h x) out7)"
  using assms by (auto simp: willing_def intro!: does_unit does_call)

text \<open>A call with a known answer\<close>

lemma does_known:
  assumes "\<And>h. f a h = Inr v" "does a (g v)"
  shows "does a (bnd (dk_call c cl f out) g)"
  using assms by (auto simp: does_def bnd_run dk_call_def Let_def)

lemma does_helper:
  assumes "willing a"
  shows "does a (dk_RunHelper c sp)"
proof -
  have logs: "does a (dk_logs c i)" for i
    by (rule doesI) (auto simp: dk_logs_def on_error_run dk_call_def ok_run Let_def split: sum.splits)
  have rm: "keeps (\<lambda>s. dk_api s = a) (dk_remove d i)" for d i unfolding dk_remove_def by (rule dk_call_keeps)
  have st: "da_wait a h i = Inr 0" for h i using assms by (simp add: willing_def)
  show ?thesis unfolding dk_RunHelper_def Let_def
    by (intro does_bnd does_image does_wrapping willing_calls does_deferring rm does_known [where v = 0] st assms)
      (auto intro!: does_bnd logs does_ok)
qed

lemma does_ops:
  assumes "willing a"
  shows "does a (dk_CreateVolume c x ls)" "does a (dk_RemoveVolume c x)" "does a (dk_CloneVolume c x y ls)"
    "does a (dk_StartBranch c sp)" "does a (dk_ExecOutput c x cmd)" "does a (dk_Exec c x cmd)"
proof -
  show v: "does a (dk_CreateVolume c x ls)" "does a (dk_RemoveVolume c x)" for x
    unfolding dk_CreateVolume_def dk_RemoveVolume_def by (intro willing_calls assms)+
  show "does a (dk_CloneVolume c x y ls)"
    unfolding dk_CloneVolume_def by (intro does_wrapping does_bnd v does_on_error does_helper does_ok assms)
  have "does a (start_attempts c sp (Suc k) e)" for k e
    unfolding start_attempts.simps Let_def by (intro does_bnd does_wrapping does_attempt willing_calls assms) (simp add: does_ok)
  then show "does a (dk_StartBranch c sp)" unfolding dk_StartBranch_def numeral_3_eq_3 by (intro does_bnd does_image assms)
  have "da_exec_inspect a h i = Inr 0" for h i using assms by (simp add: willing_def)
  then show x: "does a (dk_ExecOutput c x cmd)"
    unfolding dk_ExecOutput_def by (intro does_bnd willing_calls assms) (auto intro!: does_known [where v = 0] does_ok)
  then show "does a (dk_Exec c x cmd)" unfolding dk_Exec_def by (intro does_bnd does_ok)
qed

lemma stop_does:
  assumes "willing a"
  shows "does a (dk_StopRemove c i)"
proof -
  have "does a (on_error (dk_remove c i) (\<lambda>e. if da_not_found a e \<or> strings_contains (err_msg e) ''already in progress'' then ok () else raise e))"
  proof (rule doesI)
    fix s :: docker_st assume s: "dk_api s = a"
    have "case da_remove a (dk_log s) i of None \<Rightarrow> True | Some e \<Rightarrow> da_not_found a e \<or> strings_contains (err_msg e) ''already in progress''"
      using assms unfolding willing_def by blast
    then show "\<exists>x t. on_error (dk_remove c i) (\<lambda>e. if da_not_found a e \<or> strings_contains (err_msg e) ''already in progress'' then ok () else raise e) s =
        (Inr x, t) \<and> dk_api t = a"
      using s by (auto simp: on_error_run dk_remove_def dk_unit_def dk_call_def unit_reply_def Let_def ok_run split: option.splits)
  qed
  then have "does a (bnd (gets (\<lambda>s. da_not_found (dk_api s))) (\<lambda>nf.
      on_error (dk_remove c i) (\<lambda>e. if nf e \<or> strings_contains (err_msg e) ''already in progress'' then ok () else raise e)))"
    by (auto simp: does_def bnd_run gets_run)
  then show ?thesis unfolding dk_StopRemove_def by (intro does_ignored dk_call_keeps)
qed

text \<open>
  C27: On a Docker daemon that carries out what it is asked, the Docker driver is a driver that carries out every
  call, which is what the success of the engine's operations rests on; this includes that a container is
  reported under a non-empty address, and that stopping a container succeeds when it is gone or being removed.
\<close>

theorem docker_driver_obliges:
  assumes "willing a"
  shows "obliging (docker_driver a)"
proof -
  have "\<exists>r. fst (dk_Inspect c x (dk_after a h)) = Inr r \<and> ci_Host r \<noteq> []" for c x h
  proof -
    obtain j where "da_inspect a (dk_log (dk_after a h)) x = Inr j" using assms unfolding willing_def by blast
    then show ?thesis by (simp add: dk_Inspect_def bnd_run dk_call_def Let_def ok_run)
  qed
  then show ?thesis
    using assms by (simp add: obliging_def docker_driver_def does_err_of does_fst does_image does_helper does_ops stop_does)
qed

definition sample_docker :: docker_api where
  "sample_docker = \<lparr>da_image_inspect = (\<lambda>_ _. Some (Msg ''no such image'')), da_image_pull = (\<lambda>_ _. None), da_pull_read = (\<lambda>_ _. None),
     da_volume_create = (\<lambda>_ _ _. None), da_volume_remove = (\<lambda>_ _. None), da_create = (\<lambda>h _ _ _. Inr (''k'' @ nat_str (length h))),
     da_start = (\<lambda>_ _. None), da_wait = (\<lambda>_ _. Inr 0), da_logs = (\<lambda>_ _. Inl (Msg ''no logs'')),
     da_remove = (\<lambda>_ _. Some (Msg ''removal of container k already in progress'')), da_stop = (\<lambda>_ _. Some (Msg ''gone'')),
     da_exec_create = (\<lambda>_ _ _. Inr ''x''), da_exec_attach = (\<lambda>_ _. Inr ([], [])), da_exec_inspect = (\<lambda>_ _. Inr 0),
     da_inspect = (\<lambda>_ i. Inr \<lparr>cj_ID = i, cj_Running = Some True, cj_Labels = [], cj_Ports = [(''5432/tcp'', [''49153''])]\<rparr>),
     da_list = (\<lambda>_ _. Inr []), da_volume_list = (\<lambda>_ _. Inr []), da_not_found = (\<lambda>_. False)\<rparr>"

theorem docker_driver_obliges_witness: "obliging (docker_driver sample_docker)"
  by (rule docker_driver_obliges) (simp add: willing_def sample_docker_def)

section \<open>Containers left behind\<close>

text \<open>
  The containers that a log of calls creates and does not ask to remove afterwards with a context that cannot be
  cancelled.
\<close>

fun left_behind :: "string set \<Rightarrow> docker_event list \<Rightarrow> string set" where
  "left_behind A [] = A"
| "left_behind A (e # es) = left_behind (case de_call e of
      ContainerCreate _ _ _ \<Rightarrow> (case de_out e of Some i \<Rightarrow> insert i A | None \<Rightarrow> A)
    | ContainerRemove i \<Rightarrow> if de_cancellable e then A else A - {i}
    | _ \<Rightarrow> A) es"

lemma left_behind_append: "left_behind A (xs @ ys) = left_behind (left_behind A xs) ys"
  by (induction xs arbitrary: A) simp_all

definition leaving :: "string set \<Rightarrow> docker_st \<Rightarrow> bool" where
  "leaving A s \<longleftrightarrow> left_behind {} (dk_log s) \<subseteq> A"

lemma leaving_call:
  assumes "\<And>x y z. cl \<noteq> ContainerCreate x y z"
  shows "keeps (leaving A) (dk_call c cl f out)"
  using assms by (cases cl) (auto simp: keeps_def leaving_def dk_call_def Let_def left_behind_append)

lemma leaving_unit: "(\<And>x y z. cl \<noteq> ContainerCreate x y z) \<Longrightarrow> keeps (leaving A) (dk_unit c cl f)"
  unfolding dk_unit_def by (rule leaving_call)

lemma leaving_image: "keeps (leaving A) (dk_EnsureImage c x)"
  unfolding dk_EnsureImage_def by (intro keeps_rules leaving_unit; simp)

lemma leaving_create:
  "hoare (leaving A) (wrapping w (dk_call c (ContainerCreate cfg host n) f (\<lambda>x. x))) (\<lambda>i. leaving (insert i A)) (\<lambda>_. leaving A)"
  by (auto simp: hoare_def leaving_def dk_call_def wrapping_run Let_def left_behind_append split: sum.splits)

lemma leaving_remove: "leaving (insert i A) s \<Longrightarrow> leaving A (snd (dk_remove (WithoutCancel c) i s))"
  by (auto simp: leaving_def dk_remove_def dk_unit_def dk_call_def Let_def left_behind_append WithoutCancel_def)

lemma deferring_clears:
  assumes "keeps J m" "\<And>s. J s \<Longrightarrow> I (snd (fin s))"
  shows "hoare J (deferring fin m) (\<lambda>_. I) (\<lambda>_. I)"
proof -
  have "I (snd (deferring fin m s))" if "J s" for s
    using assms(1) that assms(2) [of "snd (m s)"]
    by (auto simp: keeps_def deferring_def bnd_run attempt_run ok_run raise_run split: prod.splits sum.splits)
  then show ?thesis by (intro hoareI) (metis snd_conv)+
qed

lemma keeps_to_hoare: "keeps I m \<Longrightarrow> hoare I m (\<lambda>_. I) (\<lambda>_. I)"
  by (simp add: keeps_hoare)

lemma leaving_helper: "keeps (leaving A) (dk_RunHelper c sp)"
proof -
  have body: "keeps (leaving B) (bnd (wrapping ''start helper: '' (dk_unit c (ContainerStart i) (\<lambda>a h. da_start a h i))) (\<lambda>_.
        bnd (dk_call c (ContainerWait i) (\<lambda>a h. da_wait a h i) (\<lambda>_. [])) (\<lambda>st.
        bnd (dk_logs c i) (\<lambda>out.
        if st \<noteq> 0 then raise (Msg (''helper exited '' @ int_str st @ '': '' @ out)) else ok out))))" for i B
    unfolding dk_logs_def by (intro keeps_rules leaving_unit leaving_call; simp)
  show ?thesis unfolding keeps_hoare dk_RunHelper_def Let_def
    by (rule hoare_bnd [OF keeps_to_hoare [OF leaving_image]], rule hoare_bnd [OF leaving_create],
      rule deferring_clears, rule body, erule leaving_remove)
qed

lemma leaving_attempts: "hoare (leaving A) (start_attempts c sp k e) (\<lambda>i. leaving (insert i A)) (\<lambda>_. leaving A)"
proof (induction k arbitrary: e)
  case 0
  then show ?case by (auto intro: hoare_raise)
next
  case (Suc k)
  have start: "hoare (leaving B) (attempt (dk_unit c (ContainerStart i) (\<lambda>a h. da_start a h i))) (\<lambda>_. leaving B) E" for B i E
    by (rule hoare_attempt) (rule keeps_to_hoare, rule leaving_unit, simp)
  have rm: "hoare (leaving (insert i A)) (attempt (dk_remove (WithoutCancel c) i)) (\<lambda>_. leaving A) E" for i E
  proof (rule hoareI)
    fix s x t assume "leaving (insert i A) s" "attempt (dk_remove (WithoutCancel c) i) s = (Inr x, t)"
    then show "leaving A t" using leaving_remove [of i A s c] by (auto simp: attempt_run split: prod.splits)
  qed (auto simp: attempt_run split: prod.splits)
  have "hoare (leaving (insert i A)) (case r of Inr _ \<Rightarrow> ok i | Inl e \<Rightarrow> bnd (attempt (dk_remove (WithoutCancel c) i)) (\<lambda>_.
      let er = Wrap ''start branch container: '' e [] in if isPortRace e then start_attempts c sp k er else raise er))
      (\<lambda>i. leaving (insert i A)) (\<lambda>_. leaving A)" for i and r :: "err + unit"
    by (cases r) (auto simp: Let_def intro!: hoare_ok hoare_bnd [OF rm] Suc hoare_raise)
  then show ?case unfolding start_attempts.simps Let_def
    by (intro hoare_bnd [OF leaving_create] hoare_bnd [OF start])
qed

text \<open>
  The Docker driver leaves no container behind, whatever the daemon answers: every helper container it
  creates, also the one that clones a volume, is removed again with a context that cannot be cancelled, and
  starting a branch leaves nothing but the container whose id it returns.
\<close>

theorem docker_leaves_no_container_behind:
  "left_behind {} (dk_log (snd (dk_RunHelper c hs s))) \<subseteq> left_behind {} (dk_log s) \<and>
   left_behind {} (dk_log (snd (dk_CloneVolume c x y ls s))) \<subseteq> left_behind {} (dk_log s) \<and>
   (case dk_StartBranch c sp s of
      (Inr i, t) \<Rightarrow> left_behind {} (dk_log t) \<subseteq> insert i (left_behind {} (dk_log s))
    | (Inl e, t) \<Rightarrow> left_behind {} (dk_log t) \<subseteq> left_behind {} (dk_log s))"
proof -
  let ?A = "left_behind {} (dk_log s)"
  have s: "leaving ?A s" by (simp add: leaving_def)
  have cl: "keeps (leaving ?A) (dk_CloneVolume c x y ls)"
    unfolding dk_CloneVolume_def dk_CreateVolume_def dk_RemoveVolume_def by (intro keeps_rules leaving_unit leaving_helper; simp)
  have st: "hoare (leaving ?A) (dk_StartBranch c sp) (\<lambda>i. leaving (insert i ?A)) (\<lambda>_. leaving ?A)"
    unfolding dk_StartBranch_def by (rule hoare_bnd [OF keeps_to_hoare [OF leaving_image] leaving_attempts])
  have "leaving ?A (snd (dk_RunHelper c hs s))" "leaving ?A (snd (dk_CloneVolume c x y ls s))"
    using s cl leaving_helper by (simp_all add: keeps_def)
  moreover have "case dk_StartBranch c sp s of (Inl e, t) \<Rightarrow> leaving ?A t | (Inr i, t) \<Rightarrow> leaving (insert i ?A) t"
    by (rule mp [OF spec [OF st [unfolded hoare_def]] s])
  ultimately show ?thesis unfolding leaving_def
    by (cases "dk_StartBranch c sp s") (simp split: sum.splits)
qed

end
