(* ===== verification/Kube_Pods.thy ===== *)
theory Kube_Pods
  imports Docker_Driver
begin

text \<open>
  Pod and claim specifications of the Kubernetes driver (\<open>internal/runtime/kube_podspec.go\<close>, the pure part of
  \<open>kube_csi.go\<close>), with the two storage strategies, and \<open>path.Join\<close>, which maps a volume name to its directory.
\<close>

section \<open>Paths\<close>

text \<open>\<open>path.Clean\<close> on the elements of a path; the elements kept so far are in reverse.\<close>

fun clean_parts :: "bool \<Rightarrow> string list \<Rightarrow> string list \<Rightarrow> string list" where
  "clean_parts rooted out [] = rev out"
| "clean_parts rooted out (p # ps) =
     (if p = '''' \<or> p = ''.'' then clean_parts rooted out ps
      else if p = ''..'' then
        (case out of
           [] \<Rightarrow> clean_parts rooted (if rooted then [] else [''..'']) ps
         | x # xs \<Rightarrow> if x \<noteq> ''..'' then clean_parts rooted xs ps else clean_parts rooted (''..'' # out) ps)
      else clean_parts rooted (p # out) ps)"

definition path_Clean :: "string \<Rightarrow> string" where
  "path_Clean p =
     (if p = '''' then ''.''
      else let rooted = (hd p = CHR ''/''); parts = clean_parts rooted [] (strings_split p (CHR ''/'')) in
        if rooted then ''/'' @ strings_join parts ''/'' else if parts = [] then ''.'' else strings_join parts ''/'')"

definition path_Join :: "string list \<Rightarrow> string" where
  "path_Join es = (case dropWhile (\<lambda>e. e = '''') es of [] \<Rightarrow> '''' | fs \<Rightarrow> path_Clean (strings_join fs ''/''))"

section \<open>Objects\<close>

datatype volume_source = HostPathSource string string | ClaimSource string bool

record pod_volume =
  pv_Name :: string
  pv_Source :: volume_source

record pod_mount =
  pm_Name :: string
  pm_MountPath :: string
  pm_ReadOnly :: bool

record security_context =
  sc_RunAsUser :: "int option"
  sc_RunAsGroup :: "int option"
  sc_Privileged :: "bool option"
  sc_CapAdd :: "string list"
  sc_Seccomp :: "string option"
  sc_AppArmor :: "string option"

record pod_container =
  pc_Name :: string
  pc_Image :: string
  pc_Command :: "string list"
  pc_Env :: "(string \<times> string) list"
  pc_VolumeMounts :: "pod_mount list"
  pc_Ports :: "int list"
  pc_Security :: "security_context option"

record pod =
  pod_Name :: string
  pod_GenerateName :: string
  pod_Namespace :: string
  pod_Labels :: labels
  pod_NodeName :: string
  pod_RestartPolicy :: string
  pod_Automount :: "bool option"
  pod_Volumes :: "pod_volume list"
  pod_Containers :: "pod_container list"

record data_source =
  ds_APIGroup :: "string option"
  ds_Kind :: string
  ds_Name :: string

record pvc =
  pvc_Name :: string
  pvc_Namespace :: string
  pvc_Labels :: labels
  pvc_AccessModes :: "string list"
  pvc_StorageClass :: string
  pvc_Size :: string
  pvc_DataSource :: "data_source option"

record volume_snapshot =
  vs_Name :: string
  vs_Namespace :: string
  vs_Labels :: labels
  vs_Class :: string
  vs_SourcePVC :: string

text \<open>The strategies behind \<open>kubeStorage\<close>: node and data root, or storage class, snapshot class and volume size.\<close>

datatype kube_storage = HostPathStorage string string | CSIStorage string string string

section \<open>Names\<close>

definition volume_rest :: "char \<Rightarrow> bool" where
  "volume_rest c \<longleftrightarrow> name_start c \<or> c = CHR ''.'' \<or> c = CHR ''-''"

definition validVolumeName :: "string \<Rightarrow> err option" where
  "validVolumeName name =
     (if (case name of [] \<Rightarrow> False | c # cs \<Rightarrow> name_start c \<and> list_all volume_rest cs \<and> length cs \<le> 200) then None
      else Some (Msg (''invalid volume name '' @ go_quote name)))"

definition volumeHostPath :: "string \<Rightarrow> string \<Rightarrow> string" where
  "volumeHostPath dataRoot v = path_Join [dataRoot, v]"

definition dataRootMountPath :: string where "dataRootMountPath = ''/pgbranch-root''"

definition volumeLabelsFile :: string where "volumeLabelsFile = ''.pgbranch-labels.json''"

section \<open>Pods\<close>

text \<open>\<open>strings.Cut\<close> at the first equals sign\<close>

definition kubeEnv :: "string list \<Rightarrow> (string \<times> string) list" where
  "kubeEnv env = map (\<lambda>e. (takeWhile (\<lambda>c. c \<noteq> CHR ''='') e, drop 1 (dropWhile (\<lambda>c. c \<noteq> CHR ''='') e))) env"

definition vol_name :: "nat \<Rightarrow> string" where "vol_name i = ''vol-'' @ nat_str i"

definition mount_of :: "nat \<times> mount \<Rightarrow> pod_mount" where
  "mount_of im = \<lparr>pm_Name = vol_name (fst im), pm_MountPath = Target (snd im), pm_ReadOnly = ReadOnly (snd im)\<rparr>"

definition hostPathPodVolumes :: "string \<Rightarrow> mount list \<Rightarrow> pod_volume list \<times> pod_mount list" where
  "hostPathPodVolumes dataRoot ms =
     (map (\<lambda>(i, m). \<lparr>pv_Name = vol_name i,
        pv_Source = (if Kind m = MountHostPath then HostPathSource (Volume m) ''Directory''
                     else HostPathSource (volumeHostPath dataRoot (Volume m)) ''DirectoryOrCreate'')\<rparr>) (enumerate 0 ms),
      map mount_of (enumerate 0 ms))"

definition csiPodVolumes :: "mount list \<Rightarrow> pod_volume list \<times> pod_mount list" where
  "csiPodVolumes ms =
     (map (\<lambda>(i, m). \<lparr>pv_Name = vol_name i,
        pv_Source = (if Kind m = MountHostPath then HostPathSource (Volume m) ''Directory''
                     else ClaimSource (Volume m) (ReadOnly m))\<rparr>) (enumerate 0 ms),
      map mount_of (enumerate 0 ms))"

fun podVolumes :: "kube_storage \<Rightarrow> mount list \<Rightarrow> pod_volume list \<times> pod_mount list" where
  "podVolumes (HostPathStorage node root) ms = hostPathPodVolumes root ms"
| "podVolumes (CSIStorage class snap sz) ms = csiPodVolumes ms"

fun nodeName :: "kube_storage \<Rightarrow> string" where
  "nodeName (HostPathStorage node root) = node"
| "nodeName (CSIStorage class snap sz) = ''''"

definition no_security :: security_context where
  "no_security = \<lparr>sc_RunAsUser = None, sc_RunAsGroup = None, sc_Privileged = None, sc_CapAdd = [], sc_Seccomp = None, sc_AppArmor = None\<rparr>"

fun branchSecurityContext :: "kube_storage \<Rightarrow> security_context option" where
  "branchSecurityContext (HostPathStorage node root) =
     Some (no_security\<lparr>sc_CapAdd := [''SYS_ADMIN''], sc_Seccomp := Some ''Unconfined'', sc_AppArmor := Some ''Unconfined''\<rparr>)"
| "branchSecurityContext (CSIStorage class snap sz) = None"

definition helperSecurityContext :: "string \<Rightarrow> security_context option" where
  "helperSecurityContext user =
     (if user = '''' then None
      else let uid = (case ParseInt64 user of Some n \<Rightarrow> n | None \<Rightarrow> 999) in
        Some (no_security\<lparr>sc_RunAsUser := Some uid, sc_RunAsGroup := Some uid\<rparr>))"

definition buildHelperPod :: "string \<Rightarrow> kube_storage \<Rightarrow> helper_spec \<Rightarrow> pod" where
  "buildHelperPod ns st spec =
     (let (vols, mounts) = podVolumes st (hs_Mounts spec);
          sc = helperSecurityContext (hs_User spec);
          sc' = (if hs_Privileged spec then Some ((case sc of None \<Rightarrow> no_security | Some x \<Rightarrow> x)\<lparr>sc_Privileged := Some True\<rparr>) else sc)
      in \<lparr>pod_Name = '''', pod_GenerateName = ''pgbranch-helper-'', pod_Namespace = ns,
          pod_Labels = [(''pgbranch.managed'', ''true''), (''pgbranch.role'', ''helper'')],
          pod_NodeName = nodeName st, pod_RestartPolicy = ''Never'', pod_Automount = Some False, pod_Volumes = vols,
          pod_Containers = [\<lparr>pc_Name = ''helper'', pc_Image = hs_Image spec, pc_Command = hs_Cmd spec, pc_Env = kubeEnv (hs_Env spec),
            pc_VolumeMounts = mounts, pc_Ports = [], pc_Security = sc'\<rparr>]\<rparr>)"

definition buildBranchPod :: "string \<Rightarrow> kube_storage \<Rightarrow> branch_spec \<Rightarrow> pod" where
  "buildBranchPod ns st spec =
     (let (vols, mounts) = podVolumes st (bs_Mounts spec)
      in \<lparr>pod_Name = bs_Name spec, pod_GenerateName = '''', pod_Namespace = ns, pod_Labels = bs_Labels spec,
          pod_NodeName = nodeName st, pod_RestartPolicy = ''Always'', pod_Automount = Some False, pod_Volumes = vols,
          pod_Containers = [\<lparr>pc_Name = ''postgres'', pc_Image = bs_Image spec, pc_Command = bs_Entrypoint spec,
            pc_Env = kubeEnv (bs_Env spec), pc_VolumeMounts = mounts, pc_Ports = [5432],
            pc_Security = branchSecurityContext st\<rparr>]\<rparr>)"

text \<open>The pod of \<open>runRootHelper\<close>, which also mounts the whole data root\<close>

definition rootHelperPod :: "string \<Rightarrow> kube_storage \<Rightarrow> string \<Rightarrow> string \<Rightarrow> string list \<Rightarrow> pod" where
  "rootHelperPod ns st dataRoot cmd env =
     (let p = buildHelperPod ns st (helper ''alpine:3.21'' [''sh'', ''-c'', cmd] env []);
          add = \<lparr>pm_Name = ''data-root'', pm_MountPath = dataRootMountPath, pm_ReadOnly = False\<rparr>
      in p\<lparr>pod_Volumes := pod_Volumes p @ [\<lparr>pv_Name = ''data-root'', pv_Source = HostPathSource dataRoot ''DirectoryOrCreate''\<rparr>],
           pod_Containers := map (\<lambda>k. k\<lparr>pc_VolumeMounts := pc_VolumeMounts k @ [add]\<rparr>) (take 1 (pod_Containers p)) @ drop 1 (pod_Containers p)\<rparr>)"

section \<open>Claims and snapshots (\<open>kube_csi.go\<close>)\<close>

definition buildPVC :: "string \<Rightarrow> string \<Rightarrow> string \<Rightarrow> string \<Rightarrow> labels \<Rightarrow> data_source option \<Rightarrow> pvc" where
  "buildPVC ns name class sz ls src = \<lparr>pvc_Name = name, pvc_Namespace = ns, pvc_Labels = ls, pvc_AccessModes = [''ReadWriteOnce''],
     pvc_StorageClass = class, pvc_Size = sz, pvc_DataSource = src\<rparr>"

definition snapshotName :: "string \<Rightarrow> string" where "snapshotName dst = dst @ ''-snap''"

definition snapshotGroup :: string where "snapshotGroup = ''snapshot.storage.k8s.io''"

definition buildVolumeSnapshot :: "string \<Rightarrow> string \<Rightarrow> string \<Rightarrow> string \<Rightarrow> labels \<Rightarrow> volume_snapshot" where
  "buildVolumeSnapshot ns name class src ls = \<lparr>vs_Name = name, vs_Namespace = ns, vs_Labels = ls, vs_Class = class, vs_SourcePVC = src\<rparr>"

section \<open>Directories of volumes\<close>

lemma clean_parts_snoc:
  "v \<notin> {[], ''.'', ''..''} \<Longrightarrow> clean_parts r out (ps @ [v]) = clean_parts r out ps @ [v]"
  by (induction r out ps rule: clean_parts.induct) (auto split: list.splits)

lemma clean_parts_nonempty: "[] \<notin> set out \<Longrightarrow> [] \<notin> set (clean_parts r out ps)"
  by (induction r out ps rule: clean_parts.induct) (auto split: list.splits)

lemma join_empty: "[] \<notin> set xs \<Longrightarrow> strings_join xs sep = [] \<longleftrightarrow> xs = []"
  by (induction xs sep rule: strings_join.induct) auto

lemma split_snoc: "sep \<notin> set v \<Longrightarrow> strings_split (u @ sep # v) sep = strings_split u sep @ [v]"
  by (induction u) (auto simp: strings_split_no_sep split: list.splits)

lemma join_snoc: "xs \<noteq> [] \<Longrightarrow> strings_join (xs @ [v]) sep = strings_join xs sep @ sep @ v"
  by (induction xs sep rule: strings_join.induct) auto

lemma valid_volume_plain: "validVolumeName v = None \<Longrightarrow> CHR ''/'' \<notin> set v \<and> v \<notin> {[], ''.'', ''..''}"
proof -
  assume v: "validVolumeName v = None"
  have "CHR ''/'' \<notin> set cs" if "list_all volume_rest cs" for cs
    using that by (auto simp: list_all_iff volume_rest_def name_start_def)
  moreover have "\<not> name_start (CHR ''.'')" "\<not> name_start (CHR ''/'')" by (simp_all add: name_start_def)
  ultimately show ?thesis using v by (cases v) (auto simp: validVolumeName_def split: if_splits)
qed

definition below :: "string \<Rightarrow> string" where
  "below root = (if path_Clean root = ''/'' then ''/'' else path_Clean root @ ''/'')"

lemma volume_directory:
  assumes "validVolumeName v = None" "root = CHR ''/'' # r"
  shows "volumeHostPath root v = below root @ v"
proof -
  let ?parts = "clean_parts True [] (strings_split root (CHR ''/''))"
  have v: "CHR ''/'' \<notin> set v" "v \<notin> {[], ''.'', ''..''}" using valid_volume_plain [OF assms(1)] by simp_all
  have "clean_parts True [] (strings_split (root @ CHR ''/'' # v) (CHR ''/'')) = ?parts @ [v]"
    unfolding split_snoc [OF v(1)] by (rule clean_parts_snoc [OF v(2)])
  then have j: "volumeHostPath root v = ''/'' @ strings_join (?parts @ [v]) ''/''"
    using assms(2) by (simp add: volumeHostPath_def path_Join_def path_Clean_def)
  have c: "path_Clean root = ''/'' @ strings_join ?parts ''/''" using assms(2) by (simp add: path_Clean_def)
  have "strings_join ?parts ''/'' = [] \<longleftrightarrow> ?parts = []" by (rule join_empty) (rule clean_parts_nonempty, simp)
  then show ?thesis using j c join_snoc [of ?parts v "''/''"] by (cases "?parts = []") (simp_all add: below_def)
qed

text \<open>
  C39: A valid volume name never leaves the data root: its directory is the data root, cleaned, with the name as
  one more element, and two valid names never share a directory.
\<close>

theorem volumes_stay_below_the_data_root:
  assumes "validVolumeName v = None" "validVolumeName w = None" "root = CHR ''/'' # r"
  shows "volumeHostPath root v = (if path_Clean root = ''/'' then ''/'' else path_Clean root @ ''/'') @ v \<and>
    CHR ''/'' \<notin> set v \<and> v \<noteq> ''.'' \<and> v \<noteq> ''..'' \<and> (volumeHostPath root v = volumeHostPath root w \<longleftrightarrow> v = w)"
  using volume_directory [OF assms(1,3)] volume_directory [OF assms(2,3)] valid_volume_plain [OF assms(1)]
  by (simp add: below_def)

theorem volumes_stay_below_the_data_root_witness:
  "volumeHostPath ''/var/../lib//pgbranch/'' ''pgbranch-br-pr-1-rw'' = ''/lib/pgbranch/pgbranch-br-pr-1-rw''"
proof -
  have v: "validVolumeName ''pgbranch-br-pr-1-rw'' = None" by (simp add: validVolumeName_def name_start_def volume_rest_def)
  have "path_Clean ''/var/../lib//pgbranch/'' = ''/lib/pgbranch''" by (simp add: path_Clean_def)
  then show ?thesis using volumes_stay_below_the_data_root [OF v v, of "''/var/../lib//pgbranch/''"] by simp
qed

section \<open>Well-formed pods\<close>

text \<open>
  What the API server requires of a pod: its volumes have distinct names and every mount names one of them. Also
  that no service account token is mounted, and that there is one container.
\<close>

definition wf_pod :: "pod \<Rightarrow> bool" where
  "wf_pod p \<longleftrightarrow> distinct (map pv_Name (pod_Volumes p)) \<and> pod_Automount p = Some False \<and> length (pod_Containers p) = 1 \<and>
     (\<forall>k \<in> set (pod_Containers p). \<forall>m \<in> set (pc_VolumeMounts k). pm_Name m \<in> pv_Name ` set (pod_Volumes p))"

text \<open>The mounts of a pod with the volume behind each name\<close>

definition resolved :: "pod \<Rightarrow> (volume_source option \<times> string \<times> bool) list" where
  "resolved p = map (\<lambda>m. (map_of (map (\<lambda>v. (pv_Name v, pv_Source v)) (pod_Volumes p)) (pm_Name m), pm_MountPath m, pm_ReadOnly m))
     (concat (map pc_VolumeMounts (pod_Containers p)))"

fun source_for :: "kube_storage \<Rightarrow> mount \<Rightarrow> volume_source" where
  "source_for (HostPathStorage node root) m = (if Kind m = MountHostPath then HostPathSource (Volume m) ''Directory''
     else HostPathSource (volumeHostPath root (Volume m)) ''DirectoryOrCreate'')"
| "source_for (CSIStorage class snap sz) m = (if Kind m = MountHostPath then HostPathSource (Volume m) ''Directory''
     else ClaimSource (Volume m) (ReadOnly m))"

lemma pod_volumes_eq:
  "podVolumes st ms = (map (\<lambda>(i, m). \<lparr>pv_Name = vol_name i, pv_Source = source_for st m\<rparr>) (enumerate 0 ms), map mount_of (enumerate 0 ms))"
  by (cases st) (simp_all add: hostPathPodVolumes_def csiPodVolumes_def split: prod.splits cong: map_cong)

lemma vol_name_inj: "vol_name i = vol_name j \<longleftrightarrow> i = j"
  by (simp add: vol_name_def nat_str_inj)

lemma enumerate_parts:
  "map (\<lambda>x. f (fst x)) (enumerate n xs) = map f [n..<n + length xs]" "map (\<lambda>x. g (snd x)) (enumerate n xs) = map g xs"
proof -
  have "map f (map fst (enumerate n xs)) = map f [n..<n + length xs]" "map g (map snd (enumerate n xs)) = map g xs"
    by (simp_all only: map_fst_enumerate map_snd_enumerate)
  then show "map (\<lambda>x. f (fst x)) (enumerate n xs) = map f [n..<n + length xs]" "map (\<lambda>x. g (snd x)) (enumerate n xs) = map g xs"
    by (simp_all only: map_map comp_def)
qed

lemma vol_names: "map pv_Name (fst (podVolumes st ms)) = map vol_name [0..<length ms]"
  by (simp add: pod_volumes_eq comp_def case_prod_beta enumerate_parts)

lemma vol_names_distinct: "distinct (map pv_Name (fst (podVolumes st ms)))"
  unfolding vol_names by (simp add: distinct_map inj_on_def vol_name_inj)

lemma mounts_resolve:
  fixes st ms
  defines "src \<equiv> map (\<lambda>v. (pv_Name v, pv_Source v)) (fst (podVolumes st ms))"
  shows "map (\<lambda>m. (map_of src (pm_Name m), pm_MountPath m, pm_ReadOnly m)) (snd (podVolumes st ms)) =
    map (\<lambda>m. (Some (source_for st m), Target m, ReadOnly m)) ms"
proof -
  have d: "distinct (map fst src)" using vol_names_distinct [of st ms] by (simp add: src_def comp_def)
  have "map_of src (vol_name i) = Some (source_for st m)" if "(i, m) \<in> set (enumerate 0 ms)" for i m
    by (rule map_of_is_SomeI [OF d]) (use that in \<open>force simp: src_def pod_volumes_eq image_iff\<close>)
  then have "map (\<lambda>m. (map_of src (pm_Name m), pm_MountPath m, pm_ReadOnly m)) (snd (podVolumes st ms)) =
      map (\<lambda>x. (Some (source_for st (snd x)), Target (snd x), ReadOnly (snd x))) (enumerate 0 ms)"
    by (auto simp: pod_volumes_eq mount_of_def)
  then show ?thesis by (simp only: enumerate_parts(2) [where g = "\<lambda>m. (Some (source_for st m), Target m, ReadOnly m)"])
qed

lemma mounts_declared: "m \<in> set (snd (podVolumes st ms)) \<Longrightarrow> pm_Name m \<in> pv_Name ` set (fst (podVolumes st ms))"
  by (force simp: pod_volumes_eq mount_of_def image_iff)

text \<open>
  C38: Every pod the driver builds is well formed, on both storage strategies: volume names are distinct, every
  mount refers to a declared volume, no service account token is mounted; and the mounts of the specification
  arrive in order, each with its own volume, target and read-only flag. The helper on the data root has that
  mount in addition.
\<close>

theorem kube_pods_are_well_formed:
  "wf_pod (buildHelperPod ns st hs) \<and> wf_pod (buildBranchPod ns st bs) \<and> wf_pod (rootHelperPod ns st root cmd env) \<and>
   resolved (buildHelperPod ns st hs) = map (\<lambda>m. (Some (source_for st m), Target m, ReadOnly m)) (hs_Mounts hs) \<and>
   resolved (buildBranchPod ns st bs) = map (\<lambda>m. (Some (source_for st m), Target m, ReadOnly m)) (bs_Mounts bs) \<and>
   resolved (rootHelperPod ns st root cmd env) = [(Some (HostPathSource root ''DirectoryOrCreate''), ''/pgbranch-root'', False)]"
proof -
  have "wf_pod (buildHelperPod ns st hs)" "wf_pod (buildBranchPod ns st bs)"
    using vol_names_distinct mounts_declared
    by (auto simp: wf_pod_def buildHelperPod_def buildBranchPod_def Let_def case_prod_beta)
  moreover have "wf_pod (rootHelperPod ns st root cmd env)"
    by (simp add: wf_pod_def rootHelperPod_def buildHelperPod_def Let_def helper_def pod_volumes_eq)
  moreover have "resolved (buildHelperPod ns st hs) = map (\<lambda>m. (Some (source_for st m), Target m, ReadOnly m)) (hs_Mounts hs)"
    "resolved (buildBranchPod ns st bs) = map (\<lambda>m. (Some (source_for st m), Target m, ReadOnly m)) (bs_Mounts bs)"
    using mounts_resolve [of st] by (simp_all add: resolved_def buildHelperPod_def buildBranchPod_def Let_def case_prod_beta)
  moreover have "resolved (rootHelperPod ns st root cmd env) = [(Some (HostPathSource root ''DirectoryOrCreate''), ''/pgbranch-root'', False)]"
    by (simp add: resolved_def rootHelperPod_def buildHelperPod_def Let_def helper_def pod_volumes_eq dataRootMountPath_def)
  ultimately show ?thesis by simp
qed

end
