(* ===== verification/Kube_Driver.thy ===== *)
theory Kube_Driver
  imports Kube_Pods Engine_Diff
begin

text \<open>
  The Kubernetes driver (\<open>internal/runtime/kube.go\<close>, \<open>kube_csi.go\<close>). The API server is a parameter, one function
  per call from the calls made so far to the answer; every call is logged with its context and its answer. All
  calls go to the driver's namespace. A watch delivers finitely many events before it is closed or the context
  ends. The loops that wait for a deletion poll without a bound, so they are partial: no result means that they never
  return.
\<close>

section \<open>The API server\<close>

record kube_pod =
  kp_Name :: string
  kp_Phase :: string
  kp_PodIP :: string
  kp_Labels :: labels
  kp_Container :: string

datatype watch_item = WatchDone err | PodItem string string | OtherItem

datatype kube_call =
    PodCreate pod
  | PodGet string
  | PodDelete string
  | PodWatch string
  | PodLogs string
  | PodList string
  | PodExec string string "string list"
  | PVCCreate pvc
  | PVCGet string
  | PVCDelete string
  | PVCList string
  | SnapCreate volume_snapshot
  | SnapGet string
  | SnapDelete string
  | Pause

record kube_event =
  ke_cancellable :: bool
  ke_call :: kube_call
  ke_res :: "err + string"

type_synonym kube_hist = "kube_event list"

record kube_api =
  ka_pod_create :: "kube_hist \<Rightarrow> pod \<Rightarrow> err + string"
  ka_pod_get :: "kube_hist \<Rightarrow> string \<Rightarrow> err + kube_pod"
  ka_pod_delete :: "kube_hist \<Rightarrow> string \<Rightarrow> err option"
  ka_pod_watch :: "kube_hist \<Rightarrow> string \<Rightarrow> err + watch_item list"
  ka_pod_logs :: "kube_hist \<Rightarrow> string \<Rightarrow> err + string"
  ka_pod_list :: "kube_hist \<Rightarrow> string \<Rightarrow> err + kube_pod list"
  ka_executor :: "kube_hist \<Rightarrow> err option"
  ka_stream :: "kube_hist \<Rightarrow> string \<Rightarrow> string \<Rightarrow> string list \<Rightarrow> err option \<times> string \<times> string"
  ka_pvc_create :: "kube_hist \<Rightarrow> pvc \<Rightarrow> err option"
  ka_pvc_get :: "kube_hist \<Rightarrow> string \<Rightarrow> err option"
  ka_pvc_delete :: "kube_hist \<Rightarrow> string \<Rightarrow> err option"
  ka_pvc_list :: "kube_hist \<Rightarrow> string \<Rightarrow> err + string list"
  ka_snap_create :: "kube_hist \<Rightarrow> volume_snapshot \<Rightarrow> err option"
  ka_snap_get :: "kube_hist \<Rightarrow> string \<Rightarrow> err option"
  ka_snap_delete :: "kube_hist \<Rightarrow> string \<Rightarrow> err option"
  ka_not_found :: "err \<Rightarrow> bool"
  ka_done :: "kube_hist \<Rightarrow> err option"
  ka_marshal :: "labels \<Rightarrow> string"
  ka_unmarshal :: "string \<Rightarrow> labels"

record kube_st =
  kb_api :: kube_api
  kb_log :: kube_hist

record kube_drv =
  kd_namespace :: string
  kd_storage :: kube_storage

definition kb_call :: "ctx \<Rightarrow> kube_call \<Rightarrow> (kube_api \<Rightarrow> kube_hist \<Rightarrow> err + 'a) \<Rightarrow> ('a \<Rightarrow> string) \<Rightarrow> (kube_st, 'a) comp" where
  "kb_call c cl f out s =
     (let r = f (kb_api s) (kb_log s) in
      (r, s\<lparr>kb_log := kb_log s @ [\<lparr>ke_cancellable = ctx_cancellable c, ke_call = cl,
        ke_res = (case r of Inl e \<Rightarrow> Inl e | Inr x \<Rightarrow> Inr (out x))\<rparr>]\<rparr>))"

definition kb_unit :: "ctx \<Rightarrow> kube_call \<Rightarrow> (kube_api \<Rightarrow> kube_hist \<Rightarrow> err option) \<Rightarrow> (kube_st, unit) comp" where
  "kb_unit c cl f = kb_call c cl (\<lambda>a h. unit_reply (f a h)) (\<lambda>_. [])"

definition kb_get :: "ctx \<Rightarrow> string \<Rightarrow> (kube_st, kube_pod) comp" where
  "kb_get c name = kb_call c (PodGet name) (\<lambda>a h. ka_pod_get a h name) kp_Name"

text \<open>\<open>apierrors.IsNotFound(err)\<close>\<close>

definition missing :: "kube_st \<Rightarrow> err + 'a \<Rightarrow> bool" where
  "missing s r = (case r of Inl e \<Rightarrow> ka_not_found (kb_api s) e | Inr _ \<Rightarrow> False)"

text \<open>The \<open>select\<close> of a polling loop: the context's error when it is done, otherwise half a second passes.\<close>

definition kb_select :: "ctx \<Rightarrow> kube_st \<Rightarrow> err option \<times> kube_st" where
  "kb_select c s =
     (case (if ctx_cancellable c then ka_done (kb_api s) (kb_log s) else None) of
        Some e \<Rightarrow> (Some e, s)
      | None \<Rightarrow> (None, s\<lparr>kb_log := kb_log s @ [\<lparr>ke_cancellable = ctx_cancellable c, ke_call = Pause, ke_res = Inr ''''\<rparr>]\<rparr>))"

section \<open>Helper pods\<close>

definition terminal :: "string \<Rightarrow> bool" where
  "terminal p \<longleftrightarrow> p = ''Succeeded'' \<or> p = ''Failed''"

fun watch_loop :: "string \<Rightarrow> watch_item list \<Rightarrow> (kube_st, string) comp" where
  "watch_loop name [] = raise (Msg ''watch closed before pod finished'')"
| "watch_loop name (WatchDone e # items) = raise e"
| "watch_loop name (OtherItem # items) = watch_loop name items"
| "watch_loop name (PodItem n phase # items) =
     (if n \<noteq> name then watch_loop name items else if terminal phase then ok phase else watch_loop name items)"

definition waitPodDone :: "ctx \<Rightarrow> string \<Rightarrow> (kube_st, string) comp" where
  "waitPodDone c name =
     bnd (wrapping ''watch: '' (kb_call c (PodWatch name) (\<lambda>a h. ka_pod_watch a h name) (\<lambda>_. []))) (\<lambda>items.
     bnd (attempt (kb_get c name)) (\<lambda>r.
     case r of
       Inr p \<Rightarrow> if terminal (kp_Phase p) then ok (kp_Phase p) else watch_loop name items
     | Inl _ \<Rightarrow> watch_loop name items))"

definition podLogs :: "ctx \<Rightarrow> string \<Rightarrow> (kube_st, string) comp" where
  "podLogs c name = on_error (kb_call c (PodLogs name) (\<lambda>a h. ka_pod_logs a h name) (\<lambda>_. []))
     (\<lambda>e. ok (''(logs unavailable: '' @ err_msg e @ '')''))"

definition runPodToCompletion :: "ctx \<Rightarrow> pod \<Rightarrow> (kube_st, string) comp" where
  "runPodToCompletion c p =
     bnd (wrapping ''create helper pod: '' (kb_call c (PodCreate p) (\<lambda>a h. ka_pod_create a h p) (\<lambda>x. x))) (\<lambda>name.
     deferring (kb_unit (WithoutCancel c) (PodDelete name) (\<lambda>a h. ka_pod_delete a h name))
       (bnd (wrapping (''helper pod '' @ name @ '': '') (waitPodDone c name)) (\<lambda>phase.
        bnd (podLogs c name) (\<lambda>logs.
        if phase \<noteq> ''Succeeded'' then raise (Msg (''helper pod '' @ name @ '' failed: '' @ logs)) else ok logs))))"

definition kb_RunHelper :: "kube_drv \<Rightarrow> ctx \<Rightarrow> helper_spec \<Rightarrow> (kube_st, string) comp" where
  "kb_RunHelper d c spec = runPodToCompletion c (buildHelperPod (kd_namespace d) (kd_storage d) spec)"

definition runRootHelper :: "kube_drv \<Rightarrow> ctx \<Rightarrow> string \<Rightarrow> string \<Rightarrow> string list \<Rightarrow> (kube_st, string) comp" where
  "runRootHelper d c root cmd env = runPodToCompletion c (rootHelperPod (kd_namespace d) (kd_storage d) root cmd env)"

section \<open>Volumes as directories\<close>

definition volume_dir :: "string \<Rightarrow> string" where "volume_dir name = dataRootMountPath @ ''/'' @ name"

definition stamp_labels :: "string \<Rightarrow> string" where
  "stamp_labels dir = ''printf '' @ [CHR 0x27] @ ''%s'' @ [CHR 0x27] @ '' '' @ [CHR 0x22] @ ''$PGBRANCH_VOLUME_LABELS'' @ [CHR 0x22] @
     '' > '' @ dir @ ''/'' @ volumeLabelsFile"

definition labels_env :: "kube_st \<Rightarrow> labels \<Rightarrow> string list" where
  "labels_env s ls = [''PGBRANCH_VOLUME_LABELS='' @ ka_marshal (kb_api s) ls]"

definition hp_createVolume :: "kube_drv \<Rightarrow> string \<Rightarrow> ctx \<Rightarrow> string \<Rightarrow> labels \<Rightarrow> (kube_st, unit) comp" where
  "hp_createVolume d root c name ls =
     bnd (gets (\<lambda>s. labels_env s ls)) (\<lambda>env.
     let dir = volume_dir name in
     bnd (runRootHelper d c root (''mkdir -p '' @ dir @ '' && '' @ stamp_labels dir) env) (\<lambda>_. ok ()))"

definition hp_removeVolume :: "kube_drv \<Rightarrow> string \<Rightarrow> ctx \<Rightarrow> string \<Rightarrow> (kube_st, unit) comp" where
  "hp_removeVolume d root c name = bnd (runRootHelper d c root (''rm -rf '' @ volume_dir name) []) (\<lambda>_. ok ())"

definition hp_cloneVolume :: "kube_drv \<Rightarrow> string \<Rightarrow> ctx \<Rightarrow> string \<Rightarrow> string \<Rightarrow> labels \<Rightarrow> (kube_st, unit) comp" where
  "hp_cloneVolume d root c src dst ls =
     bnd (gets (\<lambda>s. labels_env s ls)) (\<lambda>env.
     let s = volume_dir src; t = volume_dir dst in
     bnd (runRootHelper d c root (''rm -rf '' @ t @ '' && mkdir -p '' @ t @ '' && cp -a '' @ s @ ''/. '' @ t @ ''/ && '' @ stamp_labels t) env) (\<lambda>_. ok ()))"

definition listVolumesSentinel :: string where
  "listVolumesSentinel = [CHR 0x00] @ ''--pgbranch-vol--'' @ [CHR 0x00]"

definition list_script :: string where
  "list_script = ''for d in '' @ dataRootMountPath @ ''/*/; do [ -d '' @ [CHR 0x22] @ ''$d'' @ [CHR 0x22] @ '' ] || continue; n=$(basename '' @
     [CHR 0x22] @ ''$d'' @ [CHR 0x22] @ ''); printf '' @ [CHR 0x27] @ ''%s'' @ [CHR 0x5C] @ ''n'' @ [CHR 0x27] @ '' '' @ [CHR 0x22] @ ''$n'' @ [CHR 0x22] @
     ''; cat '' @ [CHR 0x22] @ ''$d/'' @ volumeLabelsFile @ [CHR 0x22] @ '' 2>/dev/null; printf '' @ [CHR 0x27] @ [CHR 0x5C] @ ''n'' @
     listVolumesSentinel @ [CHR 0x5C] @ ''n'' @ [CHR 0x27] @ ''; done 2>/dev/null || true''"

text \<open>\<open>strings.Split\<close> at a separator of several bytes\<close>

fun split_on :: "string \<Rightarrow> string \<Rightarrow> nat \<Rightarrow> string \<Rightarrow> string list" where
  "split_on sep cur 0 [] = [cur]"
| "split_on sep cur (Suc k) [] = [cur]"
| "split_on sep cur (Suc k) (c # s) = split_on sep cur k s"
| "split_on sep cur 0 (c # s) =
     (if has_prefix (c # s) sep then cur # split_on sep [] (length sep - 1) s else split_on sep (cur @ [c]) 0 s)"

definition parse_entry :: "kube_api \<Rightarrow> string \<Rightarrow> string \<Rightarrow> string list" where
  "parse_entry a inst raw =
     (let entry = strings_TrimSpace raw;
          name = strings_TrimSpace (takeWhile (\<lambda>c. c \<noteq> CHR 0x0A) entry);
          rest = dropWhile (\<lambda>c. c \<noteq> CHR 0x0A) entry;
          ls = (if rest = [] then [] else ka_unmarshal a (strings_TrimSpace (drop 1 rest)))
      in if entry = [] \<or> name = [] \<or> name = volumeLabelsFile then []
         else if (case map_of ls LabelInstance of None \<Rightarrow> '''' | Some v \<Rightarrow> v) = inst then [name] else [])"

definition hp_listVolumes :: "kube_drv \<Rightarrow> string \<Rightarrow> ctx \<Rightarrow> string \<Rightarrow> (kube_st, string list) comp" where
  "hp_listVolumes d root c inst =
     bnd (runRootHelper d c root list_script []) (\<lambda>out.
     bnd (gets kb_api) (\<lambda>a.
     ok (concat (map (parse_entry a inst) (split_on listVolumesSentinel [] 0 out)))))"

section \<open>Volumes as claims (\<open>kube_csi.go\<close>)\<close>

definition csi_createVolume :: "kube_drv \<Rightarrow> string \<Rightarrow> string \<Rightarrow> ctx \<Rightarrow> string \<Rightarrow> labels \<Rightarrow> (kube_st, unit) comp" where
  "csi_createVolume d class sz c name ls =
     (let p = buildPVC (kd_namespace d) name class sz ls None in kb_unit c (PVCCreate p) (\<lambda>a h. ka_pvc_create a h p))"

definition csi_cloneVolume :: "kube_drv \<Rightarrow> string \<Rightarrow> string \<Rightarrow> string \<Rightarrow> ctx \<Rightarrow> string \<Rightarrow> string \<Rightarrow> labels \<Rightarrow> (kube_st, unit) comp" where
  "csi_cloneVolume d class snapClass sz c src dst ls =
     (let ns = kd_namespace d; sn = snapshotName dst; snap = buildVolumeSnapshot ns sn snapClass src ls;
          source = (if snapClass \<noteq> '''' then \<lparr>ds_APIGroup = Some snapshotGroup, ds_Kind = ''VolumeSnapshot'', ds_Name = sn\<rparr>
                    else \<lparr>ds_APIGroup = None, ds_Kind = ''PersistentVolumeClaim'', ds_Name = src\<rparr>);
          p = buildPVC ns dst class sz ls (Some source)
      in bnd (if snapClass \<noteq> '''' then
               wrapping (''create snapshot '' @ sn @ '': '') (kb_unit c (SnapCreate snap) (\<lambda>a h. ka_snap_create a h snap))
             else ok ()) (\<lambda>_.
         on_error (kb_unit c (PVCCreate p) (\<lambda>a h. ka_pvc_create a h p)) (\<lambda>e.
           bnd (if snapClass \<noteq> '''' then
                  bnd (attempt (kb_unit (WithoutCancel c) (SnapDelete sn) (\<lambda>a h. ka_snap_delete a h sn))) (\<lambda>_. ok ())
                else ok ()) (\<lambda>_. raise e))))"

definition csi_listVolumes :: "ctx \<Rightarrow> string \<Rightarrow> (kube_st, string list) comp" where
  "csi_listVolumes c inst =
     (let sel = ''pgbranch.managed=true,'' @ LabelInstance @ ''='' @ inst in
      kb_call c (PVCList sel) (\<lambda>a h. ka_pvc_list a h sel) (\<lambda>_. []))"

text \<open>The closure \<open>gone\<close>: whether both objects are gone, or an error other than not found.\<close>

definition csi_gone :: "string \<Rightarrow> ctx \<Rightarrow> string \<Rightarrow> (kube_st, bool) comp" where
  "csi_gone snapClass c name =
     bnd (gets (\<lambda>s. ka_not_found (kb_api s))) (\<lambda>nf.
     bnd (attempt (kb_unit c (PVCGet name) (\<lambda>a h. ka_pvc_get a h name))) (\<lambda>r.
     case r of
       Inr _ \<Rightarrow> ok False
     | Inl e \<Rightarrow>
         if \<not> nf e then raise e
         else if snapClass = '''' then ok True
         else bnd (attempt (kb_unit c (SnapGet (snapshotName name)) (\<lambda>a h. ka_snap_get a h (snapshotName name)))) (\<lambda>r2.
           case r2 of Inr _ \<Rightarrow> ok False | Inl e2 \<Rightarrow> if nf e2 then ok True else raise e2)))"

partial_function (option) await_volume :: "string \<Rightarrow> ctx \<Rightarrow> string \<Rightarrow> kube_st \<Rightarrow> ((err + unit) \<times> kube_st) option" where
  "await_volume snapClass c name s =
     (case csi_gone snapClass c name s of
        (Inl e, s1) \<Rightarrow> Some (Inl e, s1)
      | (Inr dn, s1) \<Rightarrow>
          if dn then Some (Inr (), s1)
          else (case kb_select c s1 of
             (Some e, s2) \<Rightarrow> Some (Inl (Wrap (''waiting for volume '' @ name @ '' to be deleted: '') e []), s2)
           | (None, s2) \<Rightarrow> await_volume snapClass c name s2))"

text \<open>A deletion for which not found is success\<close>

definition delete_missing :: "(kube_st, unit) comp \<Rightarrow> (kube_st, unit) comp" where
  "delete_missing m = bnd (gets (\<lambda>s. ka_not_found (kb_api s))) (\<lambda>nf. on_error m (\<lambda>e. if nf e then ok () else raise e))"

definition csi_removeVolume :: "string \<Rightarrow> ctx \<Rightarrow> string \<Rightarrow> kube_st \<Rightarrow> ((err + unit) \<times> kube_st) option" where
  "csi_removeVolume snapClass c name s =
     (case bnd (delete_missing (kb_unit c (PVCDelete name) (\<lambda>a h. ka_pvc_delete a h name))) (\<lambda>_.
           if snapClass \<noteq> '''' then
             delete_missing (kb_unit c (SnapDelete (snapshotName name)) (\<lambda>a h. ka_snap_delete a h (snapshotName name)))
           else ok ()) s of
        (Inl e, s1) \<Rightarrow> Some (Inl e, s1)
      | (Inr _, s1) \<Rightarrow> await_volume snapClass c name s1)"

section \<open>The driver\<close>

definition kb_CreateVolume :: "kube_drv \<Rightarrow> ctx \<Rightarrow> string \<Rightarrow> labels \<Rightarrow> (kube_st, unit) comp" where
  "kb_CreateVolume d c name ls =
     bnd (lift_err (validVolumeName name)) (\<lambda>_.
     wrapping (''create volume '' @ name @ '': '') (case kd_storage d of
         HostPathStorage node root \<Rightarrow> hp_createVolume d root c name ls
       | CSIStorage class snap sz \<Rightarrow> csi_createVolume d class sz c name ls))"

definition kb_ListManagedVolumes :: "kube_drv \<Rightarrow> ctx \<Rightarrow> string \<Rightarrow> (kube_st, string list) comp" where
  "kb_ListManagedVolumes d c inst = (case kd_storage d of
      HostPathStorage node root \<Rightarrow> hp_listVolumes d root c inst | CSIStorage class snap sz \<Rightarrow> csi_listVolumes c inst)"

definition kb_RemoveVolume :: "kube_drv \<Rightarrow> ctx \<Rightarrow> string \<Rightarrow> kube_st \<Rightarrow> ((err + unit) \<times> kube_st) option" where
  "kb_RemoveVolume d c name s =
     (case validVolumeName name of
        Some e \<Rightarrow> Some (Inl e, s)
      | None \<Rightarrow>
          map_option (\<lambda>(r, t). (case r of Inl e \<Rightarrow> Inl (Wrap (''remove volume '' @ name @ '': '') e []) | Inr u \<Rightarrow> Inr u, t))
            (case kd_storage d of
               HostPathStorage node root \<Rightarrow> Some (hp_removeVolume d root c name s)
             | CSIStorage class snap sz \<Rightarrow> csi_removeVolume snap c name s))"

definition kb_CloneVolume :: "kube_drv \<Rightarrow> ctx \<Rightarrow> string \<Rightarrow> string \<Rightarrow> labels \<Rightarrow> (kube_st, unit) comp" where
  "kb_CloneVolume d c src dst ls =
     bnd (lift_err (validVolumeName src)) (\<lambda>_.
     bnd (lift_err (validVolumeName dst)) (\<lambda>_.
     wrapping (''clone volume '' @ src @ '' -> '' @ dst @ '': '') (case kd_storage d of
         HostPathStorage node root \<Rightarrow> hp_cloneVolume d root c src dst ls
       | CSIStorage class snap sz \<Rightarrow> csi_cloneVolume d class snap sz c src dst ls)))"

definition kb_StartBranch :: "kube_drv \<Rightarrow> ctx \<Rightarrow> branch_spec \<Rightarrow> (kube_st, string) comp" where
  "kb_StartBranch d c spec =
     (let p = buildBranchPod (kd_namespace d) (kd_storage d) spec in
      wrapping ''create branch pod: '' (kb_call c (PodCreate p) (\<lambda>a h. ka_pod_create a h p) (\<lambda>x. x)))"

definition kb_ExecOutput :: "ctx \<Rightarrow> string \<Rightarrow> string list \<Rightarrow> (kube_st, string) comp" where
  "kb_ExecOutput c i cmd =
     bnd (kb_get c i) (\<lambda>p.
     bnd (bnd (gets (\<lambda>s. ka_executor (kb_api s) (kb_log s))) lift_err) (\<lambda>_.
     bnd (kb_call c (PodExec i (kp_Container p) cmd) (\<lambda>a h. Inr (ka_stream a h i (kp_Container p) cmd)) (\<lambda>_. [])) (\<lambda>(er, stdout, stderr).
     case er of
       Some e \<Rightarrow> raise (Wrap (''exec '' @ slice_str cmd @ '': '') e ('': '' @ stderr @ stdout))
     | None \<Rightarrow> ok stdout)))"

definition kb_Exec :: "ctx \<Rightarrow> string \<Rightarrow> string list \<Rightarrow> (kube_st, unit) comp" where
  "kb_Exec c i cmd = bnd (kb_ExecOutput c i cmd) (\<lambda>_. ok ())"

definition podInfo :: "kube_pod \<Rightarrow> container_info" where
  "podInfo p = \<lparr>ci_ID = kp_Name p, ci_Running = (kp_Phase p = ''Running''), ci_Host = kp_PodIP p, ci_Port = 5432, ci_Labels = kp_Labels p\<rparr>"

definition kb_Inspect :: "ctx \<Rightarrow> string \<Rightarrow> (kube_st, container_info) comp" where
  "kb_Inspect c i = bnd (kb_get c i) (\<lambda>p. ok (podInfo p))"

definition kb_ListManaged :: "ctx \<Rightarrow> (kube_st, container_info list) comp" where
  "kb_ListManaged c =
     (let sel = ''pgbranch.managed=true,pgbranch.role=branch'' in
      bnd (kb_call c (PodList sel) (\<lambda>a h. ka_pod_list a h sel) (\<lambda>_. [])) (\<lambda>ps. ok (map podInfo ps)))"

partial_function (option) await_pod :: "ctx \<Rightarrow> string \<Rightarrow> kube_st \<Rightarrow> ((err + unit) \<times> kube_st) option" where
  "await_pod c i s =
     (case kb_get c i s of (r, s1) \<Rightarrow>
        if missing s1 r then Some (Inr (), s1)
        else (case kb_select c s1 of
           (Some e, s2) \<Rightarrow> Some (Inl (Wrap (''waiting for pod '' @ i @ '' to terminate: '') e []), s2)
         | (None, s2) \<Rightarrow> await_pod c i s2))"

definition kb_StopRemove :: "ctx \<Rightarrow> string \<Rightarrow> kube_st \<Rightarrow> ((err + unit) \<times> kube_st) option" where
  "kb_StopRemove c i s =
     (case kb_unit c (PodDelete i) (\<lambda>a h. ka_pod_delete a h i) s of (r, s1) \<Rightarrow>
        if missing s1 r then Some (Inr (), s1)
        else case r of Inl e \<Rightarrow> Some (Inl e, s1) | Inr _ \<Rightarrow> await_pod c i s1)"


section \<open>Construction\<close>

definition NewKubeDriver :: "err option \<Rightarrow> err option \<Rightarrow> string \<Rightarrow> string \<Rightarrow> string \<Rightarrow> err + kube_drv" where
  "NewKubeDriver cfg client namespace node dataRoot =
     (case cfg of Some e \<Rightarrow> Inl (Wrap ''kube config: '' e []) | None \<Rightarrow>
      case client of Some e \<Rightarrow> Inl (Wrap ''kube client: '' e []) | None \<Rightarrow>
      if node = '''' then Inl (Msg ''kube driver requires a storage node name'')
      else Inr \<lparr>kd_namespace = (if namespace = '''' then ''default'' else namespace),
        kd_storage = HostPathStorage node (if dataRoot = '''' then ''/var/lib/pgbranch'' else dataRoot)\<rparr>)"

definition defaultPVCSize :: string where "defaultPVCSize = ''10Gi''"

definition parsePVCSize :: "(string \<Rightarrow> err option) \<Rightarrow> string \<Rightarrow> err + string" where
  "parsePVCSize quantity s = (case quantity s of
      Some e \<Rightarrow> Inl (Wrap (''invalid csi volume size '' @ go_quote s @ '': '') e []) | None \<Rightarrow> Inr s)"

definition NewKubeDriverCSI :: "(string \<Rightarrow> err option) \<Rightarrow> err option \<Rightarrow> err option \<Rightarrow> err option \<Rightarrow> string \<Rightarrow> string \<Rightarrow> string \<Rightarrow> string
    \<Rightarrow> err + kube_drv" where
  "NewKubeDriverCSI quantity cfg client dyn namespace class snapClass sz =
     (if class = '''' then Inl (Msg ''csi storage requires a storage class'')
      else case cfg of Some e \<Rightarrow> Inl (Wrap ''kube config: '' e []) | None \<Rightarrow>
      case client of Some e \<Rightarrow> Inl (Wrap ''kube client: '' e []) | None \<Rightarrow>
      case (if snapClass \<noteq> '''' then dyn else None) of Some e \<Rightarrow> Inl (Wrap ''kube dynamic client: '' e []) | None \<Rightarrow>
      case parsePVCSize quantity (if sz = '''' then defaultPVCSize else sz) of
        Inl e \<Rightarrow> Inl e
      | Inr q \<Rightarrow> Inr \<lparr>kd_namespace = (if namespace = '''' then ''default'' else namespace), kd_storage = CSIStorage class snapClass q\<rparr>)"

section \<open>Objects left behind\<close>

datatype kube_object = PodObject string | ClaimObject string | SnapshotObject string

text \<open>
  The objects that a log of calls creates and, for pods and snapshots, does not ask to delete afterwards with a
  context that cannot be cancelled.
\<close>

fun object_step :: "kube_object set \<Rightarrow> kube_event \<Rightarrow> kube_object set" where
  "object_step A e =
     (case ke_res e of
        Inr x \<Rightarrow> (case ke_call e of
           PodCreate p \<Rightarrow> insert (PodObject x) A
         | PVCCreate p \<Rightarrow> insert (ClaimObject (pvc_Name p)) A
         | SnapCreate v \<Rightarrow> insert (SnapshotObject (vs_Name v)) A
         | PodDelete n \<Rightarrow> if ke_cancellable e then A else A - {PodObject n}
         | SnapDelete n \<Rightarrow> if ke_cancellable e then A else A - {SnapshotObject n}
         | _ \<Rightarrow> A)
      | Inl _ \<Rightarrow> (case ke_call e of
           PodDelete n \<Rightarrow> if ke_cancellable e then A else A - {PodObject n}
         | SnapDelete n \<Rightarrow> if ke_cancellable e then A else A - {SnapshotObject n}
         | _ \<Rightarrow> A))"

definition kube_objects :: "kube_st \<Rightarrow> kube_object set" where
  "kube_objects s = foldl object_step {} (kb_log s)"

definition holding :: "kube_object set \<Rightarrow> kube_st \<Rightarrow> bool" where
  "holding A s \<longleftrightarrow> kube_objects s \<subseteq> A"

definition creates :: "kube_call \<Rightarrow> bool" where
  "creates cl \<longleftrightarrow> (\<exists>p. cl = PodCreate p) \<or> (\<exists>p. cl = PVCCreate p) \<or> (\<exists>v. cl = SnapCreate v)"

lemma objects_after_call:
  "kube_objects (snd (kb_call c cl f out s)) =
     object_step (kube_objects s) \<lparr>ke_cancellable = ctx_cancellable c, ke_call = cl,
       ke_res = (case f (kb_api s) (kb_log s) of Inl e \<Rightarrow> Inl e | Inr x \<Rightarrow> Inr (out x))\<rparr>"
  by (simp add: kube_objects_def kb_call_def Let_def)

lemma holding_call: "\<not> creates cl \<Longrightarrow> keeps (holding A) (kb_call c cl f out)"
  by (cases cl) (auto simp: keeps_def holding_def objects_after_call creates_def split: sum.splits)

lemma holding_unit: "\<not> creates cl \<Longrightarrow> keeps (holding A) (kb_unit c cl f)"
  unfolding kb_unit_def by (rule holding_call)

lemma call_holds:
  assumes "\<And>x. object_step A \<lparr>ke_cancellable = ctx_cancellable c, ke_call = cl, ke_res = Inr (out x)\<rparr> \<subseteq> B x" "creates cl"
  shows "hoare (holding A) (kb_call c cl f out) (\<lambda>x. holding (B x)) (\<lambda>_. holding A)"
proof (rule hoareI)
  have mono: "object_step A' e \<subseteq> object_step A e" if "A' \<subseteq> A" for A' e
    using that by (auto split: sum.splits kube_call.splits)
  fix s assume s: "holding A s"
  have t: "kube_objects t = object_step (kube_objects s) \<lparr>ke_cancellable = ctx_cancellable c, ke_call = cl,
      ke_res = (case r of Inl e \<Rightarrow> Inl e | Inr x \<Rightarrow> Inr (out x))\<rparr>" if "kb_call c cl f out s = (r, t)" for r t
    using that objects_after_call [of c cl f out s] by (auto simp: kb_call_def Let_def)
  show "holding (B x) t" if "kb_call c cl f out s = (Inr x, t)" for x t
    using t [OF that] assms(1) [of x] mono [of "kube_objects s"] s unfolding holding_def by fastforce
  show "holding A t" if "kb_call c cl f out s = (Inl e, t)" for e t
    using t [OF that] assms(2) s by (auto simp: holding_def creates_def)
qed

lemma holding_wrapped: "hoare P m Q (\<lambda>_. E) \<Longrightarrow> hoare P (wrapping w m) Q (\<lambda>_. E)"
  by (rule hoare_wrapping)

lemma pod_created:
  "hoare (holding A) (wrapping w (kb_call c (PodCreate p) f (\<lambda>x. x))) (\<lambda>x. holding (insert (PodObject x) A)) (\<lambda>_. holding A)"
  by (intro holding_wrapped call_holds) (auto simp: creates_def)

lemma pod_deleted: "holding (insert (PodObject n) A) s \<Longrightarrow> holding A (snd (kb_unit (WithoutCancel c) (PodDelete n) f s))"
  by (auto simp: holding_def kb_unit_def objects_after_call WithoutCancel_def split: sum.splits)

lemma holding_watch: "keeps (holding A) (watch_loop n items)"
  by (induction n items rule: watch_loop.induct) (auto intro!: keeps_rules)

lemma holding_helper: "keeps (holding A) (runPodToCompletion c p)"
proof -
  have body: "keeps (holding B) (bnd (wrapping (''helper pod '' @ n @ '': '') (waitPodDone c n)) (\<lambda>phase.
      bnd (podLogs c n) (\<lambda>logs. if phase \<noteq> ''Succeeded'' then raise (Msg (''helper pod '' @ n @ '' failed: '' @ logs)) else ok logs)))" for B n
    unfolding waitPodDone_def podLogs_def kb_get_def
    by (intro keeps_rules holding_watch holding_call) (simp_all add: creates_def)
  show ?thesis unfolding keeps_hoare runPodToCompletion_def
    by (rule hoare_bnd [OF pod_created], rule deferring_clears, rule body, erule pod_deleted)
qed

lemma holding_directories:
  "keeps (holding A) (hp_createVolume d root c n ls)" "keeps (holding A) (hp_cloneVolume d root c m n ls)"
  unfolding hp_createVolume_def hp_cloneVolume_def runRootHelper_def Let_def by (intro keeps_rules holding_helper)+

lemma claim_created:
  "hoare (holding A) (kb_unit c (PVCCreate p) f) (\<lambda>_. holding (insert (ClaimObject (pvc_Name p)) A)) (\<lambda>_. holding A)"
  unfolding kb_unit_def by (rule call_holds) (auto simp: creates_def)

lemma snapshot_created:
  "hoare (holding A) (kb_unit c (SnapCreate v) f) (\<lambda>_. holding (insert (SnapshotObject (vs_Name v)) A)) (\<lambda>_. holding A)"
  unfolding kb_unit_def by (rule call_holds) (auto simp: creates_def)

lemma snapshot_deleted:
  "hoare (holding (insert (SnapshotObject n) A)) (attempt (kb_unit (WithoutCancel c) (SnapDelete n) f)) (\<lambda>_. holding A) E"
proof (rule hoareI)
  fix s x t assume s: "holding (insert (SnapshotObject n) A) s" "attempt (kb_unit (WithoutCancel c) (SnapDelete n) f) s = (Inr x, t)"
  have "t = snd (kb_unit (WithoutCancel c) (SnapDelete n) f s)" using s(2) by (auto simp: attempt_run split: prod.splits)
  then show "holding A t"
    using s(1) by (auto simp: holding_def kb_unit_def objects_after_call WithoutCancel_def split: sum.splits)
qed (auto simp: attempt_run split: prod.splits)

lemma holding_mono: "holding A s \<Longrightarrow> A \<subseteq> B \<Longrightarrow> holding B s"
  by (auto simp: holding_def)

lemma bnd_ok: "bnd (ok x) f = f x"
  by (simp add: fun_eq_iff bnd_run ok_run)

lemma clone_holds:
  "hoare (holding A) (csi_cloneVolume d class sc sz c src dst ls)
     (\<lambda>_. holding (insert (ClaimObject dst) (insert (SnapshotObject (snapshotName dst)) A))) (\<lambda>_. holding A)"
proof -
  let ?B = "insert (SnapshotObject (snapshotName dst)) A"
  let ?snap = "buildVolumeSnapshot (kd_namespace d) (snapshotName dst) sc src ls"
  have sn: "hoare (holding A) (wrapping w (kb_unit c (SnapCreate ?snap) f)) (\<lambda>_. holding ?B) (\<lambda>_. holding A)" for w f
    using holding_wrapped [OF snapshot_created [of A c ?snap f]] by (simp add: buildVolumeSnapshot_def)
  have pv: "hoare (holding B) (kb_unit c (PVCCreate (buildPVC ns dst class sz ls src)) f) (\<lambda>_. holding (insert (ClaimObject dst) B)) (\<lambda>_. holding B)"
    for ns src f B using claim_created [of B c "buildPVC ns dst class sz ls src" f] by (simp add: buildPVC_def)
  have rm: "hoare (holding ?B) (bnd (attempt (kb_unit (WithoutCancel c) (SnapDelete (snapshotName dst)) f)) (\<lambda>_. ok ()))
      (\<lambda>_. holding A) (\<lambda>_. holding A)" for f
    by (rule hoare_bnd [OF snapshot_deleted], rule hoare_ok)
  show ?thesis
  proof (cases "sc = []")
    case True
    have "hoare (holding A) (csi_cloneVolume d class sc sz c src dst ls) (\<lambda>_. holding (insert (ClaimObject dst) A)) (\<lambda>_. holding A)"
      unfolding csi_cloneVolume_def Let_def using True
      by (simp add: bnd_ok) (rule hoare_on_error [OF pv], rule hoare_raise)
    then show ?thesis by (rule hoare_weaken) (auto elim: holding_mono)
  next
    case False
    then show ?thesis unfolding csi_cloneVolume_def Let_def
      by (simp, intro hoare_bnd [OF sn] hoare_on_error [OF pv] hoare_bnd [OF rm] hoare_raise)
  qed
qed


section \<open>Waiting for deletions\<close>

lemma kb_call_run:
  "kb_call c cl f out s = (r, t) \<longleftrightarrow> r = f (kb_api s) (kb_log s) \<and>
     t = s\<lparr>kb_log := kb_log s @ [\<lparr>ke_cancellable = ctx_cancellable c, ke_call = cl,
        ke_res = (case r of Inl e \<Rightarrow> Inl e | Inr x \<Rightarrow> Inr (out x))\<rparr>]\<rparr>"
  by (auto simp: kb_call_def Let_def)

lemma select_api: "kb_select c s = (r, t) \<Longrightarrow> kb_api t = kb_api s"
  by (auto simp: kb_select_def split: option.splits if_splits)

text \<open>The call \<open>cl\<close> was the last one, and the server answered that there is no such object.\<close>

definition said_missing :: "kube_call \<Rightarrow> kube_st \<Rightarrow> bool" where
  "said_missing cl s \<longleftrightarrow> (\<exists>h e k. kb_log s = h @ [\<lparr>ke_cancellable = k, ke_call = cl, ke_res = Inl e\<rparr>] \<and> ka_not_found (kb_api s) e)"

lemma said_missing_here: "kb_call c cl f out s = (Inl e, t) \<Longrightarrow> ka_not_found (kb_api t) e \<Longrightarrow> said_missing cl t"
  by (auto simp: said_missing_def kb_call_run)

lemma await_pod_gone:
  assumes "await_pod c i s = Some y"
  shows "fst y = Inr () \<longrightarrow> said_missing (PodGet i) (snd y)"
proof (rule await_pod.raw_induct [OF _ assms, where P = "\<lambda>c i s y. fst y = Inr () \<longrightarrow> said_missing (PodGet i) (snd y)"])
  fix aw c i s y
  assume IH: "\<And>c i s y. aw c i s = Some y \<Longrightarrow> fst y = Inr () \<longrightarrow> said_missing (PodGet i) (snd y)"
    and run: "(case kb_get c i s of (r, s1) \<Rightarrow> if missing s1 r then Some (Inr (), s1)
      else (case kb_select c s1 of (Some e, s2) \<Rightarrow> Some (Inl (Wrap (''waiting for pod '' @ i @ '' to terminate: '') e []), s2)
         | (None, s2) \<Rightarrow> aw c i s2)) = Some y"
  obtain r s1 where g: "kb_get c i s = (r, s1)" by fastforce
  show "fst y = Inr () \<longrightarrow> said_missing (PodGet i) (snd y)"
  proof (cases "missing s1 r")
    case True
    then have "y = (Inr (), s1)" using run g by simp
    moreover have "said_missing (PodGet i) s1"
      using True g said_missing_here [of c "PodGet i" _ kp_Name s _ s1] by (auto simp: missing_def kb_get_def split: sum.splits)
    ultimately show ?thesis by simp
  next
    case False
    then show ?thesis using run IH g by (auto split: prod.splits option.splits)
  qed
qed

lemma stop_remove_gone: "kb_StopRemove c i s = Some (Inr (), t) \<Longrightarrow> said_missing (PodDelete i) t \<or> said_missing (PodGet i) t"
  using said_missing_here await_pod_gone [of c i _ "(Inr (), t)"]
  by (auto simp: kb_StopRemove_def missing_def kb_unit_def split: prod.splits if_splits sum.splits)

definition said_gone :: "string \<Rightarrow> string \<Rightarrow> kube_st \<Rightarrow> bool" where
  "said_gone snapClass n s \<longleftrightarrow>
     (if snapClass = [] then said_missing (PVCGet n) s
      else \<exists>h e f k. ka_not_found (kb_api s) e \<and> ka_not_found (kb_api s) f \<and>
        kb_log s = h @ [\<lparr>ke_cancellable = k, ke_call = PVCGet n, ke_res = Inl e\<rparr>,
          \<lparr>ke_cancellable = k, ke_call = SnapGet (snapshotName n), ke_res = Inl f\<rparr>])"

lemma gone_said: "csi_gone sc c n s = (Inr True, t) \<Longrightarrow> said_gone sc n t"
  by (auto simp: csi_gone_def bnd_run gets_run attempt_run ok_run raise_run kb_unit_def kb_call_def Let_def unit_reply_def
      said_gone_def said_missing_def split: option.splits if_splits sum.splits prod.splits)

lemma await_volume_gone:
  assumes "await_volume sc c n s = Some y"
  shows "fst y = Inr () \<longrightarrow> said_gone sc n (snd y)"
proof (rule await_volume.raw_induct [OF _ assms, where P = "\<lambda>sc c n s y. fst y = Inr () \<longrightarrow> said_gone sc n (snd y)"])
  fix aw sc c n s y
  assume IH: "\<And>sc c n s y. aw sc c n s = Some y \<Longrightarrow> fst y = Inr () \<longrightarrow> said_gone sc n (snd y)"
    and run: "(case csi_gone sc c n s of (Inl e, s1) \<Rightarrow> Some (Inl e, s1)
      | (Inr dn, s1) \<Rightarrow> if dn then Some (Inr (), s1)
          else (case kb_select c s1 of
             (Some e, s2) \<Rightarrow> Some (Inl (Wrap (''waiting for volume '' @ n @ '' to be deleted: '') e []), s2)
           | (None, s2) \<Rightarrow> aw sc c n s2)) = Some y"
  obtain r s1 where g: "csi_gone sc c n s = (r, s1)" by fastforce
  show "fst y = Inr () \<longrightarrow> said_gone sc n (snd y)"
  proof (cases "r = Inr True")
    case True
    then show ?thesis using run g gone_said [of sc c n s s1] by auto
  next
    case False
    then show ?thesis using run IH g by (auto split: sum.splits if_splits prod.splits option.splits)
  qed
qed

lemma remove_volume_gone: "csi_removeVolume sc c n s = Some (Inr (), t) \<Longrightarrow> said_gone sc n t"
  using await_volume_gone [of sc c n _ "(Inr (), t)"] by (auto simp: csi_removeVolume_def split: prod.splits sum.splits)

text \<open>They end once the object is gone, or the context is done.\<close>

definition pod_settles :: "nat \<Rightarrow> ctx \<Rightarrow> string \<Rightarrow> kube_api \<Rightarrow> bool" where
  "pod_settles N c i a \<longleftrightarrow> (\<forall>h. N \<le> length h \<longrightarrow> (\<exists>e. ka_pod_get a h i = Inl e \<and> ka_not_found a e)) \<or>
     ctx_cancellable c \<and> (\<forall>h. N \<le> length h \<longrightarrow> ka_done a h \<noteq> None)"

lemma await_pod_ends: "pod_settles N c i (kb_api s) \<Longrightarrow> \<exists>y. await_pod c i s = Some y"
proof (induction "N - length (kb_log s)" arbitrary: s rule: less_induct)
  case less
  obtain r s1 where g: "kb_get c i s = (r, s1)" by fastforce
  have r: "r = ka_pod_get (kb_api s) (kb_log s) i" and s1: "length (kb_log s1) = Suc (length (kb_log s))" "kb_api s1 = kb_api s"
    using g by (auto simp: kb_get_def kb_call_run)
  show ?case
  proof (cases "missing s1 r")
    case True
    then show ?thesis using g by (subst await_pod.simps) simp
  next
    case nm: False
    obtain z s2 where sel: "kb_select c s1 = (z, s2)" by fastforce
    show ?thesis
    proof (cases z)
      case (Some e)
      then show ?thesis using g sel nm by (subst await_pod.simps) simp
    next
      case None
      have s2: "length (kb_log s2) = Suc (length (kb_log s1))" "kb_api s2 = kb_api s1"
        using sel None by (auto simp: kb_select_def split: option.splits if_splits)
      have "length (kb_log s) < N"
      proof (rule ccontr)
        assume "\<not> length (kb_log s) < N"
        then have "N \<le> length (kb_log s)" "N \<le> length (kb_log s1)" using s1 by simp_all
        then have "ctx_cancellable c \<and> ka_done (kb_api s) (kb_log s1) \<noteq> None"
          using less.prems nm r s1(2) by (auto simp: pod_settles_def missing_def)
        then show False using sel None s1(2) by (auto simp: kb_select_def split: option.splits)
      qed
      then have "\<exists>y. await_pod c i s2 = Some y" using less.hyps [of s2] less.prems s1 s2 by simp
      then show ?thesis using g sel nm None by (subst await_pod.simps) simp
    qed
  qed
qed

lemma stop_remove_returns:
  assumes "pod_settles N c i (kb_api s)"
  shows "\<exists>r t. kb_StopRemove c i s = Some (r, t)"
proof -
  have "kb_api s1 = kb_api s" if "kb_unit c (PodDelete i) f s = (r, s1)" for f r s1
    using that by (auto simp: kb_unit_def kb_call_run)
  then show ?thesis using assms await_pod_ends [of N c i] by (auto simp: kb_StopRemove_def split: prod.splits sum.splits)
qed

definition volume_settles :: "nat \<Rightarrow> ctx \<Rightarrow> string \<Rightarrow> string \<Rightarrow> kube_api \<Rightarrow> bool" where
  "volume_settles N c sc n a \<longleftrightarrow>
     (\<forall>h. N \<le> length h \<longrightarrow> ka_pvc_get a h n \<noteq> None \<and> (sc \<noteq> [] \<longrightarrow> ka_snap_get a h (snapshotName n) \<noteq> None)) \<or>
     ctx_cancellable c \<and> (\<forall>h. N \<le> length h \<longrightarrow> ka_done a h \<noteq> None)"

lemma csi_gone_run:
  assumes "csi_gone sc c n s = (r, t)"
  shows "length (kb_log s) < length (kb_log t)" "kb_api t = kb_api s"
  using assms by (auto simp: csi_gone_def bnd_run gets_run attempt_run ok_run raise_run kb_unit_def kb_call_def Let_def unit_reply_def
      split: option.splits if_splits sum.splits prod.splits)

lemma csi_gone_settled:
  assumes run: "csi_gone sc c n s = (r, t)" and N: "N \<le> length (kb_log s)"
    and a: "\<forall>h. N \<le> length h \<longrightarrow> ka_pvc_get (kb_api s) h n \<noteq> None \<and> (sc \<noteq> [] \<longrightarrow> ka_snap_get (kb_api s) h (snapshotName n) \<noteq> None)"
  shows "r \<noteq> Inr False"
proof -
  obtain e where p: "ka_pvc_get (kb_api s) (kb_log s) n = Some e" using a N by auto
  have sn: "\<exists>f. ka_snap_get (kb_api s) (kb_log s @ [x]) (snapshotName n) = Some f" if "sc \<noteq> []" for x
    using a [rule_format, of "kb_log s @ [x]"] N that by auto
  show ?thesis
  proof (cases "sc = []")
    case True
    then show ?thesis using run p by (auto simp: csi_gone_def bnd_run gets_run attempt_run ok_run raise_run kb_unit_def kb_call_def
        Let_def unit_reply_def split: if_splits)
  next
    case False
    from sn [OF this, of "\<lparr>ke_cancellable = ctx_cancellable c, ke_call = PVCGet n, ke_res = Inl e\<rparr>"] obtain f where
      "ka_snap_get (kb_api s) (kb_log s @ [\<lparr>ke_cancellable = ctx_cancellable c, ke_call = PVCGet n, ke_res = Inl e\<rparr>]) (snapshotName n) = Some f" ..
    then show ?thesis using run p by (auto simp: csi_gone_def bnd_run gets_run attempt_run ok_run raise_run kb_unit_def kb_call_def
        Let_def unit_reply_def split: if_splits)
  qed
qed

lemma await_volume_ends: "volume_settles N c sc n (kb_api s) \<Longrightarrow> \<exists>y. await_volume sc c n s = Some y"
proof (induction "N - length (kb_log s)" arbitrary: s rule: less_induct)
  case less
  obtain r s1 where g: "csi_gone sc c n s = (r, s1)" by fastforce
  note s1 = csi_gone_run [OF g]
  show ?case
  proof (cases "r = Inr False")
    case False
    then show ?thesis using g by (subst await_volume.simps) (auto split: sum.splits)
  next
    case r: True
    obtain z s2 where sel: "kb_select c s1 = (z, s2)" by fastforce
    show ?thesis
    proof (cases z)
      case (Some e)
      then show ?thesis using g sel r by (subst await_volume.simps) simp
    next
      case None
      have s2: "length (kb_log s2) = Suc (length (kb_log s1))" "kb_api s2 = kb_api s1"
        using sel None by (auto simp: kb_select_def split: option.splits if_splits)
      have "length (kb_log s) < N"
      proof (rule ccontr)
        assume "\<not> length (kb_log s) < N"
        then have N: "N \<le> length (kb_log s)" "N \<le> length (kb_log s1)" using s1(1) by simp_all
        then have "ctx_cancellable c \<and> ka_done (kb_api s1) (kb_log s1) \<noteq> None"
          using less.prems csi_gone_settled [OF g, of N] r s1(2) by (auto simp: volume_settles_def)
        then show False using sel None by (auto simp: kb_select_def split: option.splits)
      qed
      then have "\<exists>y. await_volume sc c n s2 = Some y" using less.hyps [of s2] less.prems s1(1,2) s2 by simp
      then show ?thesis using g sel r None by (subst await_volume.simps) simp
    qed
  qed
qed

lemma remove_volume_returns:
  assumes "volume_settles N c sc n (kb_api s)"
  shows "\<exists>r t. csi_removeVolume sc c n s = Some (r, t)"
proof -
  have "keeps (\<lambda>u. kb_api u = kb_api s) (delete_missing (kb_unit c cl f))" for cl f
    unfolding delete_missing_def by (intro keeps_rules) (simp add: keeps_def kb_unit_def kb_call_def Let_def)
  then have "keeps (\<lambda>u. kb_api u = kb_api s) (bnd (delete_missing (kb_unit c (PVCDelete n) (\<lambda>a h. ka_pvc_delete a h n))) (\<lambda>_.
      if sc \<noteq> [] then delete_missing (kb_unit c (SnapDelete (snapshotName n)) (\<lambda>a h. ka_snap_delete a h (snapshotName n))) else ok ()))"
    by (intro keeps_rules)
  note k = keepsD [OF this]
  obtain r s1 where r: "bnd (delete_missing (kb_unit c (PVCDelete n) (\<lambda>a h. ka_pvc_delete a h n))) (\<lambda>_.
      if sc \<noteq> [] then delete_missing (kb_unit c (SnapDelete (snapshotName n)) (\<lambda>a h. ka_snap_delete a h (snapshotName n))) else ok ()) s = (r, s1)"
    by fastforce
  then have "kb_api s1 = kb_api s" using k [of s] by simp
  then obtain y where "await_volume sc c n s1 = Some y" using await_volume_ends [of N c sc n s1] assms by auto
  then show ?thesis using r by (cases r; cases y) (simp_all add: csi_removeVolume_def)
qed

text \<open>
  C30: Removing a pod or a claim ends and is final. When the object is gone after finitely many calls, or the request
  can be cancelled and is, the call returns; and it reports success only when the last thing the API server said was
  that there is no such pod, or no such claim and, when snapshots are used, no such snapshot, so that an object with
  the same name can be created at once.
\<close>

theorem deletions_end_and_are_final:
  assumes "pod_settles N c i (kb_api s)" "volume_settles N c sc n (kb_api s)"
  shows "(\<exists>r t. kb_StopRemove c i s = Some (r, t) \<and> (r = Inr () \<longrightarrow> said_missing (PodDelete i) t \<or> said_missing (PodGet i) t)) \<and>
    (\<exists>r t. csi_removeVolume sc c n s = Some (r, t) \<and> (r = Inr () \<longrightarrow> said_gone sc n t))"
  using stop_remove_returns [OF assms(1)] remove_volume_returns [OF assms(2)] stop_remove_gone remove_volume_gone by blast

lemma await_pod_hangs:
  assumes "await_pod c i s = Some y"
  shows "\<not> (\<not> ctx_cancellable c \<and> (\<forall>h e. ka_pod_get (kb_api s) h i = Inl e \<longrightarrow> \<not> ka_not_found (kb_api s) e))"
proof (rule await_pod.raw_induct [OF _ assms, where P = "\<lambda>c i s y. \<not> (\<not> ctx_cancellable c \<and>
    (\<forall>h e. ka_pod_get (kb_api s) h i = Inl e \<longrightarrow> \<not> ka_not_found (kb_api s) e))"], rule notI)
  fix aw c i s y
  assume IH: "\<And>c i s y. aw c i s = Some y \<Longrightarrow> \<not> (\<not> ctx_cancellable c \<and>
      (\<forall>h e. ka_pod_get (kb_api s) h i = Inl e \<longrightarrow> \<not> ka_not_found (kb_api s) e))"
    and run: "(case kb_get c i s of (r, s1) \<Rightarrow> if missing s1 r then Some (Inr (), s1)
      else (case kb_select c s1 of (Some e, s2) \<Rightarrow> Some (Inl (Wrap (''waiting for pod '' @ i @ '' to terminate: '') e []), s2)
         | (None, s2) \<Rightarrow> aw c i s2)) = Some y"
    and h: "\<not> ctx_cancellable c \<and> (\<forall>h e. ka_pod_get (kb_api s) h i = Inl e \<longrightarrow> \<not> ka_not_found (kb_api s) e)"
  obtain r s1 where g: "kb_get c i s = (r, s1)" by fastforce
  have s1: "\<not> missing s1 r" "kb_api s1 = kb_api s" using g h by (auto simp: kb_get_def kb_call_run missing_def split: sum.splits)
  obtain s2 where s2: "kb_select c s1 = (None, s2)" "kb_api s2 = kb_api s1" using h by (simp add: kb_select_def)
  have "aw c i s2 = Some y" using run g s1 s2 by simp
  from IH [OF this] h s1(2) s2(2) show False by simp
qed

text \<open>
  With a context that cannot be cancelled, which is what compensations use, \<open>StopRemove\<close> never returns while
  the API server cannot be asked: an answer other than not found is not an error there but another round.
\<close>

theorem stop_remove_can_hang:
  "\<exists>s i. \<forall>c. kb_StopRemove (WithoutCancel c) i s = None"
proof -
  define a where "a = \<lparr>ka_pod_create = \<lambda>_ _. Inl (Msg []), ka_pod_get = \<lambda>_ _. Inl (Msg ''connection refused''), ka_pod_delete = \<lambda>_ _. None,
    ka_pod_watch = \<lambda>_ _. Inl (Msg []), ka_pod_logs = \<lambda>_ _. Inl (Msg []), ka_pod_list = \<lambda>_ _. Inl (Msg []), ka_executor = \<lambda>_. None,
    ka_stream = \<lambda>_ _ _ _. (None, [], []), ka_pvc_create = \<lambda>_ _. None, ka_pvc_get = \<lambda>_ _. None, ka_pvc_delete = \<lambda>_ _. None,
    ka_pvc_list = \<lambda>_ _. Inr [], ka_snap_create = \<lambda>_ _. None, ka_snap_get = \<lambda>_ _. None, ka_snap_delete = \<lambda>_ _. None,
    ka_not_found = (\<lambda>e. e = Msg ''not found''), ka_done = \<lambda>_. None, ka_marshal = \<lambda>_. [], ka_unmarshal = \<lambda>_. []\<rparr>"
  have "await_pod (WithoutCancel c) i s = None" if "kb_api s = a" for c i s
    using await_pod_hangs [of "WithoutCancel c" i s] that by (cases "await_pod (WithoutCancel c) i s") (auto simp: a_def WithoutCancel_def)
  then have "kb_StopRemove (WithoutCancel c) i \<lparr>kb_api = a, kb_log = []\<rparr> = None" for c i
    by (simp add: kb_StopRemove_def kb_unit_def kb_call_def Let_def unit_reply_def missing_def) (simp add: a_def)
  then show ?thesis by blast
qed

text \<open>
  The script that lists the volumes of the hostPath strategy contains a NUL byte, so it cannot be the argument of a
  process: an argument ends at the first NUL.
\<close>

theorem list_script_has_nul: "CHR 0x00 \<in> set list_script"
  by (simp add: list_script_def listVolumesSentinel_def)

text \<open>A server that deletes the pod with a delay, for the witnesses\<close>

definition sample_kube :: kube_api where
  "sample_kube = \<lparr>ka_pod_create = \<lambda>h p. Inr (pod_GenerateName p @ pod_Name p @ nat_str (length h)),
    ka_pod_get = \<lambda>h i. if length h < 3 then Inr \<lparr>kp_Name = i, kp_Phase = ''Running'', kp_PodIP = ''10.0.0.1'', kp_Labels = [], kp_Container = ''postgres''\<rparr>
      else Inl (Msg ''not found''),
    ka_pod_delete = \<lambda>_ _. None, ka_pod_watch = \<lambda>_ i. Inr [PodItem i ''Succeeded''], ka_pod_logs = \<lambda>_ _. Inr [], ka_pod_list = \<lambda>_ _. Inr [],
    ka_executor = \<lambda>_. None, ka_stream = \<lambda>_ _ _ _. (None, [], []), ka_pvc_create = \<lambda>_ _. None, ka_pvc_get = \<lambda>_ _. Some (Msg ''not found''),
    ka_pvc_delete = \<lambda>_ _. None, ka_pvc_list = \<lambda>_ _. Inr [], ka_snap_create = \<lambda>_ _. None, ka_snap_get = \<lambda>_ _. Some (Msg ''not found''),
    ka_snap_delete = \<lambda>_ _. Some (Msg ''not found''),
    ka_not_found = (\<lambda>e. e = Msg ''not found''), ka_done = \<lambda>_. None, ka_marshal = \<lambda>_. [], ka_unmarshal = \<lambda>_. []\<rparr>"

theorem deletions_end_and_are_final_witness:
  "\<exists>t u. kb_StopRemove Background ''pr1'' \<lparr>kb_api = sample_kube, kb_log = []\<rparr> = Some (Inr (), t) \<and>
     (said_missing (PodDelete ''pr1'') t \<or> said_missing (PodGet ''pr1'') t) \<and>
     csi_removeVolume ''snap'' Background ''v1'' \<lparr>kb_api = sample_kube, kb_log = []\<rparr> = Some (Inr (), u) \<and> said_gone ''snap'' ''v1'' u"
proof -
  let ?s = "\<lparr>kb_api = sample_kube, kb_log = []\<rparr>"
  have "pod_settles 3 Background ''pr1'' (kb_api ?s)" "volume_settles 3 Background ''snap'' ''v1'' (kb_api ?s)"
    by (simp_all add: pod_settles_def volume_settles_def sample_kube_def)
  from deletions_end_and_are_final [OF this] obtain r t q u where
    t: "kb_StopRemove Background ''pr1'' ?s = Some (r, t)" "r = Inr () \<longrightarrow> said_missing (PodDelete ''pr1'') t \<or> said_missing (PodGet ''pr1'') t" and
    u: "csi_removeVolume ''snap'' Background ''v1'' ?s = Some (q, u)" "q = Inr () \<longrightarrow> said_gone ''snap'' ''v1'' u" by blast
  have "\<exists>t. kb_StopRemove Background ''pr1'' ?s = Some (Inr (), t)"
    by (simp add: kb_StopRemove_def kb_unit_def kb_call_def Let_def unit_reply_def missing_def sample_kube_def await_pod.simps [of _ "''pr1''"]
        kb_get_def kb_select_def Background_def)
  moreover have "\<exists>t. csi_removeVolume ''snap'' Background ''v1'' ?s = Some (Inr (), t)"
    by (simp add: csi_removeVolume_def kb_unit_def kb_call_def Let_def unit_reply_def sample_kube_def await_volume.simps [of _ _ "''v1''"]
        csi_gone_def delete_missing_def comp_simps)
  ultimately show ?thesis using t u by auto
qed

end
