(* ===== verification/Pg_Proxy.thy ===== *)
theory Pg_Proxy
  imports Engine_Core "HOL-Library.Word"
begin

unbundle bit_operations_syntax

text \<open>
  Package \<open>internal/pgproxy\<close>: the wire-protocol router in front of the branches. Startup packets are read
  byte by byte with the length field at its 32-bit width; the startup phase is a loop over packets, the
  connection cap a step relation. The message codec of pgproto3, TLS and the network are parameters. The
  relay after the startup phase is in \<open>Pg_Relay\<close>.
\<close>

section \<open>Startup packets (\<open>startup.go\<close>)\<close>

type_synonym byte = "8 word"

definition cancelRequestCode :: "32 word" where "cancelRequestCode = 80877102"
definition sslRequestCode :: "32 word" where "sslRequestCode = 80877103"
definition gssEncRequestCode :: "32 word" where "gssEncRequestCode = 80877104"

definition minStartupPacketLen :: int where "minStartupPacketLen = 4"
definition maxStartupPacketLen :: int where "maxStartupPacketLen = 10000"

text \<open>\<open>binary.BigEndian.Uint32\<close> and \<open>io.ReadFull\<close> from the bytes the peer sends before it stops\<close>

definition be_uint32 :: "byte list \<Rightarrow> 32 word" where
  "be_uint32 b = push_bit 24 (ucast (b ! 0)) OR push_bit 16 (ucast (b ! 1)) OR push_bit 8 (ucast (b ! 2)) OR ucast (b ! 3)"

definition read_full :: "nat \<Rightarrow> byte list \<Rightarrow> err + byte list \<times> byte list" where
  "read_full n inp =
     (if n \<le> length inp then Inr (take n inp, drop n inp)
      else Inl (Msg (if inp = [] then ''EOF'' else ''unexpected EOF'')))"

definition readStartupFrame :: "byte list \<Rightarrow> err + (32 word \<times> byte list) \<times> byte list" where
  "readStartupFrame inp =
     (case read_full 4 inp of
        Inl e \<Rightarrow> Inl e
      | Inr (head, rest) \<Rightarrow>
          let size = sint (be_uint32 head) - 4 in
          if size < minStartupPacketLen \<or> size > maxStartupPacketLen
          then Inl (Msg (''invalid startup packet length '' @ int_str (size + 4)))
          else (case read_full (nat size) rest of
              Inl e \<Rightarrow> Inl e
            | Inr (payload, rest') \<Rightarrow> Inr ((be_uint32 (take 4 payload), payload), rest')))"

definition splitDatabase :: "string \<Rightarrow> (string \<times> string) option" where
  "splitDatabase d =
     (if CHR ''@'' \<in> set d then
        let i = length d - 1 - length (takeWhile (\<lambda>x. x \<noteq> CHR ''@'') (rev d))
        in Some (take i d, drop (i + 1) d)
      else None)"

section \<open>Routing (\<open>proxy.go\<close>)\<close>

definition genericRouteRefusal :: string where
  "genericRouteRefusal = ''pgbranch: database not available''"

text \<open>\<open>net.JoinHostPort\<close>\<close>

definition JoinHostPort :: "string \<Rightarrow> string \<Rightarrow> string" where
  "JoinHostPort host port =
     (if CHR '':'' \<in> set host then ''['' @ host @ '']:'' @ port else host @ '':'' @ port)"

definition ResolveBranch :: "string \<Rightarrow> ('z reg_st_scheme, string) comp" where
  "ResolveBranch name =
     bnd (GetBranchByName name) (\<lambda>b.
     if br_State b \<noteq> BranchReady then raise (Msg (''branch is '' @ branch_state_str (br_State b) @ '', not ready''))
     else ok (JoinHostPort (br_Host b) (int_str (br_Port b))))"

record startup_msg =
  ProtocolVersion :: "32 word"
  Parameters :: "string \<rightharpoonup> string"

record network =
  decode_startup :: "byte list \<Rightarrow> err + startup_msg"
  encode_startup :: "startup_msg \<Rightarrow> err + byte list"
  dial :: "string \<Rightarrow> err option"
  backend_write :: "string \<Rightarrow> byte list \<Rightarrow> err option"
  client_write_fails :: "nat \<Rightarrow> bool"
  handshake :: "byte list \<Rightarrow> byte list option"

datatype outcome = Dropped | Refused string string | Relaying string "byte list"

definition database_of :: "startup_msg \<Rightarrow> string" where
  "database_of m = (case Parameters m ''database'' of None \<Rightarrow> '''' | Some d \<Rightarrow> d)"

definition route :: "network \<Rightarrow> (string \<Rightarrow> ('s, string) comp) \<Rightarrow> startup_msg \<Rightarrow> 's \<Rightarrow> outcome \<times> 's" where
  "route N resolve m s =
     (case splitDatabase (database_of m) of
        None \<Rightarrow> (Refused ''3D000'' (''pgbranch: connect with dbname@branch (got database '' @ go_quote (database_of m) @ '')''), s)
      | Some (dbname, branch) \<Rightarrow>
          (case resolve branch s of
             (Inl _, t) \<Rightarrow> (Refused ''3D000'' genericRouteRefusal, t)
           | (Inr addr, t) \<Rightarrow>
               (case encode_startup N (m\<lparr>Parameters := (Parameters m)(''database'' \<mapsto> dbname)\<rparr>) of
                  Inl e \<Rightarrow> (Refused ''08P01'' (''pgbranch: '' @ err_msg e), t)
                | Inr raw \<Rightarrow>
                    (case dial N addr of
                       Some _ \<Rightarrow> (Refused ''3D000'' genericRouteRefusal, t)
                     | None \<Rightarrow> (case backend_write N addr raw of
                         Some _ \<Rightarrow> (Dropped, t)
                       | None \<Rightarrow> (Relaying addr raw, t))))))"

text \<open>
  \<open>handleConn\<close>: \<open>replies\<close> are the single bytes already sent. Every packet takes at least eight bytes and
  TLS starts at most once, so the loop ends.
\<close>

lemma readStartupFrame_rest: "readStartupFrame inp = Inr (x, rest) \<Longrightarrow> length rest < length inp"
  by (auto simp: readStartupFrame_def read_full_def Let_def split: if_splits sum.splits)

function handleConn :: "network \<Rightarrow> bool \<Rightarrow> (string \<Rightarrow> ('s, string) comp) \<Rightarrow> bool \<Rightarrow> byte list \<Rightarrow> string \<Rightarrow> 's
    \<Rightarrow> string \<times> outcome \<times> 's" where
  "handleConn N tls resolve inTLS inp replies s =
     (case readStartupFrame inp of
        Inl _ \<Rightarrow> (replies, Dropped, s)
      | Inr ((code, payload), rest) \<Rightarrow>
          if code = cancelRequestCode then (replies, Dropped, s)
          else if code = sslRequestCode then
            (if \<not> tls then
               (if client_write_fails N (length replies) then (replies, Dropped, s)
                else handleConn N tls resolve inTLS rest (replies @ ''N'') s)
             else if inTLS then
               (replies, Refused ''08P01'' ''pgbranch: SSLRequest received after TLS was already established'', s)
             else if client_write_fails N (length replies) then (replies, Dropped, s)
             else (case handshake N rest of
                 None \<Rightarrow> (replies @ ''S'', Dropped, s)
               | Some inp' \<Rightarrow> handleConn N tls resolve True inp' (replies @ ''S'') s))
          else if code = gssEncRequestCode then
            (if client_write_fails N (length replies) then (replies, Dropped, s)
             else handleConn N tls resolve inTLS rest (replies @ ''N'') s)
          else (case decode_startup N payload of
              Inl e \<Rightarrow> (replies, Refused ''08P01'' (''pgbranch: '' @ err_msg e), s)
            | Inr m \<Rightarrow> (let (r, t) = route N resolve m s in (replies, r, t))))"
  by pat_completeness auto
termination
  by (relation "inv_image (less_than <*lex*> less_than) (\<lambda>(N, tls, resolve, inTLS, inp, replies, s).
      (if inTLS then 0 else 1 :: nat, length inp))")
    (auto simp: readStartupFrame_rest)

declare handleConn.simps [simp del]

section \<open>The connection cap (\<open>Serve\<close>)\<close>

text \<open>
  The accept loop: \<open>active\<close> counts the handlers that hold a slot. With a full semaphore a connection is
  closed at once; a cap that is not positive disables the semaphore.
\<close>

record serve_state =
  active :: nat
  refused_conns :: nat

inductive serve_step :: "int \<Rightarrow> serve_state \<Rightarrow> serve_state \<Rightarrow> bool" for maxConns where
  accept: "maxConns \<le> 0 \<or> int (active s) < maxConns \<Longrightarrow> serve_step maxConns s (s\<lparr>active := Suc (active s)\<rparr>)"
| refuse: "0 < maxConns \<Longrightarrow> maxConns \<le> int (active s) \<Longrightarrow>
    serve_step maxConns s (s\<lparr>refused_conns := Suc (refused_conns s)\<rparr>)"
| handled: "0 < active s \<Longrightarrow> serve_step maxConns s (s\<lparr>active := active s - 1\<rparr>)"

inductive_cases serve_stepE [elim]: "serve_step n s t"

definition serve_start :: serve_state where
  "serve_start = \<lparr>active = 0, refused_conns = 0\<rparr>"

lemma serve_step_cap: "serve_step n s t \<Longrightarrow> 0 < n \<Longrightarrow> int (active s) \<le> n \<Longrightarrow> int (active t) \<le> n"
  by (erule serve_stepE) auto

text \<open>
  However connections arrive and end, the number of connections handled at the same time never
  exceeds the configured cap.
\<close>

theorem connection_cap_holds:
  assumes "(serve_step n)\<^sup>*\<^sup>* serve_start s" "0 < n"
  shows "int (active s) \<le> n"
  using assms(1)
proof (induction rule: rtranclp_induct)
  case base
  then show ?case using assms(2) by (simp add: serve_start_def)
next
  case (step s t)
  then show ?case using serve_step_cap assms(2) by blast
qed

theorem connection_cap_holds_witness:
  "(serve_step 1)\<^sup>*\<^sup>* serve_start \<lparr>active = 1, refused_conns = 1\<rparr> \<and> int (active \<lparr>active = 1, refused_conns = 1\<rparr>) \<le> 1"
proof -
  have "serve_step 1 serve_start \<lparr>active = 1, refused_conns = 0\<rparr>"
    using serve_step.accept [of 1 serve_start] by (simp add: serve_start_def)
  moreover have "serve_step 1 \<lparr>active = 1, refused_conns = 0\<rparr> \<lparr>active = 1, refused_conns = 1\<rparr>"
    using serve_step.refuse [of 1 "\<lparr>active = 1, refused_conns = 0\<rparr>"] by simp
  ultimately have "(serve_step 1)\<^sup>*\<^sup>* serve_start \<lparr>active = 1, refused_conns = 1\<rparr>" by (metis converse_rtranclp_into_rtranclp rtranclp.simps)
  with connection_cap_holds [OF this] show ?thesis by simp
qed

section \<open>Packets and names\<close>

text \<open>
  A startup packet is read exactly: the reader succeeds precisely on four length bytes followed by a
  payload of that length less four, between 4 and 10000 bytes, the length taken as a signed 32-bit number;
  it returns the payload and leaves every later byte of the connection unread.
\<close>

theorem startup_frame_is_exact:
  "readStartupFrame inp = Inr ((code, payload), rest) \<longleftrightarrow>
     (\<exists>head. inp = head @ payload @ rest \<and> length head = 4 \<and> sint (be_uint32 head) = int (length payload) + 4 \<and>
        4 \<le> length payload \<and> length payload \<le> 10000 \<and> code = be_uint32 (take 4 payload))"
proof
  assume r: "readStartupFrame inp = Inr ((code, payload), rest)"
  let ?size = "sint (be_uint32 (take 4 inp)) - 4"
  have 1: "4 \<le> length inp" "4 \<le> ?size" "?size \<le> 10000" "nat ?size \<le> length inp - 4"
    "payload = take (nat ?size) (drop 4 inp)" "rest = drop (nat ?size) (drop 4 inp)" "code = be_uint32 (take 4 payload)"
    using r by (auto simp: readStartupFrame_def read_full_def Let_def minStartupPacketLen_def maxStartupPacketLen_def
      split: if_splits)
  then have "inp = take 4 inp @ payload @ rest" by (metis append_take_drop_id)
  moreover have "int (length payload) = ?size" using 1 by simp
  ultimately show "\<exists>head. inp = head @ payload @ rest \<and> length head = 4 \<and> sint (be_uint32 head) = int (length payload) + 4 \<and>
      4 \<le> length payload \<and> length payload \<le> 10000 \<and> code = be_uint32 (take 4 payload)"
    using 1(1,2,3,7) by (intro exI [of _ "take 4 inp"]) auto
next
  assume "\<exists>head. inp = head @ payload @ rest \<and> length head = 4 \<and> sint (be_uint32 head) = int (length payload) + 4 \<and>
      4 \<le> length payload \<and> length payload \<le> 10000 \<and> code = be_uint32 (take 4 payload)"
  then show "readStartupFrame inp = Inr ((code, payload), rest)"
    by (auto simp: readStartupFrame_def read_full_def Let_def minStartupPacketLen_def maxStartupPacketLen_def)
qed

lemma splitDatabase_append: "CHR ''@'' \<notin> set b \<Longrightarrow> splitDatabase (d @ ''@'' @ b) = Some (d, b)"
proof -
  assume "CHR ''@'' \<notin> set b"
  moreover have "rev (d @ ''@'' @ b) = rev b @ CHR ''@'' # rev d" by simp
  ultimately have "takeWhile (\<lambda>x. x \<noteq> CHR ''@'') (rev (d @ ''@'' @ b)) = rev b"
    by (simp only:) (subst takeWhile_append2, auto)
  then show ?thesis by (simp add: splitDatabase_def Let_def)
qed

lemma valid_name_no_at: "validateBranchName n = None \<Longrightarrow> CHR ''@'' \<notin> set n"
  by (auto simp: validateBranchName_def validateName_def branchNameRe_def name_start_def list_all_iff
      split: if_splits list.splits)

text \<open>
  The connection string the API hands out routes back: for every database name, also one that contains
  an at sign, and every name the engine accepts for a branch, the proxy splits \<open>database@branch\<close> into
  exactly these two.
\<close>

theorem proxy_database_splits_back:
  assumes "validateBranchName branch = None"
  shows "splitDatabase (dbname @ ''@'' @ branch) = Some (dbname, branch)"
  using assms by (intro splitDatabase_append valid_name_no_at)

theorem proxy_database_splits_back_witness:
  "validateBranchName ''pr-1'' = None \<and> splitDatabase (''app@db'' @ ''@'' @ ''pr-1'') = Some (''app@db'', ''pr-1'')"
proof -
  have "validateBranchName ''pr-1'' = None"
    by (simp add: validateBranchName_def validateName_def branchNameRe_def name_start_def)
  with proxy_database_splits_back [OF this] show ?thesis by blast
qed

section \<open>Where a connection can go\<close>

text \<open>
  What routing relies on of a resolver: an address is returned only for a branch that serves it.
\<close>

lemma handleConn_routes:
  "handleConn N tls R inTLS inp replies s = (rs, Relaying a raw, t) \<Longrightarrow>
   \<exists>payload m. decode_startup N payload = Inr m \<and> route N R m s = (Relaying a raw, t)"
proof (induction N tls R inTLS inp replies s rule: handleConn.induct)
  case (1 N tls R inTLS inp replies s)
  show ?case
  proof (cases "readStartupFrame inp")
    case (Inr f)
    obtain code payload rest where f: "f = ((code, payload), rest)" by (metis prod.exhaust)
    note run = trans [OF handleConn.simps [of N tls R inTLS inp replies s, symmetric] 1(4)]
    show ?thesis using run 1(1-3) Inr
      by (auto simp: f Let_def split: if_splits option.splits sum.splits prod.splits)
  qed (use 1(4) in \<open>simp add: handleConn.simps\<close>)
qed

locale branch_resolver =
  fixes resolve :: "string \<Rightarrow> ('s, string) comp"
    and serves :: "'s \<Rightarrow> string \<Rightarrow> string \<Rightarrow> bool"
  assumes resolved: "resolve n s = (Inr a, t) \<Longrightarrow> serves s n a"
begin

lemma route_relays:
  assumes "route N resolve m s = (Relaying a raw, t)"
  obtains d b where "splitDatabase (database_of m) = Some (d, b)" "serves s b a"
    "encode_startup N (m\<lparr>Parameters := (Parameters m)(''database'' \<mapsto> d)\<rparr>) = Inr raw"
  using assms that resolved
  by (auto simp: route_def split: option.splits prod.splits sum.splits)

lemma handle_relays:
  assumes "handleConn N tls resolve inTLS inp replies s = (rs, Relaying a raw, t)"
  shows "\<exists>payload m d b. decode_startup N payload = Inr m \<and> splitDatabase (database_of m) = Some (d, b) \<and>
    serves s b a \<and> encode_startup N (m\<lparr>Parameters := (Parameters m)(''database'' \<mapsto> d)\<rparr>) = Inr raw"
  using handleConn_routes [OF assms] route_relays by metis

end

interpretation registry_resolver: branch_resolver ResolveBranch
  "\<lambda>s n a. \<exists>b \<in> set (branches (db s)). row_name b = n \<and> row_state b = BranchReady \<and>
     a = JoinHostPort (row_host b) (int_str (row_port b))"
proof
  fix n :: string and s t :: "'z reg_st_scheme" and a
  assume "ResolveBranch n s = (Inr a, t)"
  then show "\<exists>b \<in> set (branches (db s)). row_name b = n \<and> row_state b = BranchReady \<and>
     a = JoinHostPort (row_host b) (int_str (row_port b))"
    by (auto simp: ResolveBranch_def GetBranchByName_def getBranch_def sql_query_def sql_def comp_simps scanBranch_def
        find_Some_iff nth_mem split: if_splits option.splits sum.splits prod.splits)
qed

text \<open>
  C22: The proxy connects a client to a ready branch only: when a connection is relayed, its startup message
  named a live branch in state ready after the last at sign, the backend is that branch's recorded address
  and the forwarded message is the client's with the plain database name.
\<close>

theorem proxy_relays_only_to_ready_branch:
  assumes "handleConn N tls ResolveBranch False inp [] s = (rs, Relaying a raw, t)"
  shows "\<exists>payload m d b. decode_startup N payload = Inr m \<and> splitDatabase (database_of m) = Some (d, row_name b) \<and>
    b \<in> set (branches (db s)) \<and> row_state b = BranchReady \<and> a = JoinHostPort (row_host b) (int_str (row_port b)) \<and>
    encode_startup N (m\<lparr>Parameters := (Parameters m)(''database'' \<mapsto> d)\<rparr>) = Inr raw"
  using registry_resolver.handle_relays [OF assms] by blast

text \<open>
  Refusals tell an unauthenticated client nothing about branches: of two clients that named a branch and
  were refused, whatever the registries hold and for whatever reason each was refused, both got the same
  message, as long as rewritten startup messages can be encoded.
\<close>

theorem proxy_refusals_are_uniform:
  assumes "\<forall>x e. encode_startup N x \<noteq> Inl e" "\<forall>x e. encode_startup N' x \<noteq> Inl e"
    and "CHR ''@'' \<in> set (database_of m)" "CHR ''@'' \<in> set (database_of m')"
    and "route N ResolveBranch m s = (Refused code msg, t)" "route N' ResolveBranch m' s' = (Refused code' msg', t')"
  shows "code = code' \<and> msg = msg'"
proof -
  have "code = ''3D000'' \<and> msg = genericRouteRefusal"
    if "\<forall>x e. encode_startup N x \<noteq> Inl e" "CHR ''@'' \<in> set (database_of m)"
      "route N ResolveBranch m s = (Refused code msg, t)" for N m s code msg t
    using that by (auto simp: route_def splitDatabase_def Let_def split: option.splits prod.splits sum.splits)
  from this [OF assms(1,3,5)] this [OF assms(2,4,6)] show ?thesis by simp
qed

subsection \<open>Witnesses\<close>

definition sample_net :: network where
  "sample_net = \<lparr>decode_startup = (\<lambda>p. Inr \<lparr>ProtocolVersion = 196608, Parameters = [''database'' \<mapsto> ''app@pr1'']\<rparr>),
     encode_startup = (\<lambda>m. Inr []), dial = (\<lambda>a. None), backend_write = (\<lambda>a b. None),
     client_write_fails = (\<lambda>n. False), handshake = (\<lambda>b. None)\<rparr>"

definition sample_startup :: startup_msg where
  "sample_startup = \<lparr>ProtocolVersion = 196608, Parameters = [''database'' \<mapsto> ''app@pr1'']\<rparr>"

definition ready_branch_row :: branch_row where
  "ready_branch_row = \<lparr>row_id = ''b1'', row_name = ''pr1'', row_source_id = ''s1'', row_state = BranchReady,
     row_container_id = ''c1'', row_rw_volume = ''rw'', row_source_volume = ''v'', row_expires_at = [], row_host = ''10.0.0.7'',
     row_base_layer_id = None, row_parent_branch_name = [], row_password = [], row_port = 5432,
     row_created_at = [], row_updated_at = []\<rparr>"

definition ready_tables :: tables where
  "ready_tables = empty_tables\<lparr>branches := [ready_branch_row]\<rparr>"

lemmas resolve_simps = ResolveBranch_def GetBranchByName_def getBranch_def sql_query_def sql_def comp_simps
  scanBranch_def decryptColumn_def decrypt_def sample_sys_def empty_tables_def

lemma sample_split: "splitDatabase ''app@pr1'' = Some (''app'', ''pr1'')"
  using splitDatabase_append [of "''pr1''" "''app''"] by simp

theorem proxy_relays_only_to_ready_branch_witness:
  "\<exists>rs raw t. handleConn sample_net False ResolveBranch False [0, 0, 0, 8, 0, 3, 0, 0] [] (sample_sys ready_tables) =
     (rs, Relaying ''10.0.0.7:5432'' raw, t) \<and> (\<exists>b \<in> set (branches ready_tables). row_state b = BranchReady)"
proof -
  have "\<exists>rs raw t. handleConn sample_net False ResolveBranch False [0, 0, 0, 8, 0, 3, 0, 0] [] (sample_sys ready_tables) =
     (rs, Relaying ''10.0.0.7:5432'' raw, t)"
    by (subst handleConn.simps) (simp add: readStartupFrame_def read_full_def be_uint32_def Let_def minStartupPacketLen_def
      maxStartupPacketLen_def cancelRequestCode_def sslRequestCode_def gssEncRequestCode_def route_def sample_net_def
      database_of_def sample_split resolve_simps ready_tables_def ready_branch_row_def JoinHostPort_def has_prefix_def
      encPrefix_def int_str_def nat_str.simps)
  then obtain rs raw t where r: "handleConn sample_net False ResolveBranch False [0, 0, 0, 8, 0, 3, 0, 0] []
      (sample_sys ready_tables) = (rs, Relaying ''10.0.0.7:5432'' raw, t)" by blast
  from proxy_relays_only_to_ready_branch [OF r] r show ?thesis by (auto simp: sample_sys_def)
qed

theorem proxy_refusals_are_uniform_witness:
  "\<exists>msg t t'. route sample_net ResolveBranch sample_startup (sample_sys empty_tables) = (Refused ''3D000'' msg, t) \<and>
     route (sample_net\<lparr>dial := (\<lambda>_. Some (Msg ''refused''))\<rparr>) ResolveBranch sample_startup (sample_sys ready_tables) = (Refused ''3D000'' msg, t')"
proof -
  let ?N = "sample_net\<lparr>dial := (\<lambda>_. Some (Msg ''refused''))\<rparr>"
  have "\<exists>t. route sample_net ResolveBranch sample_startup (sample_sys empty_tables) = (Refused ''3D000'' genericRouteRefusal, t)"
    by (simp add: route_def sample_startup_def database_of_def sample_split resolve_simps)
  then obtain t where a: "route sample_net ResolveBranch sample_startup (sample_sys empty_tables) =
      (Refused ''3D000'' genericRouteRefusal, t)" by blast
  have "\<exists>msg t'. route ?N ResolveBranch sample_startup (sample_sys ready_tables) = (Refused ''3D000'' msg, t')"
    by (simp add: route_def sample_startup_def database_of_def sample_split resolve_simps sample_net_def
        ready_tables_def ready_branch_row_def has_prefix_def encPrefix_def)
  then obtain msg t' where b: "route ?N ResolveBranch sample_startup (sample_sys ready_tables) = (Refused ''3D000'' msg, t')" by blast
  have "genericRouteRefusal = msg"
    using proxy_refusals_are_uniform [OF _ _ _ _ a b]
    by (simp add: sample_net_def sample_startup_def database_of_def)
  with a b show ?thesis by blast
qed

end
