(* ===== verification/Api_Server.thy ===== *)
theory Api_Server
  imports Engine_Runs Pg_Proxy
begin

text \<open>
  Package \<open>internal/api\<close>: the REST control plane. Bearer authentication with roles (\<open>middleware.go\<close>), the
  leader gate (\<open>leader.go\<close>), the route table and wire types (\<open>server.go\<close>) and every handler (\<open>handlers.go\<close>).
  A handler is a computation that returns the response it writes. Matching of methods and paths and the
  JSON codec belong to the standard library: a request carries its decoded body or the decoding error.
\<close>

section \<open>Wire types (\<open>server.go\<close>)\<close>

record api_source =
  js_Name :: string
  js_PGVersion :: string
  js_Host :: string
  js_Port :: int
  js_User :: string
  js_Database :: string
  js_Network :: string
  js_Via :: string
  js_DumpSchemas :: "string list"
  js_State :: string
  js_Generation :: int
  js_CreatedAt :: string

record api_branch =
  jb_Name :: string
  jb_Source :: string
  jb_Parent :: string
  jb_State :: string
  jb_Host :: string
  jb_Port :: int
  jb_User :: string
  jb_Password :: string
  jb_Database :: string
  jb_ProxyDatabase :: string
  jb_ExpiresAt :: string
  jb_CreatedAt :: string

record create_source_request =
  cs_Name :: string
  cs_Host :: string
  cs_Port :: int
  cs_User :: string
  cs_Database :: string
  cs_Network :: string
  cs_PGVersion :: string
  cs_Password :: string
  cs_Via :: string
  cs_DumpSchemas :: "string list"

record create_branch_request =
  cb_Name :: string
  cb_Source :: string
  cb_Parent :: string
  cb_TTLSeconds :: int

record create_token_request =
  ct_Name :: string
  ct_Role :: string

datatype api_body =
    ErrorBody string
  | SourceBody api_source
  | SourcesBody "api_source list"
  | MasksBody "mask_script list"
  | BranchBody api_branch
  | BranchesBody "api_branch list"
  | UsageBody int
  | DiffBody "string diff_result"
  | HistoryBody "transition list"
  | PlanBody reconcile_plan
  | TokenBody string
  | TokensBody "api_token list"
  | StatusBody string
  | NoBody

record response =
  status :: nat
  body :: api_body

definition writeJSON :: "nat \<Rightarrow> api_body \<Rightarrow> response" where
  "writeJSON code v = \<lparr>status = code, body = v\<rparr>"

definition writeError :: "nat \<Rightarrow> string \<Rightarrow> response" where
  "writeError code msg = writeJSON code (ErrorBody msg)"

definition DefaultStuckTimeout :: int where "DefaultStuckTimeout = 600 * second"

record server =
  srv_eng :: engine
  srv_token :: string
  srv_stuckTimeout :: int
  srv_leader :: bool

definition NewServer :: "engine \<Rightarrow> string \<Rightarrow> int \<Rightarrow> server" where
  "NewServer e token st = \<lparr>srv_eng = e, srv_token = token,
     srv_stuckTimeout = (if st \<le> 0 then DefaultStuckTimeout else st), srv_leader = True\<rparr>"

definition IsLeader :: "server \<Rightarrow> bool" where "IsLeader srv = srv_leader srv"

definition SetLeader :: "bool \<Rightarrow> server \<Rightarrow> server" where "SetLeader leader srv = srv\<lparr>srv_leader := leader\<rparr>"

section \<open>Errors and rendering (\<open>handlers.go\<close>)\<close>

definition writeEngineError :: "err \<Rightarrow> response" where
  "writeEngineError e =
     (let msg = err_msg e in
      if errors_is e ErrInvalidName \<or> errors_is e ErrUnsupportedPGVersion then writeError 400 msg
      else if errors_is e ErrNotFound then writeError 404 msg
      else if errors_is e ErrQuotaExceeded then writeError 403 msg
      else if strings_contains msg ''UNIQUE constraint'' \<or> strings_contains msg ''live branch'' \<or>
        strings_contains msg ''child branch'' \<or> strings_contains msg ''illegal branch transition'' \<or>
        strings_contains msg ''not ready'' then writeError 409 msg
      else writeError 500 ''internal server error'')"

text \<open>\<open>if err != nil { writeEngineError(w, r, err); return }\<close>\<close>

definition or_engine_error :: "('s, 'a) comp \<Rightarrow> ('a \<Rightarrow> ('s, response) comp) \<Rightarrow> ('s, response) comp" where
  "or_engine_error m k = bnd (attempt m) (\<lambda>r. case r of Inl e \<Rightarrow> ok (writeEngineError e) | Inr x \<Rightarrow> k x)"

definition decode_or :: "err + 'b \<Rightarrow> ('b \<Rightarrow> ('s, response) comp) \<Rightarrow> ('s, response) comp" where
  "decode_or b k = (case b of Inl e \<Rightarrow> ok (writeError 400 (''invalid JSON body: '' @ err_msg e)) | Inr v \<Rightarrow> k v)"

definition sourceJSON :: "source \<Rightarrow> api_source" where
  "sourceJSON s = \<lparr>js_Name = src_Name s, js_PGVersion = src_PGVersion s, js_Host = src_ConnHost s, js_Port = src_ConnPort s,
     js_User = src_ConnUser s, js_Database = src_ConnDB s, js_Network = src_Network s, js_Via = src_SeedVia s,
     js_DumpSchemas = src_DumpSchemas s, js_State = source_state_str (src_State s), js_Generation = src_Generation s,
     js_CreatedAt = src_CreatedAt s\<rparr>"

definition branchJSON :: "branch \<Rightarrow> ('z sys_scheme, api_branch) comp" where
  "branchJSON b =
     bnd (attempt (GetSourceByID (br_SourceID b))) (\<lambda>r.
     let srcName = (case r of Inl _ \<Rightarrow> '''' | Inr src \<Rightarrow> src_Name src);
         user = (case r of Inl _ \<Rightarrow> ''postgres'' | Inr src \<Rightarrow> or_postgres (src_ConnUser src));
         database = (case r of Inl _ \<Rightarrow> ''postgres'' | Inr src \<Rightarrow> or_postgres (src_ConnDB src))
     in ok \<lparr>jb_Name = br_Name b, jb_Source = srcName, jb_Parent = br_ParentBranchName b,
       jb_State = branch_state_str (br_State b), jb_Host = br_Host b, jb_Port = br_Port b, jb_User = user,
       jb_Password = br_Password b, jb_Database = database, jb_ProxyDatabase = database @ ''@'' @ br_Name b,
       jb_ExpiresAt = br_ExpiresAt b, jb_CreatedAt = br_CreatedAt b\<rparr>)"

fun branches_json :: "branch list \<Rightarrow> ('z sys_scheme, api_branch list) comp" where
  "branches_json [] = ok []"
| "branches_json (b # bs) = bnd (branchJSON b) (\<lambda>j. bnd (branches_json bs) (\<lambda>js. ok (j # js)))"

section \<open>Handlers\<close>

definition source_of_request :: "create_source_request \<Rightarrow> source" where
  "source_of_request req = \<lparr>src_ID = [], src_Name = cs_Name req, src_PGVersion = cs_PGVersion req, src_Volume = [],
     src_ConnHost = cs_Host req, src_ConnUser = or_postgres (cs_User req), src_ConnDB = or_postgres (cs_Database req),
     src_Network = cs_Network req, src_SeedVia = (if cs_Via req = '''' then SeedViaBasebackup else cs_Via req),
     src_DumpSchemas = cs_DumpSchemas req, src_ConnPort = (if cs_Port req = 0 then 5432 else cs_Port req),
     src_Generation = 0, src_State = SourceSeeding, src_CreatedAt = []\<rparr>"

definition createSource :: "server \<Rightarrow> ctx \<Rightarrow> err + create_source_request \<Rightarrow> ('z sys_scheme, response) comp" where
  "createSource srv c b = decode_or b (\<lambda>req.
     let src = source_of_request req in
     if cs_Name req = '''' \<or> cs_Host req = '''' then ok (writeError 400 ''name and host are required'')
     else if src_SeedVia src \<noteq> SeedViaBasebackup \<and> src_SeedVia src \<noteq> SeedViaDump then
       ok (writeError 400 (''invalid via '' @ go_quote (src_SeedVia src) @ '': want '' @ go_quote SeedViaBasebackup @
         '' or '' @ go_quote SeedViaDump))
     else if cs_DumpSchemas req \<noteq> [] \<and> src_SeedVia src \<noteq> SeedViaDump then
       ok (writeError 400 ''dump_schemas is only valid with via=dump'')
     else or_engine_error (AddSource (srv_eng srv) c src (cs_Password req)) (\<lambda>_.
       or_engine_error (GetSourceByName (cs_Name req)) (\<lambda>fresh. ok (writeJSON 201 (SourceBody (sourceJSON fresh))))))"

definition listSources :: "('z sys_scheme, response) comp" where
  "listSources = or_engine_error ListSources (\<lambda>ss. ok (writeJSON 200 (SourcesBody (map sourceJSON ss))))"

definition removeSource :: "server \<Rightarrow> ctx \<Rightarrow> string \<Rightarrow> ('z sys_scheme, response) comp" where
  "removeSource srv c name = or_engine_error (RemoveSource (srv_eng srv) c name) (\<lambda>_. ok (writeJSON 204 NoBody))"

definition refreshSource :: "server \<Rightarrow> ctx \<Rightarrow> string \<Rightarrow> err + string \<Rightarrow> ('z sys_scheme, response) comp" where
  "refreshSource srv c name b = decode_or b (\<lambda>password.
     or_engine_error (RefreshSource (srv_eng srv) c name password) (\<lambda>_.
     or_engine_error (GetSourceByName name) (\<lambda>fresh. ok (writeJSON 200 (SourceBody (sourceJSON fresh))))))"

definition setMaskScripts :: "string \<Rightarrow> err + mask_script list \<Rightarrow> ('z sys_scheme, response) comp" where
  "setMaskScripts name b =
     or_engine_error (GetSourceByName name) (\<lambda>src. decode_or b (\<lambda>scs.
     if list_ex (\<lambda>sc. ms_SQL sc = '''') scs then ok (writeError 400 ''mask script sql must not be empty'')
     else or_engine_error (SetMaskScripts (src_ID src) scs) (\<lambda>_. ok (writeJSON 200 (MasksBody scs)))))"

definition getMaskScripts :: "string \<Rightarrow> ('z sys_scheme, response) comp" where
  "getMaskScripts name =
     or_engine_error (GetSourceByName name) (\<lambda>src.
     or_engine_error (GetMaskScripts (src_ID src)) (\<lambda>rs. ok (writeJSON 200 (MasksBody rs))))"

text \<open>\<open>time.Duration(req.TTLSeconds) * time.Second\<close> in 64-bit arithmetic\<close>

definition ttl_duration :: "int \<Rightarrow> int" where
  "ttl_duration n = sint (word_of_int n * word_of_int second :: 64 word)"

definition createBranch :: "server \<Rightarrow> ctx \<Rightarrow> err + create_branch_request \<Rightarrow> ('z sys_scheme, response) comp" where
  "createBranch srv c b = decode_or b (\<lambda>req.
     if cb_Name req = '''' then ok (writeError 400 ''name is required'')
     else if (cb_Source req = '''') = (cb_Parent req = '''') then
       ok (writeError 400 ''exactly one of source or parent is required'')
     else if cb_TTLSeconds req < 0 then ok (writeError 400 ''ttl_seconds must be >= 0'')
     else let ttl = ttl_duration (cb_TTLSeconds req) in
       or_engine_error
         (if cb_Parent req \<noteq> '''' then CreateBranchFrom (srv_eng srv) c (cb_Name req) (cb_Parent req) ttl
          else eng_CreateBranch (srv_eng srv) c (cb_Name req) (cb_Source req) ttl)
         (\<lambda>br. bnd (branchJSON br) (\<lambda>j. ok (writeJSON 201 (BranchBody j)))))"

definition listBranchesH :: "('z sys_scheme, response) comp" where
  "listBranchesH = or_engine_error ListLiveBranches (\<lambda>bs. bnd (branches_json bs) (\<lambda>js. ok (writeJSON 200 (BranchesBody js))))"

definition getBranchH :: "string \<Rightarrow> ('z sys_scheme, response) comp" where
  "getBranchH name = or_engine_error (GetBranchByName name) (\<lambda>b. bnd (branchJSON b) (\<lambda>j. ok (writeJSON 200 (BranchBody j))))"

definition branchUsage :: "server \<Rightarrow> ctx \<Rightarrow> string \<Rightarrow> ('z sys_scheme, response) comp" where
  "branchUsage srv c name = or_engine_error (BranchUsage (srv_eng srv) c name) (\<lambda>n. ok (writeJSON 200 (UsageBody n)))"

definition branchDiff :: "string json_lib \<Rightarrow> server \<Rightarrow> ctx \<Rightarrow> string \<Rightarrow> string \<Rightarrow> ('z sys_scheme, response) comp" where
  "branchDiff J srv c name data =
     (let run = (\<lambda>opts. or_engine_error (DiffBranch J (srv_eng srv) c name opts) (\<lambda>res. ok (writeJSON 200 (DiffBody res))))
      in if data = '''' then run []
         else case ParseInt64 data of
           None \<Rightarrow> ok (writeError 400 ''data must be a non-negative integer'')
         | Some n \<Rightarrow> if n < 0 then ok (writeError 400 ''data must be a non-negative integer'')
             else run (if 0 < n then [WithDataSample n] else []))"

definition branchHistory :: "string \<Rightarrow> ('z sys_scheme, response) comp" where
  "branchHistory name = or_engine_error (BranchHistory name) (\<lambda>rows. ok (writeJSON 200 (HistoryBody rows)))"

definition destroyBranch :: "server \<Rightarrow> ctx \<Rightarrow> string \<Rightarrow> ('z sys_scheme, response) comp" where
  "destroyBranch srv c name = or_engine_error (DestroyBranch (srv_eng srv) c name) (\<lambda>_. ok (writeJSON 204 NoBody))"

definition resetBranch :: "server \<Rightarrow> ctx \<Rightarrow> string \<Rightarrow> ('z sys_scheme, response) comp" where
  "resetBranch srv c name = or_engine_error (ResetBranch (srv_eng srv) c name)
     (\<lambda>b. bnd (branchJSON b) (\<lambda>j. ok (writeJSON 200 (BranchBody j))))"

definition reconcilePlan :: "server \<Rightarrow> ctx \<Rightarrow> ('z sys_scheme, response) comp" where
  "reconcilePlan srv c = bnd time_now (\<lambda>now.
     or_engine_error (PlanReconcile c now (srv_stuckTimeout srv)) (\<lambda>p. ok (writeJSON 200 (PlanBody p))))"

text \<open>The actions taken come with the joined error, which takes precedence.\<close>

definition reconcileApply :: "server \<Rightarrow> ctx \<Rightarrow> ('z sys_scheme, response) comp" where
  "reconcileApply srv c = bnd time_now (\<lambda>now.
     or_engine_error (ApplyReconcile (srv_eng srv) c now (srv_stuckTimeout srv)) (\<lambda>(taken, er).
     case er of Some e \<Rightarrow> ok (writeEngineError e) | None \<Rightarrow> ok (writeJSON 200 (PlanBody taken))))"

definition createToken :: "(nat list \<Rightarrow> nat list) \<Rightarrow> err + create_token_request \<Rightarrow> ('z sys_scheme, response) comp" where
  "createToken sha b =
     (case b of
        Inl _ \<Rightarrow> ok (writeError 400 ''invalid JSON body'')
      | Inr req \<Rightarrow>
          if ct_Name req = '''' then ok (writeError 400 ''name is required'')
          else if \<not> ValidRole (ct_Role req) then ok (writeError 400 ''invalid role: want admin, operator or viewer'')
          else or_engine_error (CreateAPIToken sha (ct_Name req) (ct_Role req)) (\<lambda>p. ok (writeJSON 201 (TokenBody p))))"

definition listTokens :: "('z sys_scheme, response) comp" where
  "listTokens = or_engine_error ListAPITokens (\<lambda>ts. ok (writeJSON 200 (TokensBody ts)))"

definition revokeToken :: "string \<Rightarrow> ('z sys_scheme, response) comp" where
  "revokeToken name = or_engine_error (RevokeAPIToken name) (\<lambda>_. ok (writeJSON 204 NoBody))"

definition readyz :: "err option option \<Rightarrow> response" where
  "readyz ready = (case ready of Some (Some e) \<Rightarrow> writeError 503 (err_msg e) | _ \<Rightarrow> writeJSON 200 (StatusBody ''ready''))"

section \<open>Authentication and routes (\<open>middleware.go\<close>, \<open>leader.go\<close>, \<open>server.go\<close>)\<close>

definition roleRank :: "string \<Rightarrow> nat" where
  "roleRank role = (if role = RoleViewer then 1 else if role = RoleOperator then 2 else if role = RoleAdmin then 3 else 0)"

definition envTokenActor :: string where "envTokenActor = ''root''"

definition no_actor :: actor where "no_actor = \<lparr>ActorName = '''', ActorRole = ''''\<rparr>"

definition resolveActor :: "(nat list \<Rightarrow> nat list) \<Rightarrow> server \<Rightarrow> string \<Rightarrow> ('z sys_scheme, actor) comp" where
  "resolveActor sha srv hdr =
     (if \<not> has_prefix hdr ''Bearer '' then ok no_actor
      else let presented = trim_prefix hdr ''Bearer '' in
        if srv_token srv \<noteq> '''' \<and> presented = srv_token srv then ok \<lparr>ActorName = envTokenActor, ActorRole = RoleAdmin\<rparr>
        else bnd (LookupAPITokenActor sha presented) (\<lambda>r.
          ok (case r of Some (name, role) \<Rightarrow> \<lparr>ActorName = name, ActorRole = role\<rparr> | None \<Rightarrow> no_actor)))"

definition resolveRole :: "(nat list \<Rightarrow> nat list) \<Rightarrow> server \<Rightarrow> string \<Rightarrow> ('z sys_scheme, string) comp" where
  "resolveRole sha srv hdr = bnd (resolveActor sha srv hdr) (\<lambda>a. ok (ActorRole a))"

definition requireRole :: "(nat list \<Rightarrow> nat list) \<Rightarrow> server \<Rightarrow> string \<Rightarrow> string \<Rightarrow> ctx \<Rightarrow> (ctx \<Rightarrow> ('z sys_scheme, response) comp)
    \<Rightarrow> ('z sys_scheme, response) comp" where
  "requireRole sha srv hdr mn c nxt =
     bnd (resolveActor sha srv hdr) (\<lambda>a.
     if ActorRole a = '''' then ok (writeError 401 ''missing or invalid bearer token'')
     else if roleRank (ActorRole a) < roleRank mn then
       ok (writeError 403 (''role '' @ ActorRole a @ '' lacks the required '' @ mn @ '' privilege''))
     else nxt (WithActor c a))"

definition requireLeader :: "server \<Rightarrow> ('z sys_scheme, response) comp \<Rightarrow> ('z sys_scheme, response) comp" where
  "requireLeader srv nxt = (if \<not> IsLeader srv then ok (writeError 503 ''not leader'') else nxt)"

definition mutate :: "(nat list \<Rightarrow> nat list) \<Rightarrow> server \<Rightarrow> string \<Rightarrow> string \<Rightarrow> ctx \<Rightarrow> (ctx \<Rightarrow> ('z sys_scheme, response) comp)
    \<Rightarrow> ('z sys_scheme, response) comp" where
  "mutate sha srv hdr mn c nxt = requireLeader srv (requireRole sha srv hdr mn c nxt)"

datatype api_request =
    PostSources "err + create_source_request"
  | GetSources
  | DeleteSourceReq string
  | PostRefresh string "err + string"
  | PutMask string "err + mask_script list"
  | GetMask string
  | PostBranches "err + create_branch_request"
  | GetBranches
  | GetBranchReq string
  | GetUsage string
  | GetDiff string string
  | GetHistory string
  | DeleteBranchReq string
  | PostReset string
  | GetPlan
  | PostReconcile
  | PostTokens "err + create_token_request"
  | GetTokens
  | DeleteToken string

text \<open>The route table of \<open>Handler\<close>: which wrapper, which minimum role, which handler.\<close>

fun mutating :: "api_request \<Rightarrow> bool" where
  "mutating (PostSources _) = True" | "mutating GetSources = False" | "mutating (DeleteSourceReq _) = True"
| "mutating (PostRefresh _ _) = True" | "mutating (PutMask _ _) = True" | "mutating (GetMask _) = False"
| "mutating (PostBranches _) = True" | "mutating GetBranches = False" | "mutating (GetBranchReq _) = False"
| "mutating (GetUsage _) = False" | "mutating (GetDiff _ _) = False" | "mutating (GetHistory _) = False"
| "mutating (DeleteBranchReq _) = True" | "mutating (PostReset _) = True" | "mutating GetPlan = False"
| "mutating PostReconcile = True" | "mutating (PostTokens _) = True" | "mutating GetTokens = False"
| "mutating (DeleteToken _) = True"

fun min_role :: "api_request \<Rightarrow> string" where
  "min_role (PostSources _) = RoleAdmin" | "min_role GetSources = RoleViewer" | "min_role (DeleteSourceReq _) = RoleAdmin"
| "min_role (PostRefresh _ _) = RoleAdmin" | "min_role (PutMask _ _) = RoleAdmin" | "min_role (GetMask _) = RoleViewer"
| "min_role (PostBranches _) = RoleOperator" | "min_role GetBranches = RoleViewer" | "min_role (GetBranchReq _) = RoleViewer"
| "min_role (GetUsage _) = RoleViewer" | "min_role (GetDiff _ _) = RoleViewer" | "min_role (GetHistory _) = RoleViewer"
| "min_role (DeleteBranchReq _) = RoleOperator" | "min_role (PostReset _) = RoleOperator" | "min_role GetPlan = RoleViewer"
| "min_role PostReconcile = RoleOperator" | "min_role (PostTokens _) = RoleAdmin" | "min_role GetTokens = RoleAdmin"
| "min_role (DeleteToken _) = RoleAdmin"

fun handle :: "string json_lib \<Rightarrow> (nat list \<Rightarrow> nat list) \<Rightarrow> server \<Rightarrow> api_request \<Rightarrow> ctx \<Rightarrow> ('z sys_scheme, response) comp" where
  "handle J sha srv (PostSources b) c = createSource srv c b"
| "handle J sha srv GetSources c = listSources"
| "handle J sha srv (DeleteSourceReq n) c = removeSource srv c n"
| "handle J sha srv (PostRefresh n b) c = refreshSource srv c n b"
| "handle J sha srv (PutMask n b) c = setMaskScripts n b"
| "handle J sha srv (GetMask n) c = getMaskScripts n"
| "handle J sha srv (PostBranches b) c = createBranch srv c b"
| "handle J sha srv GetBranches c = listBranchesH"
| "handle J sha srv (GetBranchReq n) c = getBranchH n"
| "handle J sha srv (GetUsage n) c = branchUsage srv c n"
| "handle J sha srv (GetDiff n d) c = branchDiff J srv c n d"
| "handle J sha srv (GetHistory n) c = branchHistory n"
| "handle J sha srv (DeleteBranchReq n) c = destroyBranch srv c n"
| "handle J sha srv (PostReset n) c = resetBranch srv c n"
| "handle J sha srv GetPlan c = reconcilePlan srv c"
| "handle J sha srv PostReconcile c = reconcileApply srv c"
| "handle J sha srv (PostTokens b) c = createToken sha b"
| "handle J sha srv GetTokens c = listTokens"
| "handle J sha srv (DeleteToken n) c = revokeToken n"

definition serve :: "string json_lib \<Rightarrow> (nat list \<Rightarrow> nat list) \<Rightarrow> server \<Rightarrow> ctx \<Rightarrow> string \<Rightarrow> api_request
    \<Rightarrow> ('z sys_scheme, response) comp" where
  "serve J sha srv c hdr req =
     (if mutating req then mutate sha srv hdr (min_role req) c (handle J sha srv req)
      else requireRole sha srv hdr (min_role req) c (handle J sha srv req))"

end
