(* ===== verification/Ha_Leader.thy ===== *)
theory Ha_Leader
  imports Api_Server
begin

text \<open>
  Package \<open>internal/ha\<close>: the election callbacks of a replica. The elector of the Kubernetes client is not
  part of the repository; what the callbacks rely on is written as its events: a term begins (the lease was
  acquired; \<open>OnStartedLeading\<close> is started in a goroutine of its own), a term ends (its context is cancelled,
  then \<open>OnStoppedLeading\<close> runs in the elector's goroutine), and an attempt may be given up without a term,
  which also runs \<open>OnStoppedLeading\<close>. The callbacks are cut at every access to shared state, so that their
  steps interleave freely.
\<close>

section \<open>The callbacks as steps\<close>

text \<open>Where an invocation of \<open>OnStartedLeading\<close> is: it stores its cancel function, opens the gate, runs the loop.\<close>

datatype start_pc = SStoreCancel | SOpenGate | SRunning | SReturned

text \<open>Where \<open>OnStoppedLeading\<close> is: it closes the gate, takes the cancel function, calls it.\<close>

datatype stop_pc = TIdle | TCloseGate | TTakeCancel | TCall "nat option"

record callbacks =
  cb_server :: server
  cb_cancel :: "nat option"
  cb_lease :: "nat option"
  cb_terms :: nat
  cb_starts :: "nat \<Rightarrow> start_pc option"
  cb_stop :: stop_pc
  cb_ended :: "nat set"
  cb_cancelled :: "nat set"

text \<open>\<open>branchd\<close> closes the gate before it builds the callbacks and starts contending.\<close>

definition NewCallbacks :: "server \<Rightarrow> callbacks" where
  "NewCallbacks srv = \<lparr>cb_server = SetLeader False srv, cb_cancel = None, cb_lease = None, cb_terms = 0,
     cb_starts = (\<lambda>_. None), cb_stop = TIdle, cb_ended = {}, cb_cancelled = {}\<rparr>"

text \<open>The context of the loop of a term is done when the term's context or the loop's own was cancelled.\<close>

definition loop_ctx_done :: "callbacks \<Rightarrow> nat \<Rightarrow> bool" where
  "loop_ctx_done s k \<longleftrightarrow> k \<in> cb_ended s \<or> k \<in> cb_cancelled s"

fun OnStartedLeading :: "nat \<Rightarrow> callbacks \<Rightarrow> callbacks option" where
  "OnStartedLeading k s =
     (case cb_starts s k of
        Some SStoreCancel \<Rightarrow> Some (s\<lparr>cb_cancel := Some k, cb_starts := (cb_starts s)(k \<mapsto> SOpenGate)\<rparr>)
      | Some SOpenGate \<Rightarrow> Some (s\<lparr>cb_server := SetLeader True (cb_server s), cb_starts := (cb_starts s)(k \<mapsto> SRunning)\<rparr>)
      | Some SRunning \<Rightarrow> (if loop_ctx_done s k then Some (s\<lparr>cb_starts := (cb_starts s)(k \<mapsto> SReturned)\<rparr>) else None)
      | _ \<Rightarrow> None)"

fun OnStoppedLeading :: "callbacks \<Rightarrow> callbacks option" where
  "OnStoppedLeading s =
     (case cb_stop s of
        TIdle \<Rightarrow> None
      | TCloseGate \<Rightarrow> Some (s\<lparr>cb_server := SetLeader False (cb_server s), cb_stop := TTakeCancel\<rparr>)
      | TTakeCancel \<Rightarrow> Some (s\<lparr>cb_stop := TCall (cb_cancel s), cb_cancel := None\<rparr>)
      | TCall f \<Rightarrow> Some (s\<lparr>cb_cancelled := cb_cancelled s \<union> set_option f, cb_stop := TIdle\<rparr>))"

datatype ha_event = EvTermBegins | EvTermEnds | EvGiveUp | EvStart nat | EvStop

text \<open>One round of \<open>Run\<close>: contend, lead, stop; then the next round.\<close>

fun ha_do :: "ha_event \<Rightarrow> callbacks \<Rightarrow> callbacks option" where
  "ha_do EvTermBegins s =
     (if cb_lease s = None \<and> cb_stop s = TIdle then
        Some (s\<lparr>cb_lease := Some (cb_terms s), cb_terms := Suc (cb_terms s),
          cb_starts := (cb_starts s)(cb_terms s \<mapsto> SStoreCancel)\<rparr>) else None)"
| "ha_do EvTermEnds s =
     (case cb_lease s of None \<Rightarrow> None
      | Some k \<Rightarrow> Some (s\<lparr>cb_lease := None, cb_ended := insert k (cb_ended s), cb_stop := TCloseGate\<rparr>))"
| "ha_do EvGiveUp s = (if cb_lease s = None \<and> cb_stop s = TIdle then Some (s\<lparr>cb_stop := TCloseGate\<rparr>) else None)"
| "ha_do (EvStart k) s = OnStartedLeading k s"
| "ha_do EvStop s = OnStoppedLeading s"

fun ha_run :: "ha_event list \<Rightarrow> callbacks \<Rightarrow> callbacks option" where
  "ha_run [] s = Some s"
| "ha_run (e # es) s = (case ha_do e s of None \<Rightarrow> None | Some t \<Rightarrow> ha_run es t)"

inductive ha_reach :: "server \<Rightarrow> callbacks \<Rightarrow> bool" for srv where
  ha_start: "ha_reach srv (NewCallbacks srv)"
| ha_step: "ha_reach srv s \<Longrightarrow> ha_do e s = Some t \<Longrightarrow> ha_reach srv t"

lemma ha_run_reach: "ha_run es s = Some t \<Longrightarrow> ha_reach srv s \<Longrightarrow> ha_reach srv t"
  by (induction es arbitrary: s) (auto split: option.splits intro: ha_reach.ha_step)

text \<open>\<open>Identity\<close>: the pod name, else the host name, else a fixed name.\<close>

definition Identity :: "(string \<Rightarrow> string) \<Rightarrow> err + string \<Rightarrow> string" where
  "Identity getenv hostname =
     (if getenv ''POD_NAME'' \<noteq> '''' then getenv ''POD_NAME''
      else case hostname of Inr h \<Rightarrow> (if h \<noteq> '''' then h else ''branchd'') | Inl _ \<Rightarrow> ''branchd'')"

section \<open>Loops follow the lease\<close>

text \<open>
  Terms are numbered; those before the current one have ended; a start callback exists for the terms so far;
  the stored cancel function belongs to one of them.
\<close>

definition ha_inv :: "callbacks \<Rightarrow> bool" where
  "ha_inv s \<longleftrightarrow>
     (\<forall>k. cb_starts s k \<noteq> None \<longleftrightarrow> k < cb_terms s) \<and>
     (\<forall>k < cb_terms s. k \<in> cb_ended s \<or> cb_lease s = Some k) \<and>
     cb_ended s \<subseteq> {..<cb_terms s} \<and> (\<forall>k. cb_lease s = Some k \<longrightarrow> k \<notin> cb_ended s \<and> k < cb_terms s \<and> cb_stop s = TIdle)"

lemma ha_inv_start: "ha_inv (NewCallbacks srv)"
  by (simp add: ha_inv_def NewCallbacks_def)

lemma ha_inv_do: "ha_inv s \<Longrightarrow> ha_do e s = Some t \<Longrightarrow> ha_inv t"
  by (cases e) (auto simp: ha_inv_def less_Suc_eq split: option.splits start_pc.splits stop_pc.splits if_splits)

lemma ha_reach_inv: "ha_reach srv s \<Longrightarrow> ha_inv s"
  by (induction rule: ha_reach.induct) (simp_all add: ha_inv_start ha_inv_do)

text \<open>
  A reconcile loop never outlives its term. In every reachable state a loop whose context is not done
  belongs to the term this replica currently leads, so at most one loop of the replica is at work, however
  the callbacks and the elector interleave.
\<close>

theorem reconcile_loop_follows_lease:
  assumes "ha_reach srv s" "cb_starts s k = Some SRunning" "\<not> loop_ctx_done s k"
  shows "cb_lease s = Some k"
proof -
  have "k < cb_terms s" "\<forall>k < cb_terms s. k \<in> cb_ended s \<or> cb_lease s = Some k"
    using ha_reach_inv [OF assms(1)] assms(2) by (auto simp: ha_inv_def)
  then show ?thesis using assms(3) by (auto simp: loop_ctx_done_def)
qed

section \<open>The gate and the lease\<close>

text \<open>Runs in which a term ends only after its start callback has opened the gate.\<close>

definition timely :: "ha_event \<Rightarrow> callbacks \<Rightarrow> bool" where
  "timely e s \<longleftrightarrow> (e = EvTermEnds \<longrightarrow> (\<forall>k. cb_lease s = Some k \<longrightarrow> cb_starts s k \<in> {Some SRunning, Some SReturned}))"

inductive ha_timely :: "server \<Rightarrow> callbacks \<Rightarrow> bool" for srv where
  timely_start: "ha_timely srv (NewCallbacks srv)"
| timely_step: "ha_timely srv s \<Longrightarrow> timely e s \<Longrightarrow> ha_do e s = Some t \<Longrightarrow> ha_timely srv t"

lemma ha_timely_reach: "ha_timely srv s \<Longrightarrow> ha_reach srv s"
  by (induction rule: ha_timely.induct) (auto intro: ha_reach.intros)

definition gate_inv :: "callbacks \<Rightarrow> bool" where
  "gate_inv s \<longleftrightarrow>
     (\<forall>k. cb_starts s k \<in> {Some SStoreCancel, Some SOpenGate} \<longrightarrow> cb_lease s = Some k) \<and>
     (IsLeader (cb_server s) \<longrightarrow> cb_lease s \<noteq> None \<or> cb_stop s = TCloseGate) \<and>
     (\<forall>k. cb_lease s = Some k \<longrightarrow> cb_starts s k = Some SRunning \<longrightarrow> IsLeader (cb_server s))"

lemma gate_simps [simp]: "IsLeader (SetLeader b srv) = b"
  by (simp add: IsLeader_def SetLeader_def)

lemma gate_inv_start: "gate_inv (NewCallbacks srv)"
  by (simp add: gate_inv_def NewCallbacks_def)

lemma gate_inv_do:
  assumes "gate_inv s" "ha_inv s" "timely e s" "ha_do e s = Some t"
  shows "gate_inv t"
  using assms
  by (cases e) (auto simp: gate_inv_def ha_inv_def timely_def split: option.splits start_pc.splits stop_pc.splits if_splits)

lemma ha_timely_inv: "ha_timely srv s \<Longrightarrow> gate_inv s"
proof (induction rule: ha_timely.induct)
  case (timely_step s e t)
  then show ?case using gate_inv_do ha_reach_inv [OF ha_timely_reach] by blast
qed (rule gate_inv_start)

text \<open>
  C34: When no term ends before its start callback has opened the gate, the gate follows the lease: it is open
  only while this replica leads or \<open>OnStoppedLeading\<close> is about to close it, and it is open whenever the
  replica leads and its loop runs.
\<close>

theorem gate_follows_lease:
  assumes "ha_timely srv s"
  shows "(IsLeader (cb_server s) \<longrightarrow> cb_lease s \<noteq> None \<or> cb_stop s = TCloseGate) \<and>
    (\<forall>k. cb_lease s = Some k \<longrightarrow> cb_starts s k = Some SRunning \<longrightarrow> IsLeader (cb_server s))"
  using ha_timely_inv [OF assms] by (simp add: gate_inv_def)

text \<open>
  C35: Without that, the gate can stay open on a replica that does not lead: when the term ends before the
  goroutine of \<open>OnStartedLeading\<close> has run, \<open>OnStoppedLeading\<close> closes the gate first and the late callback opens
  it again. Both callbacks have returned, the lease is gone, and mutating requests are accepted.
\<close>

theorem gate_can_stay_open:
  "\<exists>s. ha_reach srv s \<and> cb_lease s = None \<and> cb_stop s = TIdle \<and> (\<forall>k. cb_starts s k \<in> {None, Some SReturned}) \<and>
     (\<forall>m :: ('z sys_scheme, response) comp. requireLeader (cb_server s) m = m)"
proof -
  let ?run = "[EvTermBegins, EvTermEnds, EvStop, EvStop, EvStop, EvStart 0, EvStart 0, EvStart 0]"
  let ?s = "\<lparr>cb_server = SetLeader True (SetLeader False (SetLeader False srv)), cb_cancel = Some 0, cb_lease = None,
     cb_terms = 1, cb_starts = [0 \<mapsto> SReturned], cb_stop = TIdle, cb_ended = {0}, cb_cancelled = {}\<rparr>"
  have "ha_run ?run (NewCallbacks srv) = Some ?s" by (simp add: NewCallbacks_def loop_ctx_done_def)
  from ha_run_reach [OF this ha_reach.ha_start] show ?thesis
    by (intro exI [of _ ?s] conjI) (auto simp: requireLeader_def)
qed

theorem reconcile_loop_follows_lease_witness:
  "\<exists>s. ha_run [EvTermBegins, EvTermEnds, EvStart 0, EvStart 0, EvStop, EvStop, EvStop, EvTermBegins, EvStart 1, EvStart 1]
       (NewCallbacks (NewServer sample_engine [] 0)) = Some s \<and> cb_starts s 0 = Some SRunning \<and> loop_ctx_done s 0 \<and>
     cb_starts s 1 = Some SRunning \<and> \<not> loop_ctx_done s 1 \<and> cb_lease s = Some 1"
proof -
  have "\<exists>s. ha_run [EvTermBegins, EvTermEnds, EvStart 0, EvStart 0, EvStop, EvStop, EvStop, EvTermBegins, EvStart 1, EvStart 1]
       (NewCallbacks (NewServer sample_engine [] 0)) = Some s \<and> cb_starts s 0 = Some SRunning \<and> loop_ctx_done s 0 \<and>
     cb_starts s 1 = Some SRunning \<and> \<not> loop_ctx_done s 1"
    by (simp add: NewCallbacks_def loop_ctx_done_def)
  then obtain s where s: "ha_run [EvTermBegins, EvTermEnds, EvStart 0, EvStart 0, EvStop, EvStop, EvStop, EvTermBegins, EvStart 1, EvStart 1]
       (NewCallbacks (NewServer sample_engine [] 0)) = Some s" "cb_starts s 0 = Some SRunning" "loop_ctx_done s 0"
     "cb_starts s 1 = Some SRunning" "\<not> loop_ctx_done s 1" by blast
  from reconcile_loop_follows_lease [OF ha_run_reach [OF s(1) ha_reach.ha_start] s(4,5)] s show ?thesis by blast
qed

theorem gate_follows_lease_witness:
  "\<exists>s. ha_timely (NewServer sample_engine [] 0) s \<and> cb_lease s = Some 0 \<and> IsLeader (cb_server s)"
proof -
  let ?srv = "NewServer sample_engine [] 0"
  have "\<exists>s1 s2 s3. ha_do EvTermBegins (NewCallbacks ?srv) = Some s1 \<and> ha_do (EvStart 0) s1 = Some s2 \<and>
      ha_do (EvStart 0) s2 = Some s3 \<and> cb_lease s3 = Some 0 \<and> cb_starts s3 0 = Some SRunning"
    by (simp add: NewCallbacks_def)
  then obtain s1 s2 s3 where s: "ha_do EvTermBegins (NewCallbacks ?srv) = Some s1" "ha_do (EvStart 0) s1 = Some s2"
      "ha_do (EvStart 0) s2 = Some s3" "cb_lease s3 = Some 0" "cb_starts s3 0 = Some SRunning" by blast
  have t: "timely EvTermBegins s" "timely (EvStart k) s" for s k by (simp_all add: timely_def)
  have "ha_timely ?srv s3"
    by (rule timely_step [OF timely_step [OF timely_step [OF timely_start t(1) s(1)] t(2) s(2)] t(2) s(3)])
  then show ?thesis using gate_follows_lease s(4,5) by blast
qed

end
