(* ===== verification/Api_Client.thy ===== *)
theory Api_Client
  imports Api_Server
begin

text \<open>
  Package \<open>internal/apiclient\<close>: the typed client of the REST API, and the way its requests reach the handlers.
  The network is a parameter (\<open>transport\<close>): it takes method, path and body and answers with a response or a
  transport error. \<open>loopback\<close> is the network that delivers to the server of \<open>Api_Server\<close>: it splits the path
  into segments, unescapes them and follows the route table. The JSON codec is the parameter \<open>codec\<close>, which
  reads a body as a value of the expected type.
\<close>

section \<open>Paths\<close>

text \<open>\<open>url.PathEscape\<close> and \<open>url.PathUnescape\<close> on bytes\<close>

definition path_safe :: "char \<Rightarrow> bool" where
  "path_safe c \<longleftrightarrow> (CHR ''a'' \<le> c \<and> c \<le> CHR ''z'') \<or> (CHR ''A'' \<le> c \<and> c \<le> CHR ''Z'') \<or> (CHR ''0'' \<le> c \<and> c \<le> CHR ''9'') \<or>
     c \<in> set ''-_.~$&+:=@''"

definition upperhex :: "nat \<Rightarrow> char" where
  "upperhex n = char_of (if n < 10 then 48 + n else 55 + n)"

definition PathEscape :: "string \<Rightarrow> string" where
  "PathEscape s = concat (map (\<lambda>c. if path_safe c then [c]
     else [CHR ''%'', upperhex (of_char c div 16), upperhex (of_char c mod 16)]) s)"

definition unhex :: "char \<Rightarrow> nat option" where
  "unhex c = (let n = of_char c in
     if 48 \<le> n \<and> n \<le> 57 then Some (n - 48) else if 97 \<le> n \<and> n \<le> 102 then Some (n - 87)
     else if 65 \<le> n \<and> n \<le> 70 then Some (n - 55) else None)"

fun PathUnescape :: "string \<Rightarrow> string option" where
  "PathUnescape [] = Some []"
| "PathUnescape (c # s) =
     (if c = CHR ''%'' then
        (case s of a # b # r \<Rightarrow>
           (case (unhex a, unhex b, PathUnescape r) of
              (Some x, Some y, Some t) \<Rightarrow> Some (char_of (16 * x + y) # t) | _ \<Rightarrow> None)
         | _ \<Rightarrow> None)
      else map_option (\<lambda>t. c # t) (PathUnescape s))"

text \<open>A segment that does not unescape is matched as it is.\<close>

definition segment :: "string \<Rightarrow> string" where
  "segment s = (case PathUnescape s of Some t \<Rightarrow> t | None \<Rightarrow> s)"

definition cut_query :: "string \<Rightarrow> string \<times> string" where
  "cut_query p = (takeWhile (\<lambda>c. c \<noteq> CHR ''?'') p, tl (dropWhile (\<lambda>c. c \<noteq> CHR ''?'') p))"

section \<open>Requests and routes\<close>

datatype http_method = GET | POST | PUT | PATCH | DELETE

fun method_str :: "http_method \<Rightarrow> string" where
  "method_str GET = ''GET''" | "method_str POST = ''POST''" | "method_str PUT = ''PUT''"
| "method_str PATCH = ''PATCH''" | "method_str DELETE = ''DELETE''"

datatype api_in =
    NoIn
  | SourceIn create_source_request
  | RefreshIn string
  | MaskIn "mask_script list"
  | BranchIn create_branch_request
  | TokenIn create_token_request

text \<open>
  The patterns of the route table on the unescaped segments, for the bodies the client sends there. A path
  with an empty, dot or dot-dot segment is not matched but cleaned and redirected.
\<close>

fun route_root :: "http_method \<Rightarrow> string \<Rightarrow> api_in \<Rightarrow> api_request option" where
  "route_root POST r b =
     (if r = ''sources'' then (case b of SourceIn x \<Rightarrow> Some (PostSources (Inr x)) | _ \<Rightarrow> None)
      else if r = ''branches'' then (case b of BranchIn x \<Rightarrow> Some (PostBranches (Inr x)) | _ \<Rightarrow> None)
      else if r = ''tokens'' then (case b of TokenIn x \<Rightarrow> Some (PostTokens (Inr x)) | _ \<Rightarrow> None)
      else if r = ''reconcile'' then Some PostReconcile else None)"
| "route_root GET r b =
     (if r = ''sources'' then Some GetSources else if r = ''branches'' then Some GetBranches
      else if r = ''tokens'' then Some GetTokens else None)"
| "route_root _ r b = None"

fun route_item :: "http_method \<Rightarrow> string \<Rightarrow> string \<Rightarrow> api_request option" where
  "route_item DELETE r n =
     (if r = ''sources'' then Some (DeleteSourceReq n) else if r = ''branches'' then Some (DeleteBranchReq n)
      else if r = ''tokens'' then Some (DeleteToken n) else None)"
| "route_item GET r n =
     (if r = ''branches'' then Some (GetBranchReq n) else if r = ''reconcile'' \<and> n = ''plan'' then Some GetPlan else None)"
| "route_item _ r n = None"

fun route_sub :: "http_method \<Rightarrow> string \<Rightarrow> string \<Rightarrow> string \<Rightarrow> string \<Rightarrow> api_in \<Rightarrow> api_request option" where
  "route_sub GET r n x data b =
     (if r = ''sources'' \<and> x = ''mask'' then Some (GetMask n)
      else if r = ''branches'' \<and> x = ''usage'' then Some (GetUsage n)
      else if r = ''branches'' \<and> x = ''diff'' then Some (GetDiff n data)
      else if r = ''branches'' \<and> x = ''history'' then Some (GetHistory n) else None)"
| "route_sub POST r n x data b =
     (if r = ''sources'' \<and> x = ''refresh'' then (case b of RefreshIn p \<Rightarrow> Some (PostRefresh n (Inr p)) | _ \<Rightarrow> None)
      else if r = ''branches'' \<and> x = ''reset'' then Some (PostReset n) else None)"
| "route_sub PUT r n x data b =
     (if r = ''sources'' \<and> x = ''mask'' then (case b of MaskIn ms \<Rightarrow> Some (PutMask n (Inr ms)) | _ \<Rightarrow> None) else None)"
| "route_sub _ r n x data b = None"

definition api_route :: "http_method \<Rightarrow> string \<Rightarrow> api_in \<Rightarrow> api_request option" where
  "api_route m p b =
     (let (path, query) = cut_query p; data = trim_prefix query ''data='' in
      case strings_split path (CHR ''/'') of
        [] \<Rightarrow> None
      | root # segs \<Rightarrow>
          if root \<noteq> [] \<or> list_ex (\<lambda>x. x \<in> {[], ''.'', ''..''}) segs then None
          else (case map segment segs of
             [v, r] \<Rightarrow> if v = ''v1'' then route_root m r b else None
           | [v, r, n] \<Rightarrow> if v = ''v1'' then route_item m r n else None
           | [v, r, n, x] \<Rightarrow> if v = ''v1'' then route_sub m r n x data b else None
           | _ \<Rightarrow> None))"

section \<open>The client\<close>

type_synonym 's transport = "http_method \<Rightarrow> string \<Rightarrow> api_in \<Rightarrow> ('s, response) comp"

record codec =
  un_error :: "api_body \<Rightarrow> string option"
  un_source :: "api_body \<Rightarrow> err + api_source"
  un_sources :: "api_body \<Rightarrow> err + api_source list"
  un_masks :: "api_body \<Rightarrow> err + mask_script list"
  un_branch :: "api_body \<Rightarrow> err + api_branch"
  un_branches :: "api_body \<Rightarrow> err + api_branch list"
  un_usage :: "api_body \<Rightarrow> err + int"
  un_diff :: "api_body \<Rightarrow> err + string diff_result"
  un_history :: "api_body \<Rightarrow> err + transition list"
  un_plan :: "api_body \<Rightarrow> err + reconcile_plan"
  un_token :: "api_body \<Rightarrow> err + string"
  un_tokens :: "api_body \<Rightarrow> err + api_token list"

text \<open>\<open>errors.As\<close> finds a status error under any wrapping.\<close>

fun status_of :: "err \<Rightarrow> nat option" where
  "status_of (StatusError code m) = Some code"
| "status_of (Wrap p e q) = status_of e"
| "status_of (Joined es) = (case filter (\<lambda>c. c \<noteq> None) (map status_of es) of [] \<Rightarrow> None | c # _ \<Rightarrow> c)"
| "status_of _ = None"

definition IsNotFound :: "err \<Rightarrow> bool" where
  "IsNotFound e \<longleftrightarrow> status_of e = Some 404"

definition check_status :: "codec \<Rightarrow> http_method \<Rightarrow> string \<Rightarrow> response \<Rightarrow> ('s, api_body) comp" where
  "check_status C m path resp =
     (if status resp < 200 \<or> 299 < status resp then
        let msg = (case un_error C (body resp) of
             Some e \<Rightarrow> if e \<noteq> '''' then e else ''HTTP '' @ nat_str (status resp)
           | None \<Rightarrow> ''HTTP '' @ nat_str (status resp))
        in raise (StatusError (status resp) (method_str m @ '' '' @ path @ '': '' @ msg))
      else ok (body resp))"

definition client_do :: "codec \<Rightarrow> 's transport \<Rightarrow> http_method \<Rightarrow> string \<Rightarrow> api_in \<Rightarrow> ('s, api_body) comp" where
  "client_do C tr m path b = bnd (tr m path b) (check_status C m path)"

definition decoded :: "(api_body \<Rightarrow> err + 'a) \<Rightarrow> ('s, api_body) comp \<Rightarrow> ('s, 'a) comp" where
  "decoded un m = bnd m (\<lambda>b. case un b of Inl e \<Rightarrow> raise e | Inr x \<Rightarrow> ok x)"

definition cl_CreateSource :: "codec \<Rightarrow> 's transport \<Rightarrow> create_source_request \<Rightarrow> ('s, api_source) comp" where
  "cl_CreateSource C tr req = decoded (un_source C) (client_do C tr POST ''/v1/sources'' (SourceIn req))"

definition cl_ListSources :: "codec \<Rightarrow> 's transport \<Rightarrow> ('s, api_source list) comp" where
  "cl_ListSources C tr = decoded (un_sources C) (client_do C tr GET ''/v1/sources'' NoIn)"

definition cl_RemoveSource :: "codec \<Rightarrow> 's transport \<Rightarrow> string \<Rightarrow> ('s, unit) comp" where
  "cl_RemoveSource C tr name = bnd (client_do C tr DELETE (''/v1/sources/'' @ PathEscape name) NoIn) (\<lambda>_. ok ())"

definition cl_RefreshSource :: "codec \<Rightarrow> 's transport \<Rightarrow> string \<Rightarrow> string \<Rightarrow> ('s, api_source) comp" where
  "cl_RefreshSource C tr name pw =
     decoded (un_source C) (client_do C tr POST (''/v1/sources/'' @ PathEscape name @ ''/refresh'') (RefreshIn pw))"

definition cl_SetMaskScripts :: "codec \<Rightarrow> 's transport \<Rightarrow> string \<Rightarrow> mask_script list \<Rightarrow> ('s, mask_script list) comp" where
  "cl_SetMaskScripts C tr name scs =
     decoded (un_masks C) (client_do C tr PUT (''/v1/sources/'' @ PathEscape name @ ''/mask'') (MaskIn scs))"

definition cl_GetMaskScripts :: "codec \<Rightarrow> 's transport \<Rightarrow> string \<Rightarrow> ('s, mask_script list) comp" where
  "cl_GetMaskScripts C tr name = decoded (un_masks C) (client_do C tr GET (''/v1/sources/'' @ PathEscape name @ ''/mask'') NoIn)"

definition cl_CreateBranch :: "codec \<Rightarrow> 's transport \<Rightarrow> create_branch_request \<Rightarrow> ('s, api_branch) comp" where
  "cl_CreateBranch C tr req = decoded (un_branch C) (client_do C tr POST ''/v1/branches'' (BranchIn req))"

definition cl_ListBranches :: "codec \<Rightarrow> 's transport \<Rightarrow> ('s, api_branch list) comp" where
  "cl_ListBranches C tr = decoded (un_branches C) (client_do C tr GET ''/v1/branches'' NoIn)"

definition cl_GetBranch :: "codec \<Rightarrow> 's transport \<Rightarrow> string \<Rightarrow> ('s, api_branch) comp" where
  "cl_GetBranch C tr name = decoded (un_branch C) (client_do C tr GET (''/v1/branches/'' @ PathEscape name) NoIn)"

definition cl_BranchUsage :: "codec \<Rightarrow> 's transport \<Rightarrow> string \<Rightarrow> ('s, int) comp" where
  "cl_BranchUsage C tr name = decoded (un_usage C) (client_do C tr GET (''/v1/branches/'' @ PathEscape name @ ''/usage'') NoIn)"

definition diff_path :: "string \<Rightarrow> int \<Rightarrow> string" where
  "diff_path name n = ''/v1/branches/'' @ PathEscape name @ ''/diff'' @ (if 0 < n then ''?data='' @ int_str n else [])"

definition cl_DiffBranch :: "codec \<Rightarrow> 's transport \<Rightarrow> string \<Rightarrow> int \<Rightarrow> ('s, string diff_result) comp" where
  "cl_DiffBranch C tr name dataSample = decoded (un_diff C) (client_do C tr GET (diff_path name dataSample) NoIn)"

definition cl_BranchHistory :: "codec \<Rightarrow> 's transport \<Rightarrow> string \<Rightarrow> ('s, transition list) comp" where
  "cl_BranchHistory C tr name =
     decoded (un_history C) (client_do C tr GET (''/v1/branches/'' @ PathEscape name @ ''/history'') NoIn)"

definition cl_DestroyBranch :: "codec \<Rightarrow> 's transport \<Rightarrow> string \<Rightarrow> ('s, unit) comp" where
  "cl_DestroyBranch C tr name = bnd (client_do C tr DELETE (''/v1/branches/'' @ PathEscape name) NoIn) (\<lambda>_. ok ())"

definition cl_ResetBranch :: "codec \<Rightarrow> 's transport \<Rightarrow> string \<Rightarrow> ('s, api_branch) comp" where
  "cl_ResetBranch C tr name =
     decoded (un_branch C) (client_do C tr POST (''/v1/branches/'' @ PathEscape name @ ''/reset'') NoIn)"

definition cl_ReconcilePlan :: "codec \<Rightarrow> 's transport \<Rightarrow> ('s, reconcile_plan) comp" where
  "cl_ReconcilePlan C tr = decoded (un_plan C) (client_do C tr GET ''/v1/reconcile/plan'' NoIn)"

definition cl_ReconcileApply :: "codec \<Rightarrow> 's transport \<Rightarrow> ('s, reconcile_plan) comp" where
  "cl_ReconcileApply C tr = decoded (un_plan C) (client_do C tr POST ''/v1/reconcile'' NoIn)"

definition cl_CreateToken :: "codec \<Rightarrow> 's transport \<Rightarrow> string \<Rightarrow> string \<Rightarrow> ('s, string) comp" where
  "cl_CreateToken C tr name role =
     decoded (un_token C) (client_do C tr POST ''/v1/tokens'' (TokenIn \<lparr>ct_Name = name, ct_Role = role\<rparr>))"

definition cl_ListTokens :: "codec \<Rightarrow> 's transport \<Rightarrow> ('s, api_token list) comp" where
  "cl_ListTokens C tr = decoded (un_tokens C) (client_do C tr GET ''/v1/tokens'' NoIn)"

definition cl_RevokeToken :: "codec \<Rightarrow> 's transport \<Rightarrow> string \<Rightarrow> ('s, unit) comp" where
  "cl_RevokeToken C tr name = bnd (client_do C tr DELETE (''/v1/tokens/'' @ PathEscape name) NoIn) (\<lambda>_. ok ())"

section \<open>Delivery\<close>

text \<open>
  The network that delivers every request to the server, with the client's token, after other requests may
  have run. A path no pattern matches is answered 404 with a text body.
\<close>

definition loopback :: "string json_lib \<Rightarrow> (nat list \<Rightarrow> nat list) \<Rightarrow> server \<Rightarrow> ctx \<Rightarrow> string \<Rightarrow> 'z sys_scheme transport" where
  "loopback J sha srv c token m path b =
     bnd interleaved (\<lambda>_.
     case api_route m path b of
       None \<Rightarrow> ok \<lparr>status = 404, body = NoBody\<rparr>
     | Some req \<Rightarrow> serve J sha srv c (''Bearer '' @ token) req)"

text \<open>The codec reads back what the server wrote.\<close>

definition codec_ok :: "codec \<Rightarrow> bool" where
  "codec_ok C \<longleftrightarrow> (\<forall>x. un_error C (ErrorBody x) = Some x) \<and> (\<forall>x. un_source C (SourceBody x) = Inr x) \<and>
     (\<forall>x. un_sources C (SourcesBody x) = Inr x) \<and> (\<forall>x. un_masks C (MasksBody x) = Inr x) \<and>
     (\<forall>x. un_branch C (BranchBody x) = Inr x) \<and> (\<forall>x. un_branches C (BranchesBody x) = Inr x) \<and>
     (\<forall>x. un_usage C (UsageBody x) = Inr x) \<and> (\<forall>x. un_diff C (DiffBody x) = Inr x) \<and>
     (\<forall>x. un_history C (HistoryBody x) = Inr x) \<and> (\<forall>x. un_plan C (PlanBody x) = Inr x) \<and>
     (\<forall>x. un_token C (TokenBody x) = Inr x) \<and> (\<forall>x. un_tokens C (TokensBody x) = Inr x)"

lemma unhex_upperhex: "n < 16 \<Longrightarrow> unhex (upperhex n) = Some n"
  by (simp add: unhex_def upperhex_def Let_def)

lemma high_nibble: "of_char c div 16 < (16::nat)"
  using nat_of_char_less_256 [of c] by (simp add: less_mult_imp_div_less)

lemma percent_not_safe: "\<not> path_safe (CHR ''%'')" "\<not> path_safe (CHR ''/'')" "\<not> path_safe (CHR ''?'')"
  by code_simp+

lemma PathEscape_Nil [simp]: "PathEscape [] = []"
  by (simp add: PathEscape_def)

lemma PathUnescape_escape: "PathUnescape (PathEscape s) = Some s"
proof (induction s)
  case (Cons c s)
  have "char_of (16 * (of_char c div 16) + of_char c mod 16 :: nat) = c"
    by (simp only: mult_div_mod_eq char_of_char)
  then show ?case using Cons percent_not_safe
    by (auto simp: PathEscape_def unhex_upperhex high_nibble)
qed simp

lemma segment_escape: "segment (PathEscape s) = s"
  by (simp add: segment_def PathUnescape_escape)

lemma upperhex_all: "list_all (\<lambda>n. upperhex n \<in> set ''0123456789ABCDEF'') [0..<16]"
  by code_simp

lemma upperhex_in: "n < 16 \<Longrightarrow> upperhex n \<in> set ''0123456789ABCDEF''"
  using upperhex_all by (auto simp: list_all_iff)

lemma PathEscape_chars: "set (PathEscape s) \<inter> {CHR ''/'', CHR ''?''} = {}"
proof (induction s)
  case (Cons c s)
  have "upperhex (of_char c div 16) \<notin> {CHR ''/'', CHR ''?''}" using upperhex_in [OF high_nibble [of c]] by fastforce
  moreover have "upperhex (of_char c mod 16) \<notin> {CHR ''/'', CHR ''?''}" using upperhex_in [of "of_char c mod 16"] by fastforce
  moreover have "set (PathEscape (c # s)) = (if path_safe c then {c}
      else {CHR ''%'', upperhex (of_char c div 16), upperhex (of_char c mod 16)}) \<union> set (PathEscape s)"
    by (auto simp: PathEscape_def)
  ultimately show ?case using Cons percent_not_safe by auto
qed simp

lemma split_segments:
  "\<forall>x \<in> set segs. CHR ''/'' \<notin> set x \<Longrightarrow> strings_split (concat (map (\<lambda>x. CHR ''/'' # x) segs)) (CHR ''/'') = [] # segs"
proof (induction segs)
  case (Cons x xs)
  have "strings_split (x @ concat (map (\<lambda>x. CHR ''/'' # x) xs)) (CHR ''/'') = x # xs"
  proof (cases xs)
    case Nil
    then show ?thesis using Cons.prems by (simp add: strings_split_no_sep)
  next
    case (Cons y ys)
    then show ?thesis using Cons.IH Cons.prems by (simp add: strings_split_append)
  qed
  then show ?case by simp
qed simp

lemma cut_query_plain: "CHR ''?'' \<notin> set p \<Longrightarrow> cut_query p = (p, [])"
  by (induction p) (auto simp: cut_query_def)

lemma cut_query_append: "CHR ''?'' \<notin> set p \<Longrightarrow> cut_query (p @ CHR ''?'' # q) = (p, q)"
  by (induction p) (auto simp: cut_query_def)

text \<open>The route of a path given by its escaped segments.\<close>

definition slashed :: "string list \<Rightarrow> string" where
  "slashed segs = concat (map (\<lambda>x. CHR ''/'' # x) segs)"

lemma slashed_clean: "\<forall>x \<in> set segs. CHR ''?'' \<notin> set x \<Longrightarrow> CHR ''?'' \<notin> set (slashed segs)"
  by (auto simp: slashed_def)

definition route_segments :: "http_method \<Rightarrow> string list \<Rightarrow> string \<Rightarrow> api_in \<Rightarrow> api_request option" where
  "route_segments m segs data b =
     (if list_ex (\<lambda>x. x \<in> {[], ''.'', ''..''}) segs then None
      else (case map segment segs of
             [v, r] \<Rightarrow> if v = ''v1'' then route_root m r b else None
           | [v, r, n] \<Rightarrow> if v = ''v1'' then route_item m r n else None
           | [v, r, n, x] \<Rightarrow> if v = ''v1'' then route_sub m r n x data b else None
           | _ \<Rightarrow> None))"

lemma route_slashed:
  assumes "\<forall>x \<in> set segs. CHR ''/'' \<notin> set x \<and> CHR ''?'' \<notin> set x"
  shows "api_route m (slashed segs) b = route_segments m segs [] b"
    "api_route m (slashed segs @ ''?data='' @ q) b = route_segments m segs q b"
proof -
  have s: "strings_split (slashed segs) (CHR ''/'') = [] # segs" using split_segments assms by (simp add: slashed_def)
  have q: "CHR ''?'' \<notin> set (slashed segs)" using slashed_clean assms by blast
  show "api_route m (slashed segs) b = route_segments m segs [] b"
    using s cut_query_plain [OF q] by (simp add: api_route_def route_segments_def trim_prefix_def has_prefix_def)
  have "cut_query (slashed segs @ ''?data='' @ q) = (slashed segs, ''data='' @ q)"
    using cut_query_append [OF q, of "''data='' @ q"] by simp
  moreover have "trim_prefix (''data='' @ q) ''data='' = q" by (simp only: trim_prefix_append)
  ultimately show "api_route m (slashed segs @ ''?data='' @ q) b = route_segments m segs q b"
    unfolding api_route_def route_segments_def by (simp only: s prod.case Let_def list.case simp_thms if_False)
qed

definition plain_name :: "string \<Rightarrow> bool" where
  "plain_name n \<longleftrightarrow> n \<notin> {[], ''.'', ''..''}"

lemma escape_plain: "PathEscape n \<in> {[], ''.'', ''..''} \<longleftrightarrow> \<not> plain_name n"
proof -
  have "PathEscape x = x" if "x \<in> {[], ''.'', ''..''}" for x using that by (auto simp: PathEscape_def path_safe_def)
  moreover have "segment x = x" if "x \<in> {[], ''.'', ''..''}" for x using that by (auto simp: segment_def)
  ultimately show ?thesis unfolding plain_name_def by (metis segment_escape)
qed

lemma segment_literals [simp]:
  "segment ''v1'' = ''v1''" "segment ''sources'' = ''sources''" "segment ''branches'' = ''branches''"
  "segment ''tokens'' = ''tokens''" "segment ''reconcile'' = ''reconcile''" "segment ''plan'' = ''plan''"
  "segment ''mask'' = ''mask''" "segment ''refresh'' = ''refresh''" "segment ''usage'' = ''usage''"
  "segment ''diff'' = ''diff''" "segment ''history'' = ''history''" "segment ''reset'' = ''reset''"
  by (simp_all add: segment_def)

lemma escape_free: "CHR ''/'' \<notin> set (PathEscape n)" "CHR ''?'' \<notin> set (PathEscape n)"
  using PathEscape_chars [of n] by auto

lemma route_item_path:
  assumes "r \<in> {''sources'', ''branches'', ''tokens''}"
  shows "api_route m (''/v1/'' @ r @ ''/'' @ PathEscape n) b = (if plain_name n then route_item m r n else None)"
proof -
  have "''/v1/'' @ r @ ''/'' @ PathEscape n = slashed [''v1'', r, PathEscape n]" by (simp add: slashed_def)
  moreover have "api_route m (slashed [''v1'', r, PathEscape n]) b = route_segments m [''v1'', r, PathEscape n] [] b"
    by (rule route_slashed(1)) (use assms escape_free in auto)
  ultimately show ?thesis using assms escape_plain [of n] by (auto simp: route_segments_def segment_escape)
qed

lemma route_sub_path:
  assumes "r \<in> {''sources'', ''branches''}" "x \<in> {''mask'', ''refresh'', ''usage'', ''diff'', ''history'', ''reset''}"
  shows "api_route m (''/v1/'' @ r @ ''/'' @ PathEscape n @ ''/'' @ x) b = (if plain_name n then route_sub m r n x [] b else None)"
    "api_route m (''/v1/'' @ r @ ''/'' @ PathEscape n @ ''/'' @ x @ ''?data='' @ q) b = (if plain_name n then route_sub m r n x q b else None)"
proof -
  let ?segs = "[''v1'', r, PathEscape n, x]"
  have s: "''/v1/'' @ r @ ''/'' @ PathEscape n @ ''/'' @ x = slashed ?segs" by (simp add: slashed_def)
  have s2: "''/v1/'' @ r @ ''/'' @ PathEscape n @ ''/'' @ x @ ''?data='' @ q = slashed ?segs @ ''?data='' @ q" by (simp add: slashed_def)
  have f: "\<forall>x \<in> set ?segs. CHR ''/'' \<notin> set x \<and> CHR ''?'' \<notin> set x" using assms escape_free by auto
  have "segment x = x" "x \<notin> {[], ''.'', ''..''}" using assms(2) by auto
  then have "route_segments m ?segs d b = (if plain_name n then route_sub m r n x d b else None)" for d
    using assms(1) escape_plain [of n] by (auto simp: route_segments_def segment_escape)
  then show "api_route m (''/v1/'' @ r @ ''/'' @ PathEscape n @ ''/'' @ x) b = (if plain_name n then route_sub m r n x [] b else None)"
    "api_route m (''/v1/'' @ r @ ''/'' @ PathEscape n @ ''/'' @ x @ ''?data='' @ q) b = (if plain_name n then route_sub m r n x q b else None)"
    unfolding s s2 using route_slashed [OF f] by simp_all
qed

text \<open>A request that arrives at its handler (or, when its path is not clean, at none).\<close>

definition arrives :: "string json_lib \<Rightarrow> (nat list \<Rightarrow> nat list) \<Rightarrow> server \<Rightarrow> ctx \<Rightarrow> string \<Rightarrow> bool \<Rightarrow> api_request
    \<Rightarrow> ('z sys_scheme, response) comp" where
  "arrives J sha srv c token clean req =
     bnd interleaved (\<lambda>_. if clean then serve J sha srv c (''Bearer '' @ token) req else ok \<lparr>status = 404, body = NoBody\<rparr>)"

definition answered :: "codec \<Rightarrow> ('s, response) comp \<Rightarrow> ('s, api_body) comp \<Rightarrow> bool" where
  "answered C m op \<longleftrightarrow> (\<exists>meth path. op = bnd m (check_status C meth path))"

lemma loopback_arrives:
  "api_route m p b = (if clean then Some req else None) \<Longrightarrow> loopback J sha srv c tok m p b = arrives J sha srv c tok clean req"
  by (simp add: loopback_def arrives_def)

lemma answered_do:
  "api_route m p b = (if clean then Some req else None) \<Longrightarrow>
   answered C (arrives J sha srv c tok clean req) (client_do C (loopback J sha srv c tok) m p b)"
  unfolding answered_def client_do_def using loopback_arrives by metis

lemma decoded_answered:
  "op = decoded un (client_do C (loopback J sha srv c tok) m p b) \<Longrightarrow> api_route m p b = (if clean then Some req else None) \<Longrightarrow>
   \<exists>q. op = decoded un q \<and> answered C (arrives J sha srv c tok clean req) q"
  using answered_do by metis

lemma dropped_answered:
  "op = bnd (client_do C (loopback J sha srv c tok) m p b) (\<lambda>_. ok ()) \<Longrightarrow> api_route m p b = (if clean then Some req else None) \<Longrightarrow>
   \<exists>q. op = bnd q (\<lambda>_. ok ()) \<and> answered C (arrives J sha srv c tok clean req) q"
  using answered_do by metis

lemma root_routes:
  "api_route POST ''/v1/sources'' (SourceIn x) = Some (PostSources (Inr x))" "api_route GET ''/v1/sources'' NoIn = Some GetSources"
  "api_route POST ''/v1/branches'' (BranchIn y) = Some (PostBranches (Inr y))" "api_route GET ''/v1/branches'' NoIn = Some GetBranches"
  "api_route POST ''/v1/tokens'' (TokenIn z) = Some (PostTokens (Inr z))" "api_route GET ''/v1/tokens'' NoIn = Some GetTokens"
  "api_route POST ''/v1/reconcile'' NoIn = Some PostReconcile" "api_route GET ''/v1/reconcile/plan'' NoIn = Some GetPlan"
  by (simp_all add: api_route_def cut_query_def segment_def)

lemma named_routes:
  "api_route GET (''/v1/branches/'' @ PathEscape n) NoIn = (if plain_name n then Some (GetBranchReq n) else None)"
  "api_route DELETE (''/v1/branches/'' @ PathEscape n) NoIn = (if plain_name n then Some (DeleteBranchReq n) else None)"
  "api_route DELETE (''/v1/sources/'' @ PathEscape n) NoIn = (if plain_name n then Some (DeleteSourceReq n) else None)"
  "api_route DELETE (''/v1/tokens/'' @ PathEscape n) NoIn = (if plain_name n then Some (DeleteToken n) else None)"
  "api_route POST (''/v1/branches/'' @ PathEscape n @ ''/reset'') NoIn = (if plain_name n then Some (PostReset n) else None)"
  "api_route GET (''/v1/branches/'' @ PathEscape n @ ''/usage'') NoIn = (if plain_name n then Some (GetUsage n) else None)"
  "api_route GET (''/v1/branches/'' @ PathEscape n @ ''/history'') NoIn = (if plain_name n then Some (GetHistory n) else None)"
  "api_route GET (diff_path n k) NoIn = (if plain_name n then Some (GetDiff n (if 0 < k then int_str k else [])) else None)"
  "api_route POST (''/v1/sources/'' @ PathEscape n @ ''/refresh'') (RefreshIn pw) = (if plain_name n then Some (PostRefresh n (Inr pw)) else None)"
  "api_route PUT (''/v1/sources/'' @ PathEscape n @ ''/mask'') (MaskIn ms) = (if plain_name n then Some (PutMask n (Inr ms)) else None)"
  "api_route GET (''/v1/sources/'' @ PathEscape n @ ''/mask'') NoIn = (if plain_name n then Some (GetMask n) else None)"
  using route_item_path [of "''branches''" GET n NoIn] route_item_path [of "''branches''" DELETE n NoIn]
    route_item_path [of "''sources''" DELETE n NoIn] route_item_path [of "''tokens''" DELETE n NoIn]
    route_sub_path(1) [of "''branches''" "''reset''" POST n NoIn] route_sub_path(1) [of "''branches''" "''usage''" GET n NoIn]
    route_sub_path(1) [of "''branches''" "''history''" GET n NoIn] route_sub_path(1) [of "''branches''" "''diff''" GET n NoIn]
    route_sub_path(2) [of "''branches''" "''diff''" GET n "int_str k" NoIn]
    route_sub_path(1) [of "''sources''" "''refresh''" POST n "RefreshIn pw"] route_sub_path(1) [of "''sources''" "''mask''" PUT n "MaskIn ms"]
    route_sub_path(1) [of "''sources''" "''mask''" GET n NoIn]
  by (simp_all add: diff_path_def)

lemmas client_ops = decoded_answered [OF cl_GetBranch_def] decoded_answered [OF cl_ResetBranch_def]
  dropped_answered [OF cl_DestroyBranch_def] decoded_answered [OF cl_BranchUsage_def] decoded_answered [OF cl_BranchHistory_def]
  decoded_answered [OF cl_DiffBranch_def] dropped_answered [OF cl_RemoveSource_def] decoded_answered [OF cl_RefreshSource_def]
  decoded_answered [OF cl_SetMaskScripts_def] decoded_answered [OF cl_GetMaskScripts_def] dropped_answered [OF cl_RevokeToken_def]
  decoded_answered [OF cl_CreateBranch_def]


end
