(* ===== verification/Ghook_Github.thy ===== *)
theory Ghook_Github
  imports Api_Client
begin

text \<open>
  Package \<open>internal/ghook\<close>, the GitHub side: the REST client (\<open>github.go\<close>) with the comment and status texts, and
  the installation tokens of a GitHub App with their cache (\<open>githubapp.go\<close>). GitHub answers a request by an
  arbitrary function of the requests made so far; requests are recorded in \<open>gh_log\<close>. RSA signing, the JSON
  codec, HMAC and URL parsing are the parameter \<open>hook_lib\<close>.
\<close>

section \<open>Runes\<close>

text \<open>\<open>[]rune(s)\<close>: the bytes of each rune; a byte that starts no valid sequence becomes U+FFFD.\<close>

definition cont :: "char \<Rightarrow> bool" where
  "cont c \<longleftrightarrow> CHR 0x80 \<le> c \<and> c \<le> CHR 0xBF"

definition second_ok :: "char \<Rightarrow> char \<Rightarrow> bool" where
  "second_ok l c \<longleftrightarrow>
     (if l = CHR 0xE0 then CHR 0xA0 \<le> c \<and> c \<le> CHR 0xBF else if l = CHR 0xED then CHR 0x80 \<le> c \<and> c \<le> CHR 0x9F
      else if l = CHR 0xF0 then CHR 0x90 \<le> c \<and> c \<le> CHR 0xBF else if l = CHR 0xF4 then CHR 0x80 \<le> c \<and> c \<le> CHR 0x8F
      else cont c)"

definition rune_width :: "string \<Rightarrow> nat option" where
  "rune_width s = (case s of
      [] \<Rightarrow> None
    | l # r \<Rightarrow>
        if l < CHR 0x80 then Some 1
        else if CHR 0xC2 \<le> l \<and> l \<le> CHR 0xDF then (case r of a # _ \<Rightarrow> if cont a then Some 2 else None | _ \<Rightarrow> None)
        else if CHR 0xE0 \<le> l \<and> l \<le> CHR 0xEF then
          (case r of a # b # _ \<Rightarrow> if second_ok l a \<and> cont b then Some 3 else None | _ \<Rightarrow> None)
        else if CHR 0xF0 \<le> l \<and> l \<le> CHR 0xF4 then
          (case r of a # b # d # _ \<Rightarrow> if second_ok l a \<and> cont b \<and> cont d then Some 4 else None | _ \<Rightarrow> None)
        else None)"

fun runes_fuel :: "nat \<Rightarrow> string \<Rightarrow> string list" where
  "runes_fuel 0 s = []"
| "runes_fuel (Suc k) s =
     (if s = [] then []
      else case rune_width s of
        Some n \<Rightarrow> take n s # runes_fuel k (drop n s)
      | None \<Rightarrow> [CHR 0xEF, CHR 0xBF, CHR 0xBD] # runes_fuel k (tl s))"

definition runes :: "string \<Rightarrow> string list" where
  "runes s = runes_fuel (length s) s"

definition take_runes :: "nat \<Rightarrow> string \<Rightarrow> string" where
  "take_runes n s = concat (take n (runes s))"

definition em_dash :: string where "em_dash = [CHR 0xE2, CHR 0x80, CHR 0x94]"

definition ellipsis :: string where "ellipsis = [CHR 0xE2, CHR 0x80, CHR 0xA6]"

definition truncate_runes :: "string \<Rightarrow> nat \<Rightarrow> string" where
  "truncate_runes s n = (if length (runes s) \<le> n then s else take_runes (n - 1) s @ ellipsis)"

section \<open>Requests to GitHub\<close>

record gh_request =
  ghr_method :: http_method
  ghr_url :: string
  ghr_token :: string
  ghr_body :: "(string \<times> string) list option"

record payload =
  p_Action :: string
  p_Number :: int
  p_SHA :: string
  p_Ref :: string
  p_FullName :: string
  p_Installation :: int

record hook_lib =
  hl_hmac :: "nat list \<Rightarrow> nat list \<Rightarrow> nat list"
  hl_equal_fold :: "string \<Rightarrow> string \<Rightarrow> bool"
  hl_payload :: "string \<Rightarrow> err + payload"
  hl_comments :: "string \<Rightarrow> err + (int \<times> string) list"
  hl_minted :: "string \<Rightarrow> err + (string \<times> int)"
  hl_bad_url :: "string \<Rightarrow> err option"
  hl_json_string :: "string \<Rightarrow> string"
  hl_sign :: "nat list \<Rightarrow> err + nat list"
  hl_parse_duration :: "string \<Rightarrow> err + int"

record hook_st = sys +
  gh_http :: "gh_request list \<Rightarrow> gh_request \<Rightarrow> err + (nat \<times> string)"
  gh_log :: "gh_request list"
  tok_cache :: "int \<Rightarrow> (string \<times> int) option"

definition gh_send :: "gh_request \<Rightarrow> ('z hook_st_scheme, nat \<times> string) comp" where
  "gh_send r s = (gh_http s (gh_log s) r, s\<lparr>gh_log := gh_log s @ [r]\<rparr>)"

section \<open>Installation tokens (\<open>githubapp.go\<close>)\<close>

definition raw_url64 :: "nat list \<Rightarrow> string" where
  "raw_url64 bs = map (\<lambda>c. if c = CHR ''+'' then CHR ''-'' else if c = CHR ''/'' then CHR ''_'' else c)
     (filter (\<lambda>c. c \<noteq> CHR ''='') (b64_encode bs))"

definition dq :: "string \<Rightarrow> string" where "dq s = [CHR 0x22] @ s @ [CHR 0x22]"

text \<open>\<open>iat\<close> is a minute back, \<open>exp\<close> nine minutes ahead, in whole seconds (\<open>Unix\<close>); keys come sorted.\<close>

definition appJWT :: "hook_lib \<Rightarrow> (nat list \<Rightarrow> nat list) \<Rightarrow> string \<Rightarrow> int \<Rightarrow> err + string" where
  "appJWT H sha appID now =
     (let header = raw_url64 (bytes_of (''{'' @ dq ''alg'' @ '':'' @ dq ''RS256'' @ '','' @ dq ''typ'' @ '':'' @ dq ''JWT'' @ ''}''));
          claims = ''{'' @ dq ''exp'' @ '':'' @ int_str ((now + 540 * second) div second) @ '','' @
            dq ''iat'' @ '':'' @ int_str ((now - 60 * second) div second) @ '','' @ dq ''iss'' @ '':'' @ hl_json_string H appID @ ''}'';
          signingInput = header @ ''.'' @ raw_url64 (bytes_of claims)
      in case hl_sign H (sha (bytes_of signingInput)) of
           Inl e \<Rightarrow> Inl (Wrap ''sign app jwt: '' e [])
         | Inr sig \<Rightarrow> Inr (signingInput @ ''.'' @ raw_url64 sig))"

record app_auth =
  aa_appID :: string
  aa_baseURL :: string
  aa_sha :: "nat list \<Rightarrow> nat list"

definition github_base :: "string \<Rightarrow> string" where
  "github_base url = (let base = rev (dropWhile (\<lambda>c. c = CHR ''/'') (rev url)) in if base = '''' then ''https://api.github.com'' else base)"

definition mint :: "hook_lib \<Rightarrow> app_auth \<Rightarrow> int \<Rightarrow> ('z hook_st_scheme, string \<times> int) comp" where
  "mint H a inst =
     bnd time_now (\<lambda>now.
     case appJWT H (aa_sha a) (aa_appID a) now of
       Inl e \<Rightarrow> raise e
     | Inr jwt \<Rightarrow>
         let url = github_base (aa_baseURL a) @ ''/app/installations/'' @ int_str inst @ ''/access_tokens'' in
         bnd (lift_err (hl_bad_url H url)) (\<lambda>_.
         bnd (wrapping ''mint installation token: '' (gh_send \<lparr>ghr_method = POST, ghr_url = url, ghr_token = jwt, ghr_body = Some []\<rparr>)) (\<lambda>(code, d).
         if code \<noteq> 201 then raise (Msg (''mint installation token: HTTP '' @ nat_str code @ '': '' @ take_runes 200 d))
         else case hl_minted H d of Inl e \<Rightarrow> raise e | Inr t \<Rightarrow> ok t)))"

definition no_installation :: err where
  "no_installation = Msg (''delivery carries no installation.id '' @ em_dash @
     '' register the webhook on the GitHub App, not as a plain repo webhook'')"

definition AppToken :: "hook_lib \<Rightarrow> app_auth \<Rightarrow> int \<Rightarrow> ('z hook_st_scheme, string) comp" where
  "AppToken H a inst =
     (if inst = 0 then raise no_installation
      else bnd (gets (\<lambda>s. tok_cache s inst)) (\<lambda>cached.
        let fresh = bnd (mint H a inst) (\<lambda>t. bnd (modify (\<lambda>s. s\<lparr>tok_cache := (tok_cache s)(inst \<mapsto> t)\<rparr>)) (\<lambda>_. ok (fst t)))
        in case cached of
          None \<Rightarrow> fresh
        | Some (tok, expires) \<Rightarrow> bnd time_now (\<lambda>now. if now < expires - 300 * second then ok tok else fresh)))"

section \<open>The client (\<open>github.go\<close>)\<close>

datatype token_provider = StaticToken string | AppAuth app_auth

record github =
  gh_BaseURL :: string
  gh_Token :: token_provider
  gh_installationID :: int

definition ForInstallation :: "github \<Rightarrow> int \<Rightarrow> github" where
  "ForInstallation g i = g\<lparr>gh_installationID := i\<rparr>"

definition provide :: "hook_lib \<Rightarrow> token_provider \<Rightarrow> int \<Rightarrow> ('z hook_st_scheme, string) comp" where
  "provide H p inst = (case p of StaticToken t \<Rightarrow> ok t | AppAuth a \<Rightarrow> AppToken H a inst)"

definition github_do :: "hook_lib \<Rightarrow> github \<Rightarrow> http_method \<Rightarrow> string \<Rightarrow> (string \<times> string) list option
    \<Rightarrow> ('z hook_st_scheme, string) comp" where
  "github_do H g m path b =
     (let url = github_base (gh_BaseURL g) @ path in
      bnd (lift_err (hl_bad_url H url)) (\<lambda>_.
      bnd (wrapping ''github token: '' (provide H (gh_Token g) (gh_installationID g))) (\<lambda>tok.
      bnd (gh_send \<lparr>ghr_method = m, ghr_url = url, ghr_token = tok, ghr_body = b\<rparr>) (\<lambda>(code, d).
      if code < 200 \<or> 299 < code then
        raise (Msg (''github: '' @ method_str m @ '' '' @ path @ '': HTTP '' @ nat_str code @ '': '' @ take_runes 200 d))
      else ok d))))"

definition commentMarker :: string where "commentMarker = ''<!-- pgbranch -->''"

definition diffMarker :: string where "diffMarker = ''<!-- pgbranch-diff -->''"

definition statusContext :: string where "statusContext = ''pgbranch/branch''"

definition SetStatus :: "hook_lib \<Rightarrow> github \<Rightarrow> string \<Rightarrow> string \<Rightarrow> string \<Rightarrow> string \<Rightarrow> ('z hook_st_scheme, unit) comp" where
  "SetStatus H g repo sha st desc =
     bnd (wrapping ''set status: '' (github_do H g POST (''/repos/'' @ repo @ ''/statuses/'' @ sha)
       (Some [(''state'', st), (''description'', truncate_runes desc 140), (''context'', statusContext)]))) (\<lambda>_. ok ())"

fun first_marked :: "string \<Rightarrow> (int \<times> string) list \<Rightarrow> int" where
  "first_marked marker [] = 0"
| "first_marked marker ((i, b) # cs) = (if strings_contains b marker then i else first_marked marker cs)"

definition comments_path :: "string \<Rightarrow> int \<Rightarrow> string" where
  "comments_path repo number = ''/repos/'' @ repo @ ''/issues/'' @ int_str number @ ''/comments''"

definition findMarkerComment :: "hook_lib \<Rightarrow> github \<Rightarrow> string \<Rightarrow> int \<Rightarrow> string \<Rightarrow> ('z hook_st_scheme, int) comp" where
  "findMarkerComment H g repo number marker =
     bnd (wrapping ''list comments: '' (bnd (github_do H g GET (comments_path repo number @ ''?per_page=100'') None) (\<lambda>d.
       case hl_comments H d of Inl e \<Rightarrow> raise e | Inr cs \<Rightarrow> ok cs))) (\<lambda>existing.
     ok (first_marked marker existing))"

definition patchComment :: "hook_lib \<Rightarrow> github \<Rightarrow> string \<Rightarrow> int \<Rightarrow> string \<Rightarrow> ('z hook_st_scheme, unit) comp" where
  "patchComment H g repo i b =
     bnd (wrapping ''update comment: '' (github_do H g PATCH (''/repos/'' @ repo @ ''/issues/comments/'' @ int_str i)
       (Some [(''body'', b)]))) (\<lambda>_. ok ())"

definition UpsertComment :: "hook_lib \<Rightarrow> github \<Rightarrow> string \<Rightarrow> int \<Rightarrow> string \<Rightarrow> string \<Rightarrow> ('z hook_st_scheme, unit) comp" where
  "UpsertComment H g repo number marker b =
     bnd (findMarkerComment H g repo number marker) (\<lambda>i.
     if i \<noteq> 0 then patchComment H g repo i b
     else bnd (wrapping ''create comment: '' (github_do H g POST (comments_path repo number) (Some [(''body'', b)]))) (\<lambda>_. ok ()))"

definition UpdateComment :: "hook_lib \<Rightarrow> github \<Rightarrow> string \<Rightarrow> int \<Rightarrow> string \<Rightarrow> string \<Rightarrow> ('z hook_st_scheme, unit) comp" where
  "UpdateComment H g repo number marker b =
     bnd (findMarkerComment H g repo number marker) (\<lambda>i. if i = 0 then ok () else patchComment H g repo i b)"

section \<open>Texts\<close>

text \<open>\<open>net.SplitHostPort\<close>\<close>

definition SplitHostPort :: "string \<Rightarrow> (string \<times> string) option" where
  "SplitHostPort hp =
     (if CHR '':'' \<notin> set hp then None
      else let port = rev (takeWhile (\<lambda>c. c \<noteq> CHR '':'') (rev hp));
               i = length hp - length port - 1
      in if hd hp = CHR ''['' then
           (if CHR '']'' \<notin> set hp then None
            else let en = length (takeWhile (\<lambda>c. c \<noteq> CHR '']'') hp) in
              if en + 1 \<noteq> i then None
              else if CHR ''['' \<in> set (drop 1 hp) \<or> CHR '']'' \<in> set (drop (en + 1) hp) then None
              else Some (drop 1 (take en hp), port))
         else if CHR '':'' \<in> set (take i hp) \<or> CHR ''['' \<in> set hp \<or> CHR '']'' \<in> set hp then None
         else Some (take i hp, port))"

definition nl :: string where "nl = [CHR 0x0A]"

definition tick_quoted :: "string \<Rightarrow> string" where "tick_quoted s = [CHR 0x60] @ s @ [CHR 0x60]"

definition psqlCommand :: "string \<Rightarrow> api_branch \<Rightarrow> string" where
  "psqlCommand proxyHost b =
     (let (host, port) = (case SplitHostPort proxyHost of Some hp \<Rightarrow> hp | None \<Rightarrow> (proxyHost, '''')) in
      ''psql -h '' @ host @ (if port \<noteq> '''' then '' -p '' @ port else '''') @
      '' -U '' @ jb_User b @ '' -d '' @ sq (jb_ProxyDatabase b))"

definition commentBody :: "string \<Rightarrow> string \<Rightarrow> string \<Rightarrow> api_branch option \<Rightarrow> string" where
  "commentBody proxyHost branch st b =
     commentMarker @ nl @ ''**pgbranch** '' @ em_dash @ '' Postgres branch for this pull request.'' @ nl @ nl @
     ''| | |'' @ nl @ ''|---|---|'' @ nl @
     ''| Branch | '' @ tick_quoted branch @ '' |'' @ nl @ ''| State | '' @ st @ '' |'' @ nl @
     (case b of None \<Rightarrow> ''''
      | Some br \<Rightarrow> ''| Connect | '' @ tick_quoted (psqlCommand proxyHost br) @ '' |'' @ nl @
          (if jb_ExpiresAt br \<noteq> '''' then ''| Expires | '' @ jb_ExpiresAt br @ '' |'' @ nl else '''')) @
     (if st = ''destroyed'' then nl @ ''The branch was destroyed when the pull request closed.'' @ nl
      else nl @ ''The database name routes through the pgbranch proxy to the branch. The branch is destroyed when the pull request is closed.'' @ nl)"

definition diffSchemaLimit :: nat where "diffSchemaLimit = 3000"

definition has_suffix :: "string \<Rightarrow> string \<Rightarrow> bool" where
  "has_suffix s t \<longleftrightarrow> has_prefix (rev s) (rev t)"

text \<open>The \<open>%+d\<close> verb\<close>

definition signed_str :: "int \<Rightarrow> string" where
  "signed_str i = (if i < 0 then int_str i else ''+'' @ int_str i)"

definition schema_part :: "string \<Rightarrow> string" where
  "schema_part d =
     (if d = '''' then ''Schema: no differences.'' @ nl
      else let truncated = (diffSchemaLimit < length (runes d)); schema = (if truncated then take_runes diffSchemaLimit d else d) in
        ''Schema diff:'' @ nl @ nl @ [CHR 0x60, CHR 0x60, CHR 0x60] @ ''diff'' @ nl @ schema @
        (if has_suffix schema nl then '''' else nl) @ [CHR 0x60, CHR 0x60, CHR 0x60] @ nl @
        (if truncated then nl @ ''_(schema diff truncated to '' @ nat_str diffSchemaLimit @ '' characters)_'' @ nl else ''''))"

definition diffCommentBody :: "string \<Rightarrow> string diff_result \<Rightarrow> string" where
  "diffCommentBody branch res =
     diffMarker @ nl @ ''**pgbranch diff** '' @ em_dash @ '' what changed in '' @ tick_quoted branch @ '' vs its base.'' @ nl @ nl @
     schema_part (SchemaDiff res) @
     (let changed = filter (\<lambda>t. td_Delta t \<noteq> 0) (Tables res) in
      if changed = [] then nl @ ''Tables: no row-count changes.'' @ nl
      else nl @ ''| TABLE | BASE | BRANCH | DELTA |'' @ nl @ ''|---|---|---|---|'' @ nl @
        concat (map (\<lambda>t. ''| '' @ tick_quoted (td_Table t) @ '' | '' @ int_str (td_BaseRows t) @ '' | '' @
          int_str (td_BranchRows t) @ '' | '' @ signed_str (td_Delta t) @ '' |'' @ nl) changed) @
        nl @ ''_(row counts are planner estimates)_'' @ nl)"

end
