(* ===== verification/Branchd.thy ===== *)
theory Branchd
  imports Kube_Driver Ha_Leader Ghook_Github Pg_Proxy
begin

text \<open>
  The daemon's start-up (\<open>cmd/branchd/main.go\<close>, \<open>internal/config\<close>): from flags and environment to an engine, a
  driver and a server, with every check in its order. Files, sockets, the container runtime and the cluster client
  are parameters (\<open>world\<close>). The listeners and goroutines that \<open>run\<close> starts afterwards are in \<open>Daemon_Life\<close>.
\<close>

section \<open>Addresses\<close>

definition uiURL :: "string \<Rightarrow> bool \<Rightarrow> string" where
  "uiURL apiAddr tlsEnabled =
     (let scheme = (if tlsEnabled then ''https'' else ''http'') in
      case SplitHostPort apiAddr of
        None \<Rightarrow> scheme @ ''://'' @ apiAddr @ ''/ui/''
      | Some (host, port) \<Rightarrow>
          let h = (if host \<in> {'''', ''0.0.0.0'', ''::''} then ''localhost'' else host)
          in scheme @ ''://'' @ JoinHostPort h port @ ''/ui/'')"

section \<open>Configuration\<close>

record config =
  cfg_Home :: string
  cfg_RegistryPath :: string
  cfg_PostgresImage :: string

record world =
  w_getenv :: "string \<Rightarrow> string"
  w_parse_duration :: "string \<Rightarrow> err + int"
  w_user_home :: "err + string"
  w_mkdir_all :: "string \<Rightarrow> err option"
  w_open :: "string \<Rightarrow> err option"
  w_key_pair :: "string \<Rightarrow> string \<Rightarrow> err option"
  w_sha :: "nat list \<Rightarrow> nat list"
  w_gcm :: "nat list \<Rightarrow> aead"
  w_docker :: "err option"
  w_kube_config :: "err option"
  w_kube_client :: "err option"
  w_kube_dynamic :: "err option"
  w_quantity :: "string \<Rightarrow> err option"
  w_scripts :: "script \<Rightarrow> string"

definition config_Load :: "world \<Rightarrow> err + config" where
  "config_Load w =
     (let home = w_getenv w ''PGBRANCH_HOME'';
          mk = (\<lambda>h. Inr \<lparr>cfg_Home = h, cfg_RegistryPath = path_Join [h, ''pgbranch.db''], cfg_PostgresImage = ''postgres:17''\<rparr>)
      in if home \<noteq> '''' then mk home
         else case w_user_home w of Inl e \<Rightarrow> Inl e | Inr uh \<Rightarrow> mk (path_Join [uh, ''.pgbranch'']))"

definition EnsureHome :: "world \<Rightarrow> config \<Rightarrow> err option" where
  "EnsureHome w c = w_mkdir_all w (cfg_Home c)"

definition bad_env :: "string \<Rightarrow> string \<Rightarrow> err \<Rightarrow> err" where
  "bad_env key v e = Msg (''invalid '' @ key @ ''='' @ go_quote v @ '': '' @ err_msg e)"

definition envInt :: "world \<Rightarrow> string \<Rightarrow> int \<Rightarrow> err + int" where
  "envInt w key dflt =
     (let v = w_getenv w key in
      if v = '''' then Inr dflt
      else case ParseInt64 v of Some n \<Rightarrow> Inr n
        | None \<Rightarrow> Inl (bad_env key v (Msg (''strconv.Atoi: parsing '' @ go_quote v @
            (if atoi_value v = 0 then '': invalid syntax'' else '': value out of range'')))))"

definition envDuration :: "world \<Rightarrow> string \<Rightarrow> int \<Rightarrow> err + int" where
  "envDuration w key dflt =
     (let v = w_getenv w key in
      if v = '''' then Inr dflt
      else case w_parse_duration w v of Inr d \<Rightarrow> Inr d | Inl e \<Rightarrow> Inl (bad_env key v e))"

text \<open>Whether TLS is on, or why the daemon does not start.\<close>

definition tlsConfigFromFlags :: "world \<Rightarrow> string \<Rightarrow> string \<Rightarrow> string \<Rightarrow> err + bool" where
  "tlsConfigFromFlags w cert key name =
     (if cert = '''' \<and> key = '''' then Inr False
      else if cert = '''' \<or> key = '''' then
        Inl (Msg (''--'' @ name @ ''-tls-cert and --'' @ name @ ''-tls-key must be set together''))
      else case w_key_pair w cert key of
        Some e \<Rightarrow> Inl (Wrap (''load --'' @ name @ ''-tls-cert/--'' @ name @ ''-tls-key: '') e [])
      | None \<Rightarrow> Inr True)"

section \<open>Storage\<close>

record storageOptions =
  so_runtime :: string
  so_kubeStorage :: string
  so_cowFlag :: string
  so_cowSet :: bool
  so_storageClass :: string
  so_snapshotClass :: string
  so_volumeSize :: string
  so_kubeNode :: string

definition resolveStorage :: "storageOptions \<Rightarrow> err + backend" where
  "resolveStorage o1 =
     (if so_runtime o1 \<noteq> ''docker'' \<and> so_runtime o1 \<noteq> ''kube'' then
        Inl (Msg (''unknown --runtime '' @ go_quote (so_runtime o1) @ '' (want docker or kube)''))
      else case ParseBackend (so_cowFlag o1) of
        Inl e \<Rightarrow> Inl e
      | Inr backend \<Rightarrow>
          if so_kubeStorage o1 = ''csi'' then
            (if so_runtime o1 \<noteq> ''kube'' then Inl (Msg ''--kube-storage csi requires --runtime kube'')
             else if so_storageClass o1 = '''' then
               Inl (Msg ''--csi-storage-class is required with --kube-storage csi (a StorageClass whose CSI driver supports PVC cloning, or snapshots with --csi-snapshot-class)'')
             else if so_cowSet o1 \<and> backend \<noteq> BackendCSI then
               Inl (Msg (''--kube-storage csi forces --cow csi (got --cow '' @ so_cowFlag o1 @ '')''))
             else Inr BackendCSI)
          else if so_kubeStorage o1 = ''hostpath'' then
            (if backend = BackendCSI then Inl (Msg ''--cow csi requires --runtime kube --kube-storage csi'')
             else if so_storageClass o1 \<noteq> '''' \<or> so_snapshotClass o1 \<noteq> '''' \<or> so_volumeSize o1 \<noteq> '''' then
               Inl (Msg ''--csi-storage-class, --csi-snapshot-class and --csi-volume-size require --kube-storage csi'')
             else if so_runtime o1 = ''kube'' \<and> so_kubeNode o1 = '''' then
               Inl (Msg ''--kube-node is required with --runtime kube --kube-storage hostpath (the node that stores all branch data)'')
             else Inr backend)
          else Inl (Msg (''unknown --kube-storage '' @ go_quote (so_kubeStorage o1) @ '' (want hostpath or csi)'')))"

definition storageRoot :: "string \<Rightarrow> string \<Rightarrow> string \<Rightarrow> string \<Rightarrow> string" where
  "storageRoot runtimeName kubeStorage kubeDataRoot home =
     (if runtimeName = ''kube'' then (if kubeStorage = ''hostpath'' then kubeDataRoot else '''') else home)"

section \<open>Start-up\<close>

text \<open>The flags after parsing. The three limits take their default from the environment, which is read in any case.\<close>

record flags =
  fl_reconcileInterval :: int
  fl_reapInterval :: int
  fl_stuckTimeout :: int
  fl_runtime :: string
  fl_kubeNamespace :: string
  fl_kubeNode :: string
  fl_kubeDataRoot :: string
  fl_kubeStorage :: string
  fl_csiStorageClass :: string
  fl_csiSnapshotClass :: string
  fl_csiVolumeSize :: string
  fl_cow :: "string option"
  fl_zfsDataset :: string
  fl_rotate :: bool
  fl_maxBranches :: "int option"
  fl_defaultTTL :: "int option"
  fl_maxTTL :: "int option"
  fl_apiTLSCert :: string
  fl_apiTLSKey :: string
  fl_pgTLSCert :: string
  fl_pgTLSKey :: string
  fl_leaderElect :: bool

datatype daemon_driver = DockerRuntime | KubeRuntime kube_drv

record daemon =
  dm_engine :: engine
  dm_driver :: daemon_driver
  dm_server :: server
  dm_secrets :: "aead option"
  dm_interval :: int
  dm_stuckTimeout :: int
  dm_diskRoot :: string
  dm_apiTLS :: bool
  dm_pgTLS :: bool
  dm_leaseNamespace :: "string option"

text \<open>\<open>x, err := m; if err != nil { return err }\<close> on plain results\<close>

definition or_stop :: "err + 'a \<Rightarrow> ('a \<Rightarrow> err + 'b) \<Rightarrow> err + 'b" where
  "or_stop r f = (case r of Inl e \<Rightarrow> Inl e | Inr x \<Rightarrow> f x)"

definition check :: "bool \<Rightarrow> string \<Rightarrow> err + 'b \<Rightarrow> err + 'b" where
  "check bad msg k = (if bad then Inl (Msg msg) else k)"

definition strings_Trim_slash :: "string \<Rightarrow> string" where
  "strings_Trim_slash s = rev (dropWhile (\<lambda>c. c = CHR ''/'') (rev (dropWhile (\<lambda>c. c = CHR ''/'') s)))"

definition kube_namespace :: "world \<Rightarrow> flags \<Rightarrow> string" where
  "kube_namespace w fl =
     (if fl_kubeNamespace fl \<noteq> '''' then fl_kubeNamespace fl
      else if w_getenv w ''POD_NAMESPACE'' \<noteq> '''' then w_getenv w ''POD_NAMESPACE'' else ''pgbranch'')"

definition make_driver :: "world \<Rightarrow> flags \<Rightarrow> backend \<Rightarrow> err + daemon_driver" where
  "make_driver w fl backend =
     (let wrap = (\<lambda>r. case r of Inl e \<Rightarrow> Inl (Wrap (''init '' @ fl_runtime fl @ '' runtime: '') e []) | Inr x \<Rightarrow> Inr x) in
      if fl_runtime fl = ''docker'' then
        wrap (case w_docker w of Some e \<Rightarrow> Inl (Wrap ''docker client: '' e []) | None \<Rightarrow> Inr DockerRuntime)
      else wrap (map_sum id KubeRuntime
        (if backend = BackendCSI then
           NewKubeDriverCSI (w_quantity w) (w_kube_config w) (w_kube_client w) (w_kube_dynamic w) (kube_namespace w fl)
             (fl_csiStorageClass fl) (fl_csiSnapshotClass fl) (fl_csiVolumeSize fl)
         else NewKubeDriver (w_kube_config w) (w_kube_client w) (kube_namespace w fl) (fl_kubeNode fl) (fl_kubeDataRoot fl))))"

definition storage_of :: "flags \<Rightarrow> storageOptions" where
  "storage_of fl = \<lparr>so_runtime = fl_runtime fl, so_kubeStorage = fl_kubeStorage fl,
     so_cowFlag = (case fl_cow fl of Some v \<Rightarrow> v | None \<Rightarrow> ''overlay''), so_cowSet = (fl_cow fl \<noteq> None),
     so_storageClass = fl_csiStorageClass fl, so_snapshotClass = fl_csiSnapshotClass fl, so_volumeSize = fl_csiVolumeSize fl,
     so_kubeNode = fl_kubeNode fl\<rparr>"

definition engine_options :: "flags \<Rightarrow> int \<Rightarrow> int \<Rightarrow> int \<Rightarrow> option_fn list" where
  "engine_options fl mb dt mt =
     (if fl_rotate fl then [WithCredentialRotation] else []) @ (if 0 < mb then [WithMaxBranches mb] else []) @
     (if 0 < dt \<or> 0 < mt then [WithTTLPolicy dt mt] else [])"

definition assemble :: "world \<Rightarrow> flags \<Rightarrow> int \<Rightarrow> int \<Rightarrow> int \<Rightarrow> int \<Rightarrow> bool \<Rightarrow> bool \<Rightarrow> string \<Rightarrow> config \<Rightarrow> aead option \<Rightarrow> backend
    \<Rightarrow> daemon_driver \<Rightarrow> daemon" where
  "assemble w fl mb dt mt interval apiTLS pgTLS token cfg box backend dr =
     (let eng = NewWithPlanner (w_scripts w) (cfg_PostgresImage cfg)
           \<lparr>Backend = backend, Dataset = strings_Trim_slash (fl_zfsDataset fl)\<rparr> (engine_options fl mb dt mt);
         srv = NewServer eng token (fl_stuckTimeout fl)
      in \<lparr>dm_engine = eng, dm_driver = dr, dm_server = (if fl_leaderElect fl then SetLeader False srv else srv),
          dm_secrets = box, dm_interval = interval, dm_stuckTimeout = fl_stuckTimeout fl,
          dm_diskRoot = storageRoot (fl_runtime fl) (fl_kubeStorage fl) (fl_kubeDataRoot fl) (cfg_Home cfg),
          dm_apiTLS = apiTLS, dm_pgTLS = pgTLS,
          dm_leaseNamespace = (if fl_leaderElect fl then Some (kube_namespace w fl) else None)\<rparr>)"

definition run_setup :: "world \<Rightarrow> flags \<Rightarrow> err + daemon" where
  "run_setup w fl =
     or_stop (envInt w ''PGBRANCH_MAX_BRANCHES'' 0) (\<lambda>mb0.
     or_stop (envDuration w ''PGBRANCH_DEFAULT_TTL'' 0) (\<lambda>dt0.
     or_stop (envDuration w ''PGBRANCH_MAX_TTL'' 0) (\<lambda>mt0.
     let mb = (case fl_maxBranches fl of Some n \<Rightarrow> n | None \<Rightarrow> mb0);
         dt = (case fl_defaultTTL fl of Some n \<Rightarrow> n | None \<Rightarrow> dt0);
         mt = (case fl_maxTTL fl of Some n \<Rightarrow> n | None \<Rightarrow> mt0);
         interval = (if 0 < fl_reapInterval fl then fl_reapInterval fl else fl_reconcileInterval fl)
     in
     or_stop (tlsConfigFromFlags w (fl_apiTLSCert fl) (fl_apiTLSKey fl) ''api'') (\<lambda>apiTLS.
     or_stop (tlsConfigFromFlags w (fl_pgTLSCert fl) (fl_pgTLSKey fl) ''pg'') (\<lambda>pgTLS.
     let token = w_getenv w ''PGBRANCH_TOKEN'' in
     check (token = '''') ''PGBRANCH_TOKEN must be set (bearer token for the REST API)'' (
     or_stop (config_Load w) (\<lambda>cfg.
     or_stop (unit_reply (EnsureHome w cfg)) (\<lambda>_.
     or_stop (unit_reply (w_open w (cfg_RegistryPath cfg))) (\<lambda>_.
     or_stop (newSecretBox (w_gcm w) (DeriveSecretKey (w_sha w) token)) (\<lambda>box.
     or_stop (resolveStorage (storage_of fl)) (\<lambda>backend.
     check (backend = BackendZFS \<and> fl_zfsDataset fl = '''')
       ''--zfs-dataset is required with --cow zfs (the dataset prefix pgbranch owns, e.g. tank/pgbranch)'' (
     or_stop (make_driver w fl backend) (\<lambda>dr.
     check (fl_leaderElect fl \<and> fl_runtime fl \<noteq> ''kube'')
       ''--leader-elect requires --runtime kube (it contends for a coordination.k8s.io Lease)'' (
     check (mb < 0) ''--max-branches must be >= 0 (0 = unlimited)'' (
     check (dt < 0 \<or> mt < 0) ''--default-ttl and --max-ttl must be >= 0 (0 = unset)'' (
     Inr (assemble w fl mb dt mt interval apiTLS pgTLS token cfg box backend dr)))))))))))))))))"

section \<open>What an accepted start guarantees\<close>

lemma or_stop_iff: "or_stop r f = Inr y \<longleftrightarrow> (\<exists>x. r = Inr x \<and> f x = Inr y)"
  by (cases r) (simp_all add: or_stop_def)

lemma check_iff: "check b m k = Inr y \<longleftrightarrow> \<not> b \<and> k = Inr y"
  by (simp add: check_def)

lemma options_limits:
  assumes "0 \<le> mb" "0 \<le> dt" "0 \<le> mt"
  shows "maxBranches (NewWithPlanner sc img p (engine_options fl mb dt mt)) = mb \<and>
    defaultTTL (NewWithPlanner sc img p (engine_options fl mb dt mt)) = dt \<and>
    maxTTL (NewWithPlanner sc img p (engine_options fl mb dt mt)) = mt \<and>
    rotateCredentials (NewWithPlanner sc img p (engine_options fl mb dt mt)) = fl_rotate fl \<and>
    planner (NewWithPlanner sc img p (engine_options fl mb dt mt)) = p"
  using assms by (auto simp: NewWithPlanner_def engine_options_def WithCredentialRotation_def WithMaxBranches_def WithTTLPolicy_def)

lemma resolved_backend:
  assumes "resolveStorage o1 = Inr b"
  shows "(b = BackendCSI \<longleftrightarrow> so_kubeStorage o1 = ''csi'') \<and> (b = BackendCSI \<longrightarrow> so_runtime o1 = ''kube'' \<and> so_storageClass o1 \<noteq> []) \<and>
    so_runtime o1 \<in> {''docker'', ''kube''}"
  using assms unfolding resolveStorage_def by (auto split: if_splits sum.splits)

lemma driver_fits:
  assumes "make_driver w fl b = Inr dr" "fl_runtime fl \<in> {''docker'', ''kube''}" "b = BackendCSI \<longrightarrow> fl_runtime fl = ''kube''"
  shows "(b = BackendCSI \<longleftrightarrow> (\<exists>ns class snap sz. dr = KubeRuntime \<lparr>kd_namespace = ns, kd_storage = CSIStorage class snap sz\<rparr> \<and> class \<noteq> [])) \<and>
    (\<forall>k node root. dr = KubeRuntime k \<and> kd_storage k = HostPathStorage node root \<longrightarrow> node \<noteq> [] \<and> root \<noteq> []) \<and>
    (fl_runtime fl = ''kube'' \<longleftrightarrow> dr \<noteq> DockerRuntime)"
proof (cases "fl_runtime fl = ''docker''")
  case True
  then show ?thesis using assms by (auto simp: make_driver_def split: option.splits)
next
  case False
  then show ?thesis using assms
    by (auto simp: make_driver_def NewKubeDriverCSI_def NewKubeDriver_def split: option.splits sum.splits if_splits)
qed


definition sample_world :: world where
  "sample_world = \<lparr>w_getenv = (\<lambda>k. if k = ''PGBRANCH_TOKEN'' then ''secret'' else []), w_parse_duration = (\<lambda>_. Inr 0),
     w_user_home = Inr ''/root'', w_mkdir_all = (\<lambda>_. None), w_open = (\<lambda>_. None), w_key_pair = (\<lambda>_ _. None),
     w_sha = (\<lambda>_. replicate 32 0), w_gcm = (\<lambda>_. shift_aead), w_docker = None, w_kube_config = None, w_kube_client = None,
     w_kube_dynamic = None, w_quantity = (\<lambda>_. None), w_scripts = (\<lambda>_. [])\<rparr>"

definition sample_flags :: flags where
  "sample_flags = \<lparr>fl_reconcileInterval = 60 * second, fl_reapInterval = 0, fl_stuckTimeout = 600 * second, fl_runtime = ''kube'',
     fl_kubeNamespace = [], fl_kubeNode = [], fl_kubeDataRoot = ''/var/lib/pgbranch'', fl_kubeStorage = ''csi'', fl_csiStorageClass = ''fast'',
     fl_csiSnapshotClass = [], fl_csiVolumeSize = [], fl_cow = None, fl_zfsDataset = [], fl_rotate = True, fl_maxBranches = Some 5,
     fl_defaultTTL = None, fl_maxTTL = None, fl_apiTLSCert = [], fl_apiTLSKey = [], fl_pgTLSCert = [], fl_pgTLSKey = [], fl_leaderElect = True\<rparr>"

lemmas setup_simps = run_setup_def assemble_def or_stop_def check_def envInt_def envDuration_def tlsConfigFromFlags_def config_Load_def EnsureHome_def
  unit_reply_def newSecretBox_def DeriveSecretKey_def resolveStorage_def ParseBackend_def make_driver_def NewKubeDriverCSI_def NewKubeDriver_def
  parsePVCSize_def kube_namespace_def storage_of_def sample_world_def sample_flags_def


text \<open>
  Some settings pass the checks although the daemon cannot work with them: a dataset that consists of slashes
  only is trimmed to nothing, a reconcile interval of zero, with which creating the ticker panics, and a stuck timeout
  of zero, which the API server replaces by its default and the reconcile loop does not.
\<close>

theorem unusable_settings_are_accepted:
  "(\<exists>w fl d. run_setup w fl = Inr d \<and> is_zfs (dm_engine d) \<and> Dataset (planner (dm_engine d)) = []) \<and>
   (\<exists>w fl d. run_setup w fl = Inr d \<and> dm_interval d = 0) \<and>
   (\<exists>w fl d. run_setup w fl = Inr d \<and> dm_stuckTimeout d = 0 \<and> srv_stuckTimeout (dm_server d) = DefaultStuckTimeout)"
proof -
  let ?f = "sample_flags\<lparr>fl_runtime := ''docker'', fl_kubeStorage := ''hostpath'', fl_csiStorageClass := [], fl_cow := Some ''zfs'',
    fl_zfsDataset := ''/'', fl_leaderElect := False, fl_reconcileInterval := 0, fl_stuckTimeout := 0\<rparr>"
  have "\<exists>d. run_setup sample_world ?f = Inr d \<and> is_zfs (dm_engine d) \<and> Dataset (planner (dm_engine d)) = [] \<and> dm_interval d = 0 \<and>
      dm_stuckTimeout d = 0 \<and> srv_stuckTimeout (dm_server d) = DefaultStuckTimeout"
    by (simp add: setup_simps Let_def NewWithPlanner_def engine_options_def is_zfs_def WithCredentialRotation_def WithMaxBranches_def
        strings_Trim_slash_def NewServer_def)
  then show ?thesis by blast
qed

end
