(* ===== verification/Cli.thy ===== *)
theory Cli
  imports Branchd
begin

text \<open>
  The command line client (\<open>internal/cli\<close>, \<open>cmd/pgb\<close>). Every command has two modes: with a server address it sends
  a request with the API client, without one it opens the registry and runs the engine in its own process. Flags
  and arguments, once parsed, are the arguments of the commands; what a command writes to standard output is
  collected in the state. Environment, files, the connection a client makes and \<open>url.Parse\<close> are parameters.
\<close>

section \<open>Output\<close>

record pgb_st = sys +
  pgb_out :: string

record 's cli_env =
  ce_world :: world
  ce_codec :: codec
  ce_dial :: "string \<Rightarrow> string \<Rightarrow> 's transport"
  ce_hostname :: "string \<Rightarrow> err + string"
  ce_read_file :: "string \<Rightarrow> err + string"
  ce_json :: "string json_lib"
  ce_json_string :: "string \<Rightarrow> string"

definition say :: "string \<Rightarrow> ('z pgb_st_scheme, unit) comp" where
  "say txt = modify (\<lambda>s. s\<lparr>pgb_out := pgb_out s @ txt\<rparr>)"

definition tab :: string where "tab = [CHR 0x09]"

text \<open>
  \<open>text/tabwriter\<close> with minimal width 2, padding 2 and blanks: a cell that a tab ends is padded to the width of its
  column, which is the widest such cell in the adjacent lines that have the column; the last cell of a line is not
  padded. Widths are counted in runes.
\<close>

definition in_column :: "nat \<Rightarrow> string list \<Rightarrow> bool" where
  "in_column j cells \<longleftrightarrow> Suc j < length cells"

definition column_width :: "string list list \<Rightarrow> nat \<Rightarrow> nat \<Rightarrow> nat" where
  "column_width ls i j =
     (let block = takeWhile (in_column j) (rev (take i ls)) @ takeWhile (in_column j) (drop i ls)
      in fold max (map (\<lambda>cells. length (runes (cells ! j)) + 2) block) 2)"

definition table_line :: "string list list \<Rightarrow> nat \<Rightarrow> string" where
  "table_line ls i = concat (map (\<lambda>j. let x = ls ! i ! j in
     if in_column j (ls ! i) then x @ replicate (column_width ls i j - length (runes x)) (CHR '' '') else x) [0..<length (ls ! i)])"

definition tabulated :: "string \<Rightarrow> string" where
  "tabulated txt =
     (let ls = map (\<lambda>l. strings_split l (CHR 0x09)) (strings_split txt (CHR 0x0A))
      in strings_join (map (table_line ls) [0..<length ls]) nl)"

definition row_text :: "string list \<Rightarrow> string" where
  "row_text cells = strings_join cells tab @ nl"

text \<open>\<open>time.Since(start).Round(time.Millisecond)\<close>\<close>

definition round_ms :: "int \<Rightarrow> int" where
  "round_ms d = (let r = d mod 1000000 in if r + r < 1000000 then d - r else d + (1000000 - r))"

definition since_str :: "int \<Rightarrow> ('z environ_scheme, string) comp" where
  "since_str start = bnd time_now (\<lambda>now. ok (duration_str (round_ms (now - start))))"

section \<open>Modes (\<open>root.go\<close>)\<close>

definition server_flag :: "'s cli_env \<Rightarrow> string option \<Rightarrow> string" where
  "server_flag E flag = (case flag of Some s \<Rightarrow> s | None \<Rightarrow> w_getenv (ce_world E) ''PGBRANCH_SERVER'')"

definition serverClient :: "'s cli_env \<Rightarrow> string \<Rightarrow> 's transport option" where
  "serverClient E server =
     (if server = '''' then None else Some (ce_dial E server (w_getenv (ce_world E) ''PGBRANCH_TOKEN'')))"

text \<open>The registry handle has no secret key: nothing sets one in the command line client.\<close>

definition openRegistry :: "'s cli_env \<Rightarrow> ('z reg_st_scheme, config) comp" where
  "openRegistry E =
     bnd (lift_sum (config_Load (ce_world E))) (\<lambda>cfg.
     bnd (lift_err (EnsureHome (ce_world E) cfg)) (\<lambda>_.
     bnd (lift_err (w_open (ce_world E) (cfg_RegistryPath cfg))) (\<lambda>_.
     bnd (modify (\<lambda>s. s\<lparr>secrets := None\<rparr>)) (\<lambda>_. ok cfg))))"

definition open_engine :: "'s cli_env \<Rightarrow> ('z sys_scheme, engine) comp" where
  "open_engine E =
     bnd (openRegistry E) (\<lambda>cfg.
     case w_docker (ce_world E) of
       Some e \<Rightarrow> raise (Wrap ''docker client: '' e [])
     | None \<Rightarrow> ok (New (w_scripts (ce_world E)) (cfg_PostgresImage cfg) []))"

section \<open>Branches (\<open>branch.go\<close>)\<close>

text \<open>Division truncates toward zero.\<close>

definition whole_seconds :: "int \<Rightarrow> int" where
  "whole_seconds d = (if d < 0 then - (- d div second) else d div second)"

definition newBranchCreateCmd :: "('z pgb_st_scheme) cli_env \<Rightarrow> string \<Rightarrow> string \<Rightarrow> string \<Rightarrow> int \<Rightarrow> string \<Rightarrow> ('z pgb_st_scheme, unit) comp" where
  "newBranchCreateCmd E server from fromBranch ttl name =
     (if (from = '''') = (fromBranch = '''') then
        raise (Msg ''exactly one of --from (source) or --from-branch (parent branch) is required'')
      else bnd time_now (\<lambda>start.
        case serverClient E server of
          Some tr \<Rightarrow>
            bnd (cl_CreateBranch (ce_codec E) tr
              \<lparr>cb_Name = name, cb_Source = from, cb_Parent = fromBranch, cb_TTLSeconds = whole_seconds ttl\<rparr>) (\<lambda>b.
            bnd (since_str start) (\<lambda>d.
            say (''branch '' @ go_quote (jb_Name b) @ '' ready in '' @ d @ '' (port '' @ int_str (jb_Port b) @
              '', proxy db '' @ go_quote (jb_ProxyDatabase b) @ '')'' @ nl)))
        | None \<Rightarrow>
            bnd (open_engine E) (\<lambda>e.
            bnd (if fromBranch \<noteq> '''' then CreateBranchFrom e Background name fromBranch ttl
                 else eng_CreateBranch e Background name from ttl) (\<lambda>b.
            bnd (since_str start) (\<lambda>d.
            say (''branch '' @ go_quote (br_Name b) @ '' ready in '' @ d @ '' (port '' @ int_str (br_Port b) @ '')'' @ nl))))))"

text \<open>
  \<open>humanBytes\<close>: binary units, one decimal. \<open>float64(n)\<close> rounds to 53 bits, the division by a power of two is exact,
  and \<open>%.1f\<close> rounds the exact value to the nearest tenth, ties to even.
\<close>

definition div_even :: "int \<Rightarrow> int \<Rightarrow> int" where
  "div_even a b = (let q = a div b; r = a mod b in if 2 * r < b \<or> (2 * r = b \<and> even q) then q else q + 1)"

definition to_float64 :: "int \<Rightarrow> int" where
  "to_float64 n = (let b = 2 ^ hd (filter (\<lambda>e. n < 2 ^ (53 + e)) [0..<11]) in div_even n b * b)"

fun unit_exp :: "nat \<Rightarrow> int \<Rightarrow> nat" where
  "unit_exp 0 m = 0"
| "unit_exp (Suc k) m = (if 1024 \<le> m then Suc (unit_exp k (m div 1024)) else 0)"

definition humanBytes :: "int \<Rightarrow> string" where
  "humanBytes n =
     (if n < 1024 then int_str n @ '' B''
      else let e = unit_exp 6 (n div 1024); tenths = div_even (10 * to_float64 n) (1024 ^ Suc e)
        in int_str (tenths div 10) @ ''.'' @ int_str (tenths mod 10) @ '' '' @ [''KMGTPE'' ! e] @ ''iB'')"

definition orNever :: "string \<Rightarrow> string" where
  "orNever expiresAt = (if expiresAt = '''' then ''never'' else expiresAt)"

definition or_dash :: "string \<Rightarrow> string" where
  "or_dash s = (if s = '''' then ''-'' else s)"

text \<open>The rows of \<open>ls\<close>; a failed measurement is shown in its cell.\<close>

fun ls_rows :: "bool \<Rightarrow> (string \<Rightarrow> ('s, int) comp) \<Rightarrow> (string \<times> string list) list \<Rightarrow> ('s, string) comp" where
  "ls_rows withUsage usage [] = ok []"
| "ls_rows withUsage usage ((name, cells) # rs) =
     bnd (if withUsage then bnd (attempt (usage name)) (\<lambda>r.
            ok [case r of Inl e \<Rightarrow> ''? ('' @ err_msg e @ '')'' | Inr n \<Rightarrow> humanBytes n])
          else ok []) (\<lambda>u.
     bnd (ls_rows withUsage usage rs) (\<lambda>rest. ok (row_text (cells @ u) @ rest)))"

definition ls_cells :: "string \<Rightarrow> string \<Rightarrow> string \<Rightarrow> int \<Rightarrow> string \<Rightarrow> string \<Rightarrow> string \<times> string list" where
  "ls_cells name parent state port expiresAt createdAt =
     (name, [name, or_dash parent, state, int_str port, orNever expiresAt, createdAt])"

definition newBranchLsCmd :: "('z pgb_st_scheme) cli_env \<Rightarrow> string \<Rightarrow> bool \<Rightarrow> ('z pgb_st_scheme, unit) comp" where
  "newBranchLsCmd E server withUsage =
     (let header = row_text ([''NAME'', ''PARENT'', ''STATE'', ''PORT'', ''EXPIRES'', ''CREATED''] @ (if withUsage then [''SIZE''] else []));
          flush = (\<lambda>rows. say (tabulated (header @ rows)))
      in case serverClient E server of
        Some tr \<Rightarrow>
          bnd (cl_ListBranches (ce_codec E) tr) (\<lambda>bs.
          bnd (ls_rows withUsage (cl_BranchUsage (ce_codec E) tr)
            (map (\<lambda>b. ls_cells (jb_Name b) (jb_Parent b) (jb_State b) (jb_Port b) (jb_ExpiresAt b) (jb_CreatedAt b)) bs)) flush)
      | None \<Rightarrow>
          bnd (open_engine E) (\<lambda>e.
          bnd ListLiveBranches (\<lambda>bs.
          bnd (ls_rows withUsage (BranchUsage e Background)
            (map (\<lambda>b. ls_cells (br_Name b) (br_ParentBranchName b) (branch_state_str (br_State b)) (br_Port b)
               (br_ExpiresAt b) (br_CreatedAt b)) bs)) flush)))"

definition newBranchDestroyCmd :: "('z pgb_st_scheme) cli_env \<Rightarrow> string \<Rightarrow> string \<Rightarrow> ('z pgb_st_scheme, unit) comp" where
  "newBranchDestroyCmd E server name =
     bnd (case serverClient E server of
            Some tr \<Rightarrow> cl_DestroyBranch (ce_codec E) tr name
          | None \<Rightarrow> bnd (open_engine E) (\<lambda>e. DestroyBranch e Background name)) (\<lambda>_.
     say (''branch '' @ go_quote name @ '' destroyed'' @ nl))"

definition newBranchResetCmd :: "('z pgb_st_scheme) cli_env \<Rightarrow> string \<Rightarrow> string \<Rightarrow> ('z pgb_st_scheme, unit) comp" where
  "newBranchResetCmd E server name =
     bnd time_now (\<lambda>start.
     bnd (case serverClient E server of
            Some tr \<Rightarrow> bnd (cl_ResetBranch (ce_codec E) tr name) (\<lambda>b. ok (jb_Port b))
          | None \<Rightarrow> bnd (open_engine E) (\<lambda>e. bnd (ResetBranch e Background name) (\<lambda>b. ok (br_Port b)))) (\<lambda>port.
     bnd (since_str start) (\<lambda>d.
     say (''branch '' @ go_quote name @ '' reset in '' @ d @ '' (new port '' @ int_str port @ '')'' @ nl))))"

definition newHistoryCmd :: "('z pgb_st_scheme) cli_env \<Rightarrow> string \<Rightarrow> string \<Rightarrow> ('z pgb_st_scheme, unit) comp" where
  "newHistoryCmd E server name =
     bnd (case serverClient E server of
            Some tr \<Rightarrow> cl_BranchHistory (ce_codec E) tr name
          | None \<Rightarrow> bnd (openRegistry E) (\<lambda>_. BranchHistory name)) (\<lambda>rows.
     say (tabulated (row_text [''AT'', ''FROM'', ''TO'', ''ACTOR'', ''REASON''] @
       concat (map (\<lambda>t. row_text [At t, or_dash (FromState t), ToState t, Actor t, or_dash (Reason t)]) rows))))"

text \<open>\<open>url.QueryEscape\<close>\<close>

definition query_safe :: "char \<Rightarrow> bool" where
  "query_safe c \<longleftrightarrow> (CHR ''a'' \<le> c \<and> c \<le> CHR ''z'') \<or> (CHR ''A'' \<le> c \<and> c \<le> CHR ''Z'') \<or> (CHR ''0'' \<le> c \<and> c \<le> CHR ''9'') \<or>
     c \<in> set ''-_.~''"

definition QueryEscape :: "string \<Rightarrow> string" where
  "QueryEscape s = concat (map (\<lambda>c. if query_safe c then [c] else if c = CHR '' '' then ''+''
     else [CHR ''%'', upperhex (of_char c div 16), upperhex (of_char c mod 16)]) s)"

definition userInfo :: "string \<Rightarrow> string \<Rightarrow> string" where
  "userInfo user password = (if password = '''' then user else user @ '':'' @ QueryEscape password)"

definition dsn :: "string \<Rightarrow> string \<Rightarrow> string \<Rightarrow> string \<Rightarrow> string" where
  "dsn auth host port database = ''postgres://'' @ auth @ ''@'' @ host @ '':'' @ port @ ''/'' @ database @ nl"

text \<open>The client keeps the address without trailing slashes.\<close>

definition base_url :: "string \<Rightarrow> string" where
  "base_url server = rev (dropWhile (\<lambda>c. c = CHR 0x2F) (rev server))"

definition newConnectCmd :: "('z pgb_st_scheme) cli_env \<Rightarrow> string \<Rightarrow> string \<Rightarrow> ('z pgb_st_scheme, unit) comp" where
  "newConnectCmd E server name =
     (case serverClient E server of
        Some tr \<Rightarrow>
          bnd (cl_GetBranch (ce_codec E) tr name) (\<lambda>b.
          bnd (lift_sum (ce_hostname E (base_url server))) (\<lambda>serverHost.
          let directHost = (if jb_Host b = '''' then serverHost else jb_Host b); auth = userInfo (jb_User b) (jb_Password b) in
          bnd (say (dsn auth directHost (int_str (jb_Port b)) (jb_Database b))) (\<lambda>_.
          say (dsn auth serverHost ''6432'' (jb_ProxyDatabase b)))))
      | None \<Rightarrow>
          bnd (open_engine E) (\<lambda>_.
          bnd (GetBranchByName name) (\<lambda>b.
          bnd (GetSourceByID (br_SourceID b)) (\<lambda>s.
          say (dsn (userInfo (src_ConnUser s) (br_Password b)) (br_Host b) (int_str (br_Port b)) (src_ConnDB s))))))"

section \<open>Sources (\<open>source.go\<close>)\<close>

definition passwordFromEnv :: "'s cli_env \<Rightarrow> string \<Rightarrow> err + string" where
  "passwordFromEnv E env =
     (let password = w_getenv (ce_world E) env in
      if password = '''' then Inl (Msg (''password env '' @ go_quote env @ '' is empty'')) else Inr password)"

record source_flags =
  sf_host :: string
  sf_user :: string
  sf_db :: string
  sf_network :: string
  sf_pgVersion :: string
  sf_passwordEnv :: string
  sf_via :: string
  sf_dumpSchemas :: "string list"
  sf_port :: int

definition default_source_flags :: source_flags where
  "default_source_flags = \<lparr>sf_host = [], sf_user = ''postgres'', sf_db = ''postgres'', sf_network = [], sf_pgVersion = ''17'',
     sf_passwordEnv = ''PGPASSWORD'', sf_via = SeedViaBasebackup, sf_dumpSchemas = [], sf_port = 5432\<rparr>"

definition newSourceAddCmd :: "('z pgb_st_scheme) cli_env \<Rightarrow> string \<Rightarrow> source_flags \<Rightarrow> string \<Rightarrow> ('z pgb_st_scheme, unit) comp" where
  "newSourceAddCmd E server f name =
     (if sf_dumpSchemas f \<noteq> [] \<and> sf_via f \<noteq> SeedViaDump then raise (Msg ''--dump-schema is only valid with --via dump'')
      else bnd (lift_sum (passwordFromEnv E (sf_passwordEnv f))) (\<lambda>password.
        case serverClient E server of
          Some tr \<Rightarrow>
            bnd (cl_CreateSource (ce_codec E) tr \<lparr>cs_Name = name, cs_Host = sf_host f, cs_Port = sf_port f, cs_User = sf_user f,
              cs_Database = sf_db f, cs_Network = sf_network f, cs_PGVersion = sf_pgVersion f, cs_Password = password,
              cs_Via = sf_via f, cs_DumpSchemas = sf_dumpSchemas f\<rparr>) (\<lambda>s.
            say (''source '' @ go_quote (js_Name s) @ '' seeded and ready'' @ nl))
        | None \<Rightarrow>
            bnd (open_engine E) (\<lambda>e.
            bnd (AddSource e Background \<lparr>src_ID = [], src_Name = name, src_PGVersion = sf_pgVersion f, src_Volume = [],
              src_ConnHost = sf_host f, src_ConnUser = sf_user f, src_ConnDB = sf_db f, src_Network = sf_network f,
              src_SeedVia = sf_via f, src_DumpSchemas = sf_dumpSchemas f, src_ConnPort = sf_port f,
              src_Generation = 0, src_State = SourceSeeding, src_CreatedAt = []\<rparr> password) (\<lambda>_.
            say (''source '' @ go_quote name @ '' seeded and ready'' @ nl)))))"

definition newSourceLsCmd :: "('z pgb_st_scheme) cli_env \<Rightarrow> string \<Rightarrow> ('z pgb_st_scheme, unit) comp" where
  "newSourceLsCmd E server =
     (let flush = (\<lambda>rows. say (tabulated (row_text [''NAME'', ''PG'', ''STATE'', ''GEN'', ''CREATED''] @ concat rows)))
      in case serverClient E server of
        Some tr \<Rightarrow>
          bnd (cl_ListSources (ce_codec E) tr) (\<lambda>ss.
          flush (map (\<lambda>s. row_text [js_Name s, js_PGVersion s, js_State s, int_str (js_Generation s), js_CreatedAt s]) ss))
      | None \<Rightarrow>
          bnd (open_engine E) (\<lambda>_.
          bnd ListSources (\<lambda>ss.
          flush (map (\<lambda>s. row_text [src_Name s, src_PGVersion s, source_state_str (src_State s), int_str (src_Generation s),
            src_CreatedAt s]) ss))))"

definition newSourceRmCmd :: "('z pgb_st_scheme) cli_env \<Rightarrow> string \<Rightarrow> string \<Rightarrow> ('z pgb_st_scheme, unit) comp" where
  "newSourceRmCmd E server name =
     bnd (case serverClient E server of
            Some tr \<Rightarrow> cl_RemoveSource (ce_codec E) tr name
          | None \<Rightarrow> bnd (open_engine E) (\<lambda>e. RemoveSource e Background name)) (\<lambda>_.
     say (''source '' @ go_quote name @ '' removed'' @ nl))"

text \<open>\<open>filepath.Base\<close>\<close>

definition filepath_Base :: "string \<Rightarrow> string" where
  "filepath_Base p =
     (if p = '''' then ''.''
      else let q = base_url p in if q = '''' then ''/'' else rev (takeWhile (\<lambda>c. c \<noteq> CHR ''/'') (rev q)))"

fun read_scripts :: "'s cli_env \<Rightarrow> string list \<Rightarrow> err + mask_script list" where
  "read_scripts E [] = Inr []"
| "read_scripts E (file # fs) =
     or_stop (ce_read_file E file) (\<lambda>txt.
     or_stop (read_scripts E fs) (\<lambda>rest. Inr (\<lparr>ms_Name = filepath_Base file, ms_SQL = txt\<rparr> # rest)))"

definition named_source :: "string \<Rightarrow> ('z reg_st_scheme, source) comp" where
  "named_source name = wrapping (''source '' @ go_quote name @ '': '') (GetSourceByName name)"

definition newSourceSetMaskCmd :: "('z pgb_st_scheme) cli_env \<Rightarrow> string \<Rightarrow> string \<Rightarrow> string list \<Rightarrow> ('z pgb_st_scheme, unit) comp" where
  "newSourceSetMaskCmd E server name files =
     bnd (lift_sum (read_scripts E files)) (\<lambda>scs.
     bnd (case serverClient E server of
            Some tr \<Rightarrow> bnd (cl_SetMaskScripts (ce_codec E) tr name scs) (\<lambda>_. ok ())
          | None \<Rightarrow>
              bnd (openRegistry E) (\<lambda>_.
              bnd (named_source name) (\<lambda>src. SetMaskScripts (src_ID src) scs))) (\<lambda>_.
     say (''source '' @ go_quote name @ '' masking set ('' @ nat_str (length scs) @ '' script(s))'' @ nl)))"

definition newSourceGetMaskCmd :: "('z pgb_st_scheme) cli_env \<Rightarrow> string \<Rightarrow> string \<Rightarrow> ('z pgb_st_scheme, unit) comp" where
  "newSourceGetMaskCmd E server name =
     bnd (case serverClient E server of
            Some tr \<Rightarrow> cl_GetMaskScripts (ce_codec E) tr name
          | None \<Rightarrow>
              bnd (openRegistry E) (\<lambda>_.
              bnd (named_source name) (\<lambda>src. GetMaskScripts (src_ID src)))) (\<lambda>scs.
     say (concat (map (\<lambda>sc. ms_Name sc @ nl) scs)))"

definition newSourceRefreshCmd :: "('z pgb_st_scheme) cli_env \<Rightarrow> string \<Rightarrow> string \<Rightarrow> string \<Rightarrow> ('z pgb_st_scheme, unit) comp" where
  "newSourceRefreshCmd E server passwordEnv name =
     bnd (lift_sum (passwordFromEnv E passwordEnv)) (\<lambda>password.
     bnd (case serverClient E server of
            Some tr \<Rightarrow> bnd (cl_RefreshSource (ce_codec E) tr name password) (\<lambda>s. ok (js_Generation s))
          | None \<Rightarrow>
              bnd (open_engine E) (\<lambda>e.
              bnd (RefreshSource e Background name password) (\<lambda>_.
              bnd (GetSourceByName name) (\<lambda>s. ok (src_Generation s))))) (\<lambda>gen.
     say (''source '' @ go_quote name @ '' refreshed (generation '' @ int_str gen @ '')'' @ nl)))"

section \<open>Tokens (\<open>token.go\<close>)\<close>

definition newTokenCreateCmd :: "('z pgb_st_scheme) cli_env \<Rightarrow> string \<Rightarrow> string \<Rightarrow> string \<Rightarrow> ('z pgb_st_scheme, unit) comp" where
  "newTokenCreateCmd E server role name =
     (if \<not> ValidRole role then raise (Msg (''invalid --role '' @ go_quote role @ '': want admin, operator or viewer''))
      else bnd (case serverClient E server of
            Some tr \<Rightarrow> cl_CreateToken (ce_codec E) tr name role
          | None \<Rightarrow> bnd (openRegistry E) (\<lambda>_. CreateAPIToken (w_sha (ce_world E)) name role)) (\<lambda>token.
        say (token @ nl)))"

definition newTokenLsCmd :: "('z pgb_st_scheme) cli_env \<Rightarrow> string \<Rightarrow> ('z pgb_st_scheme, unit) comp" where
  "newTokenLsCmd E server =
     bnd (case serverClient E server of
            Some tr \<Rightarrow> cl_ListTokens (ce_codec E) tr
          | None \<Rightarrow> bnd (openRegistry E) (\<lambda>_. ListAPITokens)) (\<lambda>ts.
     say (tabulated (row_text [''NAME'', ''ROLE'', ''CREATED''] @
       concat (map (\<lambda>t. row_text [at_Name t, at_Role t, at_CreatedAt t]) ts))))"

definition newTokenRevokeCmd :: "('z pgb_st_scheme) cli_env \<Rightarrow> string \<Rightarrow> string \<Rightarrow> ('z pgb_st_scheme, unit) comp" where
  "newTokenRevokeCmd E server name =
     bnd (case serverClient E server of
            Some tr \<Rightarrow> cl_RevokeToken (ce_codec E) tr name
          | None \<Rightarrow> bnd (openRegistry E) (\<lambda>_. RevokeAPIToken name)) (\<lambda>_.
     say (''token '' @ go_quote name @ '' revoked'' @ nl))"

section \<open>Reconciling (\<open>reconcile.go\<close>)\<close>

definition planReconcile :: "'z pgb_st_scheme cli_env \<Rightarrow> string \<Rightarrow> int \<Rightarrow> ('z pgb_st_scheme, reconcile_plan) comp" where
  "planReconcile E server stuck =
     (case serverClient E server of
        Some tr \<Rightarrow> cl_ReconcilePlan (ce_codec E) tr
      | None \<Rightarrow> bnd (open_engine E) (\<lambda>e. bnd time_now (\<lambda>now. PlanReconcile Background now stuck)))"

text \<open>A partial failure is an error here as well; the actions taken are dropped.\<close>

definition applyReconcile :: "'z pgb_st_scheme cli_env \<Rightarrow> string \<Rightarrow> int \<Rightarrow> ('z pgb_st_scheme, reconcile_plan) comp" where
  "applyReconcile E server stuck =
     (case serverClient E server of
        Some tr \<Rightarrow> cl_ReconcileApply (ce_codec E) tr
      | None \<Rightarrow> bnd (open_engine E) (\<lambda>e. bnd time_now (\<lambda>now. bnd (ApplyReconcile e Background now stuck) (\<lambda>(taken, er).
          case er of Some x \<Rightarrow> raise x | None \<Rightarrow> ok taken))))"

definition printPlan :: "reconcile_plan \<Rightarrow> string \<Rightarrow> string" where
  "printPlan plan verb =
     (if \<not> Drift plan then ''no '' @ verb @ '' found; registry and reality agree'' @ nl
      else tabulated (row_text [''ACTION'', ''TARGET'', ''REASON''] @
          concat (map (\<lambda>a. row_text [action_kind_str (a_Kind a), a_Target a, a_Reason a]) plan)) @
        nat_str (length plan) @ '' '' @ verb @ '' action(s)'' @ nl)"

definition errDrift :: "nat \<Rightarrow> err" where
  "errDrift n = Msg (''drift: '' @ nat_str n @ '' action(s) pending; run `pgb gc`'')"

definition newDoctorCmd :: "('z pgb_st_scheme) cli_env \<Rightarrow> string \<Rightarrow> int \<Rightarrow> ('z pgb_st_scheme, unit) comp" where
  "newDoctorCmd E server stuck =
     bnd (planReconcile E server stuck) (\<lambda>plan.
     bnd (say (printPlan plan ''drift'')) (\<lambda>_.
     if Drift plan then raise (errDrift (length plan)) else ok ()))"

definition newGCCmd :: "('z pgb_st_scheme) cli_env \<Rightarrow> string \<Rightarrow> int \<Rightarrow> ('z pgb_st_scheme, unit) comp" where
  "newGCCmd E server stuck =
     bnd (applyReconcile E server stuck) (\<lambda>taken.
     if \<not> Drift taken then say (''nothing to reconcile; already converged'' @ nl) else say (printPlan taken ''applied''))"

section \<open>Diffs (\<open>diff.go\<close>)\<close>

definition signed_str :: "int \<Rightarrow> string" where
  "signed_str i = (if 0 \<le> i then ''+'' else []) @ int_str i"

text \<open>A row is printed with its keys in order.\<close>

definition MarshalJSON :: "'s cli_env \<Rightarrow> string row \<Rightarrow> string" where
  "MarshalJSON E r = ''{'' @ strings_join (map (\<lambda>k. ce_json_string E k @ '':'' @ marshal (ce_json E) (map_of r k))
     (sort (map fst r))) '','' @ ''}''"

definition grew :: "'v table_delta \<Rightarrow> bool" where
  "grew t \<longleftrightarrow> td_BaseRows t < td_BranchRows t"

definition renderSamples :: "'s cli_env \<Rightarrow> string diff_result \<Rightarrow> string" where
  "renderSamples E res =
     (let shown = filter (\<lambda>t. grew t \<and> td_SampleRows t \<noteq> []) (Tables res);
          skipped = map td_Table (filter (\<lambda>t. grew t \<and> td_SampleRows t = []) (Tables res))
      in concat (map (\<lambda>t. nl @ ''new rows in '' @ td_Table t @ '' (up to '' @ nat_str (length (td_SampleRows t)) @ ''):'' @ nl @
             concat (map (\<lambda>r. ''  '' @ MarshalJSON E r @ nl) (td_SampleRows t))) shown) @
         (if skipped \<noteq> [] then nl @ ''(no sampleable rows for ['' @ strings_join skipped '' '' @ ''] '' @ em_dash @
            '' tables without a primary key are skipped)'' @ nl else []) @
         (if shown = [] \<and> skipped = [] then nl @ ''(no branch-only rows sampled)'' @ nl else []))"

definition renderDiff :: "'s cli_env \<Rightarrow> string diff_result \<Rightarrow> bool \<Rightarrow> bool \<Rightarrow> string" where
  "renderDiff E res all_tables data =
     (let rows = (if all_tables then Tables res else filter (\<lambda>t. td_Delta t \<noteq> 0) (Tables res))
      in (if SchemaDiff res = '''' then ''schema: no differences'' @ nl else SchemaDiff res) @
         (if rows = [] then ''tables: no row-count changes'' @ nl
          else nl @ tabulated (row_text [''TABLE'', ''BASE'', ''BRANCH'', ''DELTA''] @
              concat (map (\<lambda>t. row_text [td_Table t, int_str (td_BaseRows t), int_str (td_BranchRows t),
                if td_Delta t = 0 then ''0'' else signed_str (td_Delta t)]) rows)) @
            ''(row counts are planner estimates)'' @ nl) @
         (if data then renderSamples E res else []))"

definition newDiffCmd :: "('z pgb_st_scheme) cli_env \<Rightarrow> string \<Rightarrow> bool \<Rightarrow> bool \<Rightarrow> int \<Rightarrow> string \<Rightarrow> ('z pgb_st_scheme, unit) comp" where
  "newDiffCmd E server all_tables data sample name =
     (let n = (if data then if sample \<le> 0 then 20 else sample else 0)
      in bnd (case serverClient E server of
            Some tr \<Rightarrow> cl_DiffBranch (ce_codec E) tr name n
          | None \<Rightarrow> bnd (open_engine E) (\<lambda>e. DiffBranch (ce_json E) e Background name (if 0 < n then [WithDataSample n] else []))) (\<lambda>res.
        say (renderDiff E res all_tables data)))"

section \<open>The program\<close>

datatype pgb_cmd =
    SourceAdd source_flags string | SourceLs | SourceRm string | SourceRefresh string string
  | SourceSetMask string "string list" | SourceGetMask string
  | BranchCreate string string int string | BranchLs bool | BranchDestroy string | BranchReset string
  | Connect string | Diff bool bool int string | History string | Doctor int | GC int
  | TokenCreate string string | TokenLs | TokenRevoke string

fun pgb_run :: "('z pgb_st_scheme) cli_env \<Rightarrow> string \<Rightarrow> pgb_cmd \<Rightarrow> ('z pgb_st_scheme, unit) comp" where
  "pgb_run E sv (SourceAdd f n) = newSourceAddCmd E sv f n"
| "pgb_run E sv SourceLs = newSourceLsCmd E sv"
| "pgb_run E sv (SourceRm n) = newSourceRmCmd E sv n"
| "pgb_run E sv (SourceRefresh env n) = newSourceRefreshCmd E sv env n"
| "pgb_run E sv (SourceSetMask n fs) = newSourceSetMaskCmd E sv n fs"
| "pgb_run E sv (SourceGetMask n) = newSourceGetMaskCmd E sv n"
| "pgb_run E sv (BranchCreate from fb ttl n) = newBranchCreateCmd E sv from fb ttl n"
| "pgb_run E sv (BranchLs u) = newBranchLsCmd E sv u"
| "pgb_run E sv (BranchDestroy n) = newBranchDestroyCmd E sv n"
| "pgb_run E sv (BranchReset n) = newBranchResetCmd E sv n"
| "pgb_run E sv (Connect n) = newConnectCmd E sv n"
| "pgb_run E sv (Diff a d k n) = newDiffCmd E sv a d k n"
| "pgb_run E sv (History n) = newHistoryCmd E sv n"
| "pgb_run E sv (Doctor st) = newDoctorCmd E sv st"
| "pgb_run E sv (GC st) = newGCCmd E sv st"
| "pgb_run E sv (TokenCreate role n) = newTokenCreateCmd E sv role n"
| "pgb_run E sv TokenLs = newTokenLsCmd E sv"
| "pgb_run E sv (TokenRevoke n) = newTokenRevokeCmd E sv n"

text \<open>The exit status, with the state the program leaves.\<close>

definition pgb_main :: "('z pgb_st_scheme) cli_env \<Rightarrow> string option \<Rightarrow> pgb_cmd \<Rightarrow> 'z pgb_st_scheme \<Rightarrow> nat \<times> 'z pgb_st_scheme" where
  "pgb_main E flag cmd s = (case pgb_run E (server_flag E flag) cmd s of (Inl _, t) \<Rightarrow> (1, t) | (Inr _, t) \<Rightarrow> (0, t))"


text \<open>
  The unit of \<open>humanBytes\<close> is the right one over the whole 64-bit range, and its index stays inside the string of units:
  the fuel of \<open>unit_exp\<close> is never used up.
\<close>

lemma kilo_bounds: "p \<le> m div 1024 \<longleftrightarrow> 1024 * p \<le> m" "m div 1024 < q \<longleftrightarrow> m < 1024 * q" for m :: int
  by arith+

lemma unit_exp_exact:
  assumes "0 < m" "m < 1024 ^ Suc k"
  shows "1024 ^ unit_exp k m \<le> m \<and> m < 1024 ^ Suc (unit_exp k m)"
  using assms
proof (induction k arbitrary: m)
  case (Suc k)
  show ?case
  proof (cases "1024 \<le> m")
    case True
    then have "0 < m div 1024" "m div 1024 < 1024 ^ Suc k" using Suc.prems by (auto simp: div_less_iff_less_mult)
    from Suc.IH [OF this] True show ?thesis by (simp add: kilo_bounds)
  qed (use Suc.prems in simp)
qed simp

lemma human_unit_in_range:
  assumes "1024 \<le> n" "n < 2 ^ 63"
  shows "1024 ^ Suc (unit_exp 6 (n div 1024)) \<le> n \<and> n < 1024 ^ Suc (Suc (unit_exp 6 (n div 1024))) \<and>
    unit_exp 6 (n div 1024) < length ''KMGTPE''"
proof -
  have m: "0 < n div 1024" "n div 1024 < 2 ^ 53" using assms by simp_all
  then have e: "1024 ^ unit_exp 6 (n div 1024) \<le> n div 1024" "n div 1024 < 1024 ^ Suc (unit_exp 6 (n div 1024))"
    using unit_exp_exact [of "n div 1024" 6] by simp_all
  have "unit_exp 6 (n div 1024) < 6"
  proof (rule ccontr)
    assume "\<not> unit_exp 6 (n div 1024) < 6"
    then have "(1024::int) ^ 6 \<le> 1024 ^ unit_exp 6 (n div 1024)" by (intro power_increasing) simp_all
    then show False using e(1) m(2) by simp
  qed
  then show ?thesis using e by (simp add: kilo_bounds)
qed


end
