(* ===== verification/Ghook.thy ===== *)
theory Ghook
  imports Ghook_Github
begin

text \<open>
  Package \<open>internal/ghook\<close>, the webhook service (\<open>service.go\<close>, \<open>env.go\<close>): verification of deliveries, the name of
  the branch of a pull request, and the detached jobs that create, reset and destroy branches through the API
  client and report back to GitHub. A delivery is answered at once; \<open>handleWebhook\<close> returns the answer and the job
  it starts, if any.
\<close>

section \<open>Configuration\<close>

record hook_config =
  hc_WebhookSecret :: string
  hc_Source :: string
  hc_TTLSeconds :: int
  hc_ResetOnPush :: bool
  hc_Repos :: "string list"
  hc_ProxyHost :: string
  hc_DiffOnPush :: bool
  hc_BranchNaming :: string

record 's service =
  sv_cfg :: hook_config
  sv_codec :: codec
  sv_pg :: "'s transport"
  sv_gh :: "github option"

record env_config =
  ec_Config :: hook_config
  ec_Listen :: string
  ec_PGBranchServer :: string
  ec_PGBranchToken :: string
  ec_GitHubToken :: string
  ec_GitHubAPI :: string
  ec_AppID :: string
  ec_AppPrivateKey :: string

definition minWebhookSecretLen :: nat where "minWebhookSecretLen = 16"

text \<open>\<open>strconv.ParseBool\<close>\<close>

definition ParseBool :: "string \<Rightarrow> bool option" where
  "ParseBool v =
     (if v \<in> {''1'', ''t'', ''T'', ''TRUE'', ''true'', ''True''} then Some True
      else if v \<in> {''0'', ''f'', ''F'', ''FALSE'', ''false'', ''False''} then Some False else None)"

definition env_bool :: "(string \<Rightarrow> string) \<Rightarrow> string \<Rightarrow> err + bool" where
  "env_bool getenv key =
     (let v = getenv key in
      if v = '''' then Inr False
      else case ParseBool v of None \<Rightarrow> Inl (Msg (key @ '': invalid bool '' @ go_quote v)) | Some b \<Rightarrow> Inr b)"

definition env_ttl :: "hook_lib \<Rightarrow> (string \<Rightarrow> string) \<Rightarrow> err + int" where
  "env_ttl H getenv =
     (let v = getenv ''GHOOK_TTL'';
          bad = Msg (''GHOOK_TTL: invalid duration '' @ go_quote v @ '' (use e.g. '' @ go_quote ''72h'' @ '')'') in
      if v = '''' then Inr 0
      else case hl_parse_duration H v of Inl _ \<Rightarrow> Inl bad | Inr d \<Rightarrow> if d < 0 then Inl bad else Inr (d div second))"

definition env_key :: "(string \<Rightarrow> err + string) \<Rightarrow> (string \<Rightarrow> string) \<Rightarrow> err + string" where
  "env_key readFile getenv =
     (let inl = getenv ''GHOOK_APP_PRIVATE_KEY''; f = getenv ''GHOOK_APP_PRIVATE_KEY_FILE'' in
      if f = '''' then Inr inl
      else if inl \<noteq> '''' then Inl (Msg ''GHOOK_APP_PRIVATE_KEY and GHOOK_APP_PRIVATE_KEY_FILE are mutually exclusive'')
      else case readFile f of Inl e \<Rightarrow> Inl (Wrap ''GHOOK_APP_PRIVATE_KEY_FILE: '' e []) | Inr pem \<Rightarrow> Inr pem)"

text \<open>
  The order in which the required values are looked at is that of a Go map, hence arbitrary: \<open>order\<close> is a
  permutation of the three names.
\<close>

definition required_missing :: "string list \<Rightarrow> (string \<Rightarrow> string) \<Rightarrow> string option" where
  "required_missing order getenv = find (\<lambda>k. getenv k = '''') order"

definition LoadEnv :: "hook_lib \<Rightarrow> (string \<Rightarrow> err + string) \<Rightarrow> string list \<Rightarrow> (string \<Rightarrow> string) \<Rightarrow> err + env_config" where
  "LoadEnv H readFile order getenv =
     (let secret = getenv ''GHOOK_WEBHOOK_SECRET''; naming = getenv ''GHOOK_BRANCH_NAMING'';
          appID = getenv ''GHOOK_APP_ID''; pat = getenv ''GHOOK_GITHUB_TOKEN'' in
      case required_missing order getenv of
        Some k \<Rightarrow> Inl (Msg (k @ '' is required''))
      | None \<Rightarrow>
      if length secret < minWebhookSecretLen then
        Inl (Msg (''GHOOK_WEBHOOK_SECRET must be at least '' @ nat_str minWebhookSecretLen @
          '' characters (it is the only authentication for branch operations)''))
      else case env_ttl H getenv of Inl e \<Rightarrow> Inl e | Inr ttl \<Rightarrow>
      (case env_bool getenv ''GHOOK_RESET_ON_PUSH'' of Inl e \<Rightarrow> Inl e | Inr reset \<Rightarrow>
      (case env_bool getenv ''GHOOK_DIFF_ON_PUSH'' of Inl e \<Rightarrow> Inl e | Inr diff \<Rightarrow>
      if naming \<notin> {'''', ''pr-number'', ''git-branch''} then
        Inl (Msg (''GHOOK_BRANCH_NAMING: '' @ go_quote naming @ '' (want pr-number or git-branch)''))
      else case env_key readFile getenv of Inl e \<Rightarrow> Inl e | Inr key \<Rightarrow>
      if (appID = '''') \<noteq> (key = '''') then Inl (Msg ''GHOOK_APP_ID and GHOOK_APP_PRIVATE_KEY (or _FILE) must be set together'')
      else if appID \<noteq> '''' \<and> pat \<noteq> '''' then
        Inl (Msg (''GHOOK_APP_ID/GHOOK_APP_PRIVATE_KEY and GHOOK_GITHUB_TOKEN are mutually exclusive '' @ em_dash @ '' pick App or PAT auth''))
      else Inr \<lparr>ec_Config = \<lparr>hc_WebhookSecret = secret, hc_Source = getenv ''GHOOK_SOURCE'', hc_TTLSeconds = ttl,
             hc_ResetOnPush = reset, hc_Repos = filter (\<lambda>r. r \<noteq> '''') (map strings_TrimSpace (strings_split (getenv ''GHOOK_REPOS'') (CHR '',''))),
             hc_ProxyHost = getenv ''GHOOK_PROXY_HOST'', hc_DiffOnPush = diff, hc_BranchNaming = naming\<rparr>,
           ec_Listen = (if getenv ''GHOOK_LISTEN'' = '''' then '':8080'' else getenv ''GHOOK_LISTEN''),
           ec_PGBranchServer = getenv ''GHOOK_PGBRANCH_SERVER'', ec_PGBranchToken = getenv ''GHOOK_PGBRANCH_TOKEN'',
           ec_GitHubToken = pat, ec_GitHubAPI = getenv ''GHOOK_GITHUB_API'', ec_AppID = appID, ec_AppPrivateKey = key\<rparr>)))"

section \<open>The name of the branch\<close>

definition branchPrefix :: string where "branchPrefix = ''gh-''"

definition maxBranchNameLen :: nat where "maxBranchNameLen = 41"

text \<open>
  \<open>strings.ToLower\<close>, as far as the ranges a-z and 0-9 can tell: the runes, \<open>None\<close> for those that lower to no
  ASCII character. Two runes outside ASCII lower to a letter, U+0130 to i and U+212A to k; their bytes start
  with lead bytes, so they are found in any byte string.
\<close>

definition ascii_lower :: "char \<Rightarrow> char" where
  "ascii_lower c = (if CHR ''A'' \<le> c \<and> c \<le> CHR ''Z'' then char_of (of_char c + 32 :: nat) else c)"

fun lower_runes :: "string \<Rightarrow> char option list" where
  "lower_runes [] = []"
| "lower_runes (c # s) =
     (if c = CHR 0xC4 \<and> take 1 s = [CHR 0xB0] then Some (CHR ''i'') # lower_runes (drop 1 s)
      else if c = CHR 0xE2 \<and> take 2 s = [CHR 0x84, CHR 0xAA] then Some (CHR ''k'') # lower_runes (drop 2 s)
      else (if c < CHR 0x80 then Some (ascii_lower c) else None) # lower_runes s)"

definition name_char :: "char option \<Rightarrow> char option" where
  "name_char r = (case r of Some c \<Rightarrow>
     if name_start c then Some c else None | None \<Rightarrow> None)"

fun sanitize_loop :: "nat \<Rightarrow> string \<Rightarrow> bool \<Rightarrow> char option list \<Rightarrow> string" where
  "sanitize_loop maxLen b dash [] = b"
| "sanitize_loop maxLen b dash (r # rs) =
     (let (b', dash') = (case name_char r of
          Some c \<Rightarrow> ((if dash \<and> b \<noteq> [] then b @ ''-'' else b) @ [c], False)
        | None \<Rightarrow> (b, True))
      in if maxLen \<le> length b' then b' else sanitize_loop maxLen b' dash' rs)"

definition trim_right :: "string \<Rightarrow> char \<Rightarrow> string" where
  "trim_right s c = rev (dropWhile (\<lambda>x. x = c) (rev s))"

definition sanitizeBranchName :: "string \<Rightarrow> nat \<Rightarrow> string" where
  "sanitizeBranchName ref maxLen = trim_right (take maxLen (sanitize_loop maxLen [] False (lower_runes ref))) (CHR ''-'')"

definition branchName :: "hook_config \<Rightarrow> payload \<Rightarrow> string" where
  "branchName cfg p =
     (let n = sanitizeBranchName (p_Ref p) (maxBranchNameLen - length branchPrefix) in
      if hc_BranchNaming cfg = ''git-branch'' \<and> n \<noteq> '''' then branchPrefix @ n
      else branchPrefix @ ''pr-'' @ int_str (p_Number p))"

section \<open>Deliveries\<close>

record delivery =
  dl_body :: "err + string"
  dl_signature :: string
  dl_event :: string

record hook_reply =
  hr_code :: nat
  hr_text :: string

datatype hook_job = EnsureJob payload string | ClosedJob payload string

definition maxWebhookBody :: nat where "maxWebhookBody = 2 ^ 20"

text \<open>\<open>io.ReadAll\<close> on the limited body: over the limit is an error like any failed read.\<close>

definition read_body :: "delivery \<Rightarrow> err + string" where
  "read_body r = (case dl_body r of
      Inl e \<Rightarrow> Inl e
    | Inr b \<Rightarrow> if maxWebhookBody < length b then Inl (Msg ''http: request body too large'') else Inr b)"

text \<open>\<open>hex.DecodeString\<close>\<close>

fun hex_decode :: "string \<Rightarrow> nat list option" where
  "hex_decode [] = Some []"
| "hex_decode [_] = None"
| "hex_decode (a # b # s) =
     (case (unhex a, unhex b, hex_decode s) of (Some x, Some y, Some t) \<Rightarrow> Some ((16 * x + y) # t) | _ \<Rightarrow> None)"

definition verifySignature :: "hook_lib \<Rightarrow> string \<Rightarrow> string \<Rightarrow> string \<Rightarrow> bool" where
  "verifySignature H secret b header =
     (if \<not> has_prefix header ''sha256='' then False
      else case hex_decode (trim_prefix header ''sha256='') of
        None \<Rightarrow> False
      | Some got \<Rightarrow> got = hl_hmac H (bytes_of secret) (bytes_of b))"

definition repoAllowed :: "hook_lib \<Rightarrow> hook_config \<Rightarrow> string \<Rightarrow> bool" where
  "repoAllowed H cfg fullName \<longleftrightarrow> hc_Repos cfg = [] \<or> list_ex (\<lambda>r. hl_equal_fold H r fullName) (hc_Repos cfg)"

definition hook_dispatch :: "hook_config \<Rightarrow> payload \<Rightarrow> hook_reply \<times> hook_job option" where
  "hook_dispatch cfg p =
     (let branch = branchName cfg p;
          accepted = \<lparr>hr_code = 202, hr_text = ''{'' @ dq ''branch'' @ '':'' @ dq branch @ '','' @ dq ''status'' @ '':'' @ dq ''accepted'' @ ''}'' @ nl\<rparr> in
      if p_Action p \<in> {''opened'', ''reopened'', ''synchronize''} then (accepted, Some (EnsureJob p branch))
      else if p_Action p = ''closed'' then (accepted, Some (ClosedJob p branch))
      else (\<lparr>hr_code = 204, hr_text = ''''\<rparr>, None))"

definition handleWebhook :: "hook_lib \<Rightarrow> hook_config \<Rightarrow> delivery \<Rightarrow> hook_reply \<times> hook_job option" where
  "handleWebhook H cfg r =
     (case read_body r of
        Inl e \<Rightarrow> (\<lparr>hr_code = 413, hr_text = ''read body: '' @ err_msg e\<rparr>, None)
      | Inr b \<Rightarrow>
          if \<not> verifySignature H (hc_WebhookSecret cfg) b (dl_signature r) then (\<lparr>hr_code = 401, hr_text = ''invalid signature''\<rparr>, None)
          else if dl_event r \<noteq> ''pull_request'' then (\<lparr>hr_code = 204, hr_text = ''''\<rparr>, None)
          else (case hl_payload H b of
             Inl e \<Rightarrow> (\<lparr>hr_code = 400, hr_text = ''invalid JSON payload: '' @ err_msg e\<rparr>, None)
           | Inr p \<Rightarrow>
               if \<not> repoAllowed H cfg (p_FullName p) then (\<lparr>hr_code = 204, hr_text = ''''\<rparr>, None)
               else hook_dispatch cfg p))"

section \<open>Jobs\<close>

definition ensureBranch :: "'s service \<Rightarrow> payload \<Rightarrow> string \<Rightarrow> ('s, api_branch \<times> bool) comp" where
  "ensureBranch S p branch =
     (let C = sv_codec S; tr = sv_pg S; cfg = sv_cfg S in
      bnd (attempt (cl_GetBranch C tr branch)) (\<lambda>r.
      case r of
        Inl e \<Rightarrow>
          if IsNotFound e then
            bnd (wrapping (''create branch '' @ branch @ '': '') (cl_CreateBranch C tr
              \<lparr>cb_Name = branch, cb_Source = hc_Source cfg, cb_Parent = '''', cb_TTLSeconds = hc_TTLSeconds cfg\<rparr>)) (\<lambda>b. ok (b, False))
          else raise (Wrap (''get branch '' @ branch @ '': '') e [])
      | Inr b \<Rightarrow>
          if p_Action p = ''synchronize'' \<and> hc_ResetOnPush cfg then
            bnd (wrapping (''reset branch '' @ branch @ '': '') (cl_ResetBranch C tr branch)) (\<lambda>b'. ok (b', True))
          else ok (b, False)))"

definition hook_destroy :: "'s service \<Rightarrow> string \<Rightarrow> ('s, unit) comp" where
  "hook_destroy S branch =
     on_error (cl_DestroyBranch (sv_codec S) (sv_pg S) branch)
       (\<lambda>e. if IsNotFound e then ok () else raise (Wrap (''destroy branch '' @ branch @ '': '') e []))"

text \<open>A failure that is logged and otherwise ignored\<close>

definition logged :: "('s, unit) comp \<Rightarrow> ('s, unit) comp" where
  "logged m = on_error m (\<lambda>_. ok ())"

definition service_github :: "'s service \<Rightarrow> payload \<Rightarrow> github option" where
  "service_github S p = map_option (\<lambda>g. ForInstallation g (p_Installation p)) (sv_gh S)"

definition setStatus :: "hook_lib \<Rightarrow> 'z hook_st_scheme service \<Rightarrow> payload \<Rightarrow> string \<Rightarrow> string \<Rightarrow> ('z hook_st_scheme, unit) comp" where
  "setStatus H S p st desc =
     (case service_github S p of
        None \<Rightarrow> ok ()
      | Some gh \<Rightarrow> if p_SHA p = '''' then ok () else logged (SetStatus H gh (p_FullName p) (p_SHA p) st desc))"

definition upsertComment :: "hook_lib \<Rightarrow> 'z hook_st_scheme service \<Rightarrow> payload \<Rightarrow> string \<Rightarrow> string \<Rightarrow> ('z hook_st_scheme, unit) comp" where
  "upsertComment H S p marker b =
     (case service_github S p of None \<Rightarrow> ok () | Some gh \<Rightarrow> logged (UpsertComment H gh (p_FullName p) (p_Number p) marker b))"

definition diffComment :: "hook_lib \<Rightarrow> 'z hook_st_scheme service \<Rightarrow> payload \<Rightarrow> string \<Rightarrow> ('z hook_st_scheme, unit) comp" where
  "diffComment H S p branch =
     (if \<not> hc_DiffOnPush (sv_cfg S) then ok ()
      else case service_github S p of
        None \<Rightarrow> ok ()
      | Some gh \<Rightarrow> logged (bnd (cl_DiffBranch (sv_codec S) (sv_pg S) branch 0) (\<lambda>res.
          UpsertComment H gh (p_FullName p) (p_Number p) diffMarker (diffCommentBody branch res))))"

definition shortSHA :: "string \<Rightarrow> string" where
  "shortSHA sha = (if 7 < length sha then take 7 sha else sha)"

definition handleEnsure :: "hook_lib \<Rightarrow> 'z hook_st_scheme service \<Rightarrow> payload \<Rightarrow> string \<Rightarrow> ('z hook_st_scheme, unit) comp" where
  "handleEnsure H S p branch =
     (let verb = (if p_Action p = ''synchronize'' \<and> hc_ResetOnPush (sv_cfg S) then ''resetting'' else ''creating'');
          host = hc_ProxyHost (sv_cfg S) in
      bnd (setStatus H S p ''pending'' (verb @ '' branch '' @ branch)) (\<lambda>_.
      bnd (upsertComment H S p commentMarker (commentBody host branch verb None)) (\<lambda>_.
      bnd (attempt (ensureBranch S p branch)) (\<lambda>r.
      case r of
        Inl e \<Rightarrow> setStatus H S p ''failure'' (err_msg e)
      | Inr (b, didReset) \<Rightarrow>
          let st = (if didReset then ''reset @ '' @ shortSHA (p_SHA p) else ''ready'');
              desc = ''branch '' @ branch @ '' ready'' @ (if host \<noteq> '''' then '' '' @ em_dash @ '' connect via '' @ host else '''') in
          bnd (setStatus H S p ''success'' desc) (\<lambda>_.
          bnd (upsertComment H S p commentMarker (commentBody host branch st (Some b))) (\<lambda>_.
          diffComment H S p branch))))))"

definition handleClosed :: "hook_lib \<Rightarrow> 'z hook_st_scheme service \<Rightarrow> payload \<Rightarrow> string \<Rightarrow> ('z hook_st_scheme, unit) comp" where
  "handleClosed H S p branch =
     bnd (attempt (hook_destroy S branch)) (\<lambda>r.
     case r of
       Inl _ \<Rightarrow> ok ()
     | Inr _ \<Rightarrow> (case service_github S p of
         None \<Rightarrow> ok ()
       | Some gh \<Rightarrow> logged (UpdateComment H gh (p_FullName p) (p_Number p) commentMarker
           (commentBody (hc_ProxyHost (sv_cfg S)) branch ''destroyed'' None))))"

fun run_job :: "hook_lib \<Rightarrow> 'z hook_st_scheme service \<Rightarrow> hook_job \<Rightarrow> ('z hook_st_scheme, unit) comp" where
  "run_job H S (EnsureJob p branch) = handleEnsure H S p branch"
| "run_job H S (ClosedJob p branch) = handleClosed H S p branch"

end
