(* ===== verification/Engine_Undo.thy ===== *)
theory Engine_Undo
  imports Engine_Reconcile
begin

text \<open>
  The compensations of the sagas. An event that created something owes the call that removes it; a saga
  settles when, on every error, each debt is paid by a later call whose context cannot be cancelled.
  The rules follow the structure of the sagas: a step that creates something adds its debt, and every
  later failure has to run a compensation for it.
\<close>

section \<open>Debts\<close>

definition paid :: "hist \<Rightarrow> drv_call \<Rightarrow> bool" where
  "paid evs k \<longleftrightarrow> (\<exists>x \<in> set evs. ev_call x = k \<and> \<not> ev_cancellable x)"

fun pending :: "(drv_event \<Rightarrow> drv_call option) \<Rightarrow> hist \<Rightarrow> drv_call set" where
  "pending u [] = {}"
| "pending u (ev # evs) =
     (case u ev of None \<Rightarrow> {} | Some k \<Rightarrow> if paid evs k then {} else {k}) \<union> pending u evs"

lemma paid_append [simp]: "paid (a @ b) k \<longleftrightarrow> paid a k \<or> paid b k"
  by (auto simp: paid_def)

lemma pending_append: "pending u (a @ b) \<subseteq> {k \<in> pending u a. \<not> paid b k} \<union> pending u b"
  by (induction a) (auto split: option.splits)

lemma pending_free: "(\<And>ev. ev \<in> set evs \<Longrightarrow> u ev = None) \<Longrightarrow> pending u evs = {}"
  by (induction evs) auto

definition settles :: "(drv_event \<Rightarrow> drv_call option) \<Rightarrow> drv_call set \<Rightarrow> ('z sys_scheme, 'a) comp \<Rightarrow> bool" where
  "settles u K m \<longleftrightarrow> emits m (\<lambda>r evs. case r of
     Inl _ \<Rightarrow> pending u evs = {} \<and> (\<forall>k \<in> K. paid evs k) | Inr _ \<Rightarrow> True)"

definition makes :: "(drv_event \<Rightarrow> drv_call option) \<Rightarrow> ('a \<Rightarrow> drv_call set) \<Rightarrow> ('z sys_scheme, 'a) comp \<Rightarrow> bool" where
  "makes u F m \<longleftrightarrow> emits m (\<lambda>r evs. case r of Inl _ \<Rightarrow> pending u evs = {} | Inr x \<Rightarrow> pending u evs \<subseteq> F x)"

definition clears :: "(drv_event \<Rightarrow> drv_call option) \<Rightarrow> drv_call set \<Rightarrow> ('z sys_scheme, unit) comp \<Rightarrow> bool" where
  "clears u K m \<longleftrightarrow> emits m (\<lambda>r evs. r = Inr () \<and> pending u evs = {} \<and> (\<forall>k \<in> K. paid evs k))"

lemma clears_seq:
  assumes "clears u K m" "clears u L n"
  shows "clears u (K \<union> L) (bnd m (\<lambda>_. n))"
  unfolding clears_def
  by (rule emits_weaken [OF emits_bnd [OF assms(1) [unfolded clears_def] assms(2) [unfolded clears_def]]])
    (use pending_append in fastforce)

lemma clears_sub: "clears u K m \<Longrightarrow> L \<subseteq> K \<Longrightarrow> clears u L m"
  unfolding clears_def by (erule emits_weaken) auto

lemma clears_list:
  assumes "list_all2 (\<lambda>m k. clears u {k} m) undo ks" "K \<subseteq> set ks"
  shows "clears u K (unwind undo)"
proof -
  have "clears u (set ks) (for_each (rev undo) (\<lambda>m. m))"
    using assms(1)
  proof (induction undo ks rule: list_all2_induct [consumes 1, case_names Nil Cons])
    case Nil
    then show ?case by (simp add: clears_def emits_ok [THEN emits_weaken])
  next
    case (Cons m ms k ks)
    have "for_each (xs @ [m]) (\<lambda>m. m) = bnd (for_each xs (\<lambda>m. m)) (\<lambda>_. m)" for xs :: "('a sys_scheme, unit) comp list"
      by (induction xs) (auto simp: fun_eq_iff comp_simps split: prod.splits sum.splits)
    then show ?case using clears_seq [OF Cons(3) Cons(1)] by (simp add: Un_commute insert_commute)
  qed
  then show ?thesis using assms(2) clears_sub unfolding unwind_def by blast
qed

lemma clears0: "clears u {} (unwind [])"
  by (rule clears_list [of u "[]" "[]"]) simp_all

lemma clears1: "clears u {k} m \<Longrightarrow> K \<subseteq> {k} \<Longrightarrow> clears u K (unwind [m])"
  by (rule clears_list [of u "[m]" "[k]"]) simp_all

lemma clears2:
  "clears u {k1} m1 \<Longrightarrow> clears u {k2} m2 \<Longrightarrow> K \<subseteq> {k1, k2} \<Longrightarrow> clears u K (unwind ([m1] @ [m2]))"
  by (rule clears_list [of u "[m1] @ [m2]" "[k1, k2]"]) simp_all

lemma clears3:
  "clears u {k1} m1 \<Longrightarrow> clears u {k2} m2 \<Longrightarrow> clears u {k3} m3 \<Longrightarrow> K \<subseteq> {k1, k2, k3} \<Longrightarrow>
   clears u K (unwind (([m1] @ [m2]) @ [m3]))"
  by (rule clears_list [of u "([m1] @ [m2]) @ [m3]" "[k1, k2, k3]"]) simp_all

lemma fail_emits:
  assumes "makes u F m" "\<And>er. clears u K (n er)"
  shows "emits (on_error m (\<lambda>er. bnd (n er) (\<lambda>_. raise (w er)))) (\<lambda>r evs. case r of
     Inl _ \<Rightarrow> pending u evs = {} \<and> (\<forall>k \<in> K. paid evs k) | Inr x \<Rightarrow> pending u evs \<subseteq> F x)"
proof -
  have "emits (bnd (n er) (\<lambda>_. raise (w er) :: ('b sys_scheme, 'a) comp)) (\<lambda>r evs. (\<exists>e. r = Inl e) \<and> pending u evs = {} \<and> (\<forall>k \<in> K. paid evs k))" for er
    by (rule emits_weaken [OF emits_bnd [OF assms(2) [unfolded clears_def] emits_raise]]) auto
  from emits_on_error [OF assms(1) [unfolded makes_def] this] show ?thesis
    by (rule emits_weaken) (use pending_append in fastforce)
qed

lemma settles_step:
  assumes "emits m (\<lambda>r evs. case r of Inl _ \<Rightarrow> pending u evs = {} \<and> (\<forall>k \<in> K. paid evs k)
      | Inr x \<Rightarrow> pending u evs \<subseteq> F x)"
    and "\<And>x. settles u (K \<union> F x) (f x)"
  shows "settles u K (bnd m f)"
  unfolding settles_def
proof (rule emits_weaken [OF emits_bnd [OF assms(1) assms(2) [unfolded settles_def]]], goal_cases)
  case (1 r evs)
  show ?case
  proof (cases r)
    case (Inl e)
    with 1 consider "pending u evs = {} \<and> (\<forall>k \<in> K. paid evs k)"
      | x a b where "evs = a @ b" "pending u a \<subseteq> F x" "pending u b = {}" "\<forall>k \<in> K \<union> F x. paid b k"
      by auto
    then show ?thesis
    proof cases
      case 1
      then show ?thesis using Inl by simp
    next
      case 2
      then show ?thesis using Inl pending_append [of u a b] by auto
    qed
  qed simp
qed

lemma settles_step_or:
  assumes "makes u F m" "clears u K (unwind undo)" "\<And>x. settles u (K \<union> F x) (f x)"
  shows "settles u K (bnd (step_or undo w m) f)"
  unfolding step_or_def by (rule settles_step [OF fail_emits [OF assms(1,2)] assms(3)])

lemma settles_last:
  assumes "makes u F m" "clears u K (unwind undo)"
  shows "settles u K (step_or undo w m)"
  unfolding step_or_def settles_def
  by (rule emits_weaken [OF fail_emits [OF assms]]) (auto split: sum.splits)

lemma settles_gets: "(\<And>x. settles u K (f x)) \<Longrightarrow> settles u K (bnd (gets g) f)"
  unfolding settles_def emits_def by (auto simp: comp_simps)

lemma settles_first:
  assumes "emits m (\<lambda>r evs. pending u evs = {} \<and> (\<forall>x. r = Inr x \<longrightarrow> P x))" "\<And>x. P x \<Longrightarrow> settles u {} (f x)"
  shows "settles u {} (bnd m f)"
  unfolding settles_def
proof (rule emitsI)
  fix s r t assume run: "bnd m f s = (r, t)"
  obtain v w where m: "m s = (v, w)" by (cases "m s")
  obtain a where a: "trace w = trace s @ a" "pending u a = {}" "\<forall>x. v = Inr x \<longrightarrow> P x"
    by (rule emitsD [OF assms(1) m]) blast
  let ?done = "\<lambda>evs. case r of Inl _ \<Rightarrow> pending u evs = {} \<and> (\<forall>k \<in> {}. paid evs k) | Inr _ \<Rightarrow> True"
  show "\<exists>evs. trace t = trace s @ evs \<and> ?done evs"
  proof (cases v)
    case (Inl e)
    then have "r = Inl e" "t = w" using run m by (auto simp: bnd_run)
    then show ?thesis using a by simp
  next
    case (Inr x)
    then have "P x" "f x w = (r, t)" using run m a(3) by (auto simp: bnd_run)
    from emitsD [OF assms(2) [OF this(1), unfolded settles_def] this(2)]
    obtain z where z: "trace t = trace w @ z" "?done z" by metis
    have "?done (a @ z)" using z(2) a(2) pending_append [of u a z] by (cases r) auto
    then show ?thesis using z(1) a(1) by (intro exI [of _ "a @ z"]) simp
  qed
qed

section \<open>Computations that only make certain calls\<close>

definition since :: "hist \<Rightarrow> (drv_event \<Rightarrow> bool) \<Rightarrow> 'z sys_scheme \<Rightarrow> bool" where
  "since h P s \<longleftrightarrow> (\<exists>evs. trace s = h @ evs \<and> (\<forall>ev \<in> set evs. P ev))"

interpretation since: registry_invariant "since h P" for h P
proof unfold_locales
  show "keeps (since h P) (reg_run x)" for x
    by (rule keeps_free_reg_run) (auto simp: env_free_def db_free_def since_def)
qed (auto simp: env_free_def since_def)

lemma keeps_since_call:
  assumes "\<And>r. P (ev_of c cl out r)"
  shows "keeps (since h P) (call c cl f out)"
proof (rule keepsI)
  fix s :: "'z sys_scheme" and r t
  assume s: "since h P s" "call c cl f out s = (r, t)"
  from emitsD [OF emits_call s(2)] have "trace t = trace s @ [ev_of c cl out r]" by metis
  with s(1) assms show "since h P t" by (auto simp: since_def)
qed

lemma emits_since:
  assumes "\<And>h. keeps (since h P) m"
  shows "emits m (\<lambda>r evs. \<forall>ev \<in> set evs. P ev)"
proof (rule emitsI)
  fix s r t assume "m s = (r, t)"
  moreover have "since (trace s) P s" by (simp add: since_def)
  ultimately have "since (trace s) P t" using keepsD [OF assms] by blast
  then show "\<exists>evs. trace t = trace s @ evs \<and> (\<forall>ev \<in> set evs. P ev)" by (simp add: since_def)
qed

lemma makes_since: "(\<And>h. keeps (since h (\<lambda>ev. u ev = None)) m) \<Longrightarrow> makes u F m"
  unfolding makes_def by (rule emits_weaken [OF emits_since]) (auto simp: pending_free split: sum.splits)

text \<open>The rules of \<open>engine_invariant\<close> for the calls that may occur.\<close>

lemma keeps_log:
  "keeps (since h P) m \<Longrightarrow> keeps (since h P) (logCompensationErr k m)"
  unfolding logCompensationErr_def by (intro keeps_rules keeps_modify) (simp_all add: since_def)

lemma keeps_dropped: "keeps I m \<Longrightarrow> keeps I (dropped m)"
  unfolding dropped_def by (intro keeps_rules)

lemma keeps_since_sleep: "keeps (since h P) (sleep_or_done b second)"
  by (rule keeps_sleep) (simp_all add: second_def since.clock_free)

lemmas since_reads = keeps_reads [OF since.clock_free] keeps_time_now [OF since.clock_free]
  keeps_rand_hex [OF since.clock_free]

definition looks :: "drv_call \<Rightarrow> bool" where
  "looks cl \<longleftrightarrow> (case cl of CExec _ _ \<Rightarrow> True | CInspect _ \<Rightarrow> True | _ \<Rightarrow> False)"

lemma looks_simps [simp]: "looks (CExec i x)" "looks (CInspect i)"
  by (simp_all add: looks_def)

lemma ev_of_call [simp]: "ev_call (ev_of c cl out r) = cl" "ev_cancellable (ev_of c cl out r) = ctx_cancellable c"
  by (simp_all add: ev_of_def)

abbreviation only_looks :: "hist \<Rightarrow> 'z sys_scheme \<Rightarrow> bool" where
  "only_looks h \<equiv> since h (\<lambda>ev. looks (ev_call ev))"

lemma looks_calls:
  "keeps (only_looks h) (drv_Exec c i x)" "keeps (only_looks h) (drv_Inspect c i)"
  unfolding drv_defs by (rule keeps_since_call; simp)+

lemma looks_wait: "keeps (only_looks h) (wait_ready_loop n c cid dl le)"
  by (induction n arbitrary: le)
    (auto intro!: keeps_rules since_reads looks_calls keeps_since_sleep)

lemma looks_inspect: "keeps (only_looks h) (inspect_loop n c cid dl)"
  by (induction n) (auto intro!: keeps_rules since_reads looks_calls keeps_since_sleep)

lemma looks_parts:
  "keeps (only_looks h) (waitReady c cid d)" "keeps (only_looks h) (inspectAddr c cid)"
  "keeps (only_looks h) (applyMasking c cid src)" "keeps (only_looks h) (rotateBranchCredentials e c cid b src)"
  unfolding waitReady_def inspectAddr_def applyMasking_def rotateBranchCredentials_def Let_def
  by (intro keeps_rules since_reads looks_calls looks_wait looks_inspect since.reg_ops)+

lemma looks_await: "keeps (only_looks h) (awaitAndMark e c b src cid)"
  unfolding awaitAndMark_def by (intro keeps_rules looks_parts since.reg_ops)

lemma since_mono: "since h P s \<Longrightarrow> (\<And>ev. P ev \<Longrightarrow> Q ev) \<Longrightarrow> since h Q s"
  by (auto simp: since_def)

lemma makes_looks:
  assumes "\<And>h. keeps (only_looks h) m" "\<And>ev. looks (ev_call ev) \<Longrightarrow> u ev = None"
  shows "makes u F m"
  unfolding makes_def using emits_since [OF assms(1)]
  by (rule emits_weaken) (auto split: sum.splits dest!: pending_free [rotated] intro: assms(2) simp: pending_free assms(2))


section \<open>Provisioning settles\<close>

text \<open>What a successful call of the provisioning of branch \<open>b\<close> owes.\<close>

definition undo_of :: "engine \<Rightarrow> branch \<Rightarrow> drv_event \<Rightarrow> drv_call option" where
  "undo_of e b ev =
     (if \<not> ev_ok ev then None
      else case ev_call ev of
        CCreateVolume v _ \<Rightarrow> Some (CRemoveVolume v)
      | CCloneVolume _ v _ \<Rightarrow> Some (CRemoveVolume v)
      | CStartBranch sp \<Rightarrow>
          if bs_Name sp = ''pgbranch-br-'' @ br_Name b then Some (CStopRemove (ev_out ev)) else None
      | CRunHelper h \<Rightarrow>
          if h = zfsHelperSpec (ZFSSnapshot (planner e) (br_SourceVolume b) (br_Name b)) then
            Some (CRunHelper (zfsDestroySpec (ZFSDestroySnapshot (planner e) (br_SourceVolume b) (br_Name b))))
          else if h = zfsHelperSpec (ZFSClone (planner e) (br_SourceVolume b) (br_Name b)) then
            Some (CRunHelper (zfsDestroySpec (ZFSDestroyClone (planner e) (br_Name b))))
          else None
      | _ \<Rightarrow> None)"

lemma undo_of_looks: "looks (ev_call ev) \<Longrightarrow> undo_of e b ev = None"
  by (auto simp: undo_of_def looks_def split: drv_call.splits)

lemma makes_call:
  assumes "\<And>x. u (ev_of c cl out (Inr x)) = None \<or> (\<exists>k. u (ev_of c cl out (Inr x)) = Some k \<and> k \<in> F x)"
    and "\<And>er. u (ev_of c cl out (Inl er)) = None"
  shows "makes u F (call c cl f out)"
  unfolding makes_def
proof (rule emits_weaken [OF emits_call], goal_cases)
  case (1 r evs)
  then show ?case
  proof (cases r)
    case (Inr x)
    then show ?thesis using 1 assms(1) [of x] by (auto simp: paid_def)
  qed (simp add: assms(2))
qed

lemma undo_of_failed: "undo_of e b (ev_of c cl out (Inl er)) = None"
  by (simp add: undo_of_def ev_of_def)

lemma makes_bnd_ok: "makes u (\<lambda>_. K) m \<Longrightarrow> makes u (\<lambda>_. K) (bnd m (\<lambda>_. ok ()))"
  unfolding makes_def
  by (rule emits_weaken [OF emits_bnd [OF _ emits_ok]]) (auto split: sum.splits)

lemma clears_log:
  assumes "emits m (\<lambda>r evs. \<exists>x. evs = [x] \<and> ev_call x = cl \<and> \<not> ev_cancellable x \<and> u x = None)"
  shows "clears u {cl} (logCompensationErr k m)"
  unfolding clears_def
proof (rule emitsI)
  fix s r t assume run: "logCompensationErr k m s = (r, t)"
  obtain v w where m: "m s = (v, w)" by (cases "m s")
  from emitsD [OF assms m] obtain x where x: "trace w = trace s @ [x]" "ev_call x = cl" "\<not> ev_cancellable x" "u x = None"
    by auto
  have "r = Inr ()" "trace t = trace w"
    using run m by (cases v; auto simp: logCompensationErr_def comp_simps)+
  with x show "\<exists>evs. trace t = trace s @ evs \<and> r = Inr () \<and> pending u evs = {} \<and> (\<forall>k \<in> {cl}. paid evs k)"
    by (auto simp: paid_def)
qed

lemma clears_volume: "clears (undo_of e b) {CRemoveVolume v} (undo_volume c v)"
  unfolding undo_volume_def drv_defs
  by (rule clears_log [OF emits_weaken [OF emits_call]]) (simp add: undo_of_def WithoutCancel_def)

lemma clears_container: "clears (undo_of e b) {CStopRemove i} (undo_container c i)"
  unfolding undo_container_def drv_defs
  by (rule clears_log [OF emits_weaken [OF emits_call]]) (simp add: undo_of_def WithoutCancel_def)

lemma makes_create_volume: "makes (undo_of e b) (\<lambda>_. {CRemoveVolume v}) (drv_CreateVolume c v ls)"
  unfolding drv_defs by (rule makes_call) (simp_all add: undo_of_def ev_of_def)

lemma makes_clone_volume: "makes (undo_of e b) (\<lambda>_. {CRemoveVolume v}) (drv_CloneVolume c w v ls)"
  unfolding drv_defs by (rule makes_call) (simp_all add: undo_of_def ev_of_def)

lemma makes_start: "makes (undo_of e b) (\<lambda>i. {CStopRemove i}) (drv_StartBranch c sp)"
  unfolding drv_defs by (rule makes_call) (simp_all add: undo_of_def ev_of_def)

lemma zfs_specs_differ:
  "helper a x y z \<noteq> zfsHelperSpec argv" "zfsDestroySpec argv \<noteq> zfsHelperSpec (''zfs'' # argv')"
proof -
  show "helper a x y z \<noteq> zfsHelperSpec argv" by (simp add: helper_def zfsHelperSpec_def zfsSpec_def)
  have z: "hd (shellJoin (''zfs'' # argv')) = CHR ''z''"
    by (cases argv') (simp_all add: shellJoin_def shellQuoteArg_def shellSafeRe_def)
  have "''{ '' @ x \<noteq> shellJoin (''zfs'' # argv')" for x
  proof
    assume "''{ '' @ x = shellJoin (''zfs'' # argv')"
    then have "hd (''{ '' @ x) = CHR ''z''" by (simp only: z)
    then show False by simp
  qed
  then show "zfsDestroySpec argv \<noteq> zfsHelperSpec (''zfs'' # argv')"
    unfolding zfsDestroySpec_def zfsHelperSpec_def zfsSpec_def helper_def by simp
qed

lemma makes_helper: "makes (undo_of e b) (\<lambda>_. {}) (drv_RunHelper c (helper a x y z))"
  unfolding drv_defs by (rule makes_call) (simp_all add: undo_of_def ev_of_def zfs_specs_differ)

lemma makes_await: "makes (undo_of e b) (\<lambda>_. {}) (awaitAndMark e' c b' src cid)"
  by (rule makes_looks) (simp_all add: looks_await undo_of_looks)

lemmas settle_rules = settles_gets settles_step_or [OF makes_create_volume]
  settles_step_or [OF makes_bnd_ok [OF makes_helper]] settles_step_or [OF makes_helper]
  settles_step_or [OF makes_start] settles_last [OF makes_await]
  clears0 clears1 [OF clears_volume] clears2 [OF clears_volume clears_container]

lemma provision_overlay_settles: "settles (undo_of e b) {} (provisionOverlay e c b src)"
  unfolding provisionOverlay_def Let_def volumeLabels_def branchLabels_def instanceLabels_def
    installOverlayEntrypoint_def startOverlayBranch_def
proof (rule settles_first [OF emits_weaken [OF emits_silent]])
  show "keeps (\<lambda>s. trace s = h) (LayerChain (br_ID b))" for h
    by (rule keeps_reads) (simp add: env_free_def)
  show "pending (undo_of e b) evs = {} \<and> (\<forall>x. r = Inr x \<longrightarrow> True)" if "evs = []" for r :: "err + layer list" and evs
    using that by simp
qed (intro settle_rules; simp)

subsection \<open>zfs\<close>

lemma clears_zfs: "clears (undo_of e b) {CRunHelper (zfsDestroySpec argv)} (undo_zfs c argv)"
  unfolding undo_zfs_def runZFS_def drv_defs
  by (rule clears_log [OF emits_weaken [OF emits_bnd [OF emits_call emits_ok]]])
    (auto simp: undo_of_def WithoutCancel_def ZFSSnapshot_def ZFSClone_def zfs_specs_differ(2))

lemma makes_snapshot:
  "makes (undo_of e b) (\<lambda>_. {CRunHelper (zfsDestroySpec (ZFSDestroySnapshot (planner e) (br_SourceVolume b) (br_Name b)))})
     (runZFS c (zfsHelperSpec (ZFSSnapshot (planner e) (br_SourceVolume b) (br_Name b))))"
  unfolding runZFS_def drv_defs
  by (rule makes_bnd_ok, rule makes_call) (simp_all add: undo_of_def ev_of_def)

lemma zfs_clone_not_snapshot:
  "zfsHelperSpec (ZFSClone p v n) \<noteq> zfsHelperSpec (ZFSSnapshot p v n)"
proof
  assume "zfsHelperSpec (ZFSClone p v n) = zfsHelperSpec (ZFSSnapshot p v n)"
  then have "shellJoin (ZFSClone p v n) = shellJoin (ZFSSnapshot p v n)"
    by (simp add: zfsHelperSpec_def zfsSpec_def helper_def)
  then have "ZFSClone p v n = ZFSSnapshot p v n" using shell_join_inj by metis
  then show False by (simp add: ZFSClone_def ZFSSnapshot_def)
qed

lemma makes_clone:
  "makes (undo_of e b) (\<lambda>_. {CRunHelper (zfsDestroySpec (ZFSDestroyClone (planner e) (br_Name b)))})
     (runZFS c (zfsHelperSpec (ZFSClone (planner e) (br_SourceVolume b) (br_Name b))))"
  unfolding runZFS_def drv_defs
  by (rule makes_bnd_ok, rule makes_call) (simp_all add: undo_of_def ev_of_def zfs_clone_not_snapshot)

lemma provision_zfs_settles: "settles (undo_of e b) {} (provisionZFS e c b src)"
  unfolding provisionZFS_def Let_def branchLabels_def instanceLabels_def
  by (intro settle_rules settles_step_or [OF makes_snapshot] settles_step_or [OF makes_clone]
      clears1 [OF clears_zfs] clears2 [OF clears_zfs clears_zfs] clears3 [OF clears_zfs clears_zfs clears_container]; simp)

subsection \<open>csi\<close>

text \<open>Restarting the parent owes nothing for the branch, whose container has another name.\<close>

abbreviation owes_nothing :: "engine \<Rightarrow> branch \<Rightarrow> hist \<Rightarrow> 'z sys_scheme \<Rightarrow> bool" where
  "owes_nothing e b h \<equiv> since h (\<lambda>ev. undo_of e b ev = None)"

lemma free_calls:
  "keeps (owes_nothing e b h) (drv_Exec c i x)" "keeps (owes_nothing e b h) (drv_Inspect c i)"
  "keeps (owes_nothing e b h) (drv_StopRemove c i)"
  "n \<noteq> br_Name b \<Longrightarrow> keeps (owes_nothing e b h) (startDirectBranch c n v img ls)"
  unfolding startDirectBranch_def drv_defs
  by (rule keeps_since_call; simp add: undo_of_def ev_of_def branch_container_def)+

lemma free_looks:
  assumes "\<And>h. keeps (only_looks h) m"
  shows "keeps (owes_nothing e b h) m"
proof (rule keepsI)
  fix s r t assume s: "owes_nothing e b h s" "m s = (r, t)"
  obtain evs where "trace t = trace s @ evs" "\<forall>ev \<in> set evs. looks (ev_call ev)"
    by (rule emitsD [OF emits_since [OF assms] s(2)])
  moreover obtain evs' where "trace s = h @ evs'" "\<forall>ev \<in> set evs'. undo_of e b ev = None" using s(1) by (auto simp: since_def)
  ultimately show "owes_nothing e b h t"
    unfolding since_def by (intro exI [of _ "evs' @ evs"]) (auto simp: undo_of_looks)
qed

lemma free_restart_failed: "keeps (since h P) (restart_failed c p cause er)"
  unfolding restart_failed_def by (intro keeps_bnd keeps_raise keeps_log since.reg_ops(6))

lemmas free_parts = keeps_bnd keeps_on_error keeps_log free_restart_failed since.reg_ops(8) since.reg_ops(10) free_calls(3)
  free_looks [OF looks_parts(1)] free_looks [OF looks_parts(2)]

lemma free_restart:
  assumes "br_Name p \<noteq> br_Name b"
  shows "keeps (owes_nothing e b h) (restartCSIBranch e' c p src cause)"
  unfolding restartCSIBranch_def branchLabels_def instanceLabels_def
  by (intro keeps_gets free_parts free_calls(4) [OF assms])

lemma free_quiesce: "keeps (owes_nothing e b h) (quiesceParent c b src p)"
  unfolding quiesceParent_def by (intro keeps_rules keeps_log since.reg_ops free_calls)

lemma clears_dropped:
  assumes "\<And>h. keeps (owes_nothing e b h) m"
  shows "clears (undo_of e b) {} (dropped m)"
proof -
  have "keeps (owes_nothing e b h) (dropped m)" for h by (rule keeps_dropped [OF assms])
  from emits_since [OF this] have "emits (dropped m) (\<lambda>r evs. pending (undo_of e b) evs = {})"
    by (rule emits_weaken) (simp add: pending_free)
  then show ?thesis unfolding clears_def emits_def
    by (auto simp: dropped_def comp_simps split: prod.splits)
qed

definition other_branch :: "branch \<Rightarrow> branch option \<Rightarrow> bool" where
  "other_branch b parent \<longleftrightarrow> (\<forall>p. parent = Some p \<longrightarrow> br_Name p \<noteq> br_Name b)"

lemma clears_csi:
  assumes "clears (undo_of e b) K (unwind undo)" "other_branch b parent"
  shows "clears (undo_of e b) K (bnd (unwind undo) (\<lambda>_. case parent of None \<Rightarrow> ok ()
     | Some p \<Rightarrow> dropped (restartCSIBranch e' c p src cause)))"
proof -
  have "clears (undo_of e b) {} (case parent of None \<Rightarrow> ok () | Some p \<Rightarrow> dropped (restartCSIBranch e' c p src cause))"
  proof (cases parent)
    case None
    then show ?thesis by (simp add: clears_def emits_ok [THEN emits_weaken])
  next
    case (Some p)
    then show ?thesis using assms(2) by (simp add: other_branch_def clears_dropped free_restart)
  qed
  from clears_seq [OF assms(1) this] show ?thesis by simp
qed

lemma settles_csi_fail:
  assumes "makes (undo_of e b) F m" "clears (undo_of e b) K (unwind undo)" "other_branch b parent"
    and "\<And>x. settles (undo_of e b) (K \<union> F x) (f x)"
  shows "settles (undo_of e b) K (bnd (csi_fail e' c src parent undo w m) f)"
proof -
  have "csi_fail e' c src parent undo w m = on_error m (\<lambda>er. bnd (bnd (unwind undo) (\<lambda>_.
      case parent of None \<Rightarrow> ok () | Some p \<Rightarrow> dropped (restartCSIBranch e' (WithoutCancel c) p src (Some (w er))))) (\<lambda>_. raise (w er)))"
    unfolding csi_fail_def by (auto simp: fun_eq_iff comp_simps split: prod.splits sum.splits)
  then show ?thesis
    using settles_step [OF fail_emits [OF assms(1) clears_csi [OF assms(2,3)]] assms(4)] by simp
qed

lemma quiesce_target_other:
  assumes "br_ParentBranchName b \<noteq> br_Name b"
  shows "emits (csiQuiesceTarget b) (\<lambda>r evs. pending (undo_of e b) evs = {} \<and> (\<forall>x. r = Inr x \<longrightarrow> other_branch b x))"
proof (rule emitsI)
  fix s :: "'a sys_scheme" and r t assume run: "csiQuiesceTarget b s = (r, t)"
  have "keeps (\<lambda>s. trace s = h) (csiQuiesceTarget b)" for h :: hist
    unfolding csiQuiesceTarget_def by (intro keeps_rules keeps_reads) (simp_all add: env_free_def)
  with run have "trace t = trace s" using keepsD [of "\<lambda>u. trace u = trace s"] by blast
  moreover have "other_branch b x" if "r = Inr x" for x
    using run that assms unfolding csiQuiesceTarget_def other_branch_def
    by (auto simp: ok_simps attempt_run split: if_splits prod.splits sum.splits dest!: found_in_directory)
  ultimately show "\<exists>evs. trace t = trace s @ evs \<and> pending (undo_of e b) evs = {} \<and> (\<forall>x. r = Inr x \<longrightarrow> other_branch b x)"
    by simp
qed

lemma makes_quiet: "(\<And>h. keeps (owes_nothing e b h) m) \<Longrightarrow> emits m (\<lambda>r evs. pending (undo_of e b) evs = {} \<and> (\<forall>x. r = Inr x \<longrightarrow> True))"
  by (rule emits_weaken [OF emits_since]) (auto simp: pending_free)

lemma makes_restart: "br_Name p \<noteq> br_Name b \<Longrightarrow> makes (undo_of e b) (\<lambda>_. {}) (restartCSIBranch e' c p src cause)"
  by (rule makes_since) (rule free_restart)

lemma provision_csi_settles:
  assumes "br_ParentBranchName b \<noteq> br_Name b"
  shows "settles (undo_of e b) {} (provisionCSI e c b src)"
  unfolding provisionCSI_def
proof (rule settles_first [OF quiesce_target_other [OF assms]], goal_cases)
  case (1 parent)
  have q: "keeps (owes_nothing e b h) (case parent of None \<Rightarrow> ok () | Some p \<Rightarrow> quiesceParent c b src p)" for h
    by (intro keeps_rules free_quiesce)
  have rest: "settles (undo_of e b) K (bnd (case parent of None \<Rightarrow> ok ()
       | Some p \<Rightarrow> step_or undo (w p) (restartCSIBranch e c p src None)) f)"
    if "clears (undo_of e b) K (unwind undo)" "\<And>x. settles (undo_of e b) K (f x)" for K undo w f
  proof (cases parent)
    case None
    have "bnd (ok ()) f = f ()" by (simp add: fun_eq_iff comp_simps)
    then show ?thesis using None that(2) by simp
  next
    case (Some p)
    then have "br_Name p \<noteq> br_Name b" using 1 by (simp add: other_branch_def)
    then show ?thesis using Some settles_step_or [OF makes_restart that(1)] that(2) by simp
  qed
  show ?case
    unfolding Let_def volumeLabels_def branchLabels_def instanceLabels_def installDirectEntrypoint_def startDirectBranch_def
    by (rule settles_first [OF makes_quiet [OF q]])
      (intro settle_rules rest settles_csi_fail [OF makes_clone_volume _ 1] settles_csi_fail [OF makes_bnd_ok [OF makes_helper] _ 1];
        simp)
qed

section \<open>The compensation theorem\<close>

lemma pending_empty_iff:
  "pending u evs = {} \<longleftrightarrow> (\<forall>a ev z k. evs = a @ ev # z \<longrightarrow> u ev = Some k \<longrightarrow> paid z k)"
proof (induction evs)
  case (Cons x xs)
  have "(\<forall>a ev z k. x # xs = a @ ev # z \<longrightarrow> u ev = Some k \<longrightarrow> paid z k) \<longleftrightarrow>
    (\<forall>k. u x = Some k \<longrightarrow> paid xs k) \<and> (\<forall>a ev z k. xs = a @ ev # z \<longrightarrow> u ev = Some k \<longrightarrow> paid z k)"
    by (auto simp: Cons_eq_append_conv)
  moreover have "pending u (x # xs) = {} \<longleftrightarrow> (\<forall>k. u x = Some k \<longrightarrow> paid xs k) \<and> pending u xs = {}"
    by (auto split: option.splits)
  ultimately show ?case using Cons.IH by blast
qed simp

text \<open>
  C4: A failed provisioning cleans up after itself. On every backend, wherever the failure happens and
  whatever else fails, each call that created something for the branch (a volume, a snapshot or clone,
  its container) is followed by the call that removes it, made with a context that cannot be cancelled.
\<close>

theorem provision_compensates:
  assumes "provision e c b src s = (Inl er, t)" "br_ParentBranchName b \<noteq> br_Name b"
  shows "\<exists>evs. trace t = trace s @ evs \<and> (\<forall>a ev z k. evs = a @ ev # z \<longrightarrow> undo_of e b ev = Some k \<longrightarrow> paid z k)"
proof -
  have "settles (undo_of e b) {} (provision e c b src)"
    unfolding provision_def using provision_overlay_settles provision_zfs_settles provision_csi_settles [OF assms(2)] by auto
  from emitsD [OF this [unfolded settles_def] assms(1)] obtain evs where "trace t = trace s @ evs" "pending (undo_of e b) evs = {}"
    by auto
  then show ?thesis unfolding pending_empty_iff by blast
qed


subsection \<open>Witness\<close>

definition no_capacity :: sys where
  "no_capacity = (sample_sys (empty_tables\<lparr>branches := [sample_row ''b1'' ''pr1'' BranchCreating]\<rparr>))
     \<lparr>drv := agreeable\<lparr>StartBranch := (\<lambda>_ _. Inl (Msg ''no capacity''))\<rparr>\<rparr>"

definition pr1_branch :: branch where
  "pr1_branch = (new_branch ''pr1'' ''s1'' ''rw1'' ''v'' [] [])\<lparr>br_ID := ''b1''\<rparr>"

lemma no_capacity_run:
  "\<exists>er t. provision sample_engine Background pr1_branch sample_source no_capacity = (Inl er, t) \<and>
     map (\<lambda>ev. (ev_call ev, ev_ok ev)) (take 1 (trace t)) =
       [(CCreateVolume ''rw1'' [(''pgbranch.managed'', ''true''), (''pgbranch.branch.id'', ''b1''), (LabelInstance, ''i1'')], True)]"
  by (simp add: provision_def is_zfs_def is_csi_def sample_engine_def provisionOverlay_def LayerChain_def getBranch_def
      no_capacity_def sample_row_def scanBranch_def decryptColumn_def decrypt_def has_prefix_def encPrefix_def
      layer_chain_loop.simps null_string_def pr1_branch_def new_branch_def volumeLabels_def instanceLabels_def branchLabels_def
      step_or_def PlanBranch_def layerVolumes_def installOverlayEntrypoint_def startOverlayBranch_def unwind_def undo_volume_def
      logCompensationErr_def sql_query_def sql_def call_simps LabelInstance_def)

theorem provision_compensates_witness:
  "\<exists>er t z. provision sample_engine Background pr1_branch sample_source no_capacity = (Inl er, t) \<and>
     tl (trace t) = z \<and> paid z (CRemoveVolume ''rw1'')"
proof -
  obtain er t where run: "provision sample_engine Background pr1_branch sample_source no_capacity = (Inl er, t)"
    and first: "map (\<lambda>ev. (ev_call ev, ev_ok ev)) (take 1 (trace t)) =
       [(CCreateVolume ''rw1'' [(''pgbranch.managed'', ''true''), (''pgbranch.branch.id'', ''b1''), (LabelInstance, ''i1'')], True)]"
    using no_capacity_run by (elim exE conjE)
  from first obtain ev z where z: "trace t = ev # z" "undo_of sample_engine pr1_branch ev = Some (CRemoveVolume ''rw1'')"
    by (cases "trace t") (auto simp: undo_of_def)
  obtain evs where evs: "trace t = trace no_capacity @ evs"
    "\<forall>a ev z k. evs = a @ ev # z \<longrightarrow> undo_of sample_engine pr1_branch ev = Some k \<longrightarrow> paid z k"
    using provision_compensates [OF run] by (auto simp: pr1_branch_def new_branch_def)
  have "evs = [] @ ev # z" using evs(1) z(1) by (simp add: no_capacity_def sample_sys_def)
  with evs(2) z(2) have "paid z (CRemoveVolume ''rw1'')" by blast
  then show ?thesis using run z(1) by auto
qed

end
