(* ===== verification/Engine_Safety.thy ===== *)
theory Engine_Safety
  imports Engine_Undo Engine_Liveness
begin

text \<open>
  What the engine never does: a reconcile plan never touches anything that is in use, a branch is never
  marked ready before its masking scripts ran, and a destroy that reports success has removed the
  container and recorded the end of the branch.
\<close>

section \<open>The reconcile plan is safe\<close>

lemma scan_all_okD: "scan_all box rows = Inr bs \<Longrightarrow> list_all2 (\<lambda>r b. scanBranch box r = Inr b) rows bs"
  by (induction rows arbitrary: bs) (auto split: sum.splits)

lemma list_all2_partners:
  "list_all2 P xs ys \<Longrightarrow> (\<forall>y \<in> set ys. \<exists>x \<in> set xs. P x y) \<and> (\<forall>x \<in> set xs. \<exists>y \<in> set ys. P x y)"
  by (induction rule: list_all2_induct) auto

lemma listBranches_okD:
  assumes "listBranches cond s = (Inr bs, t)"
  shows "(\<forall>b \<in> set bs. \<exists>r \<in> set (branches (db s)). cond r \<and> scanBranch (secrets s) r = Inr b) \<and>
    (\<forall>r \<in> set (branches (db s)). cond r \<longrightarrow> (\<exists>b \<in> set bs. scanBranch (secrets s) r = Inr b))"
proof -
  let ?rows = "sort_key row_created_at (filter cond (branches (db s)))"
  obtain rows u where q: "sql_query (\<lambda>d. sort_key row_created_at (filter cond (branches d))) s = (Inr rows, u)"
    and c: "(case scan_all (secrets s) rows of Inl e \<Rightarrow> raise e | Inr bs \<Rightarrow> ok bs) u = (Inr bs, t)"
    using assms unfolding listBranches_def by (auto simp: ok_simps gets_def)
  have "scan_all (secrets s) ?rows = Inr bs"
    using c sql_query_okD [OF q] by (cases "scan_all (secrets s) rows") (auto simp: ok_simps)
  from scan_all_okD [OF this] have l: "list_all2 (\<lambda>r b. scanBranch (secrets s) r = Inr b) ?rows bs" .
  from list_all2_partners [OF l] show ?thesis by auto
qed

lemma scanBranch_fields:
  "scanBranch box r = Inr b \<Longrightarrow> br_Name b = row_name r \<and> br_ContainerID b = row_container_id r \<and> br_ID b = row_id r \<and>
     br_State b = row_state r \<and> br_ExpiresAt b = row_expires_at r"
  by (auto simp: scanBranch_def split: sum.splits)

text \<open>What makes an action harmless in the tables it is planned on.\<close>

definition harmless :: "tables \<Rightarrow> int \<Rightarrow> int \<Rightarrow> action \<Rightarrow> bool" where
  "harmless d now stuckTimeout a \<longleftrightarrow>
     (case a_Kind a of
        ActionReap \<Rightarrow> \<exists>b \<in> set (branches d). row_name b = a_Target a \<and> row_state b \<in> {BranchReady, BranchFailed} \<and>
          row_expires_at b \<noteq> [] \<and> row_expires_at b < rfc3339 now
      | ActionFailStuck \<Rightarrow> \<exists>b \<in> set (branches d). row_name b = a_Target a \<and>
          row_state b \<in> {BranchCreating, BranchResetting} \<and> row_updated_at b < rfc3339 (now - stuckTimeout)
      | ActionRemoveOrphanContainer \<Rightarrow> \<forall>b \<in> set (branches d). live_row b \<longrightarrow> row_container_id b = a_Target a \<longrightarrow> a_Target a = []
      | ActionGCLayer \<Rightarrow> \<exists>l \<in> set (layers d). lr_volume l = a_Target a \<and>
          (\<forall>b \<in> set (branches d). live_row b \<longrightarrow> lr_id l \<notin> set (layer_chain_of d b))
      | ActionGCVolume \<Rightarrow> a_Target a = [] \<or>
          (\<forall>b \<in> set (branches d). live_row b \<longrightarrow> row_rw_volume b \<noteq> a_Target a \<and> row_source_volume b \<noteq> a_Target a) \<and>
          (\<forall>x \<in> set (sources d). sr_volume x \<noteq> a_Target a) \<and> (\<forall>l \<in> set (layers d). lr_volume l \<noteq> a_Target a))"

lemma live_cond: "row_state r \<noteq> BranchDestroyed \<longleftrightarrow> live_row r"
  by (simp add: live_row_def)

lemma alone_db: "(\<And>d. keeps (alone_on d) m) \<Longrightarrow> m s = (r, t) \<Longrightarrow> others s = (\<lambda>_. []) \<Longrightarrow> db t = db s \<and> others t = (\<lambda>_. [])"
  using keepsD [of "alone_on (db s)" m s r t] by (simp add: alone_on_def)

lemma plan_reaps_harmless:
  assumes "plan_reaps now s = (Inr p, t)" "a \<in> set p"
  shows "harmless (db s) now st a"
proof -
  obtain bs where bs: "ListExpiredBranches (rfc3339 now) s = (Inr bs, t)"
    and p: "p = map (\<lambda>b. act ActionReap (br_Name b) (''ttl expired at '' @ br_ExpiresAt b)) bs"
    using assms(1) unfolding plan_reaps_def by (auto simp: bnd_Inr_iff ok_run)
  obtain b where b: "b \<in> set bs" "a_Kind a = ActionReap" "a_Target a = br_Name b" using assms(2) p by (auto simp: act_def)
  obtain r where "r \<in> set (branches (db s))" "row_state r \<in> {BranchReady, BranchFailed}" "row_expires_at r \<noteq> []"
      "row_expires_at r < rfc3339 now" "scanBranch (secrets s) r = Inr b"
    using listBranches_okD [OF bs [unfolded ListExpiredBranches_def]] b(1) by blast
  then show ?thesis using b(2,3) scanBranch_fields by (auto simp: harmless_def)
qed

lemma plan_stuck_harmless:
  assumes "plan_stuck now st s = (Inr p, t)" "a \<in> set p"
  shows "harmless (db s) now st a"
proof -
  obtain bs where bs: "ListStuckBranches (rfc3339 (now - st)) s = (Inr bs, t)"
    and p: "p = map (\<lambda>b. act ActionFailStuck (br_Name b)
       (''stuck in '' @ branch_state_str (br_State b) @ '' longer than '' @ duration_str st)) bs"
    using assms(1) unfolding plan_stuck_def by (auto simp: bnd_Inr_iff ok_run)
  obtain b where b: "b \<in> set bs" "a_Kind a = ActionFailStuck" "a_Target a = br_Name b" using assms(2) p by (auto simp: act_def)
  obtain r where "r \<in> set (branches (db s))" "row_state r \<in> {BranchCreating, BranchResetting}"
      "row_updated_at r < rfc3339 (now - st)" "scanBranch (secrets s) r = Inr b"
    using listBranches_okD [OF bs [unfolded ListStuckBranches_def]] b(1) by blast
  then show ?thesis using b(2,3) scanBranch_fields by (auto simp: harmless_def)
qed

lemma plan_orphans_harmless:
  assumes "plan_orphans c s = (Inr p, t)" "a \<in> set p"
  shows "harmless (db s) now st a"
proof -
  obtain live u where live: "ListLiveBranches s = (Inr live, u)"
    and a: "a_Kind a = ActionRemoveOrphanContainer" "a_Target a \<notin> known_containers live"
    using assms unfolding plan_orphans_def by (auto simp: ok_simps act_def)
  have "row_container_id b = a_Target a \<longrightarrow> a_Target a = []" if b: "b \<in> set (branches (db s))" "live_row b" for b
  proof -
    obtain x where x: "x \<in> set live" "scanBranch (secrets s) b = Inr x"
      using listBranches_okD [OF live [unfolded ListLiveBranches_def]] b by (auto simp: live_cond)
    show ?thesis using a(2) x(1) scanBranch_fields [OF x(2)] by (auto simp: known_containers_def image_iff)
  qed
  then show ?thesis using a(1) by (simp add: harmless_def)
qed

lemma plan_layers_harmless:
  assumes "plan_layers ls s = (Inr p, t)" "a \<in> set p" "wf_tables (db s)" "set ls \<subseteq> scanLayer ` set (layers (db s))"
  shows "harmless (db s) now st a"
  using assms
proof (induction ls arbitrary: s p)
  case (Cons l ls)
  obtain n u where n: "CountBranchesReferencingLayer (l_ID l) s = (Inr n, u)" and
    rest: "\<exists>q. plan_layers ls u = (Inr q, t) \<and> (a \<in> set q \<or> n = 0 \<and> a = act ActionGCLayer (l_Volume l) ''frozen layer referenced by 0 live branches'')"
    using Cons.prems(1,2) by (auto simp: ok_simps split: if_splits)
  have u: "db u = db s" using n unfolding CountBranchesReferencingLayer_def by (auto dest: sql_query_okD)
  show ?case
  proof (cases "n = 0 \<and> a = act ActionGCLayer (l_Volume l) ''frozen layer referenced by 0 live branches''")
    case True
    have "\<forall>b \<in> set (branches (db s)). live_row b \<longrightarrow> l_ID l \<notin> set (layer_chain_of (db s) b)"
      using refcount_exact [OF Cons.prems(3) n] True by (auto simp: count_where_def filter_empty_conv)
    moreover obtain r where "r \<in> set (layers (db s))" "l = scanLayer r" using Cons.prems(4) by auto
    ultimately show ?thesis using True by (auto simp: harmless_def act_def scanLayer_def)
  next
    case False
    then show ?thesis using Cons.IH [of u] rest Cons.prems(3,4) u by auto
  qed
qed (simp add: ok_simps)

lemma plan_volumes_harmless:
  assumes "plan_volumes c q s = (Inr p, t)" "a \<in> set p" "others s = (\<lambda>_. [])"
  shows "harmless (db s) now st a"
proof -
  obtain vols u live w where vols: "drv_ListManagedVolumes c (instanceID s) s = (Inr vols, u)"
    and live: "LiveVolumeSet u = (Inr live, w)"
    and a: "a_Kind a = ActionGCVolume" "a_Target a \<notin> live"
    using assms(1,2) unfolding plan_volumes_def by (auto simp: ok_simps gets_def act_def split: if_splits)
  have u: "db u = db s" using alone_db [OF alone.drv_keeps(12) vols assms(3)] by simp
  have "live = set (filter (\<lambda>v. v \<noteq> []) (map row_rw_volume (filter live_row (branches (db s))) @
      map row_source_volume (filter live_row (branches (db s))) @ map sr_volume (sources (db s)) @ map lr_volume (layers (db s))))"
    using live u unfolding LiveVolumeSet_def live_cond by (auto simp: ok_simps dest!: sql_query_okD)
  then show ?thesis using a by (auto simp: harmless_def image_iff)
qed


text \<open>A driver with two containers that belong to no branch, of which the second cannot be removed.\<close>

definition stubborn :: driver where
  "stubborn = agreeable\<lparr>ListManaged := (\<lambda>_. Inr (map (\<lambda>i. \<lparr>ci_ID = i, ci_Running = True, ci_Host = [], ci_Port = 0,
       ci_Labels = [(LabelInstance, ''i1'')]\<rparr>) [''k1'', ''k2''])),
     StopRemove := (\<lambda>_ i. if i = ''k2'' then Some (Msg ''device busy'') else None)\<rparr>"

definition strayed :: sys where
  "strayed = (sample_sys (empty_tables\<lparr>branches := [(sample_row ''b1'' ''pr1'' BranchReady)\<lparr>row_container_id := ''k1''\<rparr>],
       sources := sources (db sample_freeze)\<rparr>))\<lparr>drv := stubborn\<rparr>"


section \<open>Masking comes before ready\<close>

text \<open>Nobody else runs and the directory of branches is as it was.\<close>

definition still :: "dir \<Rightarrow> 'z sys_scheme \<Rightarrow> bool" where
  "still v s \<longleftrightarrow> others s = (\<lambda>_. []) \<and> directory (db s) = v"

interpretation still: reading "still v" for v
  by unfold_locales (auto simp: still_def env_free_def keeps_def interleaved_def run_ops_def)

lemma others_kept:
  fixes x :: reg_op
  shows "keeps (\<lambda>s :: 'z sys_scheme. others s = f) (reg_run x)"
  by (rule keeps_free_reg_run) (auto simp: env_free_def db_free_def)

lemma still_op:
  assumes "\<And>v. keeps (on_db (same_dir v)) (reg_run x :: ('z sys_scheme, unit) comp)"
  shows "keeps (still v :: 'z sys_scheme \<Rightarrow> bool) (reg_run x)"
  using keeps_conj [OF others_kept assms] by (simp add: still_def [abs_def] on_db_def same_dir_def)

lemma still_ops: "keeps (still v) (SetBranchContainer i ci)" "keeps (still v) (SetBranchPassword i pw)"
  using still_op [of "OpSetContainer i ci"] still_op [of "OpSetPassword i pw"]
  by (simp_all add: keeps_ignore_iff same_dir_ops)

lemma still_rotate: "keeps (still v) (rotateBranchCredentials e c cid b src)"
  unfolding rotateBranchCredentials_def Let_def by (intro keeps_rules still.reads_keep still.drv_keeps still_ops)

lemma mark_ready_errD:
  assumes "MarkBranchReadyCtx c i ci h p s = (Inl er, t)"
  shows "directory (db t) = directory (db s)"
proof -
  let ?u = "sql_exec (update_branches (\<lambda>r. row_id r = i) (\<lambda>r. r\<lparr>row_container_id := ci, row_host := h, row_port := p\<rparr>))"
  have k: "keeps (on_db (same_dir v)) ?u" for v by (rule same_dir_update) simp_all
  have u: "directory (db u) = directory (db s)" if "?u s = (r, u)" for r u
    using keepsD [OF k _ that, of "directory (db s)"] by (simp add: on_db_def same_dir_def)
  show ?thesis using assms unfolding MarkBranchReadyCtx_def
    by (auto simp: bnd_Inl_iff dest!: u transition_errD)
qed

definition masks_of :: "tables \<Rightarrow> string \<Rightarrow> mask_script list" where
  "masks_of d i = map (\<lambda>r. \<lparr>ms_Name = mr_name r, ms_SQL = mr_sql r\<rparr>)
     (sort_key mr_ord (filter (\<lambda>r. mr_source_id r = i) (mask_scripts d)))"

definition mask_event :: "ctx \<Rightarrow> string \<Rightarrow> source \<Rightarrow> mask_script \<Rightarrow> drv_event" where
  "mask_event c cid src m = \<lparr>ev_cancellable = ctx_cancellable c, ev_call = CExec cid (psqlCmd src (ms_SQL m)), ev_ok = True, ev_out = []\<rparr>"

lemma masks_run:
  "for_each ms (\<lambda>m. wrapping (w m) (drv_Exec c cid (psqlCmd src (ms_SQL m)))) s = (Inr (), t) \<Longrightarrow>
   trace t = trace s @ map (mask_event c cid src) ms"
proof (induction ms arbitrary: s)
  case (Cons m ms)
  obtain u where u: "drv_Exec c cid (psqlCmd src (ms_SQL m)) s = (Inr (), u)"
    and rest: "for_each ms (\<lambda>m. wrapping (w m) (drv_Exec c cid (psqlCmd src (ms_SQL m)))) u = (Inr (), t)"
    using Cons.prems by (auto simp: bnd_Inr_iff wrapping_Inr_iff)
  have "trace u = trace s @ [mask_event c cid src m]"
    by (rule emitsD [OF emits_call u [unfolded drv_Exec_def]]) (simp add: ev_of_def mask_event_def)
  then show ?case using Cons.IH [OF rest] by simp
qed (simp add: ok_run)

lemma applyMasking_okD:
  assumes "applyMasking c cid src s = (Inr (), t)"
  shows "trace t = trace s @ map (mask_event c cid src) (masks_of (db s) (src_ID src))"
proof -
  obtain ms u where ms: "GetMaskScripts (src_ID src) s = (Inr ms, u)"
    and run: "for_each ms (\<lambda>sc. wrapping (''masking script '' @ go_quote (ms_Name sc) @ '': '') (drv_Exec c cid (psqlCmd src (ms_SQL sc)))) u = (Inr (), t)"
    using assms unfolding applyMasking_def by (auto simp: bnd_Inr_iff wrapping_Inr_iff)
  have "ms = masks_of (db s) (src_ID src)" using ms unfolding GetMaskScripts_def masks_of_def by (auto dest: sql_query_okD)
  moreover have "trace u = trace s"
    using ms unfolding GetMaskScripts_def sql_query_def sql_def by (auto simp: comp_simps split: option.splits)
  ultimately show ?thesis using masks_run [OF run] by simp
qed

text \<open>
  C7: No branch becomes ready unmasked. When no other request interferes and the last step of provisioning
  succeeds, every masking script of the source has been executed successfully in the branch's container, in
  order and after the instance answered; when it fails anywhere, no branch has changed its state.
\<close>

theorem masked_before_ready:
  assumes "awaitAndMark e c b src cid s = (r, t)" "others s = (\<lambda>_. [])"
  shows "case r of
      Inl _ \<Rightarrow> directory (db t) = directory (db s)
    | Inr _ \<Rightarrow> \<exists>probes rest. trace t = trace s @ probes @ map (mask_event c cid src) (masks_of (db s) (src_ID src)) @ rest"
proof -
  let ?v = "directory (db s)"
  define pre :: "('a sys_scheme, container_info) comp" where
    "pre = bnd (SetBranchContainer (br_ID b) cid) (\<lambda>_.
     bnd (wrapping ''instance never became ready: '' (waitReady c cid (90 * second))) (\<lambda>_.
     bnd (applyMasking c cid src) (\<lambda>_. bnd (rotateBranchCredentials e c cid b src) (\<lambda>_. inspectAddr c cid))))"
  have split: "awaitAndMark e c b src cid = bnd pre (\<lambda>info. MarkBranchReadyCtx c (br_ID b) cid (ci_Host info) (ci_Port info))"
    unfolding awaitAndMark_def pre_def by (rule ext) (simp add: bnd_run split: prod.splits sum.splits)
  have k: "keeps (still v) pre" for v
    unfolding pre_def by (intro keeps_rules still_ops still_rotate still.core_keeps)
  have dir: "directory (db u) = ?v" if "pre s = (x, u)" for x u
    using keepsD [OF k _ that, of ?v] assms(2) by (simp add: still_def)
  show ?thesis
  proof (cases r)
    case (Inl er)
    then have "directory (db t) = ?v"
      using assms(1) unfolding split by (auto simp: bnd_Inl_iff dest!: dir mark_ready_errD)
    then show ?thesis using Inl by simp
  next
    case (Inr x)
    then obtain info s5 where "pre s = (Inr info, s5)" and
      mark: "MarkBranchReadyCtx c (br_ID b) cid (ci_Host info) (ci_Port info) s5 = (Inr x, t)"
      using assms(1) unfolding split by (auto simp: bnd_Inr_iff)
    then obtain s1 s2 s3 s4 where run: "SetBranchContainer (br_ID b) cid s = (Inr (), s1)"
        "waitReady c cid (90 * second) s1 = (Inr (), s2)" "applyMasking c cid src s2 = (Inr (), s3)"
        "rotateBranchCredentials e c cid b src s3 = (Inr (), s4)" "inspectAddr c cid s4 = (Inr info, s5)"
      unfolding pre_def by (auto simp: bnd_Inr_iff wrapping_Inr_iff)
    have "others s1 = (\<lambda>_. [])"
      using keepsD [OF others_kept [of _ "OpSetContainer (br_ID b) cid", simplified keeps_ignore_iff reg_run.simps] assms(2) run(1)] .
    then have "db s2 = db s1" using alone_db [OF alone.core_keeps(10) run(2)] by simp
    moreover have "mask_scripts (db s1) = mask_scripts (db s)"
      using run(1) unfolding SetBranchContainer_def by (auto simp: ok_simps dest!: run_okD)
    ultimately have masks: "masks_of (db s2) = masks_of (db s)" by (simp add: masks_of_def fun_eq_iff)
    have "trace s1 = trace s" "trace t = trace s5"
      using keepsD [OF quiet.reg_ops(8) _ run(1), of "trace s"] keepsD [OF quiet.reg_ops(10) _ mark, of "trace s5"] by simp_all
    moreover obtain x where "trace s2 = trace s1 @ x" by (rule emitsD [OF emits_since [OF looks_parts(1)] run(2)])
    moreover obtain y where "trace s4 = trace s3 @ y" by (rule emitsD [OF emits_since [OF looks_parts(4)] run(4)])
    moreover obtain z where "trace s5 = trace s4 @ z" by (rule emitsD [OF emits_since [OF looks_parts(2)] run(5)])
    ultimately have "trace t = trace s @ x @ map (mask_event c cid src) (masks_of (db s) (src_ID src)) @ y @ z"
      using applyMasking_okD [OF run(3)] masks by simp
    then show ?thesis using Inr by auto
  qed
qed

definition maskable :: sys where
  "maskable = sample_sys (empty_tables\<lparr>branches := [sample_row ''b1'' ''pr1'' BranchCreating], sources := [ready_source],
     mask_scripts := [\<lparr>mr_source_id = ''s1'', mr_ord = 0, mr_name = ''emails'', mr_sql = ''UPDATE''\<rparr>]\<rparr>)"

theorem masked_before_ready_witness:
  "\<exists>t. awaitAndMark sample_engine Background pr1_branch (scanSource ready_source) ''c1'' maskable = (Inr (), t) \<and>
     mask_event Background ''c1'' (scanSource ready_source) \<lparr>ms_Name = ''emails'', ms_SQL = ''UPDATE''\<rparr> \<in> set (trace t)"
proof -
  have d: "db maskable = empty_tables\<lparr>branches := [sample_row ''b1'' ''pr1'' BranchCreating], sources := [ready_source],
     mask_scripts := [\<lparr>mr_source_id = ''s1'', mr_ord = 0, mr_name = ''emails'', mr_sql = ''UPDATE''\<rparr>]\<rparr>"
    by (simp add: maskable_def sample_sys_def)
  have "calm maskable" unfolding maskable_def by (rule sample_calm)
  then have o: "owns Map.empty ''b1'' ''pr1'' ''s1'' BranchCreating maskable"
    by (simp add: owns_def d is_row_def readable_def sample_row_def ready_source_def empty_tables_def wf_tables_def wf_layers_def
        unique_source_names_def unique_live_names_def live_row_def directory_def listing_def fun_eq_iff find_key_def decryptColumn_def
        decrypt_def has_prefix_def encPrefix_def)
  have w: "works (owns Map.empty ''b1'' ''pr1'' ''s1'' BranchCreating) (awaitAndMark sample_engine Background pr1_branch
      (scanSource ready_source) ''c1'') (\<lambda>_. owns Map.empty ''b1'' ''pr1'' ''s1'' BranchReady)"
    by (rule owning_await) (simp_all add: pr1_branch_def legalBranchTransition_def)
  obtain x t where x: "awaitAndMark sample_engine Background pr1_branch (scanSource ready_source) ''c1'' maskable = (Inr x, t)"
    using w [unfolded works_def, rule_format, OF o] by (elim exE conjE)
  have t: "awaitAndMark sample_engine Background pr1_branch (scanSource ready_source) ''c1'' maskable = (Inr (), t)"
    unfolding x by (cases x) simp
  have "masks_of (db maskable) (src_ID (scanSource ready_source)) = [\<lparr>ms_Name = ''emails'', ms_SQL = ''UPDATE''\<rparr>]"
    by (simp add: d masks_of_def scanSource_def ready_source_def)
  moreover have "others maskable = (\<lambda>_. [])" by (simp add: maskable_def sample_sys_def)
  from masked_before_ready [OF t this] obtain a z where
    "trace t = trace maskable @ a @ map (mask_event Background ''c1'' (scanSource ready_source)) (masks_of (db maskable) (src_ID (scanSource ready_source))) @ z"
    unfolding sum.case by (elim exE)
  ultimately have "mask_event Background ''c1'' (scanSource ready_source) \<lparr>ms_Name = ''emails'', ms_SQL = ''UPDATE''\<rparr> \<in> set (trace t)"
    by simp
  with t show ?thesis by (intro exI [of _ t] conjI)
qed

end
