(* ===== verification/Engine_Destroy.thy ===== *)
theory Engine_Destroy
  imports Engine_Safety
begin

text \<open>
  What a successful destroy has done: the name is free, no other branch has moved, and the container was
  removed. The saga is cut at its two transitions; the parts between them leave the tables alone, the
  garbage collection after them leaves the directory alone.
\<close>

section \<open>The parts of the saga\<close>

lemma still_delete_layer: "keeps (still v) (DeleteLayer i)"
  using still_op [of "OpDeleteLayer i"] by (simp add: keeps_ignore_iff same_dir_ops)

lemma still_gc: "keeps (still v) (gcLayers e c ls)" "keeps (still v) (gcSourceVolume e c i vol)"
proof -
  show "keeps (still v) (gcLayers e c ls)" by (induction ls) (auto intro!: keeps_rules still.reads_keep still.core_keeps still_delete_layer)
  show "keeps (still v) (gcSourceVolume e c i vol)"
    unfolding gcSourceVolume_def by (intro keeps_rules still.reads_keep still.core_keeps still.dropped_keeps)
qed

lemma alone_destroyLayer: "keeps (alone_on d) (destroyLayer e c b)"
  unfolding destroyLayer_def by (intro keeps_rules alone.reads_keep alone.core_keeps)

text \<open>The trace only grows.\<close>

abbreviation grown :: "hist \<Rightarrow> 'z sys_scheme \<Rightarrow> bool" where
  "grown h \<equiv> since h (\<lambda>_. True)"

lemma grown_calls: "keeps (grown h) (drv_RunHelper c x)" "keeps (grown h) (drv_RemoveVolume c v)"
  unfolding drv_defs by (rule keeps_since_call; simp)+

lemma grown_parts: "keeps (grown h) (removeSourceLayer e c v)" "keeps (grown h) (removeBranchLayer e c b)"
  unfolding removeSourceLayer_def removeBranchLayer_def runZFS_def by (intro keeps_rules grown_calls since_reads)+

lemma grown_gc: "keeps (grown h) (gcLayers e c ls)" "keeps (grown h) (gcSourceVolume e c i vol)" "keeps (grown h) (destroyLayer e c b)"
proof -
  show "keeps (grown h) (gcLayers e c ls)" by (induction ls) (auto intro!: keeps_rules since_reads grown_parts since.reg_ops)
  show "keeps (grown h) (gcSourceVolume e c i vol)" "keeps (grown h) (destroyLayer e c b)"
    unfolding gcSourceVolume_def destroyLayer_def by (intro keeps_rules since_reads grown_parts keeps_dropped)+
qed

lemma grown_extends: "(\<And>h. keeps (grown h) m) \<Longrightarrow> m s = (r, t) \<Longrightarrow> prefix (trace s) (trace t)"
  using keepsD [of "grown (trace s)" m s r t] by (auto simp: since_def prefix_def)

lemma still_directory:
  "(\<And>v. keeps (still v) m) \<Longrightarrow> m s = (r, t) \<Longrightarrow> others s = (\<lambda>_. []) \<Longrightarrow>
   directory (db t) = directory (db s) \<and> others t = (\<lambda>_. [])"
  using keepsD [of "still (directory (db s))" m s r t] by (simp add: still_def)

lemma transition_others:
  "TransitionBranchCtx c i to reason s = (r, t) \<Longrightarrow> others s = f \<Longrightarrow> others t = f \<and> trace t = trace s"
  using keepsD [OF others_kept [of f "OpTransition c i to reason", simplified reg_run.simps], of s r t]
    keepsD [OF quiet.reg_ops(6) [of "trace s"], of s c i to reason r t] by simp

text \<open>Up to the first call of the driver, a destroy only moves the branch to \<open>destroying\<close>.\<close>

lemma forced_row:
  assumes "row_at (db s) i n src st" "others s = (\<lambda>_. [])"
    "(if p then TransitionBranchCtx c i BranchFailed why else ok ()) s = (Inr (), t)"
  shows "\<exists>st'. row_at (db t) i n src st' \<and> (\<exists>x. directory (db t) = (directory (db s))(n := x)) \<and> others t = (\<lambda>_. []) \<and> trace t = trace s"
proof (cases p)
  case True
  then have t: "TransitionBranchCtx c i BranchFailed why s = (Inr (), t)" using assms(3) by simp
  show ?thesis using transition_row [OF assms(1) t] transition_others [OF t assms(2)] by auto
next
  case False
  moreover have "directory (db s) = (directory (db s))(n := directory (db s) n)" by simp
  ultimately show ?thesis using assms by (auto simp: ok_run simp del: fun_upd_triv)
qed

section \<open>A destroyed branch is gone\<close>

text \<open>The successful call that removes a container.\<close>

definition removal :: "ctx \<Rightarrow> string \<Rightarrow> drv_event" where
  "removal c cid = \<lparr>ev_cancellable = ctx_cancellable c, ev_call = CStopRemove cid, ev_ok = True, ev_out = []\<rparr>"

lemma container_removed:
  assumes "(if cid \<noteq> [] then wrapping w (drv_StopRemove c cid) else ok ()) s = (Inr (), t)"
  shows "trace t = trace s @ (if cid \<noteq> [] then [removal c cid] else [])"
proof (cases "cid = []")
  case False
  then have r: "drv_StopRemove c cid s = (Inr (), t)" using assms by (simp add: wrapping_Inr_iff)
  have "trace t = trace s @ [removal c cid]"
    by (rule emitsD [OF emits_call r [unfolded drv_StopRemove_def]]) (simp add: ev_of_def removal_def)
  then show ?thesis using False by simp
qed (use assms in \<open>simp add: ok_run\<close>)

definition destroy_checks :: "engine \<Rightarrow> string \<Rightarrow> ('z sys_scheme, branch \<times> layer list) comp" where
  "destroy_checks e n = bnd (GetBranchByName n) (\<lambda>b. bnd (if is_zfs e then
      bnd (CountLiveBranchesByVolume (br_RWVolume b)) (\<lambda>k. if 0 < k then raise (Msg (''branch '' @ go_quote n @ '' has '' @ nat_str k @
        '' child branch(es) cloned from it; destroy them first'')) else ok ()) else ok ()) (\<lambda>_.
      bnd (LayerChain (br_ID b)) (\<lambda>ch. ok (b, ch))))"

lemma destroy_checks_keep: "keeps (alone_on d) (destroy_checks e n)" "keeps (grown h) (destroy_checks e n)"
  unfolding destroy_checks_def by (intro keeps_rules alone.reads_keep since_reads)+

lemma bnd_unit_Inr_iff:
  fixes m :: "('z sys_scheme, unit) comp"
  shows "bnd m f s = (Inr y, t) \<longleftrightarrow> (\<exists>u. m s = (Inr (), u) \<and> f () u = (Inr y, t))"
  by (simp add: bnd_Inr_iff)

lemma destroy_steps:
  assumes "DestroyBranch e c n s = (Inr (), t)"
  obtains b ch s1 s2 s3 s4 s5 s6 s7 where "destroy_checks e n s = (Inr (b, ch), s1)"
    "(if forced_from_transient b then TransitionBranchCtx c (br_ID b) BranchFailed
        (''destroy requested: forcing stuck '' @ branch_state_str (br_State b)) else ok ()) s1 = (Inr (), s2)"
    "TransitionBranchCtx c (br_ID b) BranchDestroying ''destroy requested'' s2 = (Inr (), s3)"
    "(if br_ContainerID b \<noteq> [] then wrapping ''remove container: '' (drv_StopRemove c (br_ContainerID b)) else ok ()) s3 = (Inr (), s4)"
    "destroyLayer e c b s4 = (Inr (), s5)" "TransitionBranchCtx c (br_ID b) BranchDestroyed [] s5 = (Inr (), s6)"
    "gcLayers e c ch s6 = (Inr (), s7)" "gcSourceVolume e c (br_SourceID b) (br_SourceVolume b) s7 = (Inr (), t)"
proof -
  have "DestroyBranch e c n = bnd (destroy_checks e n) (\<lambda>(b, ch).
     bnd (if forced_from_transient b then
            TransitionBranchCtx c (br_ID b) BranchFailed (''destroy requested: forcing stuck '' @ branch_state_str (br_State b))
          else ok ()) (\<lambda>_.
     bnd (TransitionBranchCtx c (br_ID b) BranchDestroying ''destroy requested'') (\<lambda>_.
     bnd (if br_ContainerID b \<noteq> [] then wrapping ''remove container: '' (drv_StopRemove c (br_ContainerID b)) else ok ()) (\<lambda>_.
     bnd (destroyLayer e c b) (\<lambda>_. bnd (TransitionBranchCtx c (br_ID b) BranchDestroyed []) (\<lambda>_.
     bnd (gcLayers e c ch) (\<lambda>_. gcSourceVolume e c (br_SourceID b) (br_SourceVolume b))))))))"
    unfolding DestroyBranch_def destroy_checks_def by (rule ext) (simp add: bnd_run ok_run split: prod.splits sum.splits)
  from assms [unfolded this bnd_unit_Inr_iff bnd_Inr_iff split_paired_Ex prod.case] show ?thesis
    by (elim exE conjE) (rule that)
qed

text \<open>
  C6: A destroy that reports success has destroyed the branch. When no other request interferes, the name
  was taken and is free afterwards, every other name is as it was, and if the branch had a container its
  removal was acknowledged by the driver during this request.
\<close>

theorem destroy_completes:
  assumes "DestroyBranch e c n s = (Inr (), t)" "wf_tables (db s)" "others s = (\<lambda>_. [])"
  shows "\<exists>b \<in> set (branches (db s)). row_name b = n \<and> live_row b \<and> directory (db t) = (directory (db s))(n := None) \<and>
    (\<exists>evs. trace t = trace s @ evs \<and> (row_container_id b \<noteq> [] \<longrightarrow> removal c (row_container_id b) \<in> set evs))"
proof (rule destroy_steps [OF assms(1)])
  fix b ch s1 s2 s3 s4 s5 s6 s7
  assume chk: "destroy_checks e n s = (Inr (b, ch), s1)"
    and 2: "(if forced_from_transient b then TransitionBranchCtx c (br_ID b) BranchFailed
        (''destroy requested: forcing stuck '' @ branch_state_str (br_State b)) else ok ()) s1 = (Inr (), s2)"
    and 3: "TransitionBranchCtx c (br_ID b) BranchDestroying ''destroy requested'' s2 = (Inr (), s3)"
    and 4: "(if br_ContainerID b \<noteq> [] then wrapping ''remove container: '' (drv_StopRemove c (br_ContainerID b)) else ok ()) s3 = (Inr (), s4)"
    and 5: "destroyLayer e c b s4 = (Inr (), s5)" and 6: "TransitionBranchCtx c (br_ID b) BranchDestroyed [] s5 = (Inr (), s6)"
    and 7: "gcLayers e c ch s6 = (Inr (), s7)" and 8: "gcSourceVolume e c (br_SourceID b) (br_SourceVolume b) s7 = (Inr (), t)"
  have q1: "db s1 = db s" "others s1 = (\<lambda>_. [])" using alone_db [OF destroy_checks_keep(1) chk assms(3)] by auto
  obtain u where b: "GetBranchByName n s = (Inr b, u)" using chk unfolding destroy_checks_def by (auto simp: bnd_Inr_iff ok_run)
  have at: "row_at (db s1) (br_ID b) n (br_SourceID b) (br_State b)" using found_row_at [OF b assms(2)] q1 by simp
  obtain st x where f: "row_at (db s2) (br_ID b) n (br_SourceID b) st" "directory (db s2) = (directory (db s))(n := x)"
      "others s2 = (\<lambda>_. [])" "trace s2 = trace s1"
    using forced_row [OF at q1(2) 2] q1(1) by auto
  have d3: "row_at (db s3) (br_ID b) n (br_SourceID b) BranchDestroying" "\<exists>y. directory (db s3) = (directory (db s))(n := y)"
      "others s3 = (\<lambda>_. [])" "trace s3 = trace s1"
    using transition_row [OF f(1) 3] transition_others [OF 3 f(3)] f(2,4) by auto
  have k: "keeps (alone_on d) (if br_ContainerID b \<noteq> [] then wrapping ''remove container: '' (drv_StopRemove c (br_ContainerID b)) else ok ())" for d
    by (intro keeps_rules alone.drv_keeps)
  have q4: "db s4 = db s3" "others s4 = (\<lambda>_. [])" using alone_db [OF k 4 d3(3)] by auto
  have q5: "db s5 = db s3" "others s5 = (\<lambda>_. [])" using alone_db [OF alone_destroyLayer 5 q4(2)] q4(1) by auto
  have d6: "directory (db s6) = (directory (db s))(n := None)" "others s6 = (\<lambda>_. [])" "trace s6 = trace s5"
    using transition_row(3) [of s5, OF _ 6] transition_others [OF 6 q5(2)] q5(1) d3(1,2) by auto
  have d7: "directory (db s7) = (directory (db s))(n := None)" "others s7 = (\<lambda>_. [])"
    using still_directory [OF still_gc(1) 7 d6(2)] d6(1) by auto
  have d8: "directory (db t) = (directory (db s))(n := None)" using still_directory [OF still_gc(2) 8 d7(2)] d7(1) by auto
  have "prefix (trace s) (trace s1)" "prefix (trace s4) (trace t)"
    using grown_extends [OF destroy_checks_keep(2) chk] grown_extends [OF grown_gc(3) 5] grown_extends [OF grown_gc(1) 7]
      grown_extends [OF grown_gc(2) 8] d6(3) by (auto dest: prefix_order.trans)
  then have tr: "\<exists>evs. trace t = trace s @ evs \<and> (br_ContainerID b \<noteq> [] \<longrightarrow> removal c (br_ContainerID b) \<in> set evs)"
    using container_removed [OF 4] d3(4) by (auto simp: prefix_def)
  show ?thesis
  proof (rule found_row [OF b])
    fix row assume "scanBranch (secrets s) row = Inr b" "row \<in> set (branches (db s))" "row_name row = n" "live_row row"
    then show ?thesis using d8 tr scanBranch_fields by auto
  qed
qed

theorem destroy_completes_witness:
  "\<exists>t. DestroyBranch sample_engine Background ''pr1'' strayed = (Inr (), t) \<and>
     directory (db t) = (directory (db strayed))(''pr1'' := None) \<and> removal Background ''k1'' \<in> set (trace t)"
proof -
  have r: "\<exists>t. DestroyBranch sample_engine Background ''pr1'' strayed = (Inr (), t)"
    by (simp add: strayed_def stubborn_def DestroyBranch_def sample_engine_def is_zfs_def GetBranchByName_def getBranch_def
        sql_query_def sql_exec_def sql_def LayerChain_def forced_from_transient_def sample_row_def scanBranch_def decryptColumn_def decrypt_def
        has_prefix_def encPrefix_def gets_def call_simps empty_tables_def TransitionBranchCtx_def transaction_def in_tx_def
        transition_in_tx_def read_state_def find_key_def db_now_def time_now_def update_branches_def update_where_def
        unique_live_names_def live_row_def count_where_def journal_def insert_transition_def legalBranchTransition_def
        destroyLayer_def removeBranchLayer_def gcSourceVolume_def GetSourceByID_def scan_source_opt_def dropped_def
        removeSourceLayer_def CountLiveBranchesByVolume_def CountLiveBranchesByRWVolume_def sample_freeze_def count_branches_def scanSource_def null_string_def layer_chain_loop.simps [of _ _ "[]"])
  then obtain t where t: "DestroyBranch sample_engine Background ''pr1'' strayed = (Inr (), t)" by blast
  have "wf_tables (db strayed)" "others strayed = (\<lambda>_. [])"
    by (simp_all add: strayed_def sample_sys_def empty_tables_def wf_tables_def wf_layers_def unique_source_names_def
        unique_live_names_def sample_row_def sample_freeze_def)
  from destroy_completes [OF t this] t show ?thesis by (auto simp: strayed_def sample_sys_def)
qed

end
