(* ===== verification/Engine_Frame.thy ===== *)
theory Engine_Frame
  imports Engine_Destroy
begin

text \<open>
  Isolation of branches: creating, resetting or destroying a branch leaves the rows of all branches with
  another name exactly as they were. The sagas are proved once against the contract of an invariant that the
  four operations on one branch keep (\<open>owned_branch\<close>).
\<close>

section \<open>Sagas that work on one branch\<close>

locale owned_branch = reading I
  for I :: "'y sys_scheme \<Rightarrow> bool" +
  fixes i :: string
  assumes transition_own: "keeps I (TransitionBranchCtx c i to r)"
    and container_own: "keeps I (SetBranchContainer i ci)"
    and password_own: "keeps I (SetBranchPassword i pw)"
    and ready_own: "keeps I (MarkBranchReadyCtx c i ci h p)"
    and layer_own: "keeps I (DeleteLayer j)"
begin

lemma own_ops:
  "j = i \<Longrightarrow> keeps I (TransitionBranchCtx c j to r)" "j = i \<Longrightarrow> keeps I (SetBranchContainer j ci)"
  "j = i \<Longrightarrow> keeps I (SetBranchPassword j pw)" "j = i \<Longrightarrow> keeps I (MarkBranchReadyCtx c j ci h p)"
  using transition_own container_own password_own ready_own by simp_all

lemma own_rotate: "br_ID b = i \<Longrightarrow> keeps I (rotateBranchCredentials e c cid b src)"
  unfolding rotateBranchCredentials_def Let_def by (auto intro!: keeps_rules reads_keep drv_keeps own_ops)

lemma own_await: "br_ID b = i \<Longrightarrow> keeps I (awaitAndMark e c b src cid)"
  unfolding awaitAndMark_def by (auto intro!: keeps_rules core_keeps own_ops own_rotate)

lemma own_undo: "keeps I (undo_volume c v)" "keeps I (undo_container c v)" "keeps I (undo_zfs c argv)"
  unfolding undo_volume_def undo_container_def undo_zfs_def by (intro log_keeps drv_keeps core_keeps)+

lemma own_step:
  assumes "\<And>u. u \<in> set undo \<Longrightarrow> keeps I u" "keeps I m"
  shows "keeps I (step_or undo w m)"
proof -
  have "\<forall>u \<in> set us. keeps I u \<Longrightarrow> keeps I (for_each us (\<lambda>m. m))" for us :: "('y sys_scheme, unit) comp list"
    by (induction us) (simp_all add: keeps_ok keeps_bnd)
  then have "keeps I (unwind undo)" unfolding unwind_def using assms(1) by simp
  then show ?thesis unfolding step_or_def using assms(2) by (intro keeps_rules)
qed

lemma own_start: "keeps I (installOverlayEntrypoint e c v)" "keeps I (installDirectEntrypoint e c v)"
  "keeps I (startOverlayBranch c n p img ls)" "keeps I (startDirectBranch c n v img ls)"
  unfolding installOverlayEntrypoint_def installDirectEntrypoint_def startOverlayBranch_def startDirectBranch_def
  by (intro keeps_rules drv_keeps)+

lemma own_provision_overlay: "br_ID b = i \<Longrightarrow> keeps I (provisionOverlay e c b src)"
  unfolding provisionOverlay_def Let_def
  by (intro keeps_rules reads_keep own_step own_await own_start core_keeps drv_keeps) (auto intro: own_undo)

lemma own_provision_zfs: "br_ID b = i \<Longrightarrow> keeps I (provisionZFS e c b src)"
  unfolding provisionZFS_def Let_def
  by (intro keeps_rules reads_keep own_step own_await own_start core_keeps drv_keeps) (auto intro: own_undo)

lemma csi_fail_alone: "csi_fail e c src None undo w m = step_or undo w m"
  by (simp add: csi_fail_def step_or_def fun_eq_iff bnd_run ok_run on_error_run split: prod.splits sum.splits)

lemma own_provision_csi:
  assumes "br_ID b = i" "br_ParentBranchName b = []"
  shows "keeps I (provisionCSI e c b src)"
proof -
  have eq: "provisionCSI e c b src =
     bnd (volumeLabels ''pgbranch.branch.id'' (br_ID b)) (\<lambda>vls.
     bnd (step_or [] (wrap_as ''clone volume: '') (drv_CloneVolume c (br_SourceVolume b) (br_RWVolume b) vls)) (\<lambda>_.
     let undo1 = [undo_volume c (br_RWVolume b)] in
     bnd (step_or undo1 (wrap_as ''install entrypoint: '') (installDirectEntrypoint e c (br_RWVolume b))) (\<lambda>_.
     bnd (branchLabels b) (\<lambda>ls.
     bnd (step_or undo1 (wrap_as ''start instance: '')
       (startDirectBranch c (br_Name b) (br_RWVolume b) (image_of e (src_PGVersion src)) ls)) (\<lambda>cid.
     step_or (undo1 @ [undo_container c cid]) (\<lambda>er. er) (awaitAndMark e c b src cid))))))"
    using assms(2) by (simp add: provisionCSI_def csiQuiesceTarget_def csi_fail_alone fun_eq_iff bnd_run ok_run Let_def
        cong: sum.case_cong prod.case_cong)
  show ?thesis unfolding eq Let_def using assms(1)
    by (intro keeps_rules own_step own_await own_start core_keeps drv_keeps) (auto intro: own_undo)
qed

lemma own_provision:
  "br_ID b = i \<Longrightarrow> is_csi e \<longrightarrow> br_ParentBranchName b = [] \<Longrightarrow> keeps I (provision e c b src)"
  unfolding provision_def by (simp add: own_provision_overlay own_provision_zfs own_provision_csi)

lemma own_mark_failed: "br_ID b = i \<Longrightarrow> keeps I m \<Longrightarrow> keeps I (mark_failed c b m)"
  unfolding mark_failed_def by (auto intro!: keeps_rules log_keeps own_ops)

lemma own_gc: "keeps I (gcLayers e c ls)" "keeps I (gcSourceVolume e c j v)" "keeps I (destroyLayer e c b)"
proof -
  show "keeps I (gcLayers e c ls)" by (induction ls) (auto intro!: keeps_rules reads_keep core_keeps layer_own)
  show "keeps I (gcSourceVolume e c j v)" "keeps I (destroyLayer e c b)"
    unfolding gcSourceVolume_def destroyLayer_def by (intro keeps_rules reads_keep core_keeps dropped_keeps)+
qed

text \<open>What each saga does once it has the branch.\<close>

lemma own_reset_tail:
  assumes "br_ID b = i" "is_csi e \<longrightarrow> br_ParentBranchName b = []"
  shows "keeps I (bnd (GetSourceByID (br_SourceID b)) (\<lambda>src.
     bnd (TransitionBranchCtx c (br_ID b) BranchResetting ''reset requested'') (\<lambda>_.
     bnd (mark_failed c b (if br_ContainerID b \<noteq> '''' then wrapping ''remove container: '' (drv_StopRemove c (br_ContainerID b)) else ok ())) (\<lambda>_.
     bnd (mark_failed c b (wrapping ''remove branch layer: '' (removeBranchLayer e c b))) (\<lambda>_.
     bnd (mark_failed c b (wrapping (''reset '' @ go_quote name @ '': '') (provision e c b src))) (\<lambda>_.
     GetBranchByName name))))))"
  using assms(1) transition_own
  by (intro keeps_rules reads_keep own_mark_failed own_provision core_keeps drv_keeps assms) auto

lemma own_destroy_tail:
  assumes "br_ID b = i"
  shows "keeps I (bnd (if is_zfs e then
            bnd (CountLiveBranchesByVolume (br_RWVolume b)) (\<lambda>n.
              if 0 < n then raise (Msg (''branch '' @ go_quote name @ '' has '' @ nat_str n @
                '' child branch(es) cloned from it; destroy them first'')) else ok ())
          else ok ()) (\<lambda>_.
     bnd (LayerChain (br_ID b)) (\<lambda>chain.
     bnd (if forced_from_transient b then
            TransitionBranchCtx c (br_ID b) BranchFailed (''destroy requested: forcing stuck '' @ branch_state_str (br_State b))
          else ok ()) (\<lambda>_.
     bnd (TransitionBranchCtx c (br_ID b) BranchDestroying ''destroy requested'') (\<lambda>_.
     bnd (if br_ContainerID b \<noteq> '''' then wrapping ''remove container: '' (drv_StopRemove c (br_ContainerID b)) else ok ()) (\<lambda>_.
     bnd (destroyLayer e c b) (\<lambda>_.
     bnd (TransitionBranchCtx c (br_ID b) BranchDestroyed '''') (\<lambda>_.
     bnd (gcLayers e c chain) (\<lambda>_.
     gcSourceVolume e c (br_SourceID b) (br_SourceVolume b))))))))))"
  unfolding assms by (intro keeps_rules reads_keep transition_own own_gc drv_keeps)

end

section \<open>The rows of other branches\<close>

definition foreign :: "string \<Rightarrow> tables \<Rightarrow> branch_row list" where
  "foreign n d = filter (\<lambda>r. row_name r \<noteq> n) (branches d)"

text \<open>
  All rows with id \<open>i\<close> are named \<open>n\<close>, and the rows with another name are \<open>F\<close>. With \<open>q\<close>, rows named \<open>n\<close> have no
  parent: cloning a branch on csi stops and restarts its parent, which is another branch.
\<close>

definition plot :: "string \<Rightarrow> string \<Rightarrow> branch_row list \<Rightarrow> bool \<Rightarrow> tables \<Rightarrow> bool" where
  "plot i n F q d \<longleftrightarrow> foreign n d = F \<and> (\<forall>r \<in> set (branches d). row_id r = i \<longrightarrow> row_name r = n) \<and>
     (q \<longrightarrow> (\<forall>r \<in> set (branches d). row_name r = n \<longrightarrow> row_parent_branch_name r = []))"

lemma foreign_update:
  assumes "\<forall>r \<in> set rows. p r \<longrightarrow> row_name r = n" "\<And>r. row_name (f r) = row_name r"
  shows "filter (\<lambda>r. row_name r \<noteq> n) (update_where p f rows) = filter (\<lambda>r. row_name r \<noteq> n) rows"
  using assms by (induction rows) (auto simp: update_where_def)

lemma plot_update:
  assumes "\<And>r. p r \<Longrightarrow> row_id r = i" "\<And>r. row_id (f r) = row_id r" "\<And>r. row_name (f r) = row_name r"
    "\<And>r. row_parent_branch_name (f r) = row_parent_branch_name r"
  shows "keeps (on_db (plot i n F q)) (sql_exec (update_branches p f))"
proof (rule keeps_sql_exec)
  fix d x d' assume d: "plot i n F q d" "update_branches p f d = Inr (x, d')"
  have b: "branches d' = update_where p f (branches d)" using update_branches_okD [OF d(2)] by simp
  have "\<forall>r \<in> set (branches d). p r \<longrightarrow> row_name r = n" using d(1) assms(1) by (auto simp: plot_def)
  from foreign_update [OF this assms(3)] have "foreign n d' = foreign n d" by (simp add: foreign_def b)
  moreover have "\<exists>x \<in> set (branches d). row_id x = row_id y \<and> row_name x = row_name y \<and>
      row_parent_branch_name x = row_parent_branch_name y" if "y \<in> set (branches d')" for y
  proof -
    obtain x where x: "x \<in> set (branches d)" "y = (if p x then f x else x)" using \<open>y \<in> set (branches d')\<close> by (auto simp: b set_update_where)
    then show ?thesis using assms(2-4) [of x] by (intro bexI [of _ x]) auto
  qed
  ultimately show "plot i n F q d'" using d(1) unfolding plot_def by metis
qed

lemma plot_exec:
  assumes "\<And>d x d'. g d = Inr (x, d') \<Longrightarrow> branches d' = branches d"
  shows "keeps (on_db (plot i n F q)) (sql_exec g)"
proof (rule keeps_sql_exec)
  fix d x d' assume d: "plot i n F q d" "g d = Inr (x, d')"
  then show "plot i n F q d'" using assms [OF d(2)] by (simp add: plot_def foreign_def)
qed

lemma plot_journal: "keeps (on_db (plot i n F q)) (journal c e j f g r)"
  unfolding journal_def
  by (intro keeps_rules env_free_on_db plot_exec) (auto simp: insert_transition_def)

lemma plot_read_state: "keeps (on_db (plot i n F q)) (read_state j)"
  unfolding read_state_def by (intro keeps_rules keeps_sql_query env_free_on_db)

lemma plot_transition: "keeps (on_db (plot i n F q)) (TransitionBranchCtx c i to r)"
  unfolding TransitionBranchCtx_def transaction_def
    transition_in_tx_def
  by (intro keeps_in_tx_any keeps_rules plot_journal plot_update plot_read_state env_free_on_db) simp_all

lemma plot_ops:
  "keeps (on_db (plot i n F q)) (SetBranchContainer i ci)" "keeps (on_db (plot i n F q)) (SetBranchPassword i pw)"
  "keeps (on_db (plot i n F q)) (MarkBranchReadyCtx c i ci h p)" "keeps (on_db (plot i n F q)) (DeleteLayer j)"
  unfolding SetBranchContainer_def SetBranchPassword_def MarkBranchReadyCtx_def DeleteLayer_def
  by (intro keeps_rules plot_update plot_transition env_free_on_db keeps_in_tx_any; simp?;
      (rule plot_exec, auto simp: delete_layer_def split: if_splits)?)+

definition ground :: "string \<Rightarrow> string \<Rightarrow> branch_row list \<Rightarrow> bool \<Rightarrow> 'z sys_scheme \<Rightarrow> bool" where
  "ground i n F q s \<longleftrightarrow> others s = (\<lambda>_. []) \<and> wf_tables (db s) \<and> plot i n F q (db s)"

lemma ground_op:
  assumes "keeps (on_db (plot i n F q)) (reg_run x :: ('z sys_scheme, unit) comp)"
  shows "keeps (ground i n F q :: 'z sys_scheme \<Rightarrow> bool) (reg_run x)"
  using keeps_conj [OF others_kept keeps_conj [OF keeps_wf_reg_run assms]] by (simp add: ground_def [abs_def] on_db_def)

interpretation ground: owned_branch "ground i n F q" i for i n F q
proof unfold_locales
  show "keeps (ground i n F q) interleaved"
    by (auto simp: ground_def keeps_def interleaved_def run_ops_def)
  show "keeps (ground i n F q) (TransitionBranchCtx c i to r)" for c to r
    by (rule ground_op [of i n F q "OpTransition c i to r", simplified, OF plot_transition])
  show "keeps (ground i n F q) (SetBranchContainer i ci)" for ci
    by (rule ground_op [of i n F q "OpSetContainer i ci", simplified, OF plot_ops(1)])
  show "keeps (ground i n F q) (SetBranchPassword i pw)" for pw
    by (rule ground_op [of i n F q "OpSetPassword i pw", simplified, OF plot_ops(2)])
  show "keeps (ground i n F q) (MarkBranchReadyCtx c i ci h p)" for c ci h p
    by (rule ground_op [of i n F q "OpMarkReady c i ci h p", simplified, OF plot_ops(3)])
  show "keeps (ground i n F q) (DeleteLayer j)" for j
    by (rule ground_op [of i n F q "OpDeleteLayer j", simplified, OF plot_ops(4)])
qed (auto simp: ground_def env_free_def)

text \<open>Before the branch is known.\<close>

definition lot :: "string \<Rightarrow> branch_row list \<Rightarrow> bool \<Rightarrow> tables \<Rightarrow> bool" where
  "lot n F q d \<longleftrightarrow> foreign n d = F \<and> (q \<longrightarrow> (\<forall>r \<in> set (branches d). row_name r = n \<longrightarrow> row_parent_branch_name r = []))"

definition land :: "string \<Rightarrow> branch_row list \<Rightarrow> bool \<Rightarrow> 'z sys_scheme \<Rightarrow> bool" where
  "land n F q s \<longleftrightarrow> others s = (\<lambda>_. []) \<and> wf_tables (db s) \<and> lot n F q (db s)"

interpretation land: reading "land n F q" for n F q
  by unfold_locales (auto simp: land_def env_free_def keeps_def interleaved_def run_ops_def)

lemma ground_land: "ground i n F q s \<Longrightarrow> land n F q s"
  by (simp add: ground_def plot_def land_def lot_def)

lemma land_ground:
  assumes "land n F q s" "row \<in> set (branches (db s))" "row_name row = n"
  shows "ground (row_id row) n F q s"
proof -
  have "distinct (map row_id (branches (db s)))" using assms(1) by (simp add: land_def wf_tables_def)
  then have "\<forall>r \<in> set (branches (db s)). row_id r = row_id row \<longrightarrow> row_name r = n"
    using assms(2,3) by (metis distinct_map inj_onD)
  then show ?thesis using assms(1) by (simp add: ground_def land_def lot_def plot_def)
qed

lemma on_branch:
  assumes get: "keeps (land n F q) m"
    and own: "\<And>s b t. land n F q s \<Longrightarrow> m s = (Inr b, t) \<Longrightarrow> ground (br_ID b) n F q t \<and> (q \<longrightarrow> br_ParentBranchName b = [])"
    and rest: "\<And>b. (q \<Longrightarrow> br_ParentBranchName b = []) \<Longrightarrow> keeps (ground (br_ID b) n F q) (f b)"
  shows "keeps (land n F q) (bnd m f)"
proof (rule keepsI)
  fix s r t assume s: "land n F q s" "bnd m f s = (r, t)"
  obtain x u where m: "m s = (x, u)" by fastforce
  show "land n F q t"
  proof (cases x)
    case (Inl e)
    then show ?thesis using s(2) m keepsD [OF get s(1) m] by (simp add: bnd_run)
  next
    case (Inr b)
    have b: "ground (br_ID b) n F q u" "q \<longrightarrow> br_ParentBranchName b = []" using own [OF s(1), of b u] m Inr by auto
    have "f b u = (r, t)" using s(2) m Inr by (simp add: bnd_run)
    with rest b have "ground (br_ID b) n F q t" by (blast dest: keepsD)
    then show ?thesis by (rule ground_land)
  qed
qed

lemma land_get:
  assumes "\<And>b. (q \<Longrightarrow> br_ParentBranchName b = []) \<Longrightarrow> keeps (ground (br_ID b) n F q) (f b)"
  shows "keeps (land n F q) (bnd (GetBranchByName n) f)"
proof (rule on_branch [OF land.reads_keep(4) _ assms])
  fix s b t assume s: "land n F q s" "GetBranchByName n s = (Inr b, t)"
  obtain row where row: "row \<in> set (branches (db s))" "row_name row = n" "scanBranch (secrets s) row = Inr b" "db t = db s"
    by (rule found_row [OF s(2)])
  have "row_id row = br_ID b" "br_ParentBranchName b = row_parent_branch_name row"
    using row(3) by (auto simp: scanBranch_def split: sum.splits)
  moreover have "land n F q t" using keepsD [OF land.reads_keep(4) s] .
  ultimately show "ground (br_ID b) n F q t \<and> (q \<longrightarrow> br_ParentBranchName b = [])"
    using land_ground [of n F q t row] row by (auto simp: land_def lot_def)
qed

lemma lot_exec:
  assumes "\<And>d x d'. g d = Inr (x, d') \<Longrightarrow> branches d' = branches d"
  shows "keeps (on_db (lot n F q)) (sql_exec g)"
proof (rule keeps_sql_exec)
  fix d x d' assume d: "lot n F q d" "g d = Inr (x, d')"
  then show "lot n F q d'" using assms [OF d(2)] by (simp add: lot_def foreign_def)
qed

lemma lot_create: "br_Name b = n \<Longrightarrow> br_ParentBranchName b = [] \<Longrightarrow> keeps (on_db (lot n F q)) (CreateBranchCtx c b)"
  unfolding CreateBranchCtx_def journal_def Let_def
  by (intro keeps_rules env_free_on_db lot_exec keeps_sql_exec)
    (auto simp: insert_transition_def insert_branch_def lot_def foreign_def split: if_splits)

lemma land_create:
  assumes "br_Name b = n" "br_ParentBranchName b = []"
    and "\<And>b. (q \<Longrightarrow> br_ParentBranchName b = []) \<Longrightarrow> keeps (ground (br_ID b) n F q) (f b)"
  shows "keeps (land n F q :: 'z sys_scheme \<Rightarrow> bool) (bnd (CreateBranchCtx c b) f)"
proof (rule on_branch [OF _ _ assms(3)])
  show keep: "keeps (land n F q :: 'z sys_scheme \<Rightarrow> bool) (CreateBranchCtx c b)"
    using keeps_conj [OF others_kept [where x = "OpCreateBranch c b" and f = "\<lambda>_. []", simplified keeps_ignore_iff reg_run.simps]
        keeps_conj [OF keeps_wf_CreateBranchCtx lot_create [OF assms(1,2)]]]
    by (simp add: land_def [abs_def] on_db_def)
  fix s b' and t :: "'z sys_scheme" assume s: "land n F q s" "CreateBranchCtx c b s = (Inr b', t)"
  have t: "land n F q t" using keepsD [OF keep s] .
  have "\<exists>row \<in> set (branches (db t)). row_name row = n \<and> br_ID b' = row_id row \<and> br_ParentBranchName b' = []"
    by (rule create_branch_okD [OF s(2)]) (use assms(1,2) in \<open>auto simp: insert_branch_def split: if_splits\<close>)
  then show "ground (br_ID b') n F q t \<and> (q \<longrightarrow> br_ParentBranchName b' = [])" using land_ground [OF t] by auto
qed

section \<open>The sagas leave other branches alone\<close>

lemma land_reset: "keeps (land n F (is_csi e)) (ResetBranch e c n)"
  unfolding ResetBranch_def by (rule land_get) (rule ground.own_reset_tail, simp_all)

lemma land_destroy: "keeps (land n F q) (DestroyBranch e c n)"
  unfolding DestroyBranch_def by (rule land_get) (rule ground.own_destroy_tail, simp)

lemma create_tail:
  assumes "is_csi e \<longrightarrow> br_ParentBranchName b = []"
  shows "keeps (ground (br_ID b) n F q) (bnd (mark_failed c b (provision e c b src)) (\<lambda>_. GetBranchByName m))"
  by (intro keeps_bnd ground.reads_keep ground.own_mark_failed ground.own_provision assms refl)

lemma land_create_branch: "keeps (land n F (is_csi e)) (eng_CreateBranch e c n sn ttl)"
  unfolding eng_CreateBranch_def
  by (intro keeps_rules land.reads_keep land_create create_tail; simp add: new_branch_def)

lemma land_frame:
  assumes "keeps (land n (foreign n (db s)) q) m" "others s = (\<lambda>_. [])" "wf_tables (db s)"
    "q \<longrightarrow> (\<forall>r \<in> set (branches (db s)). row_name r = n \<longrightarrow> row_parent_branch_name r = [])"
  shows "foreign n (db (snd (m s))) = foreign n (db s)"
proof -
  have "land n (foreign n (db s)) q s" using assms by (simp add: land_def lot_def)
  then have "land n (foreign n (db s)) q (snd (m s))" using assms(1) by (simp add: keeps_def)
  then show ?thesis by (simp add: land_def lot_def)
qed



end
