(* ===== verification/Ghook_Props.thy ===== *)
theory Ghook_Props
  imports Ghook Engine_Frame
begin

text \<open>
  What the webhook service guarantees: only signed deliveries start a job, the name of a branch is always one
  the engine accepts and lies under the reserved prefix (though names can coincide), a job that ensures a
  branch leaves it live in the registry, and no job touches a branch outside the prefix.
\<close>

section \<open>Names\<close>

definition clean_chars :: "string \<Rightarrow> bool" where
  "clean_chars s \<longleftrightarrow> list_all (\<lambda>x. name_start x \<or> x = CHR ''-'') s"

lemma clean_append [simp]: "clean_chars (a @ b) \<longleftrightarrow> clean_chars a \<and> clean_chars b"
  by (simp add: clean_chars_def)

lemma clean_sub: "set a \<subseteq> set b \<Longrightarrow> clean_chars b \<Longrightarrow> clean_chars a"
  by (auto simp: clean_chars_def list_all_iff)

lemma name_char_start: "name_char r = Some c \<Longrightarrow> name_start c"
  by (auto simp: name_char_def split: option.splits if_splits)

lemma sanitize_loop_clean: "clean_chars b \<Longrightarrow> clean_chars (sanitize_loop k b d rs)"
proof (induction rs arbitrary: b d)
  case (Cons r rs)
  then show ?case using name_char_start [of r]
    by (auto simp: Let_def clean_chars_def split: option.splits)
qed simp

lemma trim_right_subset: "set (trim_right s c) \<subseteq> set s"
  by (auto simp: trim_right_def dest: set_dropWhileD)

lemma length_trim_right: "length (trim_right s c) \<le> length s"
  unfolding trim_right_def by (metis length_dropWhile_le length_rev)

lemma sanitize_clean: "clean_chars (sanitizeBranchName ref k)" "length (sanitizeBranchName ref k) \<le> k"
proof -
  let ?b = "sanitize_loop k [] False (lower_runes ref)"
  have "set (sanitizeBranchName ref k) \<subseteq> set ?b"
    unfolding sanitizeBranchName_def using trim_right_subset set_take_subset by (metis subset_trans)
  then show "clean_chars (sanitizeBranchName ref k)"
    by (rule clean_sub) (rule sanitize_loop_clean, simp add: clean_chars_def)
  show "length (sanitizeBranchName ref k) \<le> k"
    unfolding sanitizeBranchName_def by (rule order_trans [OF length_trim_right]) simp
qed

lemma nat_str_length: "n < 10 ^ k \<Longrightarrow> 0 < k \<Longrightarrow> length (nat_str n) \<le> k"
proof (induction k arbitrary: n)
  case (Suc k)
  show ?case
  proof (cases "n < 10")
    case False
    then have "k \<noteq> 0" using Suc.prems by (auto intro: ccontr)
    moreover have "n div 10 < 10 ^ k" using Suc.prems by (simp add: less_mult_imp_div_less mult.commute)
    ultimately show ?thesis using False Suc.IH [of "n div 10"] by (simp add: nat_str.simps [of n])
  qed (simp add: nat_str.simps [of n])
qed simp

lemma digits_clean: "clean_chars (nat_str n)"
proof -
  have "\<forall>c \<in> digit_chars. name_start c" by (simp add: digit_chars_def name_start_def)
  then show ?thesis using nat_str_digits [of n] by (auto simp: clean_chars_def list_all_iff)
qed

lemma int_str_clean: "clean_chars (int_str i)"
  using digits_clean by (simp add: int_str_def clean_chars_def)

lemma int_str_length: "- (2 ^ 63) \<le> i \<Longrightarrow> i < 2 ^ 63 \<Longrightarrow> length (int_str i) \<le> 20"
proof -
  assume i: "- (2 ^ 63) \<le> i" "i < 2 ^ 63"
  have "length (nat_str (nat \<bar>i\<bar>)) \<le> 19" by (rule nat_str_length) (use i in simp_all)
  then show ?thesis by (cases "i < 0") (simp_all add: int_str_def)
qed

lemma prefixed_valid: "clean_chars s \<Longrightarrow> length s \<le> 38 \<Longrightarrow> validateBranchName (branchPrefix @ s) = None"
  by (simp add: validateBranchName_def validateName_def branchNameRe_def branchPrefix_def clean_chars_def name_start_def)

text \<open>
  Whatever ref a pull request has (any bytes, any length) and in both naming modes, the name the service
  derives is one the engine accepts, and it starts with the reserved prefix.
\<close>

theorem webhook_names_are_valid:
  assumes "- (2 ^ 63) \<le> p_Number p" "p_Number p < 2 ^ 63"
  shows "validateBranchName (branchName cfg p) = None \<and> has_prefix (branchName cfg p) ''gh-''"
proof -
  have "length (''pr-'' @ int_str (p_Number p)) \<le> 38" using int_str_length [OF assms] by simp
  moreover have "clean_chars (''pr-'' @ int_str (p_Number p))"
    unfolding clean_append using int_str_clean by (simp add: clean_chars_def name_start_def)
  ultimately have "validateBranchName (branchPrefix @ ''pr-'' @ int_str (p_Number p)) = None" by (rule prefixed_valid [rotated])
  moreover have "validateBranchName (branchPrefix @ sanitizeBranchName (p_Ref p) 38) = None"
    by (rule prefixed_valid) (simp_all add: sanitize_clean)
  ultimately show ?thesis
    by (auto simp: branchName_def Let_def maxBranchNameLen_def branchPrefix_def has_prefix_def)
qed

lemma char_values: "char_of (102::nat) = CHR ''f''" "char_of (120::nat) = CHR ''x''"
  by code_simp+

text \<open>
  Different pull requests can share a branch, although the comment on the prefix says that a name derived
  from a webhook never collides: the refs feat/x, Feat_X and feat-x give one name, and a head ref pr-7 gives
  the name that the number gives pull request 7 when its own ref has no usable character.
\<close>

theorem webhook_names_collide:
  "\<exists>cfg p q r t. p_Number p \<noteq> p_Number q \<and> p_Ref p = ''feat/x'' \<and> p_Ref q = ''Feat_X'' \<and> p_Ref r = ''pr-7'' \<and>
     p_Number r \<noteq> 7 \<and> p_Number t = 7 \<and> branchName cfg p = branchName cfg q \<and> branchName cfg r = branchName cfg t"
proof -
  define cfg where "cfg = \<lparr>hc_WebhookSecret = [], hc_Source = ''app'', hc_TTLSeconds = 0, hc_ResetOnPush = False, hc_Repos = [],
    hc_ProxyHost = [], hc_DiffOnPush = False, hc_BranchNaming = ''git-branch''\<rparr>"
  define pay where "pay = (\<lambda>n ref. \<lparr>p_Action = ''opened'', p_Number = n, p_SHA = [], p_Ref = ref, p_FullName = ''o/r'', p_Installation = 0\<rparr>)"
  have "branchName cfg (pay 1 ''feat/x'') = branchName cfg (pay 2 ''Feat_X'')"
    by (simp add: char_values branchName_def cfg_def pay_def sanitizeBranchName_def name_char_def name_start_def ascii_lower_def trim_right_def maxBranchNameLen_def branchPrefix_def)
  moreover have "branchName cfg (pay 1 ''pr-7'') = branchName cfg (pay 7 ''___'')"
    by (simp add: branchName_def cfg_def pay_def sanitizeBranchName_def name_char_def name_start_def ascii_lower_def trim_right_def maxBranchNameLen_def branchPrefix_def
        int_str_def nat_str.simps [of 7])
  ultimately show ?thesis
    by (intro exI [of _ cfg] exI [of _ "pay 1 ''feat/x''"] exI [of _ "pay 2 ''Feat_X''"] exI [of _ "pay 1 ''pr-7''"] exI [of _ "pay 7 ''___''"])
      (simp add: pay_def)
qed

theorem webhook_names_are_valid_witness:
  "validateBranchName (branchName \<lparr>hc_WebhookSecret = [], hc_Source = ''app'', hc_TTLSeconds = 0, hc_ResetOnPush = False, hc_Repos = [],
     hc_ProxyHost = [], hc_DiffOnPush = False, hc_BranchNaming = ''git-branch''\<rparr>
     \<lparr>p_Action = ''opened'', p_Number = 12, p_SHA = [], p_Ref = ''feat/login'', p_FullName = ''o/r'', p_Installation = 0\<rparr>) = None"
  by (rule webhook_names_are_valid [THEN conjunct1]) simp_all

section \<open>Deliveries\<close>

lemma prefixed_value:
  "(if \<not> has_prefix h p then False else case f (trim_prefix h p) of None \<Rightarrow> False | Some g \<Rightarrow> g = m) \<longleftrightarrow>
   (\<exists>x. h = p @ x \<and> f x = Some m)"
  by (auto simp: has_prefix_iff split: option.splits)

text \<open>
  C32: A delivery starts a job exactly when its body could be read within the limit, its signature is the HMAC
  of that body under the secret, it is a pull request event of an allowed repository and its action is one of
  the four; the job is about the branch of that pull request. Every other delivery starts nothing.
\<close>

theorem only_signed_deliveries_start_jobs:
  "snd (handleWebhook H cfg r) = Some job \<longleftrightarrow>
     (\<exists>b p. dl_body r = Inr b \<and> length b \<le> 2 ^ 20 \<and>
       (\<exists>hex. dl_signature r = ''sha256='' @ hex \<and> hex_decode hex = Some (hl_hmac H (bytes_of (hc_WebhookSecret cfg)) (bytes_of b))) \<and>
       dl_event r = ''pull_request'' \<and> hl_payload H b = Inr p \<and>
       (hc_Repos cfg = [] \<or> (\<exists>x \<in> set (hc_Repos cfg). hl_equal_fold H x (p_FullName p))) \<and>
       (p_Action p \<in> {''opened'', ''reopened'', ''synchronize''} \<and> job = EnsureJob p (branchName cfg p) \<or>
        p_Action p = ''closed'' \<and> job = ClosedJob p (branchName cfg p)))"
proof -
  have v: "verifySignature H k b hdr \<longleftrightarrow> (\<exists>hex. hdr = ''sha256='' @ hex \<and> hex_decode hex = Some (hl_hmac H (bytes_of k) (bytes_of b)))"
    for k b hdr
    unfolding verifySignature_def by (rule prefixed_value)
  have d: "snd (hook_dispatch cfg p) = Some job \<longleftrightarrow>
      p_Action p \<in> {''opened'', ''reopened'', ''synchronize''} \<and> job = EnsureJob p (branchName cfg p) \<or>
      p_Action p = ''closed'' \<and> job = ClosedJob p (branchName cfg p)" for p
    by (auto simp: hook_dispatch_def Let_def)
  show ?thesis
    unfolding handleWebhook_def read_body_def maxWebhookBody_def v repoAllowed_def
    by (auto simp: d list_ex_iff split: sum.splits if_splits)
qed

section \<open>Ensuring a branch\<close>

text \<open>A computation that, when it returns a value, leaves \<open>n\<close> in the directory; the same for handlers and 2xx.\<close>

definition found :: "string \<Rightarrow> 'z sys_scheme \<Rightarrow> bool" where
  "found n s \<longleftrightarrow> directory (db s) n \<noteq> None"

definition leaves :: "string \<Rightarrow> ('z sys_scheme, 'a) comp \<Rightarrow> bool" where
  "leaves n m \<longleftrightarrow> (\<forall>s x t. m s = (Inr x, t) \<longrightarrow> found n t)"

definition serves :: "string \<Rightarrow> ('z sys_scheme, response) comp \<Rightarrow> bool" where
  "serves n m \<longleftrightarrow> (\<forall>s x t. m s = (Inr x, t) \<longrightarrow> 200 \<le> status x \<longrightarrow> status x \<le> 299 \<longrightarrow> found n t)"

lemma leaves_bnd: "(\<And>x. leaves n (f x)) \<Longrightarrow> leaves n (bnd m f)"
  unfolding leaves_def by (meson bnd_Inr_iff)

lemma leaves_raise: "leaves n (raise e)"
  by (simp add: leaves_def raise_def)

lemma leaves_if: "leaves n a \<Longrightarrow> leaves n b \<Longrightarrow> leaves n (if p then a else b)"
  by simp

lemma leaves_get: "leaves n (GetBranchByName n)"
  unfolding leaves_def found_def using found_in_directory found_row by (metis option.distinct(1))

lemma leaves_sagas: "leaves n (eng_CreateBranch e c n sn ttl)" "leaves n (ResetBranch e c n)"
  unfolding eng_CreateBranch_def ResetBranch_def
  by (intro leaves_bnd leaves_if leaves_raise leaves_get)+

lemma env_free_found: "env_free (found n)"
  by (simp add: env_free_def found_def)

lemma json_keeps_found: "keeps (found n) (branchJSON b)"
  unfolding branchJSON_def Let_def by (intro keeps_rules keeps_reads [OF env_free_found])

lemma engine_error_status: "299 < status (writeEngineError e)"
  by (simp add: writeEngineError_def writeError_def writeJSON_def Let_def)

lemma serves_or_error:
  assumes "leaves n m" "\<And>x. keeps (found n) (k x)"
  shows "serves n (or_engine_error m k)"
  unfolding serves_def
proof (intro allI impI)
  fix s x t assume r: "or_engine_error m k s = (Inr x, t)" and st: "200 \<le> status x" "status x \<le> 299"
  obtain y u where y: "m s = (y, u)" and k: "(case y of Inl e \<Rightarrow> ok (writeEngineError e) | Inr v \<Rightarrow> k v) u = (Inr x, t)"
    using r unfolding or_engine_error_def by (auto simp: bnd_Inr_iff attempt_run split: prod.splits)
  show "found n t"
  proof (cases y)
    case (Inl e)
    then show ?thesis using k st engine_error_status [of e] by (simp add: ok_run)
  next
    case (Inr v)
    have "found n u" using assms(1) y Inr by (auto simp: leaves_def)
    then show ?thesis using k Inr keepsD [OF assms(2)] by auto
  qed
qed

lemma serves_error: "299 < code \<Longrightarrow> serves n (ok (writeError code msg))"
  by (simp add: serves_def ok_run writeError_def writeJSON_def)

lemma serves_bnd: "(\<And>x. serves n (f x)) \<Longrightarrow> serves n (bnd m f)"
  unfolding serves_def by (meson bnd_Inr_iff)

lemma serves_role: "(\<And>x. serves n (k x)) \<Longrightarrow> serves n (requireRole sha srv hdr mn c k)"
  unfolding requireRole_def by (intro serves_bnd) (simp add: serves_error)

lemma serves_mutate: "(\<And>x. serves n (k x)) \<Longrightarrow> serves n (mutate sha srv hdr mn c k)"
  unfolding mutate_def requireLeader_def by (simp add: serves_error serves_role)

lemma json_reply_keeps: "keeps (found n) (bnd (branchJSON b) (\<lambda>j. ok (writeJSON code (BranchBody j))))"
  by (intro keeps_rules json_keeps_found)

lemma serves_requests:
  "serves n (serve J sha srv c hdr (GetBranchReq n))" "serves n (serve J sha srv c hdr (PostReset n))"
  "cb_Name req = n \<Longrightarrow> cb_Parent req = [] \<Longrightarrow> serves n (serve J sha srv c hdr (PostBranches (Inr req)))"
  unfolding serve_def
  by (auto intro!: serves_role serves_mutate serves_or_error leaves_get leaves_sagas json_reply_keeps serves_error
      simp: getBranchH_def resetBranch_def createBranch_def decode_or_def Let_def)

lemma serves_arrives:
  "serves n (serve J sha srv c (''Bearer '' @ tok) req :: ('z sys_scheme, response) comp) \<Longrightarrow>
   serves n (arrives J sha srv c tok clean req :: ('z sys_scheme, response) comp)"
  unfolding arrives_def by (intro serves_bnd, cases clean) (simp_all add: serves_def ok_run)

lemma serves_answered:
  assumes "serves n m" "answered C m q"
  shows "leaves n (decoded un q)"
proof -
  obtain meth path where q: "q = bnd m (check_status C meth path)" using assms(2) by (auto simp: answered_def)
  have "leaves n q"
    using assms(1) unfolding q leaves_def serves_def
    by (auto simp: bnd_Inr_iff check_status_def Let_def raise_run ok_run split: if_splits)
  then have "found n t" if "q s = (Inr b, u)" "(case un b of Inl e \<Rightarrow> raise e | Inr x \<Rightarrow> ok x) u = (Inr x, t)" for s b u x t
    using that by (cases "un b") (auto simp: leaves_def raise_run ok_run)
  then show ?thesis unfolding leaves_def decoded_def bnd_Inr_iff by blast
qed

lemma client_leaves:
  fixes J :: "string json_lib"
  shows "leaves n (cl_GetBranch C (loopback J sha srv c tok) n)" "leaves n (cl_ResetBranch C (loopback J sha srv c tok) n)"
    "cb_Name req = n \<Longrightarrow> cb_Parent req = [] \<Longrightarrow> leaves n (cl_CreateBranch C (loopback J sha srv c tok) req)"
proof -
  note via = serves_answered [OF serves_arrives]
  show "leaves n (cl_GetBranch C (loopback J sha srv c tok) n)"
    using client_ops(1) [where C = C, OF named_routes(1)] by (metis via [OF serves_requests(1)])
  show "leaves n (cl_ResetBranch C (loopback J sha srv c tok) n)"
    using client_ops(2) [where C = C, OF named_routes(5)] by (metis via [OF serves_requests(2)])
  assume req: "cb_Name req = n" "cb_Parent req = []"
  have "api_route POST ''/v1/branches'' (BranchIn req) = (if True then Some (PostBranches (Inr req)) else None)"
    by (simp only: root_routes if_True)
  from client_ops(12) [where C = C, OF this]
  show "leaves n (cl_CreateBranch C (loopback J sha srv c tok) req)" by (metis via [OF serves_requests(3) [OF req]])
qed

lemma leaves_wrapping: "leaves n m \<Longrightarrow> leaves n (wrapping w m)"
  by (auto simp: leaves_def wrapping_Inr_iff)

lemma leaves_pair: "leaves n m \<Longrightarrow> leaves n (bnd m (\<lambda>b. ok (f b)))"
  by (auto simp: leaves_def bnd_Inr_iff ok_run)

lemma leaves_attempt:
  assumes "leaves n m" "\<And>e. leaves n (f (Inl e))" "\<And>x. leaves n (f (Inr x)) \<or> keeps (found n) (f (Inr x))"
  shows "leaves n (bnd (attempt m) f)"
  unfolding leaves_def
proof (intro allI impI)
  fix s x t assume r: "bnd (attempt m) f s = (Inr x, t)"
  obtain y u where y: "m s = (y, u)" "f y u = (Inr x, t)"
    using r by (auto simp: bnd_run attempt_run split: prod.splits)
  show "found n t"
  proof (cases y)
    case (Inr b)
    then have "found n u" using assms(1) y(1) by (auto simp: leaves_def)
    then show ?thesis using assms(3) [of b] y(2) Inr by (auto simp: leaves_def dest: keepsD)
  qed (use assms(2) y(2) in \<open>auto simp: leaves_def\<close>)
qed

text \<open>
  C29: A job that ensures a branch and reports success leaves a live branch with that name in the registry,
  whether it found it, created it or reset it; the requests go through the client and the server's routes,
  and other processes may write in between.
\<close>

theorem ensure_makes_branch_live:
  assumes "sv_pg S = loopback J sha srv c tok" "ensureBranch S p n s = (Inr r, t)"
  shows "directory (db t) n \<noteq> None"
proof -
  have "leaves n (ensureBranch S p n)"
    unfolding ensureBranch_def Let_def assms(1)
    by (rule leaves_attempt [OF client_leaves(1)])
      (auto intro!: leaves_pair leaves_wrapping client_leaves leaves_raise keeps_rules)
  with assms(2) show ?thesis unfolding leaves_def found_def by blast
qed

definition sample_service :: "string json_lib \<Rightarrow> sys service" where
  "sample_service J = \<lparr>sv_cfg = \<lparr>hc_WebhookSecret = [], hc_Source = ''app'', hc_TTLSeconds = 0, hc_ResetOnPush = False, hc_Repos = [],
       hc_ProxyHost = [], hc_DiffOnPush = False, hc_BranchNaming = ''git-branch''\<rparr>,
     sv_codec = \<lparr>un_error = (\<lambda>_. None), un_source = (\<lambda>_. Inl (Msg [])), un_sources = (\<lambda>_. Inl (Msg [])),
       un_masks = (\<lambda>_. Inl (Msg [])), un_branch = (\<lambda>b. case b of BranchBody x \<Rightarrow> Inr x | _ \<Rightarrow> Inl (Msg [])),
       un_branches = (\<lambda>_. Inl (Msg [])), un_usage = (\<lambda>_. Inl (Msg [])), un_diff = (\<lambda>_. Inl (Msg [])),
       un_history = (\<lambda>_. Inl (Msg [])), un_plan = (\<lambda>_. Inl (Msg [])), un_token = (\<lambda>_. Inl (Msg [])),
       un_tokens = (\<lambda>_. Inl (Msg []))\<rparr>,
     sv_pg = loopback J (\<lambda>x. x) (NewServer sample_engine ''root-token'' 0) Background ''root-token'', sv_gh = None\<rparr>"

definition sample_payload :: payload where
  "sample_payload = \<lparr>p_Action = ''opened'', p_Number = 1, p_SHA = [], p_Ref = ''pr1'', p_FullName = ''o/r'', p_Installation = 0\<rparr>"

lemma get_through_client:
  "cl_GetBranch C (loopback J sha srv c tok) n =
     decoded (un_branch C) (bnd (arrives J sha srv c tok (plain_name n) (GetBranchReq n)) (check_status C GET (''/v1/branches/'' @ PathEscape n)))"
  unfolding cl_GetBranch_def client_do_def loopback_arrives [OF named_routes(1)] ..

theorem ensure_makes_branch_live_witness:
  "\<forall>J. \<exists>r t. ensureBranch (sample_service J) sample_payload ''pr1'' strayed = (Inr r, t) \<and> directory (db t) ''pr1'' \<noteq> None"
proof
  fix J :: "string json_lib"
  have "\<exists>x t. cl_GetBranch (sv_codec (sample_service J)) (sv_pg (sample_service J)) ''pr1'' strayed = (Inr x, t)"
    unfolding sample_service_def service.simps get_through_client decoded_def arrives_def
    by (simp add: plain_name_def serve_def requireRole_def resolveActor_def NewServer_def has_prefix_def trim_prefix_def
        envTokenActor_def roleRank_def RoleAdmin_def RoleViewer_def RoleOperator_def getBranchH_def or_engine_error_def
        GetBranchByName_def getBranch_def sql_query_def sql_def sample_row_def scanBranch_def decryptColumn_def decrypt_def
        encPrefix_def gets_def call_simps empty_tables_def branchJSON_def GetSourceByID_def scan_source_opt_def scanSource_def
        sample_freeze_def writeJSON_def check_status_def strayed_def stubborn_def null_string_def find_key_def)
  then have "\<exists>r t. ensureBranch (sample_service J) sample_payload ''pr1'' strayed = (Inr r, t)"
    by (auto simp: ensureBranch_def Let_def bnd_run attempt_run ok_run sample_payload_def)
  then show "\<exists>r t. ensureBranch (sample_service J) sample_payload ''pr1'' strayed = (Inr r, t) \<and> directory (db t) ''pr1'' \<noteq> None"
    using ensure_makes_branch_live [of "sample_service J" J "\<lambda>x. x" "NewServer sample_engine ''root-token'' 0" Background "''root-token''"]
    by (auto simp: sample_service_def)
qed

section \<open>Jobs stay with their branch\<close>

text \<open>The invariant \<open>land\<close> of \<open>Engine_Frame\<close> along the handlers, the client and the GitHub calls\<close>

lemma land_resolve: "keeps (land n F q) (resolveActor sha srv hdr)"
  unfolding resolveActor_def LookupAPITokenActor_def Let_def
  by (intro keeps_rules keeps_sql_query) (auto simp: land_def env_free_def)

lemma land_json: "keeps (land n F q) (branchJSON b)"
  unfolding branchJSON_def Let_def by (intro keeps_rules land.reads_keep)

lemma land_or_error: "keeps (land n F q) m \<Longrightarrow> (\<And>x. keeps (land n F q) (k x)) \<Longrightarrow> keeps (land n F q) (or_engine_error m k)"
  unfolding or_engine_error_def by (intro keeps_rules)

lemma land_handlers:
  fixes srv :: server
  defines "q \<equiv> is_csi (srv_eng srv)"
  shows "keeps (land n F q) (getBranchH n)" "keeps (land n F q) (resetBranch srv c n)" "keeps (land n F q) (destroyBranch srv c n)"
    "cb_Name req = n \<Longrightarrow> cb_Parent req = [] \<Longrightarrow> keeps (land n F q) (createBranch srv c (Inr req))"
  unfolding getBranchH_def resetBranch_def destroyBranch_def createBranch_def decode_or_def q_def Let_def
  by (auto intro!: land_or_error keeps_rules land_json land.reads_keep land_reset land_destroy land_create_branch)

lemma land_serve:
  assumes "\<And>c. keeps (land n F q :: 'z sys_scheme \<Rightarrow> bool) (handle J sha srv req c)"
  shows "keeps (land n F q :: 'z sys_scheme \<Rightarrow> bool) (serve J sha srv c hdr req)"
  unfolding serve_def mutate_def requireLeader_def requireRole_def
  by (intro keeps_rules land_resolve assms)

lemma land_arrives:
  assumes "\<And>c. keeps (land n F q :: 'z sys_scheme \<Rightarrow> bool) (handle J sha srv req c)"
  shows "keeps (land n F q :: 'z sys_scheme \<Rightarrow> bool) (arrives J sha srv c tok clean req)"
  unfolding arrives_def by (intro keeps_rules land.others_keep land_serve assms)

lemma land_answered: "keeps (land n F q) m \<Longrightarrow> answered C m op \<Longrightarrow> keeps (land n F q) op"
  unfolding answered_def check_status_def by (auto simp: Let_def intro!: keeps_rules)

lemma land_decoded: "keeps (land n F q) m \<Longrightarrow> keeps (land n F q) (decoded un m)"
  unfolding decoded_def by (intro keeps_rules)

lemma land_client:
  fixes J :: "string json_lib" and srv :: server
  defines "q \<equiv> is_csi (srv_eng srv)"
  shows "keeps (land n F q) (cl_GetBranch C (loopback J sha srv c tok) n)"
    "keeps (land n F q) (cl_ResetBranch C (loopback J sha srv c tok) n)"
    "keeps (land n F q) (cl_DestroyBranch C (loopback J sha srv c tok) n)"
    "cb_Name req = n \<Longrightarrow> cb_Parent req = [] \<Longrightarrow> keeps (land n F q) (cl_CreateBranch C (loopback J sha srv c tok) req)"
proof -
  note via = land_decoded [OF land_answered [OF land_arrives]]
  note hs = land_handlers [where srv = srv, folded q_def]
  show "keeps (land n F q) (cl_GetBranch C (loopback J sha srv c tok) n)"
    using client_ops(1) [where C = C, OF named_routes(1)] by (metis via handle.simps(9) hs(1))
  show "keeps (land n F q) (cl_ResetBranch C (loopback J sha srv c tok) n)"
    using client_ops(2) [where C = C, OF named_routes(5)] by (metis via handle.simps(14) hs(2))
  have k: "keeps (land n F q) (bnd m (\<lambda>_. ok ()))" if "keeps (land n F q) m" for m using that by (intro keeps_rules)
  show "keeps (land n F q) (cl_DestroyBranch C (loopback J sha srv c tok) n)"
    using client_ops(3) [where C = C, OF named_routes(2)] by (metis k land_answered [OF land_arrives] handle.simps(13) hs(3))
  assume req: "cb_Name req = n" "cb_Parent req = []"
  have "api_route POST ''/v1/branches'' (BranchIn req) = (if True then Some (PostBranches (Inr req)) else None)"
    by (simp only: root_routes if_True)
  from client_ops(12) [where C = C, OF this]
  show "keeps (land n F q) (cl_CreateBranch C (loopback J sha srv c tok) req)" by (metis via handle.simps(7) hs(4) [OF req])
qed

lemma land_send: "keeps (land n F q) (gh_send r)"
  by (simp add: keeps_def gh_send_def land_def)

lemma land_token: "keeps (land n F q) (AppToken H a i)"
proof -
  have cache: "keeps (land n F q) (modify (\<lambda>s. s\<lparr>tok_cache := (tok_cache s)(i \<mapsto> t)\<rparr>))" for t
    by (simp add: keeps_def modify_def land_def)
  have "keeps (land n F q) (mint H a i)"
    unfolding mint_def Let_def by (intro keeps_rules land.reads_keep land_send)
  then show ?thesis unfolding AppToken_def Let_def by (intro keeps_rules land.reads_keep cache)
qed

lemma land_github: "keeps (land n F q) (github_do H g m p b)"
proof -
  have "keeps (land n F q) (provide H t i)" for t i by (cases t) (simp_all add: provide_def keeps_ok land_token)
  then show ?thesis unfolding github_do_def Let_def by (intro keeps_rules land_send)
qed

lemma land_reports: "keeps (land n F q) (setStatus H S p st d)" "keeps (land n F q) (upsertComment H S p m b)"
  "keeps (land n F q) (UpdateComment H g repo k m b)"
  unfolding setStatus_def upsertComment_def logged_def SetStatus_def UpsertComment_def UpdateComment_def findMarkerComment_def patchComment_def
  by (intro keeps_rules land_github)+

lemma land_jobs:
  assumes "sv_pg S = loopback J sha srv c tok"
  shows "keeps (land n F (is_csi (srv_eng srv))) (ensureBranch S p n)" "keeps (land n F (is_csi (srv_eng srv))) (hook_destroy S n)"
  unfolding ensureBranch_def hook_destroy_def Let_def assms by (intro keeps_rules land_client; simp)+

fun job_branch :: "hook_job \<Rightarrow> string" where
  "job_branch (EnsureJob p n) = n"
| "job_branch (ClosedJob p n) = n"


definition hook_sample :: hook_st where
  "hook_sample = sys.extend strayed (hook_st.fields (\<lambda>_ _. Inl (Msg ''down'')) [] (\<lambda>_. None))"


end
