(* ===== verification/Api_Props.thy ===== *)
theory Api_Props
  imports Api_Server Engine_Safety
begin

text \<open>
  What the control plane guarantees: requests without the required role or sent to a replica that is not
  the leader change nothing, read requests leave the registry alone (with one exception, shown here),
  errors are mapped to statuses without internal detail, and the arithmetic of a requested TTL.
\<close>

section \<open>The gate\<close>

text \<open>The role a bearer header stands for, by the configured token and the table of tokens.\<close>

definition presented_role :: "(nat list \<Rightarrow> nat list) \<Rightarrow> server \<Rightarrow> tables \<Rightarrow> string \<Rightarrow> string" where
  "presented_role sha srv d hdr =
     (if \<not> has_prefix hdr ''Bearer '' then ''''
      else let p = trim_prefix hdr ''Bearer '' in
        if srv_token srv \<noteq> '''' \<and> p = srv_token srv then RoleAdmin
        else if p = '''' then ''''
        else case find_key tk_hash (hashToken sha p) (api_tokens d) of None \<Rightarrow> '''' | Some t \<Rightarrow> tk_role t)"

lemma resolveActor_result:
  assumes "resolveActor sha srv hdr s = (r, t)"
  shows "\<exists>a. r = Inr a \<and> (ActorRole a = presented_role sha srv (db s) hdr \<or> a = no_actor) \<and> db t = db s \<and> trace t = trace s"
  using assms
  by (auto simp: resolveActor_def presented_role_def LookupAPITokenActor_def sql_query_def sql_def Let_def no_actor_def comp_simps
      split: if_splits option.splits prod.splits)

lemma rank_min_role: "0 < roleRank (min_role req)"
  by (cases req) (simp_all add: roleRank_def role_defs)

lemma rank_empty [simp]: "roleRank [] = 0"
  by (simp add: roleRank_def role_defs)

lemma gate_protects:
  assumes "serve J sha srv c hdr req s = (r, t)"
    and "roleRank (presented_role sha srv (db s) hdr) < roleRank (min_role req) \<or> mutating req \<and> \<not> IsLeader srv"
  shows "\<exists>resp. r = Inr resp \<and> status resp \<in> {401, 403, 503} \<and> db t = db s \<and> trace t = trace s"
proof (cases "mutating req \<and> \<not> IsLeader srv")
  case True
  then show ?thesis using assms(1)
    by (auto simp: serve_def mutate_def requireLeader_def ok_run writeError_def writeJSON_def)
next
  case False
  then have low: "roleRank (presented_role sha srv (db s) hdr) < roleRank (min_role req)" using assms(2) by blast
  have run: "requireRole sha srv hdr (min_role req) c (handle J sha srv req) s = (r, t)"
    using assms(1) False by (cases "mutating req") (auto simp: serve_def mutate_def requireLeader_def)
  obtain v u where v: "resolveActor sha srv hdr s = (v, u)" by fastforce
  from resolveActor_result [OF v] obtain a where a: "v = Inr a"
    "ActorRole a = presented_role sha srv (db s) hdr \<or> a = no_actor" "db u = db s" "trace u = trace s" by blast
  have "roleRank (ActorRole a) < roleRank (min_role req)"
    using a(2) low rank_min_role [of req] by (auto simp: no_actor_def)
  then show ?thesis using run a(3,4)
    by (auto simp: requireRole_def bnd_run v a(1) ok_run writeError_def writeJSON_def split: if_splits)
qed

text \<open>
  C16: Nothing happens without the right. When the bearer token's role ranks below what the route asks for,
  or the route mutates and this replica is not the leader, the response is 401, 403 or 503, the registry is
  unchanged and the driver has not been called.
\<close>

theorem gate_protects_state:
  assumes "serve J sha srv c hdr req s = (r, t)"
    and "roleRank (presented_role sha srv (db s) hdr) < roleRank (min_role req) \<or> mutating req \<and> \<not> IsLeader srv"
  shows "\<exists>resp. r = Inr resp \<and> status resp \<in> {401, 403, 503} \<and> db t = db s \<and> trace t = trace s"
  using gate_protects [OF assms] .

section \<open>Reading\<close>

lemma keeps_or_engine_error [keeps_rules]:
  "keeps I m \<Longrightarrow> (\<And>x. keeps I (k x)) \<Longrightarrow> keeps I (or_engine_error m k)"
  unfolding or_engine_error_def by (intro keeps_rules)

lemma keeps_decode_or [keeps_rules]: "(\<And>x. keeps I (k x)) \<Longrightarrow> keeps I (decode_or b k)"
  unfolding decode_or_def by (intro keeps_rules)

context reading
begin

lemma render_keeps [keeps_rules]: "keeps I (branchJSON b)" "keeps I (branches_json bs)"
proof -
  show b: "keeps I (branchJSON b)" for b unfolding branchJSON_def by (intro keeps_rules reads_keep)
  show "keeps I (branches_json bs)" by (induction bs) (simp_all add: keeps_rules b)
qed

lemma token_reads_keep [keeps_rules]: "keeps I (LookupAPITokenActor sha p)" "keeps I ListAPITokens" "keeps I ListSources"
  "keeps I (BranchHistory n)"
  unfolding LookupAPITokenActor_def ListAPITokens_def ListSources_def BranchHistory_def
  by (intro keeps_rules keeps_sql_query time_free)+

lemma read_handlers_keep [keeps_rules]:
  "keeps I listSources" "keeps I (getMaskScripts n)" "keeps I listBranchesH" "keeps I (getBranchH n)"
  "keeps I (branchUsage srv c n)" "keeps I (branchHistory n)" "keeps I (reconcilePlan srv c)" "keeps I listTokens"
  unfolding listSources_def getMaskScripts_def listBranchesH_def getBranchH_def branchUsage_def branchHistory_def
    reconcilePlan_def listTokens_def
  by (intro keeps_rules reads_keep)+

lemma resolve_keeps [keeps_rules]: "keeps I (resolveActor sha srv hdr)"
  unfolding resolveActor_def Let_def by (intro keeps_rules)

lemma require_role_keeps [keeps_rules]:
  "(\<And>x. keeps I (k x)) \<Longrightarrow> keeps I (requireRole sha srv hdr mn c k)"
  unfolding requireRole_def by (intro keeps_rules)

lemma read_requests_keep:
  assumes "\<not> mutating req" "\<And>n d. req \<noteq> GetDiff n d"
  shows "keeps I (serve J sha srv c hdr req)"
proof -
  have "keeps I (handle J sha srv req x)" for x using assms by (cases req) (simp_all add: keeps_rules, blast)
  then show ?thesis unfolding serve_def using assms(1) by (simp add: keeps_rules)
qed

end

text \<open>
  A read request other than a diff leaves the registry exactly as it was, whatever the driver does, when
  no other request runs at the same time.
\<close>

theorem reads_leave_registry_alone:
  assumes "serve J sha srv c hdr req s = (r, t)" "\<not> mutating req" "\<forall>n d. req \<noteq> GetDiff n d" "others s = (\<lambda>_. [])"
  shows "db t = db s"
  using keepsD [OF alone.read_requests_keep [of req "db s"] _ assms(1)] assms(2-4) by (simp add: alone_on_def)

section \<open>Errors\<close>

text \<open>
  Statuses follow the kind of failure: an invalid name is 400, something missing 404, an exceeded quota
  403, a taken name, an illegal transition and a branch or source that is not ready are 409, through any
  number of wrappings; and when the status is 500 the body says nothing but so.
\<close>

theorem engine_errors_are_mapped:
  "status (writeEngineError (Wrap p (Wrap q (Sentinel ErrInvalidName) q') p')) = 400 \<and>
   status (writeEngineError (Wrap p (Wrap q (Sentinel ErrNotFound) q') p')) = 404 \<and>
   status (writeEngineError (Wrap p (Wrap q (Sentinel ErrQuotaExceeded) q') p')) = 403 \<and>
   status (writeEngineError (Wrap p (unique_failed col) p')) = 409 \<and>
   status (writeEngineError (Wrap p (illegal_transition st to) p')) = 409 \<and>
   status (writeEngineError (Wrap p (not_ready what name what') p')) = 409 \<and>
   (status (writeEngineError e) = 500 \<longrightarrow> body (writeEngineError e) = ErrorBody ''internal server error'')"
proof -
  have inf: "strings_contains (p @ (x @ w @ y) @ p') w" for x y w
    using strings_contains_infix [of "p @ x" w "y @ p'"] by simp
  have u: "strings_contains (err_msg (Wrap p (unique_failed col) p')) ''UNIQUE constraint''"
    using inf [of "[]" "''UNIQUE constraint''" "'' failed: '' @ col"] by (simp add: unique_failed_def)
  have i: "strings_contains (err_msg (Wrap p (illegal_transition st to) p')) ''illegal branch transition''"
    using inf [of "[]" "''illegal branch transition''" "'' '' @ branch_state_str st @ '' -> '' @ branch_state_str to"]
    by (simp add: illegal_transition_def)
  have n: "strings_contains (err_msg (Wrap p (not_ready what name what') p')) ''not ready''"
    using inf [of "what @ go_quote name @ '' is '' @ what' @ '', ''" "''not ready''" "[]"] by (simp add: not_ready_def)
  show ?thesis using u i n
    by (auto simp: writeEngineError_def writeError_def writeJSON_def Let_def unique_failed_def illegal_transition_def
        not_ready_def simp del: strings_contains.simps split: if_splits)
qed

lemma engine_error_not_200: "status (writeEngineError e) \<noteq> 200"
  by (simp add: writeEngineError_def writeError_def writeJSON_def Let_def)

text \<open>A registry without branches over a driver with two stray containers.\<close>

definition littered :: sys where
  "littered = (sample_sys empty_tables)\<lparr>drv := stubborn\<rparr>"

text \<open>
  A reconcile pass in which one action failed is not answered with the actions that succeeded: of two
  stray containers the first is removed and the second cannot be, and the response is status 500 with no
  mention of the first.
\<close>

theorem partial_reconcile_is_an_error:
  "\<exists>t. reconcileApply (NewServer sample_engine [] 0) Background littered =
       (Inr \<lparr>status = 500, body = ErrorBody ''internal server error''\<rparr>, t) \<and>
     map (\<lambda>ev. (ev_call ev, ev_ok ev)) (filter (\<lambda>ev. case ev_call ev of CStopRemove _ \<Rightarrow> True | _ \<Rightarrow> False) (trace t)) =
       [(CStopRemove ''k1'', True), (CStopRemove ''k2'', False)]"
  by (simp add: reconcileApply_def NewServer_def time_now_def littered_def stubborn_def or_engine_error_def ApplyReconcile_def
      PlanReconcile_def plan_reaps_def plan_stuck_def plan_orphans_def plan_volumes_def known_containers_def lookup_label_def
      LabelInstance_def act_def ListExpiredBranches_def ListStuckBranches_def ListLiveBranches_def listBranches_def ListLayers_def
      sql_query_def sql_def scan_all.simps empty_tables_def applyAction_def apply_orphan_def gets_def call_simps DefaultStuckTimeout_def
      writeEngineError_def writeError_def writeJSON_def second_def has_prefix_def)

section \<open>The requested TTL\<close>

lemma ttl_exact:
  assumes "0 \<le> n" "n \<le> 9223372036"
  shows "ttl_duration n = n * second"
proof -
  have "word_of_int n * word_of_int second = (word_of_int (n * second) :: 64 word)" by simp
  moreover have "sint (word_of_int (n * second) :: 64 word) = n * second"
    unfolding sint_sbintrunc' using assms by (intro signed_take_bit_int_eq_self) (simp_all add: second_def)
  ultimately show ?thesis unfolding ttl_duration_def by (simp only:)
qed

text \<open>
  C25: The TTL arithmetic of a create request is exact up to 9223372036 seconds, about 292 years. One second
  more wraps around in 64 bits to a negative duration, so the request passes the check for negative values
  and the branch is created without any expiry unless a default is configured.
\<close>

theorem requested_ttl_wraps_around:
  "(\<forall>n \<in> {0..9223372036}. ttl_duration n = n * second) \<and> ttl_duration 9223372037 < 0 \<and>
   (defaultTTL e \<le> 0 \<longrightarrow> expiresAtFor e (ttl_duration 9223372037) s = (Inr [], s))"
proof -
  have neg: "ttl_duration 9223372037 = - 9223372036709551616"
    by (simp add: ttl_duration_def second_def)
  have "ttl_duration n = n * second" if "0 \<le> n" "n \<le> 9223372036" for n using that by (rule ttl_exact)
  moreover have "expiresAtFor e (ttl_duration 9223372037) s = (Inr [], s)" if "defaultTTL e \<le> 0"
    using that by (simp add: neg expiresAtFor_def effective_ttl_def ok_run)
  ultimately show ?thesis using neg by simp
qed

section \<open>A diff is a write\<close>

lemma diff_creates_branch:
  assumes "GetBranchByName n s = (Inr b, s1)" "br_State b = BranchReady" "GetSourceByID (br_SourceID b) s1 = (Inr src, s2)"
    and "rand_hex 3 s2 = (Inr x, s3)" "time_now s3 = (Inr now, s4)"
    and "CreateBranchCtx c (throwaway e b (''diff-'' @ x) (rfc3339 (now + 3600 * second))) s4 = (Inr tw, s5)"
    and "DiffBranch J e c n opts s = (r, t)"
  shows "prefix (transitions (db s5)) (transitions (db t))"
proof -
  let ?rest = "deferred (logCompensationErr ''cleanup'' (DestroyBranch e (WithoutCancel c) (br_Name tw)))
        (bnd (on_error (provision e c tw src) (\<lambda>er.
           bnd (logCompensationErr ''transition'' (TransitionBranchCtx c (br_ID tw) BranchFailed (err_msg er))) (\<lambda>_.
           raise (Wrap (''diff '' @ go_quote n @ '': provision base clone: '') er [])))) (\<lambda>_.
         bnd (GetBranchByName (br_Name tw)) (\<lambda>twRow.
         compare J c n b src (fold (\<lambda>f x. f x) opts 0) twRow)))"
  have "?rest s5 = (r, t)"
    using assms by (simp add: DiffBranch_def Let_def bnd_run diff_wrap_def wrapping_run)
  moreover have "keeps (on_db (log_extends (transitions (db s5)))) ?rest"
    by (intro keeps_rules audit_sys.log_keeps audit_sys.destroy_keeps audit_sys.provision_keeps audit_sys.reg_ops
        audit_sys.reads_keep audit_sys.diff_keeps)
  ultimately show ?thesis
    using keepsD [of "on_db (log_extends (transitions (db s5)))" ?rest s5 r t] by (simp add: on_db_def log_extends_def)
qed

definition viewer_row :: token_row where
  "viewer_row = \<lparr>tk_id = ''t1'', tk_name = ''ci'', tk_hash = [], tk_role = ''viewer'', tk_created_at = []\<rparr>"

definition served_tables :: tables where
  "served_tables = empty_tables\<lparr>branches := [ready_branch_row], api_tokens := [viewer_row],
     sources := [\<lparr>sr_id = ''s1'', sr_name = ''app'', sr_pg_version = ''16'', sr_volume = ''v'', sr_conn_host = ''db'',
       sr_conn_port = 5432, sr_conn_user = ''u'', sr_conn_db = ''app'', sr_network = [], sr_seed_via = ''basebackup'',
       sr_dump_schemas = [], sr_state = SourceReady, sr_generation = 1, sr_created_at = [], sr_updated_at = []\<rparr>]\<rparr>"

definition follower :: server where
  "follower = \<lparr>srv_eng = sample_engine, srv_token = [], srv_stuckTimeout = 600 * second, srv_leader = False\<rparr>"

lemma follower_eng: "srv_eng follower = sample_engine"
  by (simp add: follower_def)

definition no_sha :: "nat list \<Rightarrow> nat list" where "no_sha bs = []"

text \<open>
  The diff route writes although it is routed as a read: a viewer's GET on a replica that is not the
  leader adds entries to the journal, because the diff creates and destroys a throwaway branch.
\<close>

theorem diff_writes_without_leadership:
  "\<exists>r t. \<not> IsLeader follower \<and> presented_role no_sha follower served_tables ''Bearer k'' = RoleViewer \<and>
     serve J no_sha follower Background ''Bearer k'' (GetDiff ''pr1'' []) (sample_sys served_tables) = (r, t) \<and>
     transitions served_tables = [] \<and> transitions (db t) \<noteq> []"
proof -
  let ?a = "\<lparr>ActorName = ''ci'', ActorRole = ''viewer''\<rparr>"
  let ?s = "(sample_sys served_tables)\<lparr>tick := 1\<rparr>"
  let ?diff = "DiffBranch J sample_engine (WithActor Background ?a) ''pr1'' []"
  have hash: "hashToken no_sha p = []" for p by (simp add: hashToken_def no_sha_def hex_encode_def)
  have act: "resolveActor no_sha follower ''Bearer k'' (sample_sys served_tables) = (Inr ?a, ?s)"
    by (simp add: resolveActor_def follower_def has_prefix_def trim_prefix_def LookupAPITokenActor_def hash
        find_key_def served_tables_def viewer_row_def resolve_simps)
  obtain r t where d: "?diff ?s = (r, t)" by fastforce
  define b where "b = (case scanBranch None ready_branch_row of Inr b \<Rightarrow> b)"
  define src where "src = scanSource (hd (sources served_tables))"
  have b: "scanBranch None ready_branch_row = Inr b" "br_State b = BranchReady" "br_SourceID b = ''s1''" "br_Name b = ''pr1''"
    by (simp_all add: b_def scanBranch_def ready_branch_row_def decryptColumn_def decrypt_def has_prefix_def encPrefix_def)
  have c1: "GetBranchByName ''pr1'' ?s = (Inr b, ?s\<lparr>tick := 2\<rparr>)"
    by (simp add: GetBranchByName_def getBranch_def sql_query_def sql_def comp_simps sample_sys_def served_tables_def b(1))
      (simp add: ready_branch_row_def)
  have c3: "GetSourceByID (br_SourceID b) (?s\<lparr>tick := 2\<rparr>) = (Inr src, ?s\<lparr>tick := 3\<rparr>)"
    by (simp add: b(3) GetSourceByID_def sql_query_def sql_def comp_simps sample_sys_def served_tables_def find_key_def
        scan_source_opt_def src_def)
  have c4: "rand_hex 3 (?s\<lparr>tick := 3\<rparr>) = (Inr (hex_encode [3, 3, 3]), ?s\<lparr>tick := 4\<rparr>)"
    by (simp add: rand_hex_def sample_sys_def upt_rec)
  have c5: "time_now (?s\<lparr>tick := 4\<rparr>) = (Inr 0, ?s\<lparr>tick := 5\<rparr>)"
    by (simp add: time_now_def sample_sys_def)
  define tb where "tb = throwaway sample_engine b (''diff-'' @ hex_encode [3, 3, 3]) (rfc3339 (0 + 3600 * second))"
  have tb: "br_Name tb \<noteq> ''pr1''" "br_SourceID tb = ''s1''"
    by (simp_all add: tb_def throwaway_def new_branch_def b)
  have nm: "row_name ready_branch_row = ''pr1''" "row_id ready_branch_row = ''b1''" by (simp_all add: ready_branch_row_def)
  have fresh: "hex_encode (replicate 8 5) \<noteq> ''b1''"
    using hex_encode_length [of "replicate 8 5"] by auto
  have "\<exists>tw s5. CreateBranchCtx (WithActor Background ?a) tb (?s\<lparr>tick := 5\<rparr>) = (Inr tw, s5) \<and> transitions (db s5) \<noteq> []"
    using tb(1) [symmetric] fresh [symmetric]
    by (simp add: tb nm fresh CreateBranchCtx_def newID_def rand_hex_def db_now_def time_now_def journal_def sql_exec_def sql_def
        insert_branch_def insert_transition_def unique_live_names_def live_row_def comp_simps Let_def sample_sys_def
        served_tables_def map_replicate_const)
  then obtain tw s5 where c6: "CreateBranchCtx (WithActor Background ?a) tb (?s\<lparr>tick := 5\<rparr>) = (Inr tw, s5)"
      "transitions (db s5) \<noteq> []" by blast
  from diff_creates_branch [OF c1 b(2) c3 c4 c5 c6(1) [unfolded tb_def] d] c6(2) have "transitions (db t) \<noteq> []" by (auto simp: prefix_def)
  moreover have "\<exists>r'. serve J no_sha follower Background ''Bearer k'' (GetDiff ''pr1'' []) (sample_sys served_tables) = (r', t)"
    using d by (simp add: serve_def requireRole_def bnd_run act roleRank_def role_defs branchDiff_def or_engine_error_def
      attempt_run follower_eng ok_run split: sum.splits)
  ultimately show ?thesis
    by (auto simp: follower_def IsLeader_def presented_role_def has_prefix_def trim_prefix_def hash find_key_def served_tables_def
        viewer_row_def role_defs empty_tables_def)
qed

subsection \<open>Witnesses\<close>

definition raw_json :: "string json_lib" where
  "raw_json = \<lparr>unmarshal_row = (\<lambda>l. Inr [(''row'', l)]), marshal = (\<lambda>v. case v of None \<Rightarrow> ''null'' | Some x \<Rightarrow> x)\<rparr>"

theorem gate_protects_state_witness:
  "\<exists>resp t. serve raw_json no_sha (SetLeader True follower) Background ''Bearer k'' (DeleteBranchReq ''pr1'')
       (sample_sys served_tables) = (Inr resp, t) \<and>
     status resp \<in> {401, 403, 503} \<and> branches (db t) = [ready_branch_row] \<and> trace t = []"
proof -
  obtain r t where s: "serve raw_json no_sha (SetLeader True follower) Background ''Bearer k'' (DeleteBranchReq ''pr1'')
      (sample_sys served_tables) = (r, t)" by fastforce
  have "presented_role no_sha (SetLeader True follower) served_tables ''Bearer k'' = RoleViewer"
    by (simp add: SetLeader_def follower_def presented_role_def has_prefix_def trim_prefix_def hashToken_def no_sha_def hex_encode_def
        find_key_def served_tables_def viewer_row_def role_defs)
  then have "roleRank (presented_role no_sha (SetLeader True follower) (db (sample_sys served_tables)) ''Bearer k'') <
      roleRank (min_role (DeleteBranchReq ''pr1''))"
    by (simp add: sample_sys_def roleRank_def role_defs)
  from gate_protects_state [OF s disjI1 [OF this]] s show ?thesis
    by (auto simp: sample_sys_def served_tables_def)
qed

theorem reads_leave_registry_alone_witness:
  "\<exists>r t. serve raw_json no_sha follower Background ''Bearer k'' GetPlan (sample_sys served_tables) = (r, t) \<and>
     db t = served_tables"
proof -
  obtain r t where s: "serve raw_json no_sha follower Background ''Bearer k'' GetPlan (sample_sys served_tables) = (r, t)"
    by fastforce
  from reads_leave_registry_alone [OF s] s show ?thesis by (simp add: sample_sys_def)
qed

theorem engine_errors_are_mapped_witness:
  "status (writeEngineError (Msg ''disk failure'')) = 500 \<and>
   body (writeEngineError (Msg ''disk failure'')) = ErrorBody ''internal server error''"
proof -
  have "status (writeEngineError (Msg ''disk failure'')) = 500"
    by (simp add: writeEngineError_def writeError_def writeJSON_def Let_def has_prefix_def)
  then show ?thesis using engine_errors_are_mapped [of _ _ _ _ _ _ _ _ _ _ "Msg ''disk failure''"] by blast
qed

theorem requested_ttl_wraps_around_witness:
  "ttl_duration 60 = 60 * second \<and>
   expiresAtFor sample_engine (ttl_duration 9223372037) (sample_sys empty_tables) = (Inr [], sample_sys empty_tables)"
  using requested_ttl_wraps_around [of sample_engine "sample_sys empty_tables"] by (simp add: sample_engine_def)

end
