(* ===== verification/Cli_Props.thy ===== *)
theory Cli_Props
  imports Cli Ghook_Props Api_Props
begin

text \<open>
  The two modes of the command line client: with a server and without one a command runs the same operation of the
  engine, up to the actor and the precision of a TTL, and \<open>doctor\<close> changes nothing and reports drift exactly.
\<close>

section \<open>What a command does to the system\<close>

text \<open>
  Two states that differ at most in clock, key and output; a computation that changes no more than that and never
  fails; a computation whose effect is that of one operation.
\<close>

definition hushed :: "'z pgb_st_scheme \<Rightarrow> 'z pgb_st_scheme \<Rightarrow> bool" where
  "hushed s t \<longleftrightarrow> (\<exists>n w k x. t = s\<lparr>tick := n, wall := w, secrets := k, pgb_out := x\<rparr>)"

definition quiet :: "('a \<Rightarrow> bool) \<Rightarrow> ('z pgb_st_scheme, 'a) comp \<Rightarrow> bool" where
  "quiet P m \<longleftrightarrow> (\<forall>s. \<exists>x t. m s = (Inr x, t) \<and> P x \<and> hushed s t)"

definition performs :: "('z pgb_st_scheme, 'a) comp \<Rightarrow> ('z pgb_st_scheme, 'b) comp \<Rightarrow> bool" where
  "performs m eff \<longleftrightarrow> (\<forall>s. others s = (\<lambda>_. []) \<longrightarrow>
     (\<exists>s1. hushed s s1 \<and> hushed (snd (eff s1)) (snd (m s)) \<and> (isl (fst (m s)) \<longleftrightarrow> isl (fst (eff s1)))))"

lemma hushed_refl [simp]: "hushed s s"
  unfolding hushed_def by (intro exI [of _ "tick s"] exI [of _ "wall s"] exI [of _ "secrets s"] exI [of _ "pgb_out s"]) simp

lemma hushedI: "t = s\<lparr>tick := n, wall := w, secrets := k, pgb_out := x\<rparr> \<Longrightarrow> hushed s t"
  unfolding hushed_def by blast

lemma hushed_trans: "hushed s t \<Longrightarrow> hushed t u \<Longrightarrow> hushed s u"
  unfolding hushed_def by (elim exE, rule exI, rule exI, rule exI, rule exI, simp)

lemma hushed_others: "hushed s t \<Longrightarrow> others t = others s" "hushed s t \<Longrightarrow> db t = db s"
  by (auto simp: hushed_def)

lemma hushed_updates:
  "hushed s (s\<lparr>tick := n\<rparr>)" "hushed s (s\<lparr>wall := w, tick := n\<rparr>)" "hushed s (s\<lparr>pgb_out := x\<rparr>)" "hushed s (s\<lparr>secrets := k\<rparr>)"
proof -
  note i = hushedI [where s = s]
  show "hushed s (s\<lparr>tick := n\<rparr>)" by (rule i [where n = n and w = "wall s" and k = "secrets s" and x = "pgb_out s"]) simp
  show "hushed s (s\<lparr>wall := w, tick := n\<rparr>)" by (rule i [where n = n and w = w and k = "secrets s" and x = "pgb_out s"]) simp
  show "hushed s (s\<lparr>pgb_out := x\<rparr>)" by (rule i [where n = "tick s" and w = "wall s" and k = "secrets s" and x = x]) simp
  show "hushed s (s\<lparr>secrets := k\<rparr>)" by (rule i [where n = "tick s" and w = "wall s" and k = k and x = "pgb_out s"]) simp
qed

lemma quiet_ok: "P x \<Longrightarrow> quiet P (ok x)"
  by (simp add: quiet_def ok_def)

lemma quiet_bnd:
  fixes m :: "('b pgb_st_scheme, 'a) comp"
  assumes "quiet P m" "\<And>x. P x \<Longrightarrow> quiet Q (f x)"
  shows "quiet Q (bnd m f)"
  unfolding quiet_def
proof
  fix s :: "'b pgb_st_scheme"
  obtain x t where m: "m s = (Inr x, t)" "P x" "hushed s t" using assms(1) unfolding quiet_def by blast
  obtain y u where "f x t = (Inr y, u)" "Q y" "hushed t u" using assms(2) [OF m(2)] unfolding quiet_def by blast
  then show "\<exists>x t. bnd m f s = (Inr x, t) \<and> Q x \<and> hushed s t" using m hushed_trans by (auto simp: bnd_def)
qed

lemma quiet_time: "quiet (\<lambda>_. True) time_now"
  by (simp add: quiet_def time_now_def Let_def hushed_updates)

lemma quiet_say: "quiet (\<lambda>_. True) (say x)"
  by (simp add: quiet_def say_def modify_def hushed_updates)

lemma quiet_since: "quiet (\<lambda>_. True) (since_str t)"
  unfolding since_str_def by (rule quiet_bnd [OF quiet_time]) (simp add: quiet_ok)

lemma performs_self: "performs m m"
  unfolding performs_def using hushed_refl by blast

lemma performs_after:
  fixes m :: "('b pgb_st_scheme, 'a) comp"
  assumes "quiet P m" "\<And>x. P x \<Longrightarrow> performs (f x) eff"
  shows "performs (bnd m f) eff"
  unfolding performs_def
proof (intro allI impI)
  fix s :: "'b pgb_st_scheme" assume o: "others s = (\<lambda>_. [])"
  obtain x t where m: "m s = (Inr x, t)" "P x" "hushed s t" using assms(1) unfolding quiet_def by blast
  then have "others t = (\<lambda>_. [])" using o hushed_others by metis
  then obtain s1 where "hushed t s1" "hushed (snd (eff s1)) (snd (f x t))" "isl (fst (f x t)) \<longleftrightarrow> isl (fst (eff s1))"
    using assms(2) [OF m(2)] unfolding performs_def by blast
  then show "\<exists>s1. hushed s s1 \<and> hushed (snd (eff s1)) (snd (bnd m f s)) \<and> (isl (fst (bnd m f s)) \<longleftrightarrow> isl (fst (eff s1)))"
    using m hushed_trans by (auto simp: bnd_def)
qed

lemma performs_then:
  fixes m :: "('b pgb_st_scheme, 'a) comp"
  assumes "performs m eff" "\<And>x. quiet Q (f x)"
  shows "performs (bnd m f) eff"
  unfolding performs_def
proof (intro allI impI)
  fix s :: "'b pgb_st_scheme" assume "others s = (\<lambda>_. [])"
  then obtain s1 where s1: "hushed s s1" "hushed (snd (eff s1)) (snd (m s))" "isl (fst (m s)) \<longleftrightarrow> isl (fst (eff s1))"
    using assms(1) unfolding performs_def by blast
  have "(isl (fst (bnd m f s)) \<longleftrightarrow> isl (fst (m s))) \<and> hushed (snd (m s)) (snd (bnd m f s))"
  proof (cases "m s")
    case (Pair r t)
    show ?thesis
    proof (cases r)
      case (Inr x)
      then obtain y u where "f x t = (Inr y, u)" "hushed t u" using assms(2) unfolding quiet_def by blast
      then show ?thesis using Pair Inr by (simp add: bnd_def)
    qed (use Pair in \<open>simp add: bnd_def\<close>)
  qed
  then show "\<exists>s1. hushed s s1 \<and> hushed (snd (eff s1)) (snd (bnd m f s)) \<and> (isl (fst (bnd m f s)) \<longleftrightarrow> isl (fst (eff s1)))"
    using s1 hushed_trans by blast
qed

lemma performs_waiting: "performs m eff \<Longrightarrow> performs (bnd interleaved (\<lambda>_. m)) eff"
  unfolding performs_def
proof (intro allI impI)
  fix s :: "'a pgb_st_scheme"
  assume m: "\<forall>s. others s = (\<lambda>_. []) \<longrightarrow> (\<exists>s1. hushed s s1 \<and> hushed (snd (eff s1)) (snd (m s)) \<and> (isl (fst (m s)) \<longleftrightarrow> isl (fst (eff s1))))"
    and o: "others s = (\<lambda>_. [])"
  have "bnd interleaved (\<lambda>_. m) s = m (s\<lparr>tick := Suc (tick s)\<rparr>)" using o by (simp add: bnd_def interleaved_def run_ops_def)
  moreover have "hushed s (s\<lparr>tick := Suc (tick s)\<rparr>)" by (rule hushed_updates)
  ultimately show "\<exists>s1. hushed s s1 \<and> hushed (snd (eff s1)) (snd (bnd interleaved (\<lambda>_. m) s)) \<and>
      (isl (fst (bnd interleaved (\<lambda>_. m) s)) \<longleftrightarrow> isl (fst (eff s1)))"
    using spec [OF m, of "s\<lparr>tick := Suc (tick s)\<rparr>"] o hushed_trans by auto
qed

section \<open>Through the server\<close>

text \<open>A handler that answers 2xx exactly when its operation succeeds, with a body that decodes.\<close>

definition answers :: "(api_body \<Rightarrow> err + 'c) \<Rightarrow> ('z pgb_st_scheme, response) comp \<Rightarrow> bool" where
  "answers un m \<longleftrightarrow> quiet (\<lambda>r. 200 \<le> status r \<and> status r \<le> 299 \<and> \<not> isl (un (body r))) m"

lemma quiet_attempt: "(\<And>s. hushed s (snd (m s))) \<Longrightarrow> quiet (\<lambda>_. True) (attempt m)"
  unfolding quiet_def attempt_def by (auto split: prod.splits) (metis snd_conv)

lemma quiet_branchJSON: "quiet (\<lambda>_. True) (branchJSON b)"
proof -
  have "hushed s (snd (GetSourceByID i s))" for i and s :: "'a pgb_st_scheme"
    by (auto simp: GetSourceByID_def bnd_def sql_query_def sql_def scan_source_opt_def raise_def ok_def gets_def hushed_updates
        split: option.splits prod.splits sum.splits)
  note a = quiet_attempt [OF this]
  show ?thesis unfolding branchJSON_def by (rule quiet_bnd [OF a]) (simp add: Let_def quiet_ok)
qed

lemma answers_branch:
  "codec_ok C \<Longrightarrow> 200 \<le> k \<Longrightarrow> k \<le> 299 \<Longrightarrow> answers (un_branch C) (bnd (branchJSON b) (\<lambda>j. ok (writeJSON k (BranchBody j))))"
  unfolding answers_def by (rule quiet_bnd [OF quiet_branchJSON]) (simp add: quiet_ok writeJSON_def codec_ok_def)

lemma answers_empty: "answers (\<lambda>_. Inr ()) (ok (writeJSON 204 NoBody))"
  by (simp add: answers_def quiet_ok writeJSON_def)

lemma performs_request:
  fixes eff :: "('b pgb_st_scheme, 'a) comp"
  assumes "\<And>x. answers un (k x)"
  shows "performs (decoded un (bnd (or_engine_error eff k) (check_status C m p))) eff"
  unfolding performs_def
proof (intro allI impI)
  fix s :: "'b pgb_st_scheme"
  have "hushed (snd (eff s)) (snd (decoded un (bnd (or_engine_error eff k) (check_status C m p)) s)) \<and>
      (isl (fst (decoded un (bnd (or_engine_error eff k) (check_status C m p)) s)) \<longleftrightarrow> isl (fst (eff s)))"
  proof (cases "eff s")
    case (Pair r t)
    show ?thesis
    proof (cases r)
      case (Inl e)
      then show ?thesis using Pair engine_error_status [of e]
        by (simp add: decoded_def or_engine_error_def bnd_def attempt_def ok_def check_status_def raise_def Let_def)
    next
      case (Inr x)
      obtain y u where u: "k x t = (Inr y, u)" "200 \<le> status y" "status y \<le> 299" "\<not> isl (un (body y))" "hushed t u"
        using assms [of x] unfolding answers_def quiet_def by blast
      then obtain z where "un (body y) = Inr z" by (cases "un (body y)") auto
      then show ?thesis using Pair Inr u
        by (simp add: decoded_def or_engine_error_def bnd_def attempt_def ok_def check_status_def)
    qed
  qed
  then show "\<exists>s1. hushed s s1 \<and> hushed (snd (eff s1)) (snd (decoded un (bnd (or_engine_error eff k) (check_status C m p)) s)) \<and>
      (isl (fst (decoded un (bnd (or_engine_error eff k) (check_status C m p)) s)) \<longleftrightarrow> isl (fst (eff s1)))"
    using hushed_refl by blast
qed

text \<open>The root token on the leader goes straight to the handler.\<close>

definition root_ctx :: "ctx \<Rightarrow> ctx" where
  "root_ctx c = WithActor c \<lparr>ActorName = envTokenActor, ActorRole = RoleAdmin\<rparr>"

lemma resolve_root: "srv_token srv \<noteq> [] \<Longrightarrow>
    resolveActor sha srv (''Bearer '' @ srv_token srv) = ok \<lparr>ActorName = envTokenActor, ActorRole = RoleAdmin\<rparr>"
  by (simp add: resolveActor_def trim_prefix_def has_prefix_def)

lemma serve_root:
  assumes "srv_token srv \<noteq> []" "IsLeader srv"
  shows "serve J sha srv c (''Bearer '' @ srv_token srv) req = handle J sha srv req (root_ctx c)"
proof -
  have "RoleAdmin \<noteq> []" "\<not> roleRank RoleAdmin < roleRank (min_role req)" by (simp_all add: roleRank_def role_defs)
  then have "requireRole sha srv (''Bearer '' @ srv_token srv) (min_role req) c (handle J sha srv req) = handle J sha srv req (root_ctx c)"
    unfolding requireRole_def resolve_root [OF assms(1)] bnd_ok by (simp add: root_ctx_def)
  then show ?thesis using assms(2) unfolding serve_def mutate_def requireLeader_def by simp
qed

lemma bnd_bnd: "bnd (bnd m f) g = bnd m (\<lambda>x. bnd (f x) g)"
  by (rule ext) (auto simp: bnd_def split: prod.splits sum.splits)

lemma performs_remote:
  assumes "api_route m p b = Some req" "srv_token srv \<noteq> []" "IsLeader srv"
    and "handle J sha srv req (root_ctx c) = or_engine_error eff k" "\<And>x. answers un (k x)"
  shows "performs (decoded un (client_do C (loopback J sha srv c (srv_token srv)) m p b)) eff"
proof -
  have "decoded un (client_do C (loopback J sha srv c (srv_token srv)) m p b) =
      bnd interleaved (\<lambda>_. decoded un (bnd (or_engine_error eff k) (check_status C m p)))"
    unfolding client_do_def loopback_def decoded_def bnd_bnd assms(1) option.case serve_root [OF assms(2,3)] assms(4) ..
  then show ?thesis by (simp only:) (rule performs_waiting, rule performs_request, rule assms(5))
qed


section \<open>Without a server\<close>

text \<open>The engine a command builds when home directory, registry and Docker client are there.\<close>

definition local_engine :: "'s cli_env \<Rightarrow> engine \<Rightarrow> bool" where
  "local_engine E e \<longleftrightarrow> (\<exists>cfg. config_Load (ce_world E) = Inr cfg \<and> EnsureHome (ce_world E) cfg = None \<and>
     w_open (ce_world E) (cfg_RegistryPath cfg) = None \<and> w_docker (ce_world E) = None \<and>
     e = New (w_scripts (ce_world E)) (cfg_PostgresImage cfg) [])"

lemma quiet_open: "local_engine E e \<Longrightarrow> quiet (\<lambda>x. x = e) (open_engine E)"
  by (auto simp: local_engine_def quiet_def open_engine_def openRegistry_def bnd_def lift_sum_def lift_err_def ok_def modify_def
      hushed_updates)

lemma performs_local: "local_engine E e \<Longrightarrow> performs (f e) eff \<Longrightarrow> performs (bnd (open_engine E) f) eff"
  by (rule performs_after [OF quiet_open], assumption, hypsubst)

section \<open>The two modes\<close>

definition creates_branch :: "engine \<Rightarrow> ctx \<Rightarrow> string \<Rightarrow> string \<Rightarrow> int \<Rightarrow> string \<Rightarrow> ('z sys_scheme, branch) comp" where
  "creates_branch e c from fb ttl n = (if fb \<noteq> '''' then CreateBranchFrom e c n fb ttl else eng_CreateBranch e c n from ttl)"

lemma dropped_decoded: "bnd m (\<lambda>_. ok ()) = decoded (\<lambda>_. Inr ()) m"
  by (simp add: decoded_def)

lemma ttl_whole: "0 \<le> ttl \<Longrightarrow> ttl < 2 ^ 63 \<Longrightarrow> ttl_duration (whole_seconds ttl) = ttl - ttl mod second"
  using ttl_exact [of "ttl div second"] by (simp add: whole_seconds_def second_def minus_mod_eq_div_mult)

text \<open>A server that the command reaches with the root token, and that leads.\<close>

definition reaches :: "('z pgb_st_scheme) cli_env \<Rightarrow> string \<Rightarrow> string json_lib \<Rightarrow> (nat list \<Rightarrow> nat list) \<Rightarrow> server \<Rightarrow> ctx \<Rightarrow> bool" where
  "reaches E sv J sha srv c \<longleftrightarrow> sv \<noteq> [] \<and> w_getenv (ce_world E) ''PGBRANCH_TOKEN'' = srv_token srv \<and> srv_token srv \<noteq> [] \<and>
     IsLeader srv \<and> ce_dial E sv (srv_token srv) = loopback J sha srv c (srv_token srv) \<and> codec_ok (ce_codec E)"

lemma server_mode: "reaches E sv J sha srv c \<Longrightarrow> serverClient E sv = Some (loopback J sha srv c (srv_token srv))"
  by (simp add: reaches_def serverClient_def)

lemma local_mode: "serverClient E [] = None"
  by (simp add: serverClient_def)

lemma plain_nonempty: "plain_name n \<Longrightarrow> n \<noteq> []"
  by (auto simp: plain_name_def)

lemma remote_operations:
  assumes r: "reaches E sv J sha srv c" and n: "plain_name n" and ttl: "(from = []) \<noteq> (fb = [])" "0 \<le> ttl" "ttl < 2 ^ 63"
  shows "performs (cl_DestroyBranch (ce_codec E) (loopback J sha srv c (srv_token srv)) n) (DestroyBranch (srv_eng srv) (root_ctx c) n)"
    "performs (cl_RemoveSource (ce_codec E) (loopback J sha srv c (srv_token srv)) n) (RemoveSource (srv_eng srv) (root_ctx c) n)"
    "performs (cl_ResetBranch (ce_codec E) (loopback J sha srv c (srv_token srv)) n) (ResetBranch (srv_eng srv) (root_ctx c) n)"
    "performs (cl_CreateBranch (ce_codec E) (loopback J sha srv c (srv_token srv))
        \<lparr>cb_Name = n, cb_Source = from, cb_Parent = fb, cb_TTLSeconds = whole_seconds ttl\<rparr>)
      (creates_branch (srv_eng srv) (root_ctx c) from fb (ttl - ttl mod second) n)"
proof -
  have srv: "srv_token srv \<noteq> []" "IsLeader srv" "codec_ok (ce_codec E)" using r by (simp_all add: reaches_def)
  note remote = performs_remote [OF _ srv(1,2)] and routes = named_routes [of n, unfolded if_P [OF n]]
  show "performs (cl_DestroyBranch (ce_codec E) (loopback J sha srv c (srv_token srv)) n) (DestroyBranch (srv_eng srv) (root_ctx c) n)"
    unfolding cl_DestroyBranch_def dropped_decoded
    by (rule remote [OF routes(2) _ answers_empty]) (simp add: destroyBranch_def)
  show "performs (cl_RemoveSource (ce_codec E) (loopback J sha srv c (srv_token srv)) n) (RemoveSource (srv_eng srv) (root_ctx c) n)"
    unfolding cl_RemoveSource_def dropped_decoded
    by (rule remote [OF routes(3) _ answers_empty]) (simp add: removeSource_def)
  show "performs (cl_ResetBranch (ce_codec E) (loopback J sha srv c (srv_token srv)) n) (ResetBranch (srv_eng srv) (root_ctx c) n)"
    unfolding cl_ResetBranch_def
    by (rule remote [OF routes(5) _ answers_branch [OF srv(3)]]) (simp add: resetBranch_def, simp_all)
  have w: "0 \<le> whole_seconds ttl" using ttl by (simp add: whole_seconds_def second_def)
  show "performs (cl_CreateBranch (ce_codec E) (loopback J sha srv c (srv_token srv))
        \<lparr>cb_Name = n, cb_Source = from, cb_Parent = fb, cb_TTLSeconds = whole_seconds ttl\<rparr>)
      (creates_branch (srv_eng srv) (root_ctx c) from fb (ttl - ttl mod second) n)"
    unfolding cl_CreateBranch_def
    by (rule remote [where k = "\<lambda>b. bnd (branchJSON b) (\<lambda>j. ok (writeJSON 201 (BranchBody j)))", OF root_routes(3) _ answers_branch [OF srv(3)]])
      (use w ttl plain_nonempty [OF n] in \<open>simp_all add: createBranch_def decode_or_def creates_branch_def ttl_whole Let_def\<close>)
qed


lemma quiet_tails: "quiet (\<lambda>_. True) (bnd (since_str t) (\<lambda>d. say (f d)))"
  by (rule quiet_bnd [OF quiet_since quiet_say])



section \<open>The doctor\<close>

definition listing_call :: "drv_event \<Rightarrow> bool" where
  "listing_call ev \<longleftrightarrow> ev_call ev = CListManaged \<or> (\<exists>i. ev_call ev = CListManagedVolumes i)"

lemma plan_only_lists: "keeps (since h listing_call) (PlanReconcile c now st)"
proof -
  have "keeps (since h listing_call) (plan_layers ls)" for ls
    by (induction ls) (auto intro!: keeps_rules since_reads)
  then show ?thesis
    unfolding PlanReconcile_def plan_reaps_def plan_stuck_def plan_orphans_def plan_volumes_def drv_ListManaged_def drv_ListManagedVolumes_def
    by (intro keeps_rules keeps_since_call since_reads) (auto simp: listing_call_def)
qed

lemma doctor_exit:
  assumes "planReconcile E x st s = (q, t)"
  shows "fst (pgb_main E (Some x) (Doctor st) s) = 0 \<longleftrightarrow> q = Inr []" "hushed t (snd (pgb_main E (Some x) (Doctor st) s))"
  using assms by (auto simp: pgb_main_def server_flag_def newDoctorCmd_def bnd_def say_def modify_def raise_def ok_def Drift_def
      hushed_updates split: sum.splits if_splits)

lemma plan_local:
  assumes "local_engine E e"
  shows "\<exists>s1 now. hushed s s1 \<and> planReconcile E [] st s = PlanReconcile Background now st s1"
proof -
  obtain t where "open_engine E s = (Inr e, t)" "hushed s t" using quiet_open [OF assms] unfolding quiet_def by blast
  moreover obtain now u where "time_now t = (Inr now, u)" "hushed t u" using quiet_time unfolding quiet_def by blast
  ultimately show ?thesis using hushed_trans [of s t u] by (auto simp: planReconcile_def local_mode bnd_def)
qed

lemma plan_remote:
  assumes r: "reaches E sv J sha srv c" and o: "others s = (\<lambda>_. [])"
  shows "\<exists>s1 now q t. hushed s s1 \<and> planReconcile E sv st s = (q, t) \<and> snd (PlanReconcile (root_ctx c) now (srv_stuckTimeout srv) s1) = t \<and>
    (q = Inr [] \<longleftrightarrow> fst (PlanReconcile (root_ctx c) now (srv_stuckTimeout srv) s1) = Inr [])"
proof -
  let ?s = "s\<lparr>tick := Suc (tick s)\<rparr>" and ?L = "loopback J sha srv c (srv_token srv)"
  have srv: "srv_token srv \<noteq> []" "IsLeader srv" "codec_ok (ce_codec E)" using r by (simp_all add: reaches_def)
  obtain now u where u: "time_now ?s = (Inr now, u)" "hushed ?s u" using quiet_time unfolding quiet_def by blast
  have "interleaved s = (Inr (), ?s)" using o by (simp add: interleaved_def run_ops_def)
  then have "?L GET ''/v1/reconcile/plan'' NoIn s = reconcilePlan srv (root_ctx c) ?s"
    unfolding loopback_def root_routes option.case serve_root [OF srv(1,2)] by (simp add: bnd_def)
  then have "planReconcile E sv st s = decoded (un_plan (ce_codec E)) (bnd (reconcilePlan srv (root_ctx c)) (check_status (ce_codec E) GET ''/v1/reconcile/plan'')) ?s"
    unfolding planReconcile_def server_mode [OF r] option.case cl_ReconcilePlan_def client_do_def decoded_def bnd_def by simp
  moreover have "hushed s u" using hushed_trans [OF hushed_updates(1) u(2)] .
  ultimately show ?thesis
  proof (cases "PlanReconcile (root_ctx c) now (srv_stuckTimeout srv) u")
    case (Pair q t)
    show ?thesis using \<open>hushed s u\<close> \<open>planReconcile E sv st s = _\<close> Pair u(1) srv(3)
      by (intro exI [of _ u] exI [of _ now], cases q)
        (simp_all add: decoded_def reconcilePlan_def or_engine_error_def bnd_def attempt_def ok_def check_status_def raise_def Let_def
          engine_error_status writeJSON_def codec_ok_def not_le)
  qed
qed

text \<open>
  \<open>pgb doctor\<close> is a dry run with an exact verdict. In both modes it exits with status 0 exactly when the reconcile plan
  could be computed and is empty, it leaves the registry as it was, and it asks the driver for nothing but lists.
\<close>

theorem doctor_is_a_dry_run:
  assumes "reaches E sv J sha srv c" "local_engine E e" "others s = (\<lambda>_. [])"
  shows "(\<exists>s1 now. hushed s s1 \<and>
      (fst (pgb_main E (Some sv) (Doctor st) s) = 0 \<longleftrightarrow> fst (PlanReconcile (root_ctx c) now (srv_stuckTimeout srv) s1) = Inr [])) \<and>
    (\<exists>s1 now. hushed s s1 \<and>
      (fst (pgb_main E (Some []) (Doctor st) s) = 0 \<longleftrightarrow> fst (PlanReconcile Background now st s1) = Inr [])) \<and>
    (\<forall>x \<in> {[], sv}. let t = snd (pgb_main E (Some x) (Doctor st) s) in
       db t = db s \<and> (\<exists>evs. trace t = trace s @ evs \<and> (\<forall>ev \<in> set evs. listing_call ev)))"
proof -
  have effect: "db t = db s \<and> (\<exists>evs. trace t = trace s @ evs \<and> (\<forall>ev \<in> set evs. listing_call ev))"
    if "hushed s s1" "hushed (snd (PlanReconcile c' now st' s1)) t" for s1 t c' now st'
  proof -
    have s1: "alone_on (db s) s1" "since (trace s) listing_call s1"
      using that(1) assms(3) by (auto simp: hushed_def alone_on_def since_def)
    have "alone_on (db s) (snd (PlanReconcile c' now st' s1))" "since (trace s) listing_call (snd (PlanReconcile c' now st' s1))"
      using alone.plan_keeps plan_only_lists s1 unfolding keeps_def by blast+
    then show ?thesis using that(2) by (auto simp: hushed_def alone_on_def since_def)
  qed
  obtain s1 now q t where rm: "hushed s s1" "planReconcile E sv st s = (q, t)"
      "snd (PlanReconcile (root_ctx c) now (srv_stuckTimeout srv) s1) = t"
      "q = Inr [] \<longleftrightarrow> fst (PlanReconcile (root_ctx c) now (srv_stuckTimeout srv) s1) = Inr []"
    using plan_remote [OF assms(1,3)] by blast
  obtain s2 now2 where lo: "hushed s s2" "planReconcile E [] st s = PlanReconcile Background now2 st s2"
    using plan_local [OF assms(2)] by blast
  note exits = doctor_exit [OF rm(2)] doctor_exit [OF lo(2) [THEN trans, OF prod.collapse [symmetric]]]
  have "hushed (snd (PlanReconcile (root_ctx c) now (srv_stuckTimeout srv) s1)) (snd (pgb_main E (Some sv) (Doctor st) s))"
    using exits(2) rm(3) by simp
  then have "db (snd (pgb_main E (Some sv) (Doctor st) s)) = db s \<and>
      (\<exists>evs. trace (snd (pgb_main E (Some sv) (Doctor st) s)) = trace s @ evs \<and> (\<forall>ev \<in> set evs. listing_call ev))"
    by (rule effect [OF rm(1)])
  moreover have "db (snd (pgb_main E (Some []) (Doctor st) s)) = db s \<and>
      (\<exists>evs. trace (snd (pgb_main E (Some []) (Doctor st) s)) = trace s @ evs \<and> (\<forall>ev \<in> set evs. listing_call ev))"
    by (rule effect [OF lo(1) exits(4)])
  ultimately have eff: "\<forall>x \<in> {[], sv}. db (snd (pgb_main E (Some x) (Doctor st) s)) = db s \<and>
      (\<exists>evs. trace (snd (pgb_main E (Some x) (Doctor st) s)) = trace s @ evs \<and> (\<forall>ev \<in> set evs. listing_call ev))"
    by simp
  have "\<exists>s1 now. hushed s s1 \<and>
      (fst (pgb_main E (Some sv) (Doctor st) s) = 0 \<longleftrightarrow> fst (PlanReconcile (root_ctx c) now (srv_stuckTimeout srv) s1) = Inr [])"
    by (intro exI [of _ s1] exI [of _ now] conjI rm(1)) (simp add: exits(1) rm(4))
  moreover have "\<exists>s1 now. hushed s s1 \<and>
      (fst (pgb_main E (Some []) (Doctor st) s) = 0 \<longleftrightarrow> fst (PlanReconcile Background now st s1) = Inr [])"
    by (intro exI [of _ s2] exI [of _ now2] conjI lo(1)) (simp add: exits(3))
  ultimately show ?thesis using eff unfolding Let_def by (intro conjI)
qed


section \<open>A client and its server\<close>

definition sample_codec :: codec where
  "sample_codec = \<lparr>un_error = (\<lambda>b. case b of ErrorBody x \<Rightarrow> Some x | _ \<Rightarrow> None),
     un_source = (\<lambda>b. case b of SourceBody x \<Rightarrow> Inr x | _ \<Rightarrow> Inl (Msg [])), un_sources = (\<lambda>b. case b of SourcesBody x \<Rightarrow> Inr x | _ \<Rightarrow> Inl (Msg [])),
     un_masks = (\<lambda>b. case b of MasksBody x \<Rightarrow> Inr x | _ \<Rightarrow> Inl (Msg [])), un_branch = (\<lambda>b. case b of BranchBody x \<Rightarrow> Inr x | _ \<Rightarrow> Inl (Msg [])),
     un_branches = (\<lambda>b. case b of BranchesBody x \<Rightarrow> Inr x | _ \<Rightarrow> Inl (Msg [])), un_usage = (\<lambda>b. case b of UsageBody x \<Rightarrow> Inr x | _ \<Rightarrow> Inl (Msg [])),
     un_diff = (\<lambda>b. case b of DiffBody x \<Rightarrow> Inr x | _ \<Rightarrow> Inl (Msg [])), un_history = (\<lambda>b. case b of HistoryBody x \<Rightarrow> Inr x | _ \<Rightarrow> Inl (Msg [])),
     un_plan = (\<lambda>b. case b of PlanBody x \<Rightarrow> Inr x | _ \<Rightarrow> Inl (Msg [])), un_token = (\<lambda>b. case b of TokenBody x \<Rightarrow> Inr x | _ \<Rightarrow> Inl (Msg [])),
     un_tokens = (\<lambda>b. case b of TokensBody x \<Rightarrow> Inr x | _ \<Rightarrow> Inl (Msg []))\<rparr>"

definition sample_server :: server where
  "sample_server = NewServer sample_engine ''secret'' 0"

definition sample_cli :: "pgb_st cli_env" where
  "sample_cli = \<lparr>ce_world = sample_world, ce_codec = sample_codec,
     ce_dial = (\<lambda>_ tok. loopback raw_json (\<lambda>x. x) sample_server Background tok), ce_hostname = (\<lambda>_. Inr ''b''),
     ce_read_file = (\<lambda>_. Inr []), ce_json = raw_json, ce_json_string = go_quote\<rparr>"

definition local_sample :: engine where
  "local_sample = New (\<lambda>_. []) ''postgres:17'' []"

lemma sample_reaches: "reaches sample_cli ''http://b:7070'' raw_json (\<lambda>x. x) sample_server Background"
  by (simp add: reaches_def sample_cli_def sample_server_def NewServer_def IsLeader_def sample_world_def codec_ok_def sample_codec_def)

lemma sample_local: "local_engine sample_cli local_sample"
  by (simp add: local_engine_def sample_cli_def sample_world_def config_Load_def EnsureHome_def local_sample_def)

definition sample_pgb :: pgb_st where
  "sample_pgb = sys.extend strayed (pgb_st.fields [])"


theorem doctor_is_a_dry_run_witness:
  "branches (db sample_pgb) \<noteq> [] \<and> (\<forall>x \<in> {[], ''http://b:7070''}.
     db (snd (pgb_main sample_cli (Some x) (Doctor second) sample_pgb)) = db sample_pgb)"
proof -
  have "others sample_pgb = (\<lambda>_. [])" "branches (db sample_pgb) \<noteq> []"
    by (simp_all add: sample_pgb_def sys.defs strayed_def sample_sys_def)
  then show ?thesis using doctor_is_a_dry_run [OF sample_reaches sample_local, of sample_pgb second] by (simp add: Let_def)
qed


end
