(* ===== verification/Sdk.thy ===== *)
theory Sdk
  imports Cli_Props
begin

text \<open>
  The client libraries for applications and tests: \<open>pgbranchconnect\<close>, which turns the name of a branch into a
  connection string, and \<open>pgbranchtest\<close>, which gives a test a branch of its own and destroys it afterwards. Both speak the
  REST API over an arbitrary transport. \<open>url.Parse\<close>, the JSON codec and the text of a body are parameters.
\<close>

section \<open>Connection strings\<close>

record 's sdk_env =
  sdk_getenv :: "string \<Rightarrow> string"
  sdk_dial :: "string \<Rightarrow> string \<Rightarrow> 's transport"
  sdk_bad_url :: "string \<Rightarrow> err option"
  sdk_hostname :: "string \<Rightarrow> err + string"
  sdk_codec :: codec
  sdk_text :: "api_body \<Rightarrow> string"

definition sdk_dsn :: "string \<Rightarrow> string \<Rightarrow> string \<Rightarrow> int \<Rightarrow> string \<Rightarrow> string" where
  "sdk_dsn user password host port database =
     (let auth = QueryEscape user @ (if password \<noteq> '''' then '':'' @ QueryEscape password else [])
      in ''postgres://'' @ auth @ ''@'' @ JoinHostPort host (int_str port) @ ''/'' @ database)"

definition or_default :: "string \<Rightarrow> string \<Rightarrow> string" where
  "or_default s d = (if s = '''' then d else s)"

definition server_host :: "'s sdk_env \<Rightarrow> string \<Rightarrow> string" where
  "server_host E url = (case sdk_hostname E url of Inr h \<Rightarrow> h | Inl _ \<Rightarrow> '''')"

text \<open>\<open>http.NewRequest\<close> and \<open>Do\<close>: a bad address, a transport error, or a response.\<close>

definition sdk_do :: "'s sdk_env \<Rightarrow> string \<Rightarrow> string \<Rightarrow> http_method \<Rightarrow> string \<Rightarrow> api_in \<Rightarrow> ('s, response) comp" where
  "sdk_do E base token m path b = bnd (lift_err (sdk_bad_url E (base @ path))) (\<lambda>_. sdk_dial E base token m path b)"

section \<open>Resolving a branch (\<open>pgbranchconnect.go\<close>)\<close>

record conn_options =
  co_Server :: string
  co_Token :: string
  co_Branch :: string
  co_Ref :: string
  co_ProxyHost :: string
  co_Password :: string

record conn_result =
  cr_Branch :: string
  cr_Host :: string
  cr_Port :: int
  cr_User :: string
  cr_Database :: string
  cr_DSN :: string
  cr_ProxyDSN :: string

definition trim_dashes :: "string \<Rightarrow> string" where
  "trim_dashes s = trim_right (dropWhile (\<lambda>c. c = CHR ''-'') s) (CHR ''-'')"

definition SanitizeRef :: "string \<Rightarrow> string" where
  "SanitizeRef ref = trim_dashes (sanitize_loop 41 [] False (lower_runes ref))"

definition conn_getBranch :: "'s sdk_env \<Rightarrow> conn_options \<Rightarrow> string \<Rightarrow> ('s, api_branch) comp" where
  "conn_getBranch E opts name =
     (let base = base_url (co_Server opts); path = ''/v1/branches/'' @ PathEscape name in
      bnd (lift_err (sdk_bad_url E (base @ path))) (\<lambda>_.
      bnd (wrapping (''pgbranchconnect: GET branch '' @ go_quote name @ '': '') (sdk_dial E base (co_Token opts) GET path NoIn)) (\<lambda>resp.
      if status resp = 404 then raise (Msg (''pgbranchconnect: branch '' @ go_quote name @ '' not found''))
      else if status resp \<noteq> 200 then
        raise (Msg (''pgbranchconnect: GET branch '' @ go_quote name @ '': HTTP '' @ nat_str (status resp) @ '': '' @
          strings_TrimSpace (sdk_text E (body resp))))
      else case un_branch (sdk_codec E) (body resp) of
        Inl e \<Rightarrow> raise (Wrap (''pgbranchconnect: decode branch '' @ go_quote name @ '': '') e [])
      | Inr w \<Rightarrow> ok w)))"

definition proxy_address :: "conn_options \<Rightarrow> string \<Rightarrow> string \<times> int" where
  "proxy_address opts serverHost =
     (if co_ProxyHost opts = '''' then (serverHost, 6432)
      else case SplitHostPort (co_ProxyHost opts) of
        Some (h, p) \<Rightarrow> (h, case ParseInt64 p of Some n \<Rightarrow> n | None \<Rightarrow> 6432)
      | None \<Rightarrow> (co_ProxyHost opts, 6432))"

definition Resolve :: "'s sdk_env \<Rightarrow> conn_options \<Rightarrow> ('s, conn_result) comp" where
  "Resolve E opts =
     (let name = (if co_Branch opts = '''' then SanitizeRef (co_Ref opts) else co_Branch opts) in
      if co_Server opts = '''' then raise (Msg ''pgbranchconnect: Server (PGBRANCH_API) is required'')
      else if co_Token opts = '''' then raise (Msg ''pgbranchconnect: Token is required'')
      else if name = '''' then raise (Msg ''pgbranchconnect: a Branch or Ref is required'')
      else bnd (conn_getBranch E opts name) (\<lambda>w.
        let serverHost = server_host E (co_Server opts);
            host = or_default (jb_Host w) serverHost;
            user = or_default (jb_User w) ''postgres'';
            database = or_default (jb_Database w) ''postgres'';
            password = or_default (jb_Password w) (or_default (co_Password opts) (sdk_getenv E ''PGPASSWORD''));
            (proxyHost, proxyPort) = proxy_address opts serverHost;
            proxyDB = or_default (jb_ProxyDatabase w) (database @ ''@'' @ jb_Name w)
        in if password = '''' then
             raise (Msg (''pgbranchconnect: branch '' @ go_quote name @
               '' returned no password (inherit mode) and no Options.Password/PGPASSWORD set''))
           else ok \<lparr>cr_Branch = jb_Name w, cr_Host = host, cr_Port = jb_Port w, cr_User = user, cr_Database = database,
             cr_DSN = sdk_dsn user password host (jb_Port w) database,
             cr_ProxyDSN = sdk_dsn user password proxyHost proxyPort proxyDB\<rparr>))"

section \<open>A branch for a test (\<open>pgbranchtest.go\<close>)\<close>

record sdk_branch =
  sb_Name :: string
  sb_Host :: string
  sb_Port :: int
  sb_User :: string
  sb_Password :: string
  sb_Database :: string
  sb_DSN :: string
  sb_ProxyDSN :: string

record test_config =
  tc_source :: string
  tc_ttl :: int

definition WithSource :: "string \<Rightarrow> test_config \<Rightarrow> test_config" where
  "WithSource name c = c\<lparr>tc_source := name\<rparr>"

definition WithTTL :: "int \<Rightarrow> test_config \<Rightarrow> test_config" where
  "WithTTL d c = c\<lparr>tc_ttl := d\<rparr>"

definition pollInterval :: int where "pollInterval = second"

definition acquireTimeout :: int where "acquireTimeout = 300 * second"

text \<open>The loop of \<open>branchName\<close>; unlike that of the webhook service it keeps everything.\<close>

fun test_name_loop :: "string \<Rightarrow> bool \<Rightarrow> char option list \<Rightarrow> string" where
  "test_name_loop b dash [] = b"
| "test_name_loop b dash (r # rs) =
     (case name_char r of
        Some c \<Rightarrow> test_name_loop ((if dash \<and> b \<noteq> [] then b @ ''-'' else b) @ [c]) False rs
      | None \<Rightarrow> test_name_loop b True rs)"

definition test_branchName :: "string \<Rightarrow> string \<Rightarrow> string" where
  "test_branchName testName sfx =
     (let s0 = test_name_loop [] False (lower_runes testName); mx = 41 - 2 - 1 - length sfx;
          s1 = (if mx < length s0 then dropWhile (\<lambda>c. c = CHR ''-'') (drop (length s0 - mx) s0) else s0);
          s = trim_dashes s1
      in if s = '''' then ''t-'' @ sfx else ''t-'' @ s @ ''-'' @ sfx)"

definition newBranch :: "'s sdk_env \<Rightarrow> api_branch \<Rightarrow> string \<Rightarrow> sdk_branch" where
  "newBranch E w baseURL =
     (let serverHost = server_host E baseURL;
          host = or_default (jb_Host w) serverHost;
          user = or_default (jb_User w) ''postgres'';
          database = or_default (jb_Database w) ''postgres'';
          password = or_default (jb_Password w) (sdk_getenv E ''PGBRANCH_PASSWORD'')
      in \<lparr>sb_Name = jb_Name w, sb_Host = host, sb_Port = jb_Port w, sb_User = user, sb_Password = password, sb_Database = database,
          sb_DSN = sdk_dsn user password host (jb_Port w) database,
          sb_ProxyDSN = sdk_dsn user password serverHost 6432 (jb_ProxyDatabase w)\<rparr>)"

definition sdk_reply :: "'s sdk_env \<Rightarrow> string \<Rightarrow> nat \<Rightarrow> response \<Rightarrow> ('s, api_branch) comp" where
  "sdk_reply E what code resp =
     (if status resp \<noteq> code then
        raise (Msg (what @ '': HTTP '' @ nat_str (status resp) @ '': '' @ strings_TrimSpace (sdk_text E (body resp))))
      else case un_branch (sdk_codec E) (body resp) of
        Inl e \<Rightarrow> raise (Wrap (what @ '': decode response: '') e [])
      | Inr b \<Rightarrow> ok b)"

record sdk_client =
  sc_base :: string
  sc_token :: string

definition sdk_createBranch :: "'s sdk_env \<Rightarrow> sdk_client \<Rightarrow> create_branch_request \<Rightarrow> ('s, api_branch) comp" where
  "sdk_createBranch E c req =
     bnd (sdk_do E (sc_base c) (sc_token c) POST ''/v1/branches'' (BranchIn req)) (sdk_reply E ''POST /v1/branches'' 201)"

definition sdk_getBranch :: "'s sdk_env \<Rightarrow> sdk_client \<Rightarrow> string \<Rightarrow> ('s, api_branch) comp" where
  "sdk_getBranch E c name =
     bnd (sdk_do E (sc_base c) (sc_token c) GET (''/v1/branches/'' @ PathEscape name) NoIn) (sdk_reply E (''GET /v1/branches/'' @ name) 200)"

definition sdk_destroyBranch :: "'s sdk_env \<Rightarrow> sdk_client \<Rightarrow> string \<Rightarrow> ('s, unit) comp" where
  "sdk_destroyBranch E c name =
     bnd (sdk_do E (sc_base c) (sc_token c) DELETE (''/v1/branches/'' @ PathEscape name) NoIn) (\<lambda>resp.
     if status resp \<noteq> 204 \<and> status resp \<noteq> 404 then
       raise (Msg (''DELETE /v1/branches/'' @ name @ '': HTTP '' @ nat_str (status resp) @ '': '' @
         strings_TrimSpace (sdk_text E (body resp))))
     else ok ())"

text \<open>
  The test: the names registered for destruction, latest first. A failed test ends with an error, a skipped one with no
  branch.
\<close>

record test_st = sys +
  tb_cleanups :: "string list"

text \<open>
  \<open>select\<close> on a context with a deadline and \<open>time.After(d)\<close>. Waking up takes a while; when by then both are due, either
  is taken.
\<close>

definition select_deadline :: "int \<Rightarrow> int \<Rightarrow> 'z environ_scheme \<Rightarrow> bool \<times> 'z environ_scheme" where
  "select_deadline deadline d s =
     (let t = wall s + d + int (elapse s (tick s)); dn = (deadline < wall s + d \<or> deadline \<le> t \<and> ctx_done s (tick s))
      in (dn, s\<lparr>wall := (if dn then max (wall s) deadline else t), tick := Suc (tick s)\<rparr>))"

partial_function (option) await_branch ::
    "'z test_st_scheme sdk_env \<Rightarrow> sdk_client \<Rightarrow> string \<Rightarrow> int \<Rightarrow> api_branch \<Rightarrow> 'z test_st_scheme \<Rightarrow> ((err + api_branch) \<times> 'z test_st_scheme) option" where
  "await_branch E c name deadline b s =
     (if jb_State b = ''ready'' then Some (Inr b, s)
      else case select_deadline deadline pollInterval s of
        (dn, s1) \<Rightarrow>
          if dn then Some (Inl (Msg (''pgbranchtest: branch '' @ go_quote name @ '' not ready after 5m0s (state '' @
            go_quote (jb_State b) @ '')'')), s1)
          else (case sdk_getBranch E c name s1 of
             (Inl e, s2) \<Rightarrow> Some (Inl (Wrap (''pgbranchtest: wait for branch '' @ go_quote name @ '': '') e []), s2)
           | (Inr b2, s2) \<Rightarrow> await_branch E c name deadline b2 s2))"

definition test_config_of :: "'s sdk_env \<Rightarrow> (test_config \<Rightarrow> test_config) list \<Rightarrow> test_config" where
  "test_config_of E opts = fold (\<lambda>f c. f c) opts \<lparr>tc_source = or_default (sdk_getenv E ''PGBRANCH_TEST_SOURCE'') ''main'', tc_ttl = 3600 * second\<rparr>"

text \<open>The part of \<open>Acquire\<close> up to the registration of the cleanup\<close>

definition acquire_start :: "'z test_st_scheme sdk_env \<Rightarrow> string \<Rightarrow> (test_config \<Rightarrow> test_config) list \<Rightarrow> sdk_client
    \<Rightarrow> ('z test_st_scheme, string \<times> int \<times> api_branch) comp" where
  "acquire_start E testName opts c =
     (let cfg = test_config_of E opts in
      bnd (rand_hex 3) (\<lambda>sfx.
      let name = test_branchName testName sfx in
      bnd time_now (\<lambda>now.
      bnd (wrapping (''pgbranchtest: create branch '' @ go_quote name @ '' from '' @ go_quote (tc_source cfg) @ '': '')
        (sdk_createBranch E c \<lparr>cb_Name = name, cb_Source = tc_source cfg, cb_Parent = '''', cb_TTLSeconds = whole_seconds (tc_ttl cfg)\<rparr>)) (\<lambda>b.
      bnd (modify (\<lambda>s. s\<lparr>tb_cleanups := name # tb_cleanups s\<rparr>)) (\<lambda>_.
      ok (name, now + acquireTimeout, b))))))"

definition Acquire :: "'z test_st_scheme sdk_env \<Rightarrow> string \<Rightarrow> (test_config \<Rightarrow> test_config) list \<Rightarrow> 'z test_st_scheme
    \<Rightarrow> ((err + sdk_branch option) \<times> 'z test_st_scheme) option" where
  "Acquire E testName opts s =
     (let server = sdk_getenv E ''PGBRANCH_SERVER''; c = \<lparr>sc_base = base_url server, sc_token = sdk_getenv E ''PGBRANCH_TOKEN''\<rparr> in
      if server = '''' then Some (Inr None, s)
      else case acquire_start E testName opts c s of
        (Inl e, t) \<Rightarrow> Some (Inl e, t)
      | (Inr (name, deadline, b), t) \<Rightarrow>
          map_option (\<lambda>(r, u). (map_sum id (\<lambda>w. Some (newBranch E w (sc_base c))) r, u)) (await_branch E c name deadline b t))"

text \<open>The cleanups run when the test is over; a failure is reported and the next one runs.\<close>

fun run_cleanups :: "'z test_st_scheme sdk_env \<Rightarrow> sdk_client \<Rightarrow> string list \<Rightarrow> ('z test_st_scheme, string list) comp" where
  "run_cleanups E c [] = ok []"
| "run_cleanups E c (name # ns) =
     bnd (attempt (sdk_destroyBranch E c name)) (\<lambda>r.
     bnd (run_cleanups E c ns) (\<lambda>failed.
     ok ((case r of Inl e \<Rightarrow> [''pgbranchtest: destroy branch '' @ go_quote name @ '': '' @ err_msg e] | Inr _ \<Rightarrow> []) @ failed)))"

end
