(* ===== verification/Sdk_Props.thy ===== *)
theory Sdk_Props
  imports Sdk
begin

text \<open>
  The client libraries: connection strings read back, a test gets a valid name and a branch that will be destroyed, waiting
  ends; and where the name \<open>pgbranchconnect\<close> asks for is not the one the webhook service gives.
\<close>

section \<open>Names\<close>

lemma trim_dashes_subset: "set (trim_dashes s) \<subseteq> set s"
  using trim_right_subset by (fastforce simp: trim_dashes_def dest: set_dropWhileD)

lemma length_trim_dashes: "length (trim_dashes s) \<le> length s"
  unfolding trim_dashes_def by (rule order_trans [OF length_trim_right length_dropWhile_le])

lemma test_name_loop_clean: "clean_chars b \<Longrightarrow> clean_chars (test_name_loop b d rs)"
proof (induction rs arbitrary: b d)
  case (Cons r rs)
  then show ?case using name_char_start [of r] by (auto simp: clean_chars_def split: option.splits)
qed simp

lemma test_name_parts: "clean_chars sfx \<Longrightarrow> length sfx = 6 \<Longrightarrow>
    \<exists>s. test_branchName nm sfx = ''t-'' @ s \<and> clean_chars s \<and> length s \<le> 39"
proof -
  assume sfx: "clean_chars sfx" "length sfx = 6"
  define s0 where "s0 = test_name_loop [] False (lower_runes nm)"
  define s1 where "s1 = (if 32 < length s0 then dropWhile (\<lambda>c. c = CHR ''-'') (drop (length s0 - 32) s0) else s0)"
  have c: "clean_chars s0" unfolding s0_def by (rule test_name_loop_clean) (simp add: clean_chars_def)
  have "set s1 \<subseteq> set s0" by (auto simp: s1_def dest: set_dropWhileD in_set_dropD)
  then have "clean_chars (trim_dashes s1)" using clean_sub [OF _ c] trim_dashes_subset by (metis subset_trans)
  moreover have "length (dropWhile (\<lambda>c. c = CHR ''-'') (drop (length s0 - 32) s0)) \<le> 32" if "32 < length s0"
    using length_dropWhile_le [of "\<lambda>c. c = CHR ''-''" "drop (length s0 - 32) s0"] that by simp
  then have "length s1 \<le> 32" by (auto simp: s1_def)
  then have "length (trim_dashes s1) \<le> 32" using length_trim_dashes [of s1] by simp
  ultimately have "clean_chars (trim_dashes s1 @ ''-'' @ sfx)" "length (trim_dashes s1 @ ''-'' @ sfx) \<le> 39"
    using sfx by (simp_all add: clean_chars_def)
  moreover have "test_branchName nm sfx = ''t-'' @ (if trim_dashes s1 = [] then sfx else trim_dashes s1 @ ''-'' @ sfx)"
    using sfx(2) by (simp add: test_branchName_def Let_def s0_def s1_def)
  ultimately show ?thesis using sfx by (intro exI [of _ "if trim_dashes s1 = [] then sfx else trim_dashes s1 @ ''-'' @ sfx"]) simp
qed

text \<open>
  The branch name of a test is one the engine accepts, whatever the test is called.
\<close>

lemma test_name_valid:
  assumes "rand_hex 3 s = (Inr sfx, t)"
  shows "validateBranchName (test_branchName nm sfx) = None"
proof -
  have sfx: "length sfx = 6" "set sfx \<subseteq> hex_chars" using rand_hex_length [OF assms] rand_hex_chars [OF assms] by simp_all
  have "\<forall>c \<in> hex_chars. name_start c" by (simp add: hex_chars_def name_start_def)
  then have "clean_chars sfx" using sfx(2) by (auto simp: clean_chars_def list_all_iff)
  then obtain u where u: "test_branchName nm sfx = ''t-'' @ u" "clean_chars u" "length u \<le> 39"
    using test_name_parts sfx(1) by blast
  then show ?thesis by (simp add: validateBranchName_def validateName_def branchNameRe_def clean_chars_def name_start_def)
qed

text \<open>Short references are sanitized alike, whatever the limit.\<close>

lemma sanitize_loop_short:
  "length b + length rs + (if d then 1 else 0) < k \<Longrightarrow> sanitize_loop k b d rs = test_name_loop b d rs"
proof (induction rs arbitrary: b d)
  case (Cons r rs)
  show ?case
  proof (cases "name_char r")
    case None
    then show ?thesis using Cons.prems Cons.IH [of b True] by (simp add: Let_def split: if_splits)
  next
    case (Some c)
    have "sanitize_loop k ((if d \<and> b \<noteq> [] then b @ ''-'' else b) @ [c]) False rs = test_name_loop ((if d \<and> b \<noteq> [] then b @ ''-'' else b) @ [c]) False rs"
      by (rule Cons.IH) (use Cons.prems in \<open>auto split: if_splits\<close>)
    then show ?thesis using Cons.prems Some by (cases "d \<and> b \<noteq> []") (auto simp: Let_def)
  qed
qed simp

lemma test_name_loop_length: "length (test_name_loop b d rs) \<le> length b + length rs + (if d then 1 else 0)"
proof (induction rs arbitrary: b d)
  case (Cons r rs)
  show ?case
  proof (cases "name_char r")
    case None
    then show ?thesis using Cons [of b True] by (simp split: if_splits)
  next
    case (Some c)
    then show ?thesis using Cons [of "(if d \<and> b \<noteq> [] then b @ ''-'' else b) @ [c]" False] by (auto split: if_splits)
  qed
qed simp

lemma lower_runes_length: "length (lower_runes s) \<le> length s"
proof (induction s rule: lower_runes.induct)
  case (2 c s)
  then show ?case by (auto split: if_splits)
qed simp

definition inner :: "string \<Rightarrow> bool" where
  "inner b \<longleftrightarrow> b = [] \<or> hd b \<noteq> CHR ''-'' \<and> last b \<noteq> CHR ''-''"

lemma test_name_loop_inner: "inner b \<Longrightarrow> inner (test_name_loop b d rs)"
proof (induction rs arbitrary: b d)
  case (Cons r rs)
  show ?case
  proof (cases "name_char r")
    case (Some c)
    then have "c \<noteq> CHR ''-''" using name_char_start [of r c] by (auto simp: name_start_def)
    then have "inner ((if d \<and> b \<noteq> [] then b @ ''-'' else b) @ [c])" using Cons.prems by (cases b) (auto simp: inner_def)
    then show ?thesis using Some Cons.IH by (simp split: if_splits)
  qed (use Cons in simp)
qed simp

lemma inner_trim: "inner b \<Longrightarrow> trim_right b (CHR ''-'') = b" "inner b \<Longrightarrow> trim_dashes b = b"
proof -
  show r: "trim_right b (CHR ''-'') = b" if "inner b"
    using that by (cases b rule: rev_cases) (auto simp: inner_def trim_right_def)
  show "trim_dashes b = b" if "inner b"
    using that r by (cases b) (auto simp: inner_def trim_dashes_def)
qed

text \<open>
  The comment on \<open>SanitizeRef\<close> says that an application and the webhook agree on the name of a branch without coordination.
  They never do for a reference of up to 37 bytes: the webhook service puts its reserved prefix in front.
\<close>

theorem connect_misses_webhook_branch:
  assumes "length (p_Ref p) \<le> 37" "hc_BranchNaming cfg = ''git-branch''" "SanitizeRef (p_Ref p) \<noteq> []"
  shows "branchName cfg p = ''gh-'' @ SanitizeRef (p_Ref p)"
proof -
  let ?x = "test_name_loop [] False (lower_runes (p_Ref p))"
  have "length (lower_runes (p_Ref p)) < 38" using lower_runes_length [of "p_Ref p"] assms(1) by simp
  then have x: "sanitize_loop 38 [] False (lower_runes (p_Ref p)) = ?x" "sanitize_loop 41 [] False (lower_runes (p_Ref p)) = ?x"
    by (simp_all add: sanitize_loop_short)
  have i: "inner ?x" by (rule test_name_loop_inner) (simp add: inner_def)
  then have s: "SanitizeRef (p_Ref p) = ?x" by (simp add: SanitizeRef_def x inner_trim)
  have "length ?x \<le> 38" using test_name_loop_length [of "[]" False "lower_runes (p_Ref p)"] lower_runes_length [of "p_Ref p"] assms(1) by simp
  then have "sanitizeBranchName (p_Ref p) 38 = ?x" by (simp add: sanitizeBranchName_def x inner_trim i)
  then show ?thesis using assms(2,3) s by (simp add: branchName_def maxBranchNameLen_def branchPrefix_def)
qed

text \<open>
  A reference can be sanitized to a name of 42 characters, which no branch has: when a dash and a character arrive at length 40,
  both are written before the length is looked at, and nothing is cut afterwards.
\<close>

theorem sanitized_ref_too_long:
  "length (SanitizeRef (replicate 40 (CHR ''a'') @ ''/b'')) = 42 \<and>
   validateBranchName (SanitizeRef (replicate 40 (CHR ''a'') @ ''/b'')) \<noteq> None"
proof -
  have "SanitizeRef (replicate 40 (CHR ''a'') @ ''/b'') = replicate 40 (CHR ''a'') @ ''-b''" by code_simp
  moreover have r: "branchNameRe n \<Longrightarrow> length n \<le> 41" for n by (cases n) (simp_all add: branchNameRe_def)
  have "\<not> branchNameRe (replicate 40 (CHR ''a'') @ ''-b'')" by (rule notI) (drule r, simp)
  ultimately show ?thesis by (simp add: validateBranchName_def validateName_def)
qed

section \<open>Connection strings read back\<close>

text \<open>
  What a Postgres driver makes of a connection string: the authority ends at the first slash, its user information at its last
  \<open>@\<close>, user and password at the first colon; both are unescaped as path segments are.
\<close>

definition read_dsn :: "string \<Rightarrow> (string \<times> string \<times> string \<times> string \<times> string) option" where
  "read_dsn url =
     (let rest = trim_prefix url ''postgres://''; authority = takeWhile (\<lambda>c. c \<noteq> CHR ''/'') rest;
          hostport = rev (takeWhile (\<lambda>c. c \<noteq> CHR ''@'') (rev authority)); auth = take (length authority - length hostport - 1) authority;
          user = takeWhile (\<lambda>c. c \<noteq> CHR '':'') auth
      in case (PathUnescape user, PathUnescape (drop (length user + 1) auth), SplitHostPort hostport) of
           (Some u, Some p, Some (h, port)) \<Rightarrow> Some (u, p, h, port, drop (length authority + 1) rest)
         | _ \<Rightarrow> None)"

definition no_blank :: "string \<Rightarrow> bool" where "no_blank s \<longleftrightarrow> CHR '' '' \<notin> set s"

definition plussed :: "string \<Rightarrow> string" where "plussed s = map (\<lambda>c. if c = CHR '' '' then CHR ''+'' else c) s"

lemma plussed_plain: "no_blank s \<Longrightarrow> plussed s = s"
  by (induction s) (auto simp: plussed_def no_blank_def)

lemma query_not_safe: "\<not> query_safe (CHR ''%'')" "\<not> query_safe (CHR ''@'')" "\<not> query_safe (CHR '':'')" "\<not> query_safe (CHR ''/'')"
  "\<not> query_safe (CHR '' '')"
  by code_simp+

lemma PathUnescape_hex:
  "PathUnescape (CHR ''%'' # upperhex (of_char c div 16) # upperhex (of_char c mod 16) # r) = map_option (\<lambda>t. c # t) (PathUnescape r)"
proof -
  have "char_of (16 * (of_char c div 16) + of_char c mod 16 :: nat) = c"
    by (simp only: mult_div_mod_eq char_of_char)
  then show ?thesis by (simp add: unhex_upperhex high_nibble split: option.splits)
qed

lemma PathUnescape_query: "PathUnescape (QueryEscape s) = Some (plussed s)"
proof (induction s)
  case (Cons c s)
  consider "query_safe c" | "\<not> query_safe c" "c = CHR '' ''" | "\<not> query_safe c" "c \<noteq> CHR '' ''" by blast
  then show ?case
  proof cases
    case 1
    then have "c \<noteq> CHR ''%''" "c \<noteq> CHR '' ''" using query_not_safe by metis+
    then show ?thesis using 1 Cons by (simp add: QueryEscape_def plussed_def)
  next
    case 2
    then show ?thesis using Cons by (simp add: QueryEscape_def plussed_def)
  next
    case 3
    then have "QueryEscape (c # s) = CHR ''%'' # upperhex (of_char c div 16) # upperhex (of_char c mod 16) # QueryEscape s"
      by (simp add: QueryEscape_def)
    then show ?thesis using Cons PathUnescape_hex 3(2) by (simp add: plussed_def)
  qed
qed (simp add: QueryEscape_def plussed_def)

lemma QueryEscape_chars: "set (QueryEscape s) \<inter> {CHR ''@'', CHR '':'', CHR ''/''} = {}"
proof (induction s)
  case (Cons c s)
  have "upperhex (of_char c div 16) \<notin> {CHR ''@'', CHR '':'', CHR ''/''}" using upperhex_in [OF high_nibble [of c]] by fastforce
  moreover have "upperhex (of_char c mod 16) \<notin> {CHR ''@'', CHR '':'', CHR ''/''}" using upperhex_in [of "of_char c mod 16"] by fastforce
  ultimately show ?case using Cons query_not_safe by (auto simp: QueryEscape_def)
qed (simp add: QueryEscape_def)

lemma take_until: "x \<notin> set a \<Longrightarrow> takeWhile (\<lambda>c. c \<noteq> x) (a @ x # b) = a"
  by (induction a) auto

lemma takeWhile_all: "x \<notin> set a \<Longrightarrow> takeWhile (\<lambda>c. c \<noteq> x) a = a"
  by (induction a) auto

lemma split_joined:
  assumes "set host \<inter> {CHR ''['', CHR '']''} = {}" "set port \<inter> {CHR '':'', CHR ''['', CHR '']''} = {}"
  shows "SplitHostPort (JoinHostPort host port) = Some (host, port)"
proof (cases "CHR '':'' \<in> set host")
  case True
  define hp where "hp = CHR ''['' # host @ CHR '']'' # CHR '':'' # port"
  have "takeWhile (\<lambda>c. c \<noteq> CHR '':'') (rev hp) = rev port"
    using take_until [of "CHR '':''" "rev port" "CHR '']'' # rev host @ [CHR ''['']"] assms(2) by (simp add: hp_def)
  moreover have "takeWhile (\<lambda>c. c \<noteq> CHR '']'') hp = CHR ''['' # host"
    using take_until [of "CHR '']''" "CHR ''['' # host" "CHR '':'' # port"] assms(1) by (simp add: hp_def)
  moreover have "length hp - length port - 1 = length host + 2" "CHR '':'' \<in> set hp" "hd hp = CHR ''[''" "CHR '']'' \<in> set hp"
    "drop 1 (take (length host + 1) hp) = host" "drop 1 hp = host @ CHR '']'' # CHR '':'' # port" "drop (length host + 2) hp = CHR '':'' # port"
    by (simp_all add: hp_def)
  ultimately have "SplitHostPort hp = Some (host, port)"
    using assms by (simp add: SplitHostPort_def Let_def)
  then show ?thesis using True by (simp add: JoinHostPort_def hp_def)
next
  case False
  define hp where "hp = host @ CHR '':'' # port"
  have "takeWhile (\<lambda>c. c \<noteq> CHR '':'') (rev hp) = rev port"
    using take_until [of "CHR '':''" "rev port" "rev host"] assms(2) by (simp add: hp_def)
  moreover have "hd hp \<noteq> CHR ''[''" using assms(1) by (cases host) (auto simp: hp_def)
  moreover have "length hp - length port - 1 = length host" "CHR '':'' \<in> set hp" "take (length host) hp = host"
    "set hp = set host \<union> {CHR '':''} \<union> set port" by (auto simp: hp_def)
  ultimately have "SplitHostPort hp = Some (host, port)"
    using assms False by (simp add: SplitHostPort_def Let_def)
  then show ?thesis using False by (simp add: JoinHostPort_def hp_def)
qed

lemma read_dsn_plussed:
  assumes "set host \<inter> {CHR ''['', CHR '']'', CHR ''@'', CHR ''/''} = {}"
  shows "read_dsn (sdk_dsn user password host port database) = Some (plussed user, plussed password, host, int_str port, database)"
proof -
  define auth where "auth = QueryEscape user @ (if password \<noteq> '''' then '':'' @ QueryEscape password else [])"
  define hp where "hp = JoinHostPort host (int_str port)"
  have port: "set (int_str port) \<inter> {CHR '':'', CHR ''['', CHR '']'', CHR ''@'', CHR ''/''} = {}"
    using int_str_clean [of port] by (auto simp: clean_chars_def list_all_iff name_start_def)
  have split: "SplitHostPort hp = Some (host, int_str port)"
    unfolding hp_def by (rule split_joined) (use assms port in auto)
  have ch: "CHR ''/'' \<notin> set auth" "CHR ''@'' \<notin> set auth" "CHR ''/'' \<notin> set hp" "CHR ''@'' \<notin> set hp"
    using QueryEscape_chars [of user] QueryEscape_chars [of password] assms port
    by (auto simp: auth_def hp_def JoinHostPort_def)
  have rest: "trim_prefix (sdk_dsn user password host port database) ''postgres://'' = auth @ CHR ''@'' # hp @ CHR ''/'' # database"
    by (simp add: sdk_dsn_def Let_def auth_def hp_def trim_prefix_def has_prefix_def)
  have au: "takeWhile (\<lambda>c. c \<noteq> CHR ''/'') (auth @ CHR ''@'' # hp @ CHR ''/'' # database) = auth @ CHR ''@'' # hp"
    using take_until [of "CHR ''/''" "auth @ CHR ''@'' # hp" database] ch by simp
  have "takeWhile (\<lambda>c. c \<noteq> CHR ''@'') (rev (auth @ CHR ''@'' # hp)) = rev hp"
    using take_until [of "CHR ''@''" "rev hp" "rev auth"] ch by simp
  moreover have us: "takeWhile (\<lambda>c. c \<noteq> CHR '':'') auth = QueryEscape user"
    using QueryEscape_chars [of user] take_until [of "CHR '':''" "QueryEscape user" "QueryEscape password"]
      takeWhile_all [of "CHR '':''" "QueryEscape user"] by (simp add: auth_def)
  moreover have "PathUnescape (drop (length (QueryEscape user) + 1) auth) = Some (plussed password)"
    using PathUnescape_query [of password] by (auto simp: auth_def plussed_def)
  ultimately show ?thesis
    using PathUnescape_query [of user] split by (simp add: read_dsn_def Let_def rest au)
qed

text \<open>
  A connection string reads back to the user, password, host, port and database it was built from, as long as user and
  password hold no blank.
\<close>

theorem dsn_reads_back:
  assumes "no_blank user" "no_blank password" "set host \<inter> {CHR ''['', CHR '']'', CHR ''@'', CHR ''/''} = {}"
  shows "read_dsn (sdk_dsn user password host port database) = Some (user, password, host, int_str port, database)"
  using read_dsn_plussed [OF assms(3)] assms(1,2) by (simp add: plussed_plain)

theorem dsn_reads_back_witness:
  "read_dsn (sdk_dsn ''app'' ''p@ss:w/rd'' ''fd00::1'' 5432 ''shop@pr1'') = Some (''app'', ''p@ss:w/rd'', ''fd00::1'', int_str 5432, ''shop@pr1'')"
  by (rule dsn_reads_back) (simp_all add: no_blank_def)

text \<open>
  A blank does not survive: it is written as a plus sign, which in the user information of a URL is a plus sign.
\<close>

theorem blank_password_is_lost:
  "read_dsn (sdk_dsn ''app'' ''my secret'' ''db'' port ''shop'') = Some (''app'', ''my+secret'', ''db'', int_str port, ''shop'')"
  by (subst read_dsn_plussed) (simp_all add: plussed_def)

section \<open>Acquiring a branch\<close>

text \<open>A transport only carries requests: it does not turn the clock back and registers no cleanups.\<close>

definition steady :: "'z test_st_scheme sdk_env \<Rightarrow> bool" where
  "steady E \<longleftrightarrow> (\<forall>base tok m p b s. wall s \<le> wall (snd (sdk_dial E base tok m p b s)) \<and>
     tb_cleanups (snd (sdk_dial E base tok m p b s)) = tb_cleanups s)"

definition carried :: "int \<Rightarrow> string list \<Rightarrow> 'z test_st_scheme \<Rightarrow> bool" where
  "carried w ns s \<longleftrightarrow> w \<le> wall s \<and> tb_cleanups s = ns"

lemma keeps_sdk:
  assumes "steady E"
  shows "keeps (carried w ns) (sdk_getBranch E c n)" "keeps (carried w ns) (sdk_createBranch E c req)"
proof -
  have d: "keeps (carried w ns) (sdk_dial E base tok m p b)" for base tok m p b
    using assms by (auto simp: steady_def keeps_def carried_def) (metis order_trans)
  have r: "keeps (carried w ns) (sdk_reply E what k resp)" for what k resp
    unfolding sdk_reply_def by (intro keeps_rules)
  show "keeps (carried w ns) (sdk_getBranch E c n)" "keeps (carried w ns) (sdk_createBranch E c req)"
    unfolding sdk_getBranch_def sdk_createBranch_def sdk_do_def by (intro keeps_rules d r)+
qed

lemma await_branch_ends:
  assumes E: "steady E"
  shows "\<exists>r t. await_branch E c n dl b s = Some (r, t) \<and> tb_cleanups t = tb_cleanups s \<and> (\<forall>w. r = Inr w \<longrightarrow> jb_State w = ''ready'')"
proof (induction "nat (dl - wall s)" arbitrary: b s rule: less_induct)
  case less
  show ?case
  proof (cases "jb_State b = ''ready''")
    case True
    then show ?thesis by (subst await_branch.simps) simp
  next
    case nr: False
    obtain dn s1 where sel: "select_deadline dl pollInterval s = (dn, s1)" by fastforce
    show ?thesis
    proof (cases dn)
      case True
      then show ?thesis using nr sel by (subst await_branch.simps) (auto simp: select_deadline_def Let_def)
    next
      case False
      have s1: "wall s < wall s1" "wall s < dl" "tb_cleanups s1 = tb_cleanups s"
        using sel False by (auto simp: select_deadline_def Let_def pollInterval_def second_def)
      obtain q s2 where g: "sdk_getBranch E c n s1 = (q, s2)" by fastforce
      have "carried (wall s1) (tb_cleanups s1) s2"
        using keepsD [OF keeps_sdk(1) [OF E], of "wall s1" "tb_cleanups s1" s1 c n q s2] g by (simp add: carried_def)
      then have s2: "wall s < wall s2" "tb_cleanups s2 = tb_cleanups s" using s1 by (auto simp: carried_def)
      show ?thesis
      proof (cases q)
        case (Inl e)
        then show ?thesis using nr sel False g s2(2) by (subst await_branch.simps) simp
      next
        case (Inr b2)
        have "nat (dl - wall s2) < nat (dl - wall s)" using s1 s2 by simp
        from less [OF this, of b2] show ?thesis using nr sel False g Inr s2(2) by (subst await_branch.simps) simp
      qed
    qed
  qed
qed

text \<open>
  C24: \<open>Acquire\<close> always returns, however the server behaves, and never hands out or waits for a branch that will not be destroyed: a
  branch it returns was reported ready, and in every case but a skipped test or a failed creation exactly one cleanup has
  been registered, for a name the engine accepts.
\<close>

theorem acquire_ends_and_registers:
  assumes "steady E"
  shows "\<exists>r t. Acquire E nm opts s = Some (r, t) \<and>
    (case r of
       Inr None \<Rightarrow> sdk_getenv E ''PGBRANCH_SERVER'' = '''' \<and> t = s
     | Inr (Some b) \<Rightarrow> (\<exists>w. jb_State w = ''ready'' \<and> b = newBranch E w (base_url (sdk_getenv E ''PGBRANCH_SERVER''))) \<and>
         (\<exists>n. tb_cleanups t = n # tb_cleanups s \<and> validateBranchName n = None)
     | Inl e \<Rightarrow> (\<exists>n. validateBranchName n = None \<and>
         (tb_cleanups t = n # tb_cleanups s \<or>
          tb_cleanups t = tb_cleanups s \<and> (\<exists>e1. e = Wrap (''pgbranchtest: create branch '' @ go_quote n @ '' from '' @
            go_quote (tc_source (test_config_of E opts)) @ '': '') e1 []))))"
proof (cases "sdk_getenv E ''PGBRANCH_SERVER'' = ''''")
  case True
  then show ?thesis by (simp add: Acquire_def)
next
  case False
  let ?c = "\<lparr>sc_base = base_url (sdk_getenv E ''PGBRANCH_SERVER''), sc_token = sdk_getenv E ''PGBRANCH_TOKEN''\<rparr>"
  obtain sfx s1 where r: "rand_hex 3 s = (Inr sfx, s1)" by (auto simp: rand_hex_def)
  define n where "n = test_branchName nm sfx"
  have v: "validateBranchName n = None" unfolding n_def by (rule test_name_valid [OF r])
  obtain now s2 where tm: "time_now s1 = (Inr now, s2)" by (auto simp: time_now_def Let_def)
  have c2: "tb_cleanups s2 = tb_cleanups s" using r tm by (auto simp: rand_hex_def time_now_def Let_def)
  let ?req = "\<lparr>cb_Name = n, cb_Source = tc_source (test_config_of E opts), cb_Parent = '''', cb_TTLSeconds = whole_seconds (tc_ttl (test_config_of E opts))\<rparr>"
  obtain q s3 where cr: "sdk_createBranch E ?c ?req s2 = (q, s3)" by fastforce
  have c3: "tb_cleanups s3 = tb_cleanups s"
    using keepsD [OF keeps_sdk(2) [OF assms], of "wall s2" "tb_cleanups s2" s2 ?c ?req q s3] cr c2 by (simp add: carried_def)
  show ?thesis
  proof (cases q)
    case (Inl e)
    then have "acquire_start E nm opts ?c s = (Inl (Wrap (''pgbranchtest: create branch '' @ go_quote n @ '' from '' @
        go_quote (tc_source (test_config_of E opts)) @ '': '') e []), s3)"
      using r tm cr unfolding acquire_start_def Let_def n_def [symmetric] by (simp add: bnd_run wrapping_run n_def)
    then show ?thesis using False v c3 by (auto simp: Acquire_def Let_def)
  next
    case (Inr b)
    let ?s4 = "s3\<lparr>tb_cleanups := n # tb_cleanups s3\<rparr>"
    have st: "acquire_start E nm opts ?c s = (Inr (n, now + acquireTimeout, b), ?s4)"
      using r tm cr Inr unfolding acquire_start_def Let_def by (simp add: bnd_run wrapping_run n_def modify_run ok_run)
    obtain r2 t where aw: "await_branch E ?c n (now + acquireTimeout) b ?s4 = Some (r2, t)" "tb_cleanups t = tb_cleanups ?s4"
        "\<forall>w. r2 = Inr w \<longrightarrow> jb_State w = ''ready''"
      using await_branch_ends [OF assms] by blast
    then show ?thesis using False v c3 st by (cases r2) (auto simp: Acquire_def Let_def)
  qed
qed


text \<open>A server that answers a creation before the branch is ready\<close>

definition slow_branch :: "string \<Rightarrow> api_branch" where
  "slow_branch st = \<lparr>jb_Name = ''t-1'', jb_Source = ''main'', jb_Parent = [], jb_State = st, jb_Host = ''10.0.0.7'', jb_Port = 5432,
     jb_User = ''app'', jb_Password = [], jb_Database = ''shop'', jb_ProxyDatabase = ''shop@t-1'', jb_ExpiresAt = [], jb_CreatedAt = []\<rparr>"

definition sample_sdk :: "test_st sdk_env" where
  "sample_sdk = \<lparr>sdk_getenv = (\<lambda>k. if k = ''PGBRANCH_SERVER'' then ''http://b:7070/'' else []),
     sdk_dial = (\<lambda>base tok m p b s. (Inr (if m = POST then \<lparr>status = 201, body = BranchBody (slow_branch ''creating'')\<rparr>
       else \<lparr>status = 200, body = BranchBody (slow_branch ''ready'')\<rparr>), s\<lparr>wall := wall s + 1\<rparr>)),
     sdk_bad_url = (\<lambda>_. None), sdk_hostname = (\<lambda>_. Inr ''b''), sdk_codec = sample_codec, sdk_text = (\<lambda>_. [])\<rparr>"

definition sample_test :: test_st where
  "sample_test = sys.extend strayed (test_st.fields [])"

theorem acquire_ends_and_registers_witness:
  "\<exists>b t n. Acquire sample_sdk ''TestOrders/empty'' [WithTTL second] sample_test = Some (Inr (Some b), t) \<and>
     sb_Host b = ''10.0.0.7'' \<and> tb_cleanups t = [n] \<and> validateBranchName n = None"
proof -
  have E: "steady sample_sdk" by (simp add: steady_def sample_sdk_def)
  have "\<exists>b t. Acquire sample_sdk ''TestOrders/empty'' [WithTTL second] sample_test = Some (Inr (Some b), t) \<and>
     sb_Host b = ''10.0.0.7'' \<and> tb_cleanups sample_test = []"
    by (simp add: Acquire_def acquire_start_def Let_def sample_sdk_def bnd_run rand_hex_def time_now_def wrapping_run modify_run ok_run
        sdk_createBranch_def sdk_getBranch_def sdk_do_def sdk_reply_def lift_err_run sample_codec_def slow_branch_def await_branch.simps
        select_deadline_def sample_test_def strayed_def sample_sys_def sys.defs test_st.defs acquireTimeout_def pollInterval_def second_def newBranch_def
        or_default_def)
  then obtain b t where b: "Acquire sample_sdk ''TestOrders/empty'' [WithTTL second] sample_test = Some (Inr (Some b), t)"
      "sb_Host b = ''10.0.0.7''" "tb_cleanups sample_test = []" by blast
  then show ?thesis using acquire_ends_and_registers [OF E, of "''TestOrders/empty''" "[WithTTL second]" sample_test] by auto
qed


end
