(* ===== verification/Pg_Relay.thy ===== *)
theory Pg_Relay
  imports Pg_Proxy
begin

text \<open>
  The relay of \<open>internal/pgproxy/proxy.go\<close>: after the startup phase two goroutines copy bytes, one in each direction, until
  both sides are done. Every read, every write and everything the two peers do is a step, in any order; the bytes the network
  has delivered but nobody has read, the read deadlines and the half-closes are part of the state.
\<close>

section \<open>Connections\<close>

datatype side = Client | Backend

fun peer :: "side \<Rightarrow> side" where
  "peer Client = Backend"
| "peer Backend = Client"

lemma peer_peer [simp]: "peer (peer d) = d" "peer d \<noteq> d" "d \<noteq> peer d"
  by (cases d; simp)+

text \<open>
  A connection as the proxy has it: what arrived and was not read, how the peer ended its sending, the read deadline, what was
  written, and whether the write side or all of it is closed. \<open>cn_sent\<close> is everything the peer ever sent.
\<close>

record conn =
  cn_rx :: "byte list"
  cn_end :: "err option option"
  cn_deadline :: "int option"
  cn_tx :: "byte list"
  cn_shut :: bool
  cn_closed :: bool
  cn_CloseWrite :: bool
  cn_sent :: "byte list"

definition use_of_closed :: err where "use_of_closed = Msg ''use of closed network connection''"
definition io_timeout :: err where "io_timeout = Msg ''i/o timeout''"

text \<open>
  \<open>net.Conn.Read\<close> when the network hands over \<open>n\<close> bytes: no result while it blocks, otherwise the bytes, the end of the stream
  (\<open>Inl None\<close>) or an error. A deadline that has passed comes before bytes that are there.
\<close>

definition conn_read :: "nat \<Rightarrow> int \<Rightarrow> conn \<Rightarrow> ((err option + byte list) \<times> conn) option" where
  "conn_read n t c =
     (if cn_closed c then Some (Inl (Some use_of_closed), c)
      else if \<exists>dl \<in> set_option (cn_deadline c). dl \<le> t then Some (Inl (Some io_timeout), c)
      else if cn_rx c \<noteq> [] then Some (Inr (take n (cn_rx c)), c\<lparr>cn_rx := drop n (cn_rx c)\<rparr>)
      else map_option (\<lambda>e. (Inl e, c)) (cn_end c))"

definition close_write :: "conn \<Rightarrow> conn" where
  "close_write c = (if cn_CloseWrite c then c\<lparr>cn_shut := True\<rparr> else c\<lparr>cn_shut := True, cn_closed := True\<rparr>)"

section \<open>The relay\<close>

text \<open>
  A copying goroutine, named by the side it reads from: it reads, or holds a chunk it is writing, or has returned. The buffer of
  \<open>io.Copy\<close> holds 32768 bytes. \<open>rl_last\<close> is the time of the last successful read.
\<close>

datatype pump = Reading | Writing "byte list" | Returned "err option"

record relay_st =
  rl_conn :: "side \<Rightarrow> conn"
  rl_pump :: "side \<Rightarrow> pump"
  rl_now :: int
  rl_last :: int

definition bump :: "int \<Rightarrow> relay_st \<Rightarrow> relay_st" where
  "bump idle s = s\<lparr>rl_conn := \<lambda>d. (rl_conn s d)\<lparr>cn_deadline := Some (rl_now s + idle)\<rparr>\<rparr>"

text \<open>The end of \<open>halfCopy\<close>: the destination learns that nothing more comes.\<close>

definition half_done :: "side \<Rightarrow> err option \<Rightarrow> relay_st \<Rightarrow> relay_st" where
  "half_done d r s = s\<lparr>rl_pump := (rl_pump s)(d := Returned r),
     rl_conn := (rl_conn s)(peer d := close_write (rl_conn s (peer d)))\<rparr>"

definition idleRead :: "int \<Rightarrow> nat \<Rightarrow> side \<Rightarrow> relay_st \<Rightarrow> ((err option + byte list) \<times> relay_st) option" where
  "idleRead idle n d s =
     (case conn_read n (rl_now s) (rl_conn s d) of
        None \<Rightarrow> None
      | Some (r, c) \<Rightarrow>
          let s1 = s\<lparr>rl_conn := (rl_conn s)(d := c)\<rparr> in
          Some (r, case r of
            Inr bs \<Rightarrow> (if idle > 0 \<and> bs \<noteq> [] then bump idle s1 else s1)\<lparr>rl_last := rl_now s\<rparr>
          | Inl _ \<Rightarrow> s1))"

definition pump_read :: "int \<Rightarrow> nat \<Rightarrow> side \<Rightarrow> relay_st \<Rightarrow> relay_st option" where
  "pump_read idle n d s =
     (case idleRead idle n d s of
        None \<Rightarrow> None
      | Some (Inr bs, t) \<Rightarrow> Some (t\<lparr>rl_pump := (rl_pump t)(d := Writing bs)\<rparr>)
      | Some (Inl e, t) \<Rightarrow> Some (half_done d e t))"

text \<open>\<open>fault\<close>: after how many bytes the write fails, and how. A closed connection takes nothing.\<close>

definition pump_write :: "(nat \<times> err) option \<Rightarrow> side \<Rightarrow> byte list \<Rightarrow> relay_st \<Rightarrow> relay_st" where
  "pump_write fault d bs s =
     (let c = rl_conn s (peer d);
          put = (\<lambda>n. s\<lparr>rl_conn := (rl_conn s)(peer d := c\<lparr>cn_tx := cn_tx c @ take n bs\<rparr>)\<rparr>)
      in if cn_closed c then half_done d (Some use_of_closed) s
         else case fault of
           None \<Rightarrow> (put (length bs))\<lparr>rl_pump := (rl_pump s)(d := Reading)\<rparr>
         | Some (n, e) \<Rightarrow> half_done d (Some e) (put n))"

definition relay_start :: "int \<Rightarrow> (side \<Rightarrow> conn) \<Rightarrow> int \<Rightarrow> relay_st" where
  "relay_start idle cs t =
     (let s = \<lparr>rl_conn = cs, rl_pump = (\<lambda>_. Reading), rl_now = t, rl_last = t\<rparr> in if idle > 0 then bump idle s else s)"

inductive relay_step :: "int \<Rightarrow> relay_st \<Rightarrow> relay_st \<Rightarrow> bool" for idle where
  tick: "0 \<le> d \<Longrightarrow> relay_step idle s (s\<lparr>rl_now := rl_now s + d\<rparr>)"
| arrive: "cn_end (rl_conn s x) = None \<Longrightarrow> relay_step idle s (s\<lparr>rl_conn := (rl_conn s)(x :=
    (rl_conn s x)\<lparr>cn_rx := cn_rx (rl_conn s x) @ bs, cn_sent := cn_sent (rl_conn s x) @ bs\<rparr>)\<rparr>)"
| ended: "cn_end (rl_conn s x) = None \<Longrightarrow> relay_step idle s (s\<lparr>rl_conn := (rl_conn s)(x := (rl_conn s x)\<lparr>cn_end := Some e\<rparr>)\<rparr>)"
| reads: "rl_pump s x = Reading \<Longrightarrow> 0 < n \<Longrightarrow> n \<le> 32768 \<Longrightarrow> pump_read idle n x s = Some t \<Longrightarrow> relay_step idle s t"
| writes: "rl_pump s x = Writing bs \<Longrightarrow> relay_step idle s (pump_write fault x bs s)"

inductive_cases relay_stepE: "relay_step idle s t"

text \<open>\<open>g.Wait\<close> returns when both goroutines have.\<close>

definition relay_over :: "relay_st \<Rightarrow> bool" where
  "relay_over s \<longleftrightarrow> (\<forall>x. case rl_pump s x of Returned _ \<Rightarrow> True | _ \<Rightarrow> False)"

section \<open>Nothing is lost, changed or reordered\<close>

text \<open>
  The invariant of one direction, over what its source sent (\<open>w\<close>), what of it waits to be read, how the source ended, what the
  destination got and whether it was told the end: as long as no write failed, nothing is missing; after a failure the
  destination has the beginning.
\<close>

definition flow :: "pump \<Rightarrow> byte list \<Rightarrow> byte list \<Rightarrow> err option option \<Rightarrow> byte list \<Rightarrow> bool \<Rightarrow> bool" where
  "flow p w rx e tx sh =
     (case p of
        Reading \<Rightarrow> tx @ rx = w
      | Writing bs \<Rightarrow> tx @ bs @ rx = w
      | Returned r \<Rightarrow> prefix tx w \<and> (r = None \<longrightarrow> tx = w \<and> rx = [] \<and> e = Some None) \<and> sh)"

lemma flow_read: "flow Reading w rx e tx sh \<Longrightarrow> flow (Writing (take n rx)) w (drop n rx) e tx sh"
  by (simp add: flow_def)

lemma flow_end: "flow Reading w rx e tx sh \<Longrightarrow> r = None \<longrightarrow> rx = [] \<and> e = Some None \<Longrightarrow> flow (Returned r) w rx e tx True"
  by (auto simp: flow_def)

lemma flow_wrote: "flow (Writing bs) w rx e tx sh \<Longrightarrow> flow Reading w rx e (tx @ bs) sh"
  by (simp add: flow_def)

lemma flow_failed: "flow (Writing bs) w rx e tx sh \<Longrightarrow> flow (Returned (Some x)) w rx e (tx @ take n bs) True"
proof -
  assume "flow (Writing bs) w rx e tx sh"
  then have "w = (tx @ take n bs) @ drop n bs @ rx"
    using append_take_drop_id [of n bs] by (auto simp: flow_def)
  then show ?thesis by (simp add: flow_def)
qed

lemma flow_stopped: "flow (Writing bs) w rx e tx sh \<Longrightarrow> flow (Returned (Some x)) w rx e tx True"
  using flow_failed [of bs w rx e tx sh x 0] by simp

lemma flow_shut: "flow p w rx e tx sh \<Longrightarrow> sh \<longrightarrow> sh' \<Longrightarrow> flow p w rx e tx sh'"
  by (cases p) (auto simp: flow_def)

lemma flow_more: "flow p (v @ w) rx None tx sh \<Longrightarrow> flow p (v @ w @ bs) (rx @ bs) None tx sh"
proof (cases p)
  case (Returned r)
  assume "flow p (v @ w) rx None tx sh"
  then have "prefix tx ((v @ w) @ bs)" "r \<noteq> None" "sh"
    unfolding flow_def Returned by (auto simp del: append_assoc intro: prefix_prefix)
  then show ?thesis using Returned by (simp add: flow_def)
qed (auto simp: flow_def)

lemma flow_prefix: "flow p w rx e tx sh \<Longrightarrow> prefix tx w"
  by (cases p) (auto simp: flow_def intro: prefixI)

lemma flow_ended: "flow p w rx None tx sh \<Longrightarrow> flow p w rx e tx sh"
  by (cases p) (auto simp: flow_def)

definition flows :: "(side \<Rightarrow> byte list) \<Rightarrow> relay_st \<Rightarrow> side \<Rightarrow> bool" where
  "flows pre s x =
     (let src = rl_conn s x; dst = rl_conn s (peer x)
      in flow (rl_pump s x) (pre x @ cn_sent src) (cn_rx src) (cn_end src) (cn_tx dst) (cn_shut dst))"

lemma side_cases: "x = d \<or> x = peer d"
  by (cases x; cases d) simp_all

text \<open>A step of one goroutine touches its own direction, and closes or bumps what the other does not look at.\<close>

lemma flows_sides: "flows pre s y \<Longrightarrow> flows pre s (peer y) \<Longrightarrow> flows pre s x"
  using side_cases [of x y] by auto

lemma close_write_simps [simp]: "cn_rx (close_write c) = cn_rx c" "cn_end (close_write c) = cn_end c"
  "cn_tx (close_write c) = cn_tx c" "cn_sent (close_write c) = cn_sent c" "cn_shut (close_write c)"
  "cn_deadline (close_write c) = cn_deadline c"
  by (simp_all add: close_write_def)

lemma half_done_flows:
  assumes "flow (Returned r) (pre y @ cn_sent (rl_conn s y)) (cn_rx (rl_conn s y)) (cn_end (rl_conn s y)) (cn_tx (rl_conn s (peer y))) True"
    and "flows pre s (peer y)"
  shows "flows pre (half_done y r s) x"
  by (rule flows_sides [of pre _ y]) (use assms in \<open>simp_all add: flows_def half_done_def Let_def\<close>)

lemma pump_read_flows:
  assumes "pump_read idle n y s = Some t" "rl_pump s y = Reading" "\<forall>x. flows pre s x"
  shows "flows pre t x"
proof -
  obtain r c where r: "conn_read n (rl_now s) (rl_conn s y) = Some (r, c)"
    using assms(1) by (auto simp: pump_read_def idleRead_def split: option.splits)
  let ?s1 = "s\<lparr>rl_conn := (rl_conn s)(y := c)\<rparr>"
  have fy: "flow Reading (pre y @ cn_sent (rl_conn s y)) (cn_rx (rl_conn s y)) (cn_end (rl_conn s y)) (cn_tx (rl_conn s (peer y)))
      (cn_shut (rl_conn s (peer y)))" using assms(2,3) by (metis flows_def)
  have fp: "flows pre s (peer y)" using assms(3) by blast
  show ?thesis
  proof (cases r)
    case (Inl e)
    then have c: "c = rl_conn s y" "e = None \<longrightarrow> cn_rx c = [] \<and> cn_end c = Some None"
      using r by (auto simp: conn_read_def split: if_splits)
    then have "t = half_done y e s" using assms(1) r Inl by (simp add: pump_read_def idleRead_def)
    then show ?thesis using half_done_flows [OF flow_end [OF fy] fp] c by blast
  next
    case (Inr bs)
    then have c: "bs = take n (cn_rx (rl_conn s y))" "c = (rl_conn s y)\<lparr>cn_rx := drop n (cn_rx (rl_conn s y))\<rparr>"
      using r by (auto simp: conn_read_def split: if_splits)
    define s1 where "s1 = s\<lparr>rl_conn := (rl_conn s)(y := c)\<rparr>"
    have t: "t = ((if idle > 0 \<and> bs \<noteq> [] then bump idle s1 else s1)\<lparr>rl_last := rl_now s\<rparr>)\<lparr>rl_pump := (rl_pump s)(y := Writing bs)\<rparr>"
      using assms(1) r Inr by (auto simp: pump_read_def idleRead_def Let_def s1_def bump_def)
    have "flows pre t y" using flow_read [OF fy, of n] c by (simp add: t flows_def s1_def bump_def Let_def)
    moreover have "flows pre t (peer y)" using fp c by (simp add: t flows_def s1_def bump_def Let_def)
    ultimately show ?thesis by (rule flows_sides)
  qed
qed

lemma pump_write_flows:
  assumes "rl_pump s y = Writing bs" "\<forall>x. flows pre s x"
  shows "flows pre (pump_write fault y bs s) x"
proof -
  have fy: "flow (Writing bs) (pre y @ cn_sent (rl_conn s y)) (cn_rx (rl_conn s y)) (cn_end (rl_conn s y)) (cn_tx (rl_conn s (peer y)))
      (cn_shut (rl_conn s (peer y)))" using assms by (metis flows_def)
  have fp: "flows pre s (peer y)" using assms(2) by blast
  let ?c = "rl_conn s (peer y)"
  show ?thesis
  proof (cases "cn_closed ?c")
    case True
    then show ?thesis using half_done_flows [OF flow_stopped [OF fy] fp] by (simp add: pump_write_def Let_def)
  next
    case open_conn: False
    show ?thesis
    proof (cases fault)
      case None
      have "flows pre (pump_write fault y bs s) y" "flows pre (pump_write fault y bs s) (peer y)"
        using flow_wrote [OF fy] fp open_conn None by (simp_all add: pump_write_def flows_def Let_def)
      then show ?thesis by (rule flows_sides)
    next
      case (Some f)
      obtain n e where f: "f = (n, e)" by fastforce
      let ?s = "s\<lparr>rl_conn := (rl_conn s)(peer y := ?c\<lparr>cn_tx := cn_tx ?c @ take n bs\<rparr>)\<rparr>"
      have "flows pre ?s (peer y)" using fp by (simp add: flows_def Let_def)
      then show ?thesis using half_done_flows [of "Some e" pre y ?s x] flow_failed [OF fy, of e n] open_conn Some f
        by (simp add: pump_write_def Let_def)
    qed
  qed
qed

lemma relay_step_flows:
  assumes "relay_step idle s t" "\<forall>x. flows pre s x"
  shows "flows pre t x"
  using assms(1)
proof (cases rule: relay_step.cases)
  case (tick d)
  then show ?thesis using assms(2) by (auto simp: flows_def Let_def)
next
  case (arrive y bs)
  then have "flows pre t y" "flows pre t (peer y)"
    using assms(2)[rule_format, of y] assms(2)[rule_format, of "peer y"] by (simp_all add: flows_def Let_def flow_more)
  then show ?thesis by (rule flows_sides)
next
  case (ended y e)
  then have "flows pre t y" "flows pre t (peer y)"
    using assms(2)[rule_format, of y] assms(2)[rule_format, of "peer y"] by (simp_all add: flows_def Let_def flow_ended)
  then show ?thesis by (rule flows_sides)
next
  case (reads y n)
  then show ?thesis using pump_read_flows assms(2) by blast
next
  case (writes y bs fault)
  then show ?thesis using pump_write_flows assms(2) by blast
qed

section \<open>Deadlines\<close>

definition on_time :: "int \<Rightarrow> relay_st \<Rightarrow> bool" where
  "on_time idle s \<longleftrightarrow> rl_last s \<le> rl_now s \<and> (\<forall>x. cn_deadline (rl_conn s x) = Some (rl_last s + idle))"

lemma half_done_deadline [simp]: "rl_now (half_done d r s) = rl_now s" "rl_last (half_done d r s) = rl_last s"
  "cn_deadline (rl_conn (half_done d r s) x) = cn_deadline (rl_conn s x)"
  by (simp_all add: half_done_def)

lemma conn_read_deadline: "conn_read n t c = Some (r, c') \<Longrightarrow> cn_deadline c' = cn_deadline c"
  by (auto simp: conn_read_def split: if_splits)

lemma pump_read_on_time:
  assumes "pump_read idle n y s = Some t" "0 < n" "0 < idle" "on_time idle s"
  shows "on_time idle t"
proof -
  obtain r c where r: "conn_read n (rl_now s) (rl_conn s y) = Some (r, c)"
    using assms(1) by (auto simp: pump_read_def idleRead_def split: option.splits)
  have d: "cn_deadline c = cn_deadline (rl_conn s y)" by (rule conn_read_deadline [OF r])
  show ?thesis
  proof (cases r)
    case (Inl e)
    then show ?thesis using assms(1,4) r d by (auto simp: pump_read_def idleRead_def on_time_def)
  next
    case (Inr bs)
    then have "bs \<noteq> []" using r assms(2) by (auto simp: conn_read_def split: if_splits)
    then show ?thesis using assms(1,3) r Inr by (auto simp: pump_read_def idleRead_def on_time_def bump_def Let_def)
  qed
qed

lemma pump_write_on_time: "on_time idle s \<Longrightarrow> on_time idle (pump_write f y bs s)"
  by (auto simp: pump_write_def on_time_def Let_def split: option.splits prod.splits)

lemma relay_step_on_time:
  assumes "relay_step idle s t" "0 < idle" "on_time idle s"
  shows "on_time idle t"
  using assms(1)
proof (cases rule: relay_step.cases)
  case (reads x n)
  then show ?thesis using pump_read_on_time assms(2,3) by blast
next
  case (writes x bs fault)
  then show ?thesis using pump_write_on_time assms(3) by blast
qed (use assms(3) in \<open>auto simp: on_time_def\<close>)

lemma relay_reach_on_time: "(relay_step idle)\<^sup>*\<^sup>* (relay_start idle cs t0) s \<Longrightarrow> 0 < idle \<Longrightarrow> on_time idle s"
proof (induction rule: rtranclp_induct)
  case base
  then show ?case by (simp add: relay_start_def on_time_def bump_def)
next
  case (step s t)
  then show ?case using relay_step_on_time by blast
qed

section \<open>What the relay promises\<close>

text \<open>The connections when the startup phase hands over: nothing shut, bytes the client sent early may be waiting.\<close>

definition fresh_conn :: "conn \<Rightarrow> bool" where
  "fresh_conn c \<longleftrightarrow> cn_rx c = cn_sent c \<and> cn_end c = None \<and> \<not> cn_shut c \<and> \<not> cn_closed c"

lemma relay_reach_flows:
  assumes "(relay_step idle)\<^sup>*\<^sup>* (relay_start idle cs t0) s" "\<forall>x. fresh_conn (cs x)"
  shows "\<forall>x. flows (\<lambda>x. cn_tx (cs (peer x))) s x"
  using assms(1)
proof (induction rule: rtranclp_induct)
  case base
  then show ?case using assms(2) by (auto simp: relay_start_def bump_def flows_def flow_def fresh_conn_def Let_def)
next
  case (step s t)
  then show ?case using relay_step_flows by blast
qed

text \<open>
  C23: The relay is transparent. In every interleaving of the two copying goroutines, the network and the peers, each side has been
  sent what it had got before the relay (the startup message, the answers to the negotiation) followed by a beginning of what the other side sent, in order
  and unchanged; and when both goroutines have returned without an error, everything was delivered, in spite of the half-closes
  and deadlines, and each side was told that nothing more comes.
\<close>

theorem relay_is_transparent:
  assumes "(relay_step idle)\<^sup>*\<^sup>* (relay_start idle cs t0) s" "\<forall>x. fresh_conn (cs x)"
  shows "prefix (cn_tx (rl_conn s (peer x))) (cn_tx (cs (peer x)) @ cn_sent (rl_conn s x)) \<and>
    (rl_pump s x = Returned None \<longrightarrow>
       cn_tx (rl_conn s (peer x)) = cn_tx (cs (peer x)) @ cn_sent (rl_conn s x) \<and> cn_shut (rl_conn s (peer x)))"
proof -
  have f: "flow (rl_pump s x) (cn_tx (cs (peer x)) @ cn_sent (rl_conn s x)) (cn_rx (rl_conn s x)) (cn_end (rl_conn s x))
      (cn_tx (rl_conn s (peer x))) (cn_shut (rl_conn s (peer x)))"
    using relay_reach_flows [OF assms] by (simp add: flows_def Let_def)
  then have "prefix (cn_tx (rl_conn s (peer x))) (cn_tx (cs (peer x)) @ cn_sent (rl_conn s x))"
    by (rule flow_prefix)
  with f show ?thesis by (auto simp: flow_def)
qed

text \<open>
  The idle timeout ends idle sessions and no others: a goroutine that reads fails with a timeout exactly when the session
  has been without a byte in both directions for the idle time, however long its own direction has been quiet.
\<close>

theorem only_idle_sessions_time_out:
  assumes "(relay_step idle)\<^sup>*\<^sup>* (relay_start idle cs t0) s" "0 < idle" "\<not> cn_closed (rl_conn s x)"
  shows "conn_read n (rl_now s) (rl_conn s x) = Some (Inl (Some io_timeout), rl_conn s x) \<longleftrightarrow>
     rl_last s + idle \<le> rl_now s \<or> cn_rx (rl_conn s x) = [] \<and> cn_end (rl_conn s x) = Some (Some io_timeout)"
proof -
  have "cn_deadline (rl_conn s x) = Some (rl_last s + idle)"
    using relay_reach_on_time [OF assms(1,2)] by (simp add: on_time_def)
  then show ?thesis using assms(3) by (auto simp: conn_read_def)
qed

text \<open>
  A write has no deadline. When a peer stops reading while its connection stays up, the goroutine that writes to it is not ended
  by the idle timeout, however long both directions are quiet: the session keeps its slot. (\<open>IdleTimeout\<close> is documented to close
  a session that has seen no bytes in either direction.)
\<close>

theorem stalled_write_outlives_idle_timeout:
  assumes "0 < idle" "0 \<le> t" "cn_rx (cs Backend) \<noteq> []" "fresh_conn (cs Backend)" "fresh_conn (cs Client)"
  shows "\<exists>s. (relay_step idle)\<^sup>*\<^sup>* (relay_start idle cs t0) s \<and> rl_last s + t \<le> rl_now s \<and> \<not> relay_over s"
proof -
  let ?s0 = "relay_start idle cs t0"
  have s0: "cn_rx (rl_conn ?s0 Backend) = cn_rx (cs Backend)" "\<not> cn_closed (rl_conn ?s0 Backend)" "rl_pump ?s0 Backend = Reading"
      "cn_deadline (rl_conn ?s0 Backend) = Some (t0 + idle)" "rl_now ?s0 = t0"
    using assms(1,4) by (auto simp: relay_start_def bump_def fresh_conn_def Let_def)
  define bs where "bs = take 1 (cn_rx (cs Backend))"
  have "\<exists>s1. pump_read idle 1 Backend ?s0 = Some s1 \<and> rl_pump s1 Backend = Writing bs \<and> rl_last s1 = t0 \<and> rl_now s1 = t0"
    using s0 assms(1,3) by (auto simp: pump_read_def idleRead_def conn_read_def Let_def bs_def bump_def)
  then obtain s1 where s1: "pump_read idle 1 Backend ?s0 = Some s1" "rl_pump s1 Backend = Writing bs" "rl_last s1 = t0" "rl_now s1 = t0"
    by blast
  have "relay_step idle ?s0 s1" by (rule relay_step.reads [OF s0(3) _ _ s1(1)]) simp_all
  moreover have "relay_step idle s1 (s1\<lparr>rl_now := rl_now s1 + t\<rparr>)" by (rule relay_step.tick [OF assms(2)])
  moreover have "\<not> relay_over (s1\<lparr>rl_now := rl_now s1 + t\<rparr>)" using s1(2) by (auto simp: relay_over_def intro!: exI [of _ Backend])
  ultimately show ?thesis using s1 by (intro exI [of _ "s1\<lparr>rl_now := rl_now s1 + t\<rparr>"]) auto
qed

section \<open>From the startup phase to the relay\<close>

record proxy =
  DialTimeout :: int
  StartupTimeout :: int
  MaxConns :: int
  IdleTimeout :: int

definition defaultStartupTimeout :: int where "defaultStartupTimeout = 10 * second"
definition defaultMaxConns :: int where "defaultMaxConns = 256"
definition defaultIdleTimeout :: int where "defaultIdleTimeout = 15 * 60 * second"

definition new_proxy :: proxy where
  "new_proxy = \<lparr>DialTimeout = 5 * second, StartupTimeout = defaultStartupTimeout, MaxConns = defaultMaxConns,
     IdleTimeout = defaultIdleTimeout\<rparr>"

definition startupTimeout :: "proxy \<Rightarrow> int" where
  "startupTimeout p = (if StartupTimeout p > 0 then StartupTimeout p else defaultStartupTimeout)"

definition idleTimeout :: "proxy \<Rightarrow> int" where
  "idleTimeout p = (if IdleTimeout p > 0 then IdleTimeout p else defaultIdleTimeout)"

lemma timeouts_positive: "0 < startupTimeout p" "0 < idleTimeout p"
  by (auto simp: startupTimeout_def idleTimeout_def defaultStartupTimeout_def defaultIdleTimeout_def second_def)

record error_response =
  Severity :: string
  SeverityUnlocalized :: string
  Code :: string
  Message :: string

definition writeRefusal :: "(error_response \<Rightarrow> err + byte list) \<Rightarrow> string \<Rightarrow> string \<Rightarrow> err + byte list" where
  "writeRefusal encode code msg = encode \<lparr>Severity = ''FATAL'', SeverityUnlocalized = ''FATAL'', Code = code, Message = msg\<rparr>"

text \<open>
  The connections after \<open>handleConn\<close> has written the startup message to the backend: the client got the single bytes of the
  negotiation, and whatever it sent after its startup message is unread. The startup deadline is lifted.
\<close>

definition hand_over :: "byte list \<Rightarrow> byte list \<Rightarrow> byte list \<Rightarrow> side \<Rightarrow> conn" where
  "hand_over replies raw early d =
     (let c = (\<lambda>got sent. \<lparr>cn_rx = sent, cn_end = None, cn_deadline = None, cn_tx = got, cn_shut = False, cn_closed = False,
          cn_CloseWrite = True, cn_sent = sent\<rparr>)
      in case d of Client \<Rightarrow> c replies early | Backend \<Rightarrow> c raw [])"

lemma hand_over_fresh: "fresh_conn (hand_over replies raw early x)"
  by (cases x) (simp_all add: fresh_conn_def hand_over_def Let_def)

text \<open>
  A client that sent two bytes early and then closed its sending: they reach the backend behind the startup message, and the
  backend is told the end.
\<close>

definition sample_relay :: "nat \<Rightarrow> relay_st" where
  "sample_relay k =
     (let s0 = relay_start 5 (hand_over [78] [1] [7, 8]) 0; s1 = the (pump_read 5 2 Client s0);
          s2 = pump_write None Client [7, 8] s1;
          s3 = s2\<lparr>rl_conn := (rl_conn s2)(Client := (rl_conn s2 Client)\<lparr>cn_end := Some None\<rparr>)\<rparr>;
          s4 = the (pump_read 5 1 Client s3)
      in [s0, s1, s2, s3, s4] ! k)"

lemmas sample_relay_simps = sample_relay_def relay_start_def hand_over_def pump_read_def idleRead_def conn_read_def pump_write_def
  bump_def half_done_def close_write_def Let_def

lemma sample_relay_steps: "relay_step 5 (sample_relay 0) (sample_relay 1)" "relay_step 5 (sample_relay 1) (sample_relay 2)"
  "relay_step 5 (sample_relay 2) (sample_relay 3)" "relay_step 5 (sample_relay 3) (sample_relay 4)"
proof -
  show "relay_step 5 (sample_relay 0) (sample_relay 1)"
    by (rule relay_step.reads [of _ Client 2]) (simp_all add: sample_relay_simps)
  have "sample_relay 2 = pump_write None Client [7, 8] (sample_relay 1)" by (simp add: sample_relay_def Let_def)
  moreover have "rl_pump (sample_relay 1) Client = Writing [7, 8]" by (simp add: sample_relay_simps)
  ultimately show "relay_step 5 (sample_relay 1) (sample_relay 2)" using relay_step.writes by metis
  have "sample_relay 3 = (sample_relay 2)\<lparr>rl_conn := (rl_conn (sample_relay 2))(Client := (rl_conn (sample_relay 2) Client)\<lparr>cn_end := Some None\<rparr>)\<rparr>"
    by (simp add: sample_relay_def Let_def)
  moreover have "cn_end (rl_conn (sample_relay 2) Client) = None" by (simp add: sample_relay_simps)
  ultimately show "relay_step 5 (sample_relay 2) (sample_relay 3)" using relay_step.ended by metis
  show "relay_step 5 (sample_relay 3) (sample_relay 4)"
    by (rule relay_step.reads [of _ Client 1]) (simp_all add: sample_relay_simps)
qed

lemma sample_relay_reach: "(relay_step 5)\<^sup>*\<^sup>* (relay_start 5 (hand_over [78] [1] [7, 8]) 0) (sample_relay 4)"
proof -
  have "sample_relay 0 = relay_start 5 (hand_over [78] [1] [7, 8]) 0" by (simp add: sample_relay_def Let_def)
  with sample_relay_steps show ?thesis by (metis rtranclp.simps)
qed

theorem relay_is_transparent_witness:
  "cn_tx (rl_conn (sample_relay 4) Backend) = [1, 7, 8] \<and> cn_shut (rl_conn (sample_relay 4) Backend)"
proof -
  have "rl_pump (sample_relay 4) Client = Returned None" "cn_sent (rl_conn (sample_relay 4) Client) = [7, 8]"
    by (simp_all add: sample_relay_simps)
  moreover have "cn_tx (hand_over [78] [1] [7, 8] (peer Client)) = [1]" by (simp add: hand_over_def)
  ultimately show ?thesis using relay_is_transparent [OF sample_relay_reach, of Client] hand_over_fresh by simp
qed

theorem only_idle_sessions_time_out_witness:
  "conn_read 1 (rl_now (sample_relay 4)) (rl_conn (sample_relay 4) Backend) \<noteq>
     Some (Inl (Some io_timeout), rl_conn (sample_relay 4) Backend)"
proof -
  have "\<not> cn_closed (rl_conn (sample_relay 4) Backend)" "rl_last (sample_relay 4) = 0" "rl_now (sample_relay 4) = 0"
      "cn_end (rl_conn (sample_relay 4) Backend) = None"
    by (simp_all add: sample_relay_simps)
  then show ?thesis using only_idle_sessions_time_out [OF sample_relay_reach, of Backend 1] by simp
qed

theorem stalled_write_outlives_idle_timeout_witness:
  "\<exists>s. (relay_step 5)\<^sup>*\<^sup>* (relay_start 5 (\<lambda>x. hand_over [] [9] [9] (peer x)) 0) s \<and> rl_last s + 1000 \<le> rl_now s \<and> \<not> relay_over s"
  by (rule stalled_write_outlives_idle_timeout) (simp_all add: hand_over_fresh, simp add: hand_over_def)


end
