(* ===== verification/Registry_Schema.thy ===== *)
theory Registry_Schema
  imports Registry_Access
begin

text \<open>
  The schema of the registry (\<open>internal/registry/schema.go\<close>) and its migrations. A database file is a schema (tables with
  columns, keys and references, and unique indexes) with rows; the statements the migrations use are a datatype with their
  meaning in SQLite, foreign keys off as \<open>migrate\<close> has them. \<open>tables_of\<close> reads the typed tables of \<open>Registry\<close> off a file.
\<close>

section \<open>Database files\<close>

datatype sval = VNull | VText string | VInt int

datatype dflt = NoDefault | Const sval | StrftimeNow

record column =
  c_name :: string
  c_notnull :: bool
  c_default :: dflt
  c_refs :: "(string \<times> string) option"

definition col :: "string \<Rightarrow> bool \<Rightarrow> dflt \<Rightarrow> (string \<times> string) option \<Rightarrow> column" where
  "col n nn d r = \<lparr>c_name = n, c_notnull = nn, c_default = d, c_refs = r\<rparr>"

record uindex =
  i_name :: string
  i_table :: string
  i_cols :: "string list"
  i_unless :: "(string \<times> string) option"

definition index :: "string \<Rightarrow> string \<Rightarrow> string list \<Rightarrow> (string \<times> string) option \<Rightarrow> uindex" where
  "index n t cs w = \<lparr>i_name = n, i_table = t, i_cols = cs, i_unless = w\<rparr>"

record tab =
  t_cols :: "column list"
  t_keys :: "string list list"

record schema =
  s_tables :: "(string \<times> tab) list"
  s_indexes :: "uindex list"

type_synonym srow = "string \<Rightarrow> sval"

record sfile =
  f_schema :: schema
  f_rows :: "string \<Rightarrow> srow list"

datatype stmt =
  CreateTable bool string "column list" "string list list"
| CreateUniqueIndex bool uindex
| AddColumn string column
| FillFrom string string string string string string
| InsertSelect string string "string list"
| DropTable string
| RenameTable string string

definition col_names :: "tab \<Rightarrow> string list" where "col_names t = map c_name (t_cols t)"

definition update_tab :: "string \<Rightarrow> (tab \<Rightarrow> tab) \<Rightarrow> schema \<Rightarrow> schema" where
  "update_tab n f s = s\<lparr>s_tables := map (\<lambda>(k, t). (k, if k = n then f t else t)) (s_tables s)\<rparr>"

definition rename_to :: "string \<Rightarrow> string \<Rightarrow> string \<Rightarrow> string" where
  "rename_to a b x = (if x = a then b else x)"

definition rename_refs :: "string \<Rightarrow> string \<Rightarrow> tab \<Rightarrow> tab" where
  "rename_refs a b t = t\<lparr>t_cols := map (\<lambda>c. c\<lparr>c_refs := map_option (apfst (rename_to a b)) (c_refs c)\<rparr>) (t_cols t)\<rparr>"

definition has_cols :: "schema \<Rightarrow> string \<Rightarrow> string list \<Rightarrow> bool" where
  "has_cols s n cs = (case map_of (s_tables s) n of None \<Rightarrow> False | Some t \<Rightarrow> list_all (\<lambda>c. c \<in> set (col_names t)) cs)"

text \<open>What a statement does to the schema. Adding a column needs a constant default when the column must not be null.\<close>

fun alter :: "stmt \<Rightarrow> schema \<Rightarrow> err + schema" where
  "alter (CreateTable unless n cs ks) s =
     (if map_of (s_tables s) n \<noteq> None then (if unless then Inr s else Inl (Msg (''table '' @ n @ '' already exists'')))
      else Inr (s\<lparr>s_tables := s_tables s @ [(n, \<lparr>t_cols = cs, t_keys = ks\<rparr>)]\<rparr>))"
| "alter (CreateUniqueIndex unless i) s =
     (if i_name i \<in> i_name ` set (s_indexes s) then
        (if unless then Inr s else Inl (Msg (''index '' @ i_name i @ '' already exists'')))
      else if \<not> has_cols s (i_table i) (i_cols i) then Inl (Msg (''no such table: '' @ i_table i))
      else Inr (s\<lparr>s_indexes := s_indexes s @ [i]\<rparr>))"
| "alter (AddColumn n c) s =
     (if \<not> has_cols s n [] then Inl (Msg (''no such table: '' @ n))
      else if has_cols s n [c_name c] then Inl (Msg (''duplicate column name: '' @ c_name c))
      else case c_default c of
        StrftimeNow \<Rightarrow> Inl (Msg ''Cannot add a column with non-constant default'')
      | Const v \<Rightarrow> if c_notnull c \<and> v = VNull then Inl (Msg ''Cannot add a NOT NULL column with default value NULL'')
          else Inr (update_tab n (\<lambda>t. t\<lparr>t_cols := t_cols t @ [c]\<rparr>) s)
      | NoDefault \<Rightarrow> if c_notnull c then Inl (Msg ''Cannot add a NOT NULL column with default value NULL'')
          else Inr (update_tab n (\<lambda>t. t\<lparr>t_cols := t_cols t @ [c]\<rparr>) s))"
| "alter (FillFrom n c other val key fk) s =
     (if has_cols s n [c, fk] \<and> has_cols s other [val, key] then Inr s else Inl (Msg ''no such column''))"
| "alter (InsertSelect n other cs) s =
     (if has_cols s n cs \<and> has_cols s other cs then Inr s else Inl (Msg ''no such column''))"
| "alter (DropTable n) s =
     (if \<not> has_cols s n [] then Inl (Msg (''no such table: '' @ n))
      else Inr (s\<lparr>s_tables := filter (\<lambda>(k, t). k \<noteq> n) (s_tables s), s_indexes := filter (\<lambda>i. i_table i \<noteq> n) (s_indexes s)\<rparr>))"
| "alter (RenameTable a b) s =
     (if \<not> has_cols s a [] then Inl (Msg (''no such table: '' @ a))
      else if has_cols s b [] then Inl (Msg (''there is already another table: '' @ b))
      else Inr (s\<lparr>s_tables := map (\<lambda>(k, t). (rename_to a b k, rename_refs a b t)) (s_tables s),
        s_indexes := map (\<lambda>i. i\<lparr>i_table := rename_to a b (i_table i)\<rparr>) (s_indexes s)\<rparr>))"

fun value_of :: "string \<Rightarrow> dflt \<Rightarrow> sval" where
  "value_of now NoDefault = VNull"
| "value_of now (Const v) = v"
| "value_of now StrftimeNow = VText now"

definition default_of :: "string \<Rightarrow> schema \<Rightarrow> string \<Rightarrow> string \<Rightarrow> sval" where
  "default_of now s n c =
     (case map_of (s_tables s) n of
        None \<Rightarrow> VNull
      | Some t \<Rightarrow> (case find (\<lambda>k. c_name k = c) (t_cols t) of None \<Rightarrow> VNull | Some k \<Rightarrow> value_of now (c_default k)))"

text \<open>\<open>COALESCE((SELECT val FROM other WHERE other.key = row.fk), '')\<close>\<close>

definition looked_up :: "srow list \<Rightarrow> string \<Rightarrow> string \<Rightarrow> sval \<Rightarrow> sval" where
  "looked_up others val key x =
     (case find (\<lambda>q. q key = x \<and> x \<noteq> VNull) others of
        Some q \<Rightarrow> (if q val = VNull then VText [] else q val)
      | None \<Rightarrow> VText [])"

text \<open>What it does to the rows, \<open>s\<close> being the schema before.\<close>

fun change :: "string \<Rightarrow> stmt \<Rightarrow> schema \<Rightarrow> (string \<Rightarrow> srow list) \<Rightarrow> string \<Rightarrow> srow list" where
  "change now (CreateTable unless n cs ks) s R = (if map_of (s_tables s) n \<noteq> None then R else R(n := []))"
| "change now (CreateUniqueIndex unless i) s R = R"
| "change now (AddColumn n c) s R = R(n := map (\<lambda>r. r(c_name c := value_of now (c_default c))) (R n))"
| "change now (FillFrom n c other val key fk) s R =
     R(n := map (\<lambda>r. if r c = VText [] then r(c := looked_up (R other) val key (r fk)) else r) (R n))"
| "change now (InsertSelect n other cs) s R =
     R(n := R n @ map (\<lambda>q c. if c \<in> set cs then q c else default_of now s n c) (R other))"
| "change now (DropTable n) s R = R(n := [])"
| "change now (RenameTable a b) s R = R(b := R a, a := [])"

definition unique_rows :: "string list \<Rightarrow> srow list \<Rightarrow> bool" where
  "unique_rows ks rows \<longleftrightarrow> distinct (filter (\<lambda>vs. VNull \<notin> set vs) (map (\<lambda>r. map r ks) rows))"

definition indexed :: "uindex \<Rightarrow> srow list \<Rightarrow> srow list" where
  "indexed i rows = (case i_unless i of None \<Rightarrow> rows | Some (c, v) \<Rightarrow> filter (\<lambda>r. r c \<noteq> VText v) rows)"

definition tab_ok :: "tab \<Rightarrow> srow list \<Rightarrow> bool" where
  "tab_ok t rows \<longleftrightarrow> list_all (\<lambda>c. c_notnull c \<longrightarrow> list_all (\<lambda>r. r (c_name c) \<noteq> VNull) rows) (t_cols t) \<and>
     list_all (\<lambda>ks. unique_rows ks rows) (t_keys t)"

definition file_ok :: "sfile \<Rightarrow> bool" where
  "file_ok f \<longleftrightarrow> list_all (\<lambda>(n, t). tab_ok t (f_rows f n)) (s_tables (f_schema f)) \<and>
     list_all (\<lambda>i. unique_rows (i_cols i) (indexed i (f_rows f (i_table i)))) (s_indexes (f_schema f))"

definition run_stmt :: "string \<Rightarrow> stmt \<Rightarrow> sfile \<Rightarrow> err + sfile" where
  "run_stmt now st f =
     (case alter st (f_schema f) of
        Inl e \<Rightarrow> Inl e
      | Inr s \<Rightarrow> let g = \<lparr>f_schema = s, f_rows = change now st (f_schema f) (f_rows f)\<rparr> in
          if file_ok g then Inr g else Inl (Msg ''constraint failed''))"

fun run_script :: "string \<Rightarrow> stmt list \<Rightarrow> sfile \<Rightarrow> err + sfile" where
  "run_script now [] f = Inr f"
| "run_script now (st # sts) f = (case run_stmt now st f of Inl e \<Rightarrow> Inl e | Inr g \<Rightarrow> run_script now sts g)"

section \<open>The migrations\<close>

definition schemaV1 :: "stmt list" where
  "schemaV1 =
   [CreateTable True ''sources''
     [col ''id'' True (NoDefault) None,
      col ''name'' True (NoDefault) None,
      col ''pg_version'' True (NoDefault) None,
      col ''volume'' True (NoDefault) None,
      col ''conn_host'' True (Const (VText [])) None,
      col ''conn_port'' True (Const (VInt 0)) None,
      col ''conn_user'' True (Const (VText [])) None,
      col ''conn_db'' True (Const (VText [])) None,
      col ''network'' True (Const (VText [])) None,
      col ''state'' True (NoDefault) None,
      col ''created_at'' True (StrftimeNow) None,
      col ''updated_at'' True (StrftimeNow) None]
     [[''id''], [''name'']],
    CreateTable True ''branches''
     [col ''id'' True (NoDefault) None,
      col ''name'' True (NoDefault) None,
      col ''source_id'' True (NoDefault) (Some (''sources'', ''id'')),
      col ''state'' True (NoDefault) None,
      col ''container_id'' True (Const (VText [])) None,
      col ''rw_volume'' True (NoDefault) None,
      col ''port'' True (Const (VInt 0)) None,
      col ''created_at'' True (StrftimeNow) None,
      col ''updated_at'' True (StrftimeNow) None]
     [[''id'']],
    CreateUniqueIndex True (index ''branches_live_name'' ''branches'' [''name''] (Some (''state'', ''destroyed''))),
    CreateTable True ''transitions''
     [col ''id'' True (NoDefault) None,
      col ''entity'' True (NoDefault) None,
      col ''entity_id'' True (NoDefault) None,
      col ''from_state'' True (NoDefault) None,
      col ''to_state'' True (NoDefault) None,
      col ''reason'' True (Const (VText [])) None,
      col ''at'' True (StrftimeNow) None]
     [[''id'']]]"

definition migrateV2 :: "stmt list" where
  "migrateV2 =
   [AddColumn ''branches'' (col ''expires_at'' True (Const (VText [])) None),
    AddColumn ''branches'' (col ''source_volume'' True (Const (VText [])) None),
    FillFrom ''branches'' ''source_volume'' ''sources'' ''volume'' ''id'' ''source_id'',
    CreateTable False ''sources_new''
     [col ''id'' True (NoDefault) None,
      col ''name'' True (NoDefault) None,
      col ''pg_version'' True (NoDefault) None,
      col ''volume'' True (NoDefault) None,
      col ''conn_host'' True (Const (VText [])) None,
      col ''conn_port'' True (Const (VInt 0)) None,
      col ''conn_user'' True (Const (VText [])) None,
      col ''conn_db'' True (Const (VText [])) None,
      col ''network'' True (Const (VText [])) None,
      col ''state'' True (NoDefault) None,
      col ''generation'' True (Const (VInt 1)) None,
      col ''created_at'' True (StrftimeNow) None,
      col ''updated_at'' True (StrftimeNow) None]
     [[''id'']],
    InsertSelect ''sources_new'' ''sources''
     [''id'', ''name'', ''pg_version'', ''volume'', ''conn_host'', ''conn_port'', ''conn_user'', ''conn_db'', ''network'', ''state'',
      ''created_at'', ''updated_at''],
    DropTable ''sources'',
    RenameTable ''sources_new'' ''sources'',
    CreateUniqueIndex False (index ''sources_live_name'' ''sources'' [''name''] (Some (''state'', ''failed'')))]"

definition migrateV3 :: "stmt list" where
  "migrateV3 =
   [AddColumn ''branches'' (col ''host'' True (Const (VText ''127.0.0.1'')) None)]"

definition migrateV4 :: "stmt list" where
  "migrateV4 =
   [CreateTable False ''mask_scripts''
     [col ''source_id'' True (NoDefault) None,
      col ''ord'' True (NoDefault) None,
      col ''name'' True (NoDefault) None,
      col ''sql'' True (NoDefault) None]
     [[''source_id'', ''ord'']]]"

definition migrateV5 :: "stmt list" where
  "migrateV5 =
   [CreateTable False ''layers''
     [col ''id'' True (NoDefault) None,
      col ''source_id'' True (NoDefault) None,
      col ''volume'' True (NoDefault) None,
      col ''parent_layer_id'' False (NoDefault) (Some (''layers'', ''id''))]
     [[''id'']],
    AddColumn ''branches'' (col ''base_layer_id'' False (NoDefault) None),
    AddColumn ''branches'' (col ''parent_branch_name'' True (Const (VText [])) None)]"

definition migrateV6 :: "stmt list" where
  "migrateV6 =
   [AddColumn ''sources'' (col ''seed_via'' True (Const (VText ''basebackup'')) None),
    AddColumn ''sources'' (col ''dump_schemas'' True (Const (VText [])) None)]"

definition migrateV7 :: "stmt list" where
  "migrateV7 =
   [AddColumn ''branches'' (col ''password'' True (Const (VText [])) None)]"

definition migrateV8 :: "stmt list" where
  "migrateV8 =
   [CreateTable False ''meta''
     [col ''key'' True (NoDefault) None,
      col ''value'' True (NoDefault) None]
     [[''key'']]]"

definition migrateV9 :: "stmt list" where
  "migrateV9 =
   [CreateTable False ''api_tokens''
     [col ''id'' True (NoDefault) None,
      col ''name'' True (NoDefault) None,
      col ''token_hash'' True (NoDefault) None,
      col ''role'' True (NoDefault) None,
      col ''created_at'' True (StrftimeNow) None]
     [[''id''], [''name'']]]"

definition migrateV10 :: "stmt list" where
  "migrateV10 =
   [CreateUniqueIndex True (index ''api_tokens_hash'' ''api_tokens'' [''token_hash''] None)]"

definition migrateV11 :: "stmt list" where
  "migrateV11 =
   [AddColumn ''transitions'' (col ''actor'' True (Const (VText [])) None)]"

definition migrations :: "stmt list list" where
  "migrations = [schemaV1, migrateV2, migrateV3, migrateV4, migrateV5, migrateV6, migrateV7, migrateV8, migrateV9, migrateV10,
     migrateV11]"


definition fresh_file :: sfile where
  "fresh_file = \<lparr>f_schema = \<lparr>s_tables = [], s_indexes = []\<rparr>, f_rows = (\<lambda>_. [])\<rparr>"

definition migrate_file :: "string \<Rightarrow> nat \<Rightarrow> sfile \<Rightarrow> err option \<times> nat \<times> sfile" where
  "migrate_file now version f = migrate (map (run_script now) migrations) version f"

end
