(* ===== verification/Registry_Upgrade.thy ===== *)
theory Registry_Upgrade
  imports Registry_Schema
begin

text \<open>
  Upgrading the registry: the migrations lead every older database file to the schema of a fresh one, never fail on a file whose
  constraints hold, and keep what was stored. Both are shown statement by statement; the schemas are computed.
\<close>

section \<open>Schemas\<close>

fun alter_all :: "stmt list \<Rightarrow> schema \<Rightarrow> err + schema" where
  "alter_all [] s = Inr s"
| "alter_all (st # sts) s = (case alter st s of Inl e \<Rightarrow> Inl e | Inr t \<Rightarrow> alter_all sts t)"

lemma alter_all_append: "alter_all (xs @ ys) s = (case alter_all xs s of Inl e \<Rightarrow> Inl e | Inr t \<Rightarrow> alter_all ys t)"
  by (induction xs arbitrary: s) (auto split: sum.splits)

definition schema_at :: "nat \<Rightarrow> schema" where
  "schema_at k = (case alter_all (concat (take k migrations)) (f_schema fresh_file) of Inr s \<Rightarrow> s | Inl _ \<Rightarrow> f_schema fresh_file)"

definition key_cols :: "schema \<Rightarrow> string \<Rightarrow> string list" where
  "key_cols s n = concat (case map_of (s_tables s) n of None \<Rightarrow> [] | Some t \<Rightarrow> t_keys t) @
     concat (map (\<lambda>i. if i_table i = n then i_cols i @ (case i_unless i of None \<Rightarrow> [] | Some (c, _) \<Rightarrow> [c]) else []) (s_indexes s))"

text \<open>A schema whose keys, indexes and references name existing tables and columns\<close>

definition schema_ok :: "schema \<Rightarrow> bool" where
  "schema_ok s \<longleftrightarrow> distinct (map fst (s_tables s)) \<and>
     list_all (\<lambda>(n, t). distinct (col_names t) \<and> has_cols s n (key_cols s n) \<and>
       list_all (\<lambda>c. case c_refs c of None \<Rightarrow> True | Some (m, k) \<Rightarrow> has_cols s m [k]) (t_cols t)) (s_tables s) \<and>
     list_all (\<lambda>i. has_cols s (i_table i) (i_cols i)) (s_indexes s)"

lemma migrations_length [simp]: "length migrations = 11"
  by (simp add: migrations_def)

lemma migrations_alter: "isl (alter_all (concat migrations) (f_schema fresh_file)) = False"
  by code_simp

lemma schema_at_0: "schema_at 0 = f_schema fresh_file"
  by (simp add: schema_at_def)

lemma schema_at_Suc: "k < 11 \<Longrightarrow> alter_all (migrations ! k) (schema_at k) = Inr (schema_at (Suc k))"
proof -
  assume k: "k < 11"
  have "concat migrations = concat (take k migrations) @ migrations ! k @ concat (drop (Suc k) migrations)"
    using id_take_nth_drop [of k migrations] k by (metis concat.simps(2) concat_append migrations_length)
  then show ?thesis using migrations_alter k
    by (auto simp: schema_at_def alter_all_append take_Suc_conv_app_nth split: sum.splits)
qed

lemma schema_at_ok_all: "list_all schema_ok (map schema_at [0, 1, 2, 3, 4, 5, 6, 7, 8, 9, 10, 11])"
  by code_simp

lemma schema_at_ok: "k \<le> 11 \<Longrightarrow> schema_ok (schema_at k)"
proof -
  assume "k \<le> 11"
  then have "k = 0 \<or> k = 1 \<or> k = 2 \<or> k = 3 \<or> k = 4 \<or> k = 5 \<or> k = 6 \<or> k = 7 \<or> k = 8 \<or> k = 9 \<or> k = 10 \<or> k = 11" by presburger
  then show ?thesis using schema_at_ok_all by auto
qed

lemma schema_at_again: "alter_all schemaV1 (schema_at 1) = Inr (schema_at 1)"
  by code_simp

section \<open>Statements that cannot fail\<close>

lemma file_ok_iff:
  "file_ok f \<longleftrightarrow> (\<forall>n t. (n, t) \<in> set (s_tables (f_schema f)) \<longrightarrow> tab_ok t (f_rows f n)) \<and>
     (\<forall>i \<in> set (s_indexes (f_schema f)). unique_rows (i_cols i) (indexed i (f_rows f (i_table i))))"
  by (auto simp: file_ok_def list_all_iff)

lemma unique_rows_map:
  assumes "\<forall>r \<in> set rows. \<forall>c \<in> set ks. g r c = r c"
  shows "unique_rows ks (map g rows) = unique_rows ks rows"
proof -
  have "map (\<lambda>r. map r ks) (map g rows) = map (\<lambda>r. map r ks) rows" using assms by simp
  then show ?thesis by (simp only: unique_rows_def)
qed

lemma indexed_map:
  assumes "\<forall>r \<in> set rows. \<forall>c v. i_unless i = Some (c, v) \<longrightarrow> g r c = r c"
  shows "indexed i (map g rows) = map g (indexed i rows)"
  using assms by (auto simp: indexed_def filter_map o_def intro!: arg_cong [of _ _ "map g"] filter_cong split: option.splits)

lemma set_indexed: "set (indexed i rows) \<subseteq> set rows"
  by (auto simp: indexed_def split: option.splits)

lemma key_cols_of:
  "distinct (map fst (s_tables s)) \<Longrightarrow> (n, t) \<in> set (s_tables s) \<Longrightarrow> ks \<in> set (t_keys t) \<Longrightarrow> set ks \<subseteq> set (key_cols s n)"
  "i \<in> set (s_indexes s) \<Longrightarrow> i_table i = n \<Longrightarrow> set (i_cols i) \<subseteq> set (key_cols s n)"
  "i \<in> set (s_indexes s) \<Longrightarrow> i_table i = n \<Longrightarrow> i_unless i = Some (c, v) \<Longrightarrow> c \<in> set (key_cols s n)"
proof -
  show "set ks \<subseteq> set (key_cols s n)" if "distinct (map fst (s_tables s))" "(n, t) \<in> set (s_tables s)" "ks \<in> set (t_keys t)"
    using map_of_is_SomeI [OF that(1,2)] that(3) by (auto simp: key_cols_def)
  show "set (i_cols i) \<subseteq> set (key_cols s n)" if "i \<in> set (s_indexes s)" "i_table i = n"
    using that by (auto simp: key_cols_def intro!: bexI [of _ i])
  show "c \<in> set (key_cols s n)" if "i \<in> set (s_indexes s)" "i_table i = n" "i_unless i = Some (c, v)"
    using that by (auto simp: key_cols_def intro!: bexI [of _ i])
qed

lemma keys_untouched:
  assumes "file_ok f" "distinct (map fst (s_tables (f_schema f)))" "c \<notin> set (key_cols (f_schema f) n)"
    and g: "\<forall>r c'. c' \<noteq> c \<longrightarrow> g r c' = r c'"
  shows "(n, t) \<in> set (s_tables (f_schema f)) \<Longrightarrow> ks \<in> set (t_keys t) \<Longrightarrow> unique_rows ks (map g (f_rows f n))"
    and "i \<in> set (s_indexes (f_schema f)) \<Longrightarrow> i_table i = n \<Longrightarrow> unique_rows (i_cols i) (indexed i (map g (f_rows f n)))"
proof -
  assume t: "(n, t) \<in> set (s_tables (f_schema f))" "ks \<in> set (t_keys t)"
  then have "unique_rows ks (f_rows f n)" using assms(1) by (auto simp: file_ok_iff tab_ok_def list_all_iff)
  moreover have "c \<notin> set ks" using key_cols_of(1) [OF assms(2) t] assms(3) by auto
  then have "\<forall>r \<in> set (f_rows f n). \<forall>c \<in> set ks. g r c = r c" using g by metis
  ultimately show "unique_rows ks (map g (f_rows f n))" by (simp add: unique_rows_map)
next
  assume i: "i \<in> set (s_indexes (f_schema f))" "i_table i = n"
  then have "unique_rows (i_cols i) (indexed i (f_rows f n))" using assms(1) by (auto simp: file_ok_iff)
  moreover have "c \<notin> set (i_cols i)" using key_cols_of(2) [OF i] assms(3) by auto
  then have "\<forall>r \<in> set (indexed i (f_rows f n)). \<forall>c \<in> set (i_cols i). g r c = r c" using g by metis
  moreover have "indexed i (map g (f_rows f n)) = map g (indexed i (f_rows f n))"
    using key_cols_of(3) [OF i] assms(3) g by (intro indexed_map) metis
  ultimately show "unique_rows (i_cols i) (indexed i (map g (f_rows f n)))" by (simp add: unique_rows_map)
qed

lemma run_stmtI: "alter st (f_schema f) = Inr s \<Longrightarrow> file_ok \<lparr>f_schema = s, f_rows = change now st (f_schema f) (f_rows f)\<rparr> \<Longrightarrow>
    run_stmt now st f = Inr \<lparr>f_schema = s, f_rows = change now st (f_schema f) (f_rows f)\<rparr>"
  by (simp add: run_stmt_def)

lemma schema_okD:
  assumes "schema_ok s"
  shows "distinct (map fst (s_tables s))" "(n, t) \<in> set (s_tables s) \<Longrightarrow> map_of (s_tables s) n = Some t"
    "(n, t) \<in> set (s_tables s) \<Longrightarrow> set (key_cols s n) \<subseteq> set (col_names t)"
    "i \<in> set (s_indexes s) \<Longrightarrow> \<exists>t. (i_table i, t) \<in> set (s_tables s)"
proof -
  show d: "distinct (map fst (s_tables s))" using assms by (simp add: schema_ok_def)
  show m: "map_of (s_tables s) n = Some t" if "(n, t) \<in> set (s_tables s)" for n t using that d by simp
  show "set (key_cols s n) \<subseteq> set (col_names t)" if "(n, t) \<in> set (s_tables s)"
    using assms that m [OF that] by (fastforce simp: schema_ok_def list_all_iff has_cols_def)
  show "\<exists>t. (i_table i, t) \<in> set (s_tables s)" if "i \<in> set (s_indexes s)"
    using assms that by (fastforce simp: schema_ok_def list_all_iff has_cols_def split: option.splits dest: map_of_SomeD)
qed

lemma AddColumn_ok:
  assumes ok: "file_ok f" "schema_ok (f_schema f)" and a: "alter (AddColumn n c) (f_schema f) = Inr s"
  shows "\<exists>g. run_stmt now (AddColumn n c) f = Inr g"
proof -
  let ?S = "f_schema f" and ?v = "value_of now (c_default c)"
  define g where "g = (\<lambda>r :: srow. r(c_name c := ?v))"
  obtain t0 where t0: "map_of (s_tables ?S) n = Some t0" "c_name c \<notin> set (col_names t0)" "c_notnull c \<longrightarrow> ?v \<noteq> VNull"
      and s: "s = update_tab n (\<lambda>t. t\<lparr>t_cols := t_cols t @ [c]\<rparr>) ?S"
    using a by (auto simp: has_cols_def list_all_iff split: if_splits option.splits dflt.splits)
  have new: "c_name c \<notin> set (key_cols ?S n)" using schema_okD(3) [OF ok(2) map_of_SomeD [OF t0(1)]] t0(2) by blast
  note keys = keys_untouched [OF ok(1) schema_okD(1) [OF ok(2)] new, of g]
  have g: "\<forall>r c'. c' \<noteq> c_name c \<longrightarrow> g r c' = r c'" by (simp add: g_def)
  have "tab_ok t (if m = n then map g (f_rows f m) else f_rows f m)" if m: "(m, t) \<in> set (s_tables s)" for m t
  proof (cases "m = n")
    case False
    then show ?thesis using ok(1) m s by (auto simp: file_ok_iff update_tab_def)
  next
    case True
    then have t: "t = t0\<lparr>t_cols := t_cols t0 @ [c]\<rparr>" "(n, t0) \<in> set (s_tables ?S)"
      using m s t0(1) schema_okD(2) [OF ok(2)] by (auto simp: update_tab_def dest: map_of_SomeD)
    have "tab_ok t0 (f_rows f n)" using ok(1) t(2) by (simp add: file_ok_iff)
    moreover have "c_name k \<noteq> c_name c" if "k \<in> set (t_cols t0)" for k
      using t0(2) that by (metis col_names_def image_eqI list.set_map)
    then have "r (c_name k) = g r (c_name k)" if "k \<in> set (t_cols t0)" for r k using that by (simp add: g_def)
    ultimately show ?thesis using keys(1) [OF g t(2)] t0(3) True
      by (auto simp: t tab_ok_def list_all_iff g_def)
  qed
  moreover have "unique_rows (i_cols i) (indexed i (if i_table i = n then map g (f_rows f (i_table i)) else f_rows f (i_table i)))"
    if "i \<in> set (s_indexes ?S)" for i
    using keys(2) [OF g that] ok(1) that by (auto simp: file_ok_iff)
  ultimately have "file_ok \<lparr>f_schema = s, f_rows = change now (AddColumn n c) ?S (f_rows f)\<rparr>"
    by (auto simp: file_ok_iff s update_tab_def g_def cong: if_cong)
  then show ?thesis using run_stmtI a by blast
qed


lemma CreateTable_ok:
  assumes ok: "file_ok f" "schema_ok (f_schema f)" and a: "alter (CreateTable unless n cs ks) (f_schema f) = Inr s"
  shows "\<exists>g. run_stmt now (CreateTable unless n cs ks) f = Inr g"
proof (cases "map_of (s_tables (f_schema f)) n")
  case (Some t)
  then have "s = f_schema f" using a by (simp split: if_splits)
  then show ?thesis using run_stmtI [OF a, of now] ok(1) Some by (cases f) auto
next
  case None
  then have s: "s = (f_schema f)\<lparr>s_tables := s_tables (f_schema f) @ [(n, \<lparr>t_cols = cs, t_keys = ks\<rparr>)]\<rparr>" using a by simp
  have new: "\<forall>t. (n, t) \<notin> set (s_tables (f_schema f))" using None by (metis weak_map_of_SomeI option.distinct(1))
  have "i_table i \<noteq> n" if "i \<in> set (s_indexes (f_schema f))" for i using schema_okD(4) [OF ok(2) that] new by metis
  then have "file_ok \<lparr>f_schema = s, f_rows = change now (CreateTable unless n cs ks) (f_schema f) (f_rows f)\<rparr>"
    using ok(1) None new by (auto simp: file_ok_iff s tab_ok_def list_all_iff unique_rows_def)
  then show ?thesis using run_stmtI a by blast
qed

lemma CreateUniqueIndex_ok:
  assumes ok: "file_ok f" and a: "alter (CreateUniqueIndex unless i) (f_schema f) = Inr s"
    and u: "unique_rows (i_cols i) (indexed i (f_rows f (i_table i)))"
  shows "\<exists>g. run_stmt now (CreateUniqueIndex unless i) f = Inr g"
proof -
  have "s = f_schema f \<or> s = (f_schema f)\<lparr>s_indexes := s_indexes (f_schema f) @ [i]\<rparr>" using a by (auto split: if_splits)
  then have "file_ok \<lparr>f_schema = s, f_rows = change now (CreateUniqueIndex unless i) (f_schema f) (f_rows f)\<rparr>"
    using ok u by (auto simp: file_ok_iff)
  then show ?thesis using run_stmtI a by blast
qed

lemma FillFrom_ok:
  assumes ok: "file_ok f" "schema_ok (f_schema f)" and a: "alter (FillFrom n c other val key fk) (f_schema f) = Inr s"
    and new: "c \<notin> set (key_cols (f_schema f) n)"
  shows "\<exists>g. run_stmt now (FillFrom n c other val key fk) f = Inr g"
proof -
  define g where "g = (\<lambda>r :: srow. if r c = VText [] then r(c := looked_up (f_rows f other) val key (r fk)) else r)"
  have s: "s = f_schema f" using a by (simp split: if_splits)
  have g: "\<forall>r c'. c' \<noteq> c \<longrightarrow> g r c' = r c'" "g r k = VNull \<Longrightarrow> r k = VNull" for r k
    by (auto simp: g_def looked_up_def split: option.splits if_splits)
  note keys = keys_untouched [OF ok(1) schema_okD(1) [OF ok(2)] new g(1)]
  have "tab_ok t (if m = n then map g (f_rows f m) else f_rows f m)" if m: "(m, t) \<in> set (s_tables (f_schema f))" for m t
    using ok(1) m keys(1) by (auto simp: file_ok_iff tab_ok_def list_all_iff dest: g(2))
  moreover have "unique_rows (i_cols i) (indexed i (if i_table i = n then map g (f_rows f (i_table i)) else f_rows f (i_table i)))"
    if "i \<in> set (s_indexes (f_schema f))" for i
    using keys(2) [OF that] ok(1) that by (auto simp: file_ok_iff)
  ultimately have "file_ok \<lparr>f_schema = s, f_rows = change now (FillFrom n c other val key fk) (f_schema f) (f_rows f)\<rparr>"
    by (auto simp: file_ok_iff s g_def cong: if_cong)
  then show ?thesis using run_stmtI a by blast
qed


section \<open>Scripts\<close>

text \<open>Statements that succeed on every file whose constraints hold, judged by the schema alone\<close>

fun tame :: "stmt \<Rightarrow> schema \<Rightarrow> bool" where
  "tame (CreateTable _ _ _ _) s = True"
| "tame (AddColumn _ _) s = True"
| "tame (FillFrom n c _ _ _ _) s = (c \<notin> set (key_cols s n))"
| "tame (CreateUniqueIndex _ i) s = (i_name i \<in> i_name ` set (s_indexes s))"
| "tame _ s = False"

fun tame_all :: "stmt list \<Rightarrow> schema \<Rightarrow> bool" where
  "tame_all [] s = schema_ok s"
| "tame_all (st # sts) s = (schema_ok s \<and> tame st s \<and> (case alter st s of Inl _ \<Rightarrow> False | Inr t \<Rightarrow> tame_all sts t))"

lemma run_stmt_Inr: "run_stmt now st f = Inr g \<Longrightarrow> alter st (f_schema f) = Inr (f_schema g) \<and>
    f_rows g = change now st (f_schema f) (f_rows f) \<and> file_ok g"
  by (auto simp: run_stmt_def Let_def split: sum.splits if_splits)

lemma tame_ok:
  assumes "tame st (f_schema f)" "file_ok f" "schema_ok (f_schema f)" "alter st (f_schema f) = Inr s"
  shows "\<exists>g. run_stmt now st f = Inr g"
proof (cases st)
  case (CreateUniqueIndex unless i)
  then have "s = f_schema f" using assms(1,4) by (simp split: if_splits)
  then show ?thesis using run_stmtI [OF assms(4), of now] assms(2) CreateUniqueIndex by (cases f) auto
qed (use assms AddColumn_ok CreateTable_ok FillFrom_ok in auto)

lemma run_script_append: "run_script now (xs @ ys) f = (case run_script now xs f of Inl e \<Rightarrow> Inl e | Inr g \<Rightarrow> run_script now ys g)"
  by (induction xs arbitrary: f) (auto split: sum.splits)

lemma run_script_Inr: "run_script now sts f = Inr g \<Longrightarrow> file_ok f \<Longrightarrow> alter_all sts (f_schema f) = Inr (f_schema g) \<and> file_ok g"
proof (induction sts arbitrary: f)
  case (Cons st sts)
  then obtain h where h: "run_stmt now st f = Inr h" "run_script now sts h = Inr g" by (auto split: sum.splits)
  then show ?case using Cons.IH [of h] run_stmt_Inr [OF h(1)] by simp
qed simp

lemma tame_all_ok: "tame_all sts (f_schema f) \<Longrightarrow> file_ok f \<Longrightarrow> \<exists>g. run_script now sts f = Inr g"
proof (induction sts arbitrary: f)
  case (Cons st sts)
  then obtain s where s: "alter st (f_schema f) = Inr s" "tame_all sts s" by (auto split: sum.splits)
  then obtain g where g: "run_stmt now st f = Inr g" using tame_ok Cons.prems by fastforce
  with run_stmt_Inr [OF g] s show ?case using Cons.IH by simp
qed simp

text \<open>What is kept: the values of a column, row by row\<close>

definition "values" :: "sfile \<Rightarrow> string \<Rightarrow> string \<Rightarrow> sval list" where
  "values f n c = map (\<lambda>r. r c) (f_rows f n)"

definition keeps_values :: "(string \<times> string) set \<Rightarrow> sfile \<Rightarrow> sfile \<Rightarrow> bool" where
  "keeps_values X f g \<longleftrightarrow> (\<forall>n c. has_cols (f_schema f) n [c] \<and> (n, c) \<notin> X \<longrightarrow>
     has_cols (f_schema g) n [c] \<and> values g n c = values f n c)"

lemma keeps_values_refl: "keeps_values X f f"
  by (simp add: keeps_values_def)

lemma keeps_values_trans: "keeps_values X f g \<Longrightarrow> keeps_values X g h \<Longrightarrow> keeps_values X f h"
  by (simp add: keeps_values_def)

definition filled :: "stmt \<Rightarrow> (string \<times> string) set" where
  "filled st = (case st of FillFrom n c _ _ _ _ \<Rightarrow> {(n, c)} | _ \<Rightarrow> {})"

lemma has_cols_one: "has_cols s n [c] \<longleftrightarrow> (\<exists>t. map_of (s_tables s) n = Some t \<and> c \<in> set (col_names t))"
  by (auto simp: has_cols_def split: option.splits)

lemma map_of_update: "map_of (map (\<lambda>(k, t). (k, if k = n then f t else t)) xs) m =
    (if m = n then map_option f (map_of xs m) else map_of xs m)"
  by (induction xs) auto

lemma tame_keeps:
  assumes "run_stmt now st f = Inr g" "tame st (f_schema f)"
  shows "keeps_values (filled st) f g"
proof -
  note r = run_stmt_Inr [OF assms(1)]
  show ?thesis
  proof (cases st)
    case (AddColumn n c)
    then have "f_schema g = update_tab n (\<lambda>t. t\<lparr>t_cols := t_cols t @ [c]\<rparr>) (f_schema f)" "\<not> has_cols (f_schema f) n [c_name c]"
      using r by (auto split: if_splits dflt.splits)
    moreover from this(2) have "values g m k = values f m k" if "has_cols (f_schema f) m [k]" for m k
      using r AddColumn that by (auto simp: values_def)
    moreover have "has_cols (update_tab n (\<lambda>t. t\<lparr>t_cols := t_cols t @ [c]\<rparr>) S) m [k]" if "has_cols S m [k]" for S m k
      using that by (auto simp: has_cols_one update_tab_def map_of_update col_names_def)
    ultimately show ?thesis by (simp add: keeps_values_def)
  next
    case (CreateTable unless n cs ks)
    then have "f_schema g = f_schema f \<and> f_rows g = f_rows f \<or> map_of (s_tables (f_schema f)) n = None \<and>
        s_tables (f_schema g) = s_tables (f_schema f) @ [(n, \<lparr>t_cols = cs, t_keys = ks\<rparr>)] \<and> f_rows g = (f_rows f)(n := [])"
      using r by (cases "f_schema f"; cases "f_schema g") (auto split: if_splits)
    then show ?thesis by (auto simp: keeps_values_def has_cols_one values_def map_add_def split: option.splits)
  next
    case (CreateUniqueIndex unless i)
    then have "s_tables (f_schema g) = s_tables (f_schema f)" "f_rows g = f_rows f"
      using r by (cases "f_schema f"; cases "f_schema g"; auto split: if_splits)+
    then show ?thesis by (auto simp: keeps_values_def has_cols_one values_def)
  next
    case (FillFrom n c other val key fk)
    then show ?thesis using r by (auto simp: keeps_values_def has_cols_one values_def filled_def split: if_splits)
  qed (use assms(2) in auto)
qed

lemma tame_all_keeps: "run_script now sts f = Inr g \<Longrightarrow> file_ok f \<Longrightarrow> tame_all sts (f_schema f) \<Longrightarrow>
    keeps_values (\<Union> (filled ` set sts)) f g"
proof (induction sts arbitrary: f)
  case Nil
  then show ?case by (simp add: keeps_values_refl)
next
  case (Cons st sts)
  then obtain h where h: "run_stmt now st f = Inr h" "run_script now sts h = Inr g" by (auto split: sum.splits)
  have "keeps_values (filled st) f h" using tame_keeps [OF h(1)] Cons.prems by simp
  moreover have "keeps_values (\<Union> (filled ` set sts)) h g"
    using Cons run_stmt_Inr [OF h(1)] h(2) by (auto split: sum.splits)
  ultimately show ?case by (auto simp: keeps_values_def)
qed


lemma tame_all_last: "tame_all sts s \<Longrightarrow> alter_all sts s = Inr t \<Longrightarrow> schema_ok t"
  by (induction sts arbitrary: s) (auto split: sum.splits)

section \<open>Version 2: the sources table is built anew\<close>

lemma unique_rows_filter: "unique_rows ks rows \<Longrightarrow> unique_rows ks (filter p rows)"
  by (induction rows) (auto simp: unique_rows_def split: if_splits)

lemma unique_rows_indexed: "unique_rows ks rows \<Longrightarrow> unique_rows ks (indexed i rows)"
  by (auto simp: indexed_def unique_rows_filter split: option.splits)

text \<open>When every row of the source satisfies the constraints of the new, empty table\<close>

definition copy_ok :: "tab \<Rightarrow> tab \<Rightarrow> string list \<Rightarrow> bool" where
  "copy_ok t u cs \<longleftrightarrow>
     list_all (\<lambda>c. c_notnull c \<longrightarrow> (if c_name c \<in> set cs then list_ex (\<lambda>k. c_name k = c_name c \<and> c_notnull k) (t_cols u)
       else c_default c \<noteq> NoDefault \<and> c_default c \<noteq> Const VNull)) (t_cols t) \<and>
     list_all (\<lambda>ks. ks \<in> set (t_keys u) \<and> list_all (\<lambda>c. c \<in> set cs) ks) (t_keys t) \<and> distinct (col_names t)"

lemma find_col: "distinct (map c_name cs) \<Longrightarrow> c \<in> set cs \<Longrightarrow> find (\<lambda>k. c_name k = c_name c) cs = Some c"
proof (induction cs)
  case (Cons k cs)
  then show ?case by (cases "k = c") (auto simp: image_iff)
qed simp

lemma InsertSelect_ok:
  assumes ok: "file_ok f" "distinct (map fst (s_tables (f_schema f)))" and a: "alter (InsertSelect n other cs) (f_schema f) = Inr s"
    and n: "f_rows f n = []" "n \<noteq> other" "\<forall>i \<in> set (s_indexes (f_schema f)). i_table i \<noteq> n"
    and t: "map_of (s_tables (f_schema f)) n = Some t" "map_of (s_tables (f_schema f)) other = Some u" "copy_ok t u cs"
  shows "\<exists>g. run_stmt now (InsertSelect n other cs) f = Inr g"
proof -
  define h where "h = (\<lambda>q c. if c \<in> set cs then q c else default_of now (f_schema f) n c)"
  have s: "s = f_schema f" using a by (simp split: if_splits)
  have u: "tab_ok u (f_rows f other)" using ok(1) t(2) by (auto simp: file_ok_iff dest: map_of_SomeD)
  have d: "distinct (map c_name (t_cols t))" using t(3) by (simp add: copy_ok_def col_names_def)
  have "tab_ok t (map h (f_rows f other))"
    unfolding tab_ok_def list_all_iff
  proof (intro conjI ballI impI)
    fix c r assume c: "c \<in> set (t_cols t)" "c_notnull c" and r: "r \<in> set (map h (f_rows f other))"
    then obtain q where q: "q \<in> set (f_rows f other)" "r = h q" by auto
    show "r (c_name c) \<noteq> VNull"
    proof (cases "c_name c \<in> set cs")
      case True
      then obtain k where "k \<in> set (t_cols u)" "c_name k = c_name c" "c_notnull k"
        using t(3) c unfolding copy_ok_def list_all_iff list_ex_iff by metis
      then show ?thesis using u q True by (auto simp: tab_ok_def list_all_iff h_def)
    next
      case False
      then have "c_default c \<noteq> NoDefault" "c_default c \<noteq> Const VNull" using t(3) c by (auto simp: copy_ok_def list_all_iff)
      then have "value_of now (c_default c) \<noteq> VNull" by (cases "c_default c") auto
      then show ?thesis using False q find_col [OF d c(1)] t(1) by (simp add: h_def default_of_def)
    qed
  next
    fix ks assume "ks \<in> set (t_keys t)"
    then have k: "ks \<in> set (t_keys u)" "\<forall>c \<in> set ks. c \<in> set cs" using t(3) by (auto simp: copy_ok_def list_all_iff)
    then have "unique_rows ks (f_rows f other)" using u by (auto simp: tab_ok_def list_all_iff)
    then show "unique_rows ks (map h (f_rows f other))" using k(2) by (subst unique_rows_map) (auto simp: h_def)
  qed
  moreover have "t' = t" if "(n, t') \<in> set (s_tables (f_schema f))" for t' using that ok(2) t(1) by simp
  ultimately have "file_ok \<lparr>f_schema = s, f_rows = change now (InsertSelect n other cs) (f_schema f) (f_rows f)\<rparr>"
    using ok(1) n by (auto simp: file_ok_iff s h_def)
  then show ?thesis using run_stmtI a by blast
qed

lemma DropTable_ok:
  assumes "file_ok f" "alter (DropTable n) (f_schema f) = Inr s"
  shows "\<exists>g. run_stmt now (DropTable n) f = Inr g"
proof -
  have "file_ok \<lparr>f_schema = s, f_rows = change now (DropTable n) (f_schema f) (f_rows f)\<rparr>"
    using assms by (auto simp: file_ok_iff split: if_splits)
  then show ?thesis using run_stmtI assms(2) by blast
qed

lemma tab_ok_refs: "tab_ok (rename_refs a b t) rows = tab_ok t rows"
  by (simp add: tab_ok_def rename_refs_def list_all_iff)

lemma RenameTable_ok:
  assumes ok: "file_ok f" and ib: "\<forall>i \<in> set (s_indexes (f_schema f)). i_table i \<noteq> b"
    and a: "alter (RenameTable a b) (f_schema f) = Inr s"
  shows "\<exists>g. run_stmt now (RenameTable a b) f = Inr g"
proof -
  have new: "map_of (s_tables (f_schema f)) b = None" "a \<noteq> b"
      and s: "s = (f_schema f)\<lparr>s_tables := map (\<lambda>(k, t). (rename_to a b k, rename_refs a b t)) (s_tables (f_schema f)),
        s_indexes := map (\<lambda>i. i\<lparr>i_table := rename_to a b (i_table i)\<rparr>) (s_indexes (f_schema f))\<rparr>"
    using a by (auto simp: has_cols_def split: if_splits option.splits)
  have nb: "\<forall>t. (b, t) \<notin> set (s_tables (f_schema f))" using new(1) by (metis weak_map_of_SomeI option.distinct(1))
  define R where "R = (f_rows f)(b := f_rows f a, a := [])"
  have R: "R (rename_to a b m) = f_rows f m" if "m \<noteq> b" for m using that new(2) by (auto simp: R_def rename_to_def)
  have "file_ok \<lparr>f_schema = s, f_rows = R\<rparr>"
    unfolding file_ok_iff
  proof (intro conjI allI impI ballI)
    fix m t assume "(m, t) \<in> set (s_tables (f_schema \<lparr>f_schema = s, f_rows = R\<rparr>))"
    then obtain k t' where k: "(k, t') \<in> set (s_tables (f_schema f))" "m = rename_to a b k" "t = rename_refs a b t'" by (auto simp: s)
    then have "k \<noteq> b" "tab_ok t' (f_rows f k)" using nb ok by (auto simp: file_ok_iff)
    then show "tab_ok t (f_rows \<lparr>f_schema = s, f_rows = R\<rparr> m)" using R [of k] k by (simp add: tab_ok_refs)
  next
    fix i assume "i \<in> set (s_indexes (f_schema \<lparr>f_schema = s, f_rows = R\<rparr>))"
    then obtain j where j: "j \<in> set (s_indexes (f_schema f))" "i = j\<lparr>i_table := rename_to a b (i_table j)\<rparr>" by (auto simp: s)
    then have "indexed i rows = indexed j rows" for rows by (simp add: indexed_def)
    then show "unique_rows (i_cols i) (indexed i (f_rows \<lparr>f_schema = s, f_rows = R\<rparr> (i_table i)))"
      using R ib ok j by (simp add: file_ok_iff)
  qed
  then show ?thesis using run_stmtI a by (simp add: R_def)
qed


definition copied :: "string list" where
  "copied = [''id'', ''name'', ''pg_version'', ''volume'', ''conn_host'', ''conn_port'', ''conn_user'', ''conn_db'', ''network'', ''state'',
     ''created_at'', ''updated_at'']"

definition live_sources :: uindex where
  "live_sources = index ''sources_live_name'' ''sources'' [''name''] (Some (''state'', ''failed''))"

lemma migrateV2_split: "migrateV2 = take 3 migrateV2 @ [migrateV2 ! 3] @
    [InsertSelect ''sources_new'' ''sources'' copied, DropTable ''sources'', RenameTable ''sources_new'' ''sources'',
     CreateUniqueIndex False live_sources]"
  by (simp add: migrateV2_def copied_def live_sources_def)

lemma migrateV2_third: "\<exists>cs ks. migrateV2 ! 3 = CreateTable False ''sources_new'' cs ks"
  by (simp add: migrateV2_def)

lemma v2_tame: "tame_all (take 3 migrateV2) (schema_at 1)"
  "filled ` set (take 3 migrateV2) \<subseteq> {{}, {(''branches'', ''source_volume'')}}"
  by (code_simp, simp add: migrateV2_def filled_def)

lemma v2_before:
  "case alter_all (take 3 migrateV2) (schema_at 1) of Inl _ \<Rightarrow> False
   | Inr s \<Rightarrow> map_of (s_tables s) ''sources_new'' = None \<and>
      (case alter (migrateV2 ! 3) s of Inl _ \<Rightarrow> False
       | Inr s4 \<Rightarrow> schema_ok s4 \<and> list_all (\<lambda>i. i_table i \<noteq> ''sources_new'') (s_indexes s4) \<and>
          (case map_of (s_tables s4) ''sources_new'' of None \<Rightarrow> False | Some t \<Rightarrow>
             (case map_of (s_tables s4) ''sources'' of None \<Rightarrow> False | Some u \<Rightarrow> copy_ok t u copied \<and> [''name''] \<in> set (t_keys u))) \<and>
          (case alter (InsertSelect ''sources_new'' ''sources'' copied) s4 of Inl _ \<Rightarrow> False | Inr _ \<Rightarrow> True) \<and>
          (case alter (DropTable ''sources'') s4 of Inl _ \<Rightarrow> False
           | Inr s6 \<Rightarrow> list_all (\<lambda>i. i_table i \<noteq> ''sources'') (s_indexes s6) \<and> (case alter (RenameTable ''sources_new'' ''sources'') s6 of Inl _ \<Rightarrow> False
              | Inr s7 \<Rightarrow> (case alter (CreateUniqueIndex False live_sources) s7 of Inl _ \<Rightarrow> False | Inr _ \<Rightarrow> True))))"
  by code_simp


lemma v2_columns:
  "list_all (\<lambda>(n, t). n \<noteq> ''sources_new'' \<and> list_all (\<lambda>c. (n = ''sources'' \<longrightarrow> c \<in> set copied) \<and> has_cols (schema_at 2) n [c]) (col_names t))
     (s_tables (schema_at 1))"
  by code_simp

text \<open>The volume of its source, for every branch\<close>

definition source_volumes :: "sfile \<Rightarrow> sval list" where
  "source_volumes f = map (\<lambda>r. looked_up (f_rows f ''sources'') ''volume'' ''id'' (r ''source_id'')) (f_rows f ''branches'')"

lemma v2_fills:
  assumes "run_script now (take 3 migrateV2) f = Inr g"
  shows "values g ''branches'' ''source_volume'' = source_volumes f"
proof -
  obtain c1 c2 where "take 3 migrateV2 = [AddColumn ''branches'' c1, AddColumn ''branches'' c2,
      FillFrom ''branches'' ''source_volume'' ''sources'' ''volume'' ''id'' ''source_id'']"
      "c_name c1 = ''expires_at''" "c_name c2 = ''source_volume''" "c_default c2 = Const (VText [])"
    by (simp add: migrateV2_def col_def)
  then show ?thesis using assms
    by (auto simp: values_def source_volumes_def o_def simp del: alter.simps split: sum.splits dest!: run_stmt_Inr)
qed

lemma v2_runs:
  assumes "f_schema f = schema_at 1" "file_ok f"
  shows "\<exists>g. run_script now migrateV2 f = Inr g \<and> keeps_values {(''branches'', ''source_volume'')} f g \<and>
    values g ''branches'' ''source_volume'' = source_volumes f"
proof -
  obtain s3 where s3: "alter_all (take 3 migrateV2) (schema_at 1) = Inr s3" "map_of (s_tables s3) ''sources_new'' = None"
    using v2_before by (auto split: sum.splits)
  obtain f3 where f3: "run_script now (take 3 migrateV2) f = Inr f3" using tame_all_ok v2_tame(1) assms by metis
  then have s3f: "f_schema f3 = s3" "file_ok f3" using run_script_Inr [OF f3 assms(2)] s3 assms(1) by simp_all
  have k3: "keeps_values {(''branches'', ''source_volume'')} f f3"
    using tame_all_keeps [OF f3 assms(2)] v2_tame assms(1) by (fastforce simp: keeps_values_def)
  obtain s4 where s4: "alter (migrateV2 ! 3) s3 = Inr s4" "schema_ok s4" "\<forall>i \<in> set (s_indexes s4). i_table i \<noteq> ''sources_new''"
    using v2_before s3(1) by (auto simp: list_all_iff split: sum.splits)
  obtain cs ks where c4: "migrateV2 ! 3 = CreateTable False ''sources_new'' cs ks" using migrateV2_third by blast
  have "schema_ok s3" using v2_tame(1) s3(1) by (rule tame_all_last)
  then obtain f4 where f4: "run_stmt now (migrateV2 ! 3) f3 = Inr f4" using CreateTable_ok s3f s4(1) unfolding c4 by metis
  have s4f: "f_schema f4 = s4" "file_ok f4" "f_rows f4 = (f_rows f3)(''sources_new'' := [])"
    using run_stmt_Inr [OF f4] s4(1) s3(2) s3f by (simp_all add: c4)
  obtain t u s5 s6 s7 s8 where st: "map_of (s_tables s4) ''sources_new'' = Some t" "map_of (s_tables s4) ''sources'' = Some u"
      "copy_ok t u copied" "[''name''] \<in> set (t_keys u)" "alter (InsertSelect ''sources_new'' ''sources'' copied) s4 = Inr s5"
      "alter (DropTable ''sources'') s4 = Inr s6" "\<forall>i \<in> set (s_indexes s6). i_table i \<noteq> ''sources''"
      "alter (RenameTable ''sources_new'' ''sources'') s6 = Inr s7" "alter (CreateUniqueIndex False live_sources) s7 = Inr s8"
    using v2_before s3(1) s4(1) by (auto simp: list_all_iff simp del: alter.simps split: sum.splits option.splits)
  define h where "h = (\<lambda>q c. if c \<in> set copied then q c else default_of now s4 ''sources_new'' c)"
  obtain f5 where f5: "run_stmt now (InsertSelect ''sources_new'' ''sources'' copied) f4 = Inr f5"
    using InsertSelect_ok [OF s4f(2), of "''sources_new''" "''sources''" copied s5 t u now] st s4f s4(3) schema_okD(1) [OF s4(2)] by auto
  have s5f: "f_schema f5 = s4" "file_ok f5" "f_rows f5 = (f_rows f4)(''sources_new'' := map h (f_rows f4 ''sources''))"
    using run_stmt_Inr [OF f5] s4f by (simp_all add: h_def [abs_def] split: if_splits)
  obtain f6 where f6: "run_stmt now (DropTable ''sources'') f5 = Inr f6" using DropTable_ok s5f st(6) by metis
  have s6f: "f_schema f6 = s6" "file_ok f6" "f_rows f6 = (f_rows f5)(''sources'' := [])" using run_stmt_Inr [OF f6] s5f st(6) by simp_all
  obtain f7 where f7: "run_stmt now (RenameTable ''sources_new'' ''sources'') f6 = Inr f7" using RenameTable_ok s6f st(7,8) by metis
  have s7f: "f_schema f7 = s7" "file_ok f7" "f_rows f7 = (f_rows f6)(''sources'' := f_rows f6 ''sources_new'', ''sources_new'' := [])"
    using run_stmt_Inr [OF f7] s6f st(8) by simp_all
  have src: "f_rows f7 ''sources'' = map h (f_rows f4 ''sources'')" using s7f(3) s6f(3) s5f(3) by simp
  have "unique_rows [''name''] (f_rows f4 ''sources'')"
    using s4f(1,2) st(2,4) by (fastforce simp: file_ok_iff tab_ok_def list_all_iff dest: map_of_SomeD)
  then have "unique_rows [''name''] (f_rows f7 ''sources'')"
    unfolding src by (subst unique_rows_map) (auto simp: h_def copied_def)
  then obtain g where g: "run_stmt now (CreateUniqueIndex False live_sources) f7 = Inr g"
    using CreateUniqueIndex_ok [OF s7f(2), of False live_sources s8 now] st(9) s7f(1) unique_rows_indexed
    by (auto simp: live_sources_def index_def)
  have run: "run_script now migrateV2 f = Inr g"
    by (subst migrateV2_split) (simp add: run_script_append f3 f4 f5 f6 f7 g)
  have rows: "f_rows g = f_rows f7" "f_schema g = schema_at 2"
    using run_stmt_Inr [OF g] run_script_Inr [OF run assms(2)] assms(1) schema_at_Suc [of 1]
    by (simp_all add: migrations_def numeral_2_eq_2)
  have "keeps_values {(''branches'', ''source_volume'')} f g"
    unfolding keeps_values_def
  proof (intro allI impI)
    fix n c assume a: "has_cols (f_schema f) n [c] \<and> (n, c) \<notin> {(''branches'', ''source_volume'')}"
    then have v3: "values f3 n c = values f n c" using k3 by (simp add: keeps_values_def)
    have n: "n \<noteq> ''sources_new''" "n = ''sources'' \<longrightarrow> c \<in> set copied" "has_cols (schema_at 2) n [c]"
      using v2_columns a assms(1) by (auto simp: has_cols_one list_all_iff dest!: map_of_SomeD)
    have "values g n c = values f3 n c"
      using n(1,2) by (auto simp: values_def rows src s7f(3) s6f(3) s5f(3) s4f(3) h_def)
    then show "has_cols (f_schema g) n [c] \<and> values g n c = values f n c" using v3 n(3) rows(2) by simp
  qed
  moreover have "values g ''branches'' ''source_volume'' = source_volumes f"
    using v2_fills [OF f3] by (simp add: values_def rows s7f(3) s6f(3) s5f(3) s4f(3))
  ultimately show ?thesis using run by blast
qed

section \<open>All versions\<close>

lemma tame_versions: "list_all (\<lambda>k. tame_all (migrations ! k) (schema_at k)) [2, 3, 4, 5, 6, 7, 8, 10]"
  by code_simp

lemma fills_nothing: "k \<in> {0, 2, 3, 4, 5, 6, 7, 8, 9, 10} \<Longrightarrow> st \<in> set (migrations ! k) \<Longrightarrow> filled st = {}"
  by (auto simp: migrations_def schemaV1_def migrateV3_def migrateV4_def migrateV5_def migrateV6_def migrateV7_def migrateV8_def
      migrateV9_def migrateV10_def migrateV11_def filled_def)

lemma tame_first: "tame_all schemaV1 (schema_at 1)"
  by code_simp

lemma v1_runs: "f_schema f = schema_at 0 \<Longrightarrow> \<exists>g. run_script now schemaV1 f = Inr g"
  by (simp add: schema_at_0 fresh_file_def schemaV1_def run_stmt_def Let_def file_ok_def tab_ok_def unique_rows_def
      indexed_def index_def has_cols_def col_names_def col_def)

lemma v9_tokens: "map_of (s_tables (schema_at 8)) ''api_tokens'' = None" "\<exists>cs ks. migrateV9 = [CreateTable False ''api_tokens'' cs ks]"
  by (code_simp, simp add: migrateV9_def)

lemma unique_rows_values: "unique_rows [c] (f_rows f n) = distinct (filter (\<lambda>v. VNull \<noteq> v) (values f n c))"
proof -
  have "filter (\<lambda>vs. VNull \<notin> set vs) (map (\<lambda>r. map r [c]) (f_rows f n)) = map (\<lambda>v. [v]) (filter (\<lambda>v. VNull \<noteq> v) (values f n c))"
    by (simp add: values_def filter_map o_def)
  then show ?thesis by (simp add: unique_rows_def distinct_map inj_on_def)
qed

text \<open>
  Version 10 makes token hashes unique; an older file has to have them unique already, which hashes of random secrets are.
\<close>

definition hashes_unique :: "nat \<Rightarrow> sfile \<Rightarrow> bool" where
  "hashes_unique k f \<longleftrightarrow> (9 \<le> k \<longrightarrow> unique_rows [''token_hash''] (f_rows f ''api_tokens''))"

lemma tokens_column: "9 \<le> k \<Longrightarrow> k < 11 \<Longrightarrow> has_cols (schema_at k) ''api_tokens'' [''token_hash'']"
proof -
  have "has_cols (schema_at 9) ''api_tokens'' [''token_hash'']" "has_cols (schema_at 10) ''api_tokens'' [''token_hash'']" by code_simp+
  moreover assume "9 \<le> k" "k < 11"
  then have "k = 9 \<or> k = 10" by auto
  ultimately show ?thesis by auto
qed

lemma v10_runs:
  assumes "f_schema f = schema_at 9" "file_ok f" "hashes_unique 9 f"
  shows "\<exists>g. run_script now migrateV10 f = Inr g"
proof -
  let ?st = "CreateUniqueIndex True (index ''api_tokens_hash'' ''api_tokens'' [''token_hash''] None)"
  have m: "migrateV10 = [?st]" by (simp add: migrateV10_def)
  have "case alter ?st (schema_at 9) of Inl _ \<Rightarrow> False | Inr _ \<Rightarrow> True" by code_simp
  then obtain s where s: "alter ?st (f_schema f) = Inr s" using assms(1) by (auto split: sum.splits)
  have "unique_rows [''token_hash''] (f_rows f ''api_tokens'')" using assms(3) by (simp add: hashes_unique_def)
  then obtain g where "run_stmt now ?st f = Inr g"
    using CreateUniqueIndex_ok [OF assms(2) s, of now] by (auto simp: index_def indexed_def)
  then show ?thesis by (simp add: m)
qed

definition pinned :: "nat \<Rightarrow> (string \<times> string) set" where
  "pinned k = (if k \<le> 1 then {(''branches'', ''source_volume'')} else {})"

text \<open>What an upgrade from version \<open>k\<close> does to the values: only what version 2 fills in changes.\<close>

definition carried_over :: "nat \<Rightarrow> sfile \<Rightarrow> sfile \<Rightarrow> bool" where
  "carried_over k f g \<longleftrightarrow> keeps_values (pinned k) f g \<and>
     (k \<le> 1 \<and> f_schema f = schema_at 1 \<longrightarrow> values g ''branches'' ''source_volume'' = source_volumes f)"

lemma keeps_values_mono: "keeps_values X f g \<Longrightarrow> X \<subseteq> Y \<Longrightarrow> keeps_values Y f g"
  by (auto simp: keeps_values_def)


lemma version_runs:
  assumes k: "k < 11" "f_schema f = schema_at k" and ok: "file_ok f" "hashes_unique k f"
  shows "\<exists>g. run_script now (migrations ! k) f = Inr g \<and> f_schema g = schema_at (Suc k) \<and> file_ok g \<and> hashes_unique (Suc k) g \<and>
    keeps_values (if k = 1 then pinned 1 else {}) f g \<and> (k = 1 \<longrightarrow> values g ''branches'' ''source_volume'' = source_volumes f)"
proof -
  let ?kept = "\<lambda>g. keeps_values (if k = 1 then pinned 1 else {}) f g \<and> (k = 1 \<longrightarrow> values g ''branches'' ''source_volume'' = source_volumes f)"
  have "k = 0 \<or> k = 1 \<or> k = 9 \<or> k \<in> set [2, 3, 4, 5, 6, 7, 8, 10]" using k(1) by simp presburger
  then have "\<exists>g. run_script now (migrations ! k) f = Inr g \<and> ?kept g"
  proof (elim disjE)
    assume k0: "k = 0"
    obtain g where "run_script now (migrations ! k) f = Inr g" using v1_runs k(2) k0 by (auto simp: migrations_def)
    then show ?thesis using k(2) k0 by (auto simp: keeps_values_def schema_at_0 fresh_file_def has_cols_def)
  next
    assume "k = 1"
    then show ?thesis using v2_runs k(2) ok(1) by (simp add: migrations_def pinned_def)
  next
    assume k9: "k = 9"
    have m: "\<exists>st. migrations ! 9 = [st] \<and> (\<exists>i. st = CreateUniqueIndex True i)" by (simp add: migrations_def migrateV10_def)
    obtain g where g: "run_script now (migrations ! k) f = Inr g" using v10_runs k(2) k9 ok by (auto simp: migrations_def)
    moreover obtain i where "run_stmt now (CreateUniqueIndex True i) f = Inr g" using g m k9 by (auto split: sum.splits)
    then have "s_tables (f_schema g) = s_tables (f_schema f)" "f_rows g = f_rows f"
      using run_stmt_Inr by (cases "f_schema f"; cases "f_schema g"; force split: if_splits)+
    ultimately show ?thesis using k9 by (auto simp: keeps_values_def has_cols_one values_def)
  next
    assume kt: "k \<in> set [2, 3, 4, 5, 6, 7, 8, 10]"
    then have t: "tame_all (migrations ! k) (schema_at k)" using tame_versions by (auto simp: list_all_iff)
    then obtain g where g: "run_script now (migrations ! k) f = Inr g" using tame_all_ok ok(1) k(2) by metis
    have "keeps_values (\<Union> (filled ` set (migrations ! k))) f g" using tame_all_keeps [OF g ok(1)] t k(2) by simp
    moreover have "\<Union> (filled ` set (migrations ! k)) = {}" using fills_nothing kt by auto
    ultimately show ?thesis using g kt by auto
  qed
  then obtain g where g: "run_script now (migrations ! k) f = Inr g" "?kept g" by blast
  have s: "f_schema g = schema_at (Suc k)" "file_ok g"
    using run_script_Inr [OF g(1) ok(1)] schema_at_Suc [OF k(1)] k(2) by auto
  have "hashes_unique (Suc k) g"
  proof (cases "9 \<le> k")
    case True
    then have "values g ''api_tokens'' ''token_hash'' = values f ''api_tokens'' ''token_hash''"
      using g(2) tokens_column [OF True k(1)] k(2) by (simp add: keeps_values_def)
    then show ?thesis using True ok(2) by (simp add: hashes_unique_def unique_rows_values)
  next
    case False
    show ?thesis
    proof (cases "k = 8")
      case True
      obtain cs ks where c: "migrateV9 = [CreateTable False ''api_tokens'' cs ks]" using v9_tokens(2) by blast
      have "run_script now migrateV9 f = Inr g" using g(1) True by (simp add: migrations_def)
      then have "run_stmt now (CreateTable False ''api_tokens'' cs ks) f = Inr g" unfolding c by (auto split: sum.splits)
      then have "f_rows g ''api_tokens'' = []" using run_stmt_Inr v9_tokens(1) k(2) True by fastforce
      then show ?thesis by (simp add: hashes_unique_def unique_rows_def)
    qed (use False in \<open>simp add: hashes_unique_def\<close>)
  qed
  with g s show ?thesis by blast
qed

lemma drop_migrations: "k < 11 \<Longrightarrow> drop k migrations = migrations ! k # drop (Suc k) migrations"
  by (simp add: Cons_nth_drop_Suc)

lemma later_runs:
  assumes "f_schema f = schema_at k" "2 \<le> k" "k \<le> 11" "file_ok f" "hashes_unique k f"
  shows "\<exists>g. migrate_from k (map (run_script now) (drop k migrations)) f = (None, 11, g) \<and> f_schema g = schema_at 11 \<and> file_ok g \<and>
    keeps_values {} f g"
  using assms
proof (induction "11 - k" arbitrary: k f)
  case 0
  then show ?case by (simp add: keeps_values_refl)
next
  case (Suc m)
  then have k: "k < 11" "k \<noteq> 1" by simp_all
  obtain h where h: "run_script now (migrations ! k) f = Inr h" "f_schema h = schema_at (Suc k)" "file_ok h" "hashes_unique (Suc k) h"
      "keeps_values {} f h" using version_runs [OF k(1) Suc.prems(1,4,5)] k(2) by auto
  have "m = 11 - Suc k" "2 \<le> Suc k" "Suc k \<le> 11" using Suc.hyps(2) k Suc.prems(2) by simp_all
  from Suc.hyps(1) [OF this(1) h(2) this(2,3) h(3,4)]
  obtain g where g: "migrate_from (Suc k) (map (run_script now) (drop (Suc k) migrations)) h = (None, 11, g)" "f_schema g = schema_at 11"
      "file_ok g" "keeps_values {} h g" by blast
  have "migrate_from k (map (run_script now) (drop k migrations)) f = (None, 11, g)" using h(1) g(1) by (simp add: drop_migrations [OF k(1)])
  then show ?case using g keeps_values_trans [OF h(5)] by blast
qed

lemma pinned_column: "has_cols (schema_at 2) ''branches'' [''source_volume'']"
  by code_simp

lemma second_runs:
  assumes "f_schema f = schema_at 1" "file_ok f"
  shows "\<exists>g. migrate_from 1 (map (run_script now) (drop 1 migrations)) f = (None, 11, g) \<and> f_schema g = schema_at 11 \<and> file_ok g \<and>
    keeps_values (pinned 1) f g \<and> values g ''branches'' ''source_volume'' = source_volumes f"
proof -
  obtain h where h: "run_script now (migrations ! 1) f = Inr h" "f_schema h = schema_at (Suc 1)" "file_ok h" "hashes_unique (Suc 1) h"
      "keeps_values (pinned 1) f h" "values h ''branches'' ''source_volume'' = source_volumes f"
    using version_runs [of 1 f now] assms by (auto simp: hashes_unique_def)
  obtain g where g: "migrate_from (Suc 1) (map (run_script now) (drop (Suc 1) migrations)) h = (None, 11, g)" "f_schema g = schema_at 11"
      "file_ok g" "keeps_values {} h g" using later_runs [OF h(2) _ _ h(3,4)] by auto
  have "migrate_from 1 (map (run_script now) (drop 1 migrations)) f = (None, 11, g)" using h(1) g(1) drop_migrations [of 1] by simp
  moreover have "values g ''branches'' ''source_volume'' = source_volumes f"
    using g(4) h(2,6) pinned_column by (simp add: keeps_values_def numeral_2_eq_2)
  ultimately show ?thesis using g keeps_values_trans [OF h(5)] keeps_values_mono [OF g(4)] by blast
qed

text \<open>The first release had the tables of version 1 under version number 0; \<open>IF NOT EXISTS\<close> makes its first migration idle.\<close>

fun idle_on :: "stmt \<Rightarrow> schema \<Rightarrow> bool" where
  "idle_on (CreateTable unless n _ _) s = (unless \<and> map_of (s_tables s) n \<noteq> None)"
| "idle_on (CreateUniqueIndex unless i) s = (unless \<and> i_name i \<in> i_name ` set (s_indexes s))"
| "idle_on _ _ = False"

lemma run_idle: "list_all (\<lambda>st. idle_on st (f_schema f)) sts \<Longrightarrow> file_ok f \<Longrightarrow> run_script now sts f = Inr f"
proof (induction sts)
  case (Cons st sts)
  then have "run_stmt now st f = Inr f" by (cases st; cases f) (auto simp: run_stmt_def Let_def)
  then show ?case using Cons by simp
qed simp

lemma first_release_idle: "list_all (\<lambda>st. idle_on st (schema_at 1)) schemaV1"
  by code_simp

lemma migrate_file_0: "migrate_file now 0 f = (case run_script now schemaV1 f of
    Inl e \<Rightarrow> (Some (Wrap (''migrate to v'' @ nat_str 1 @ '': '') e []), 0, f)
  | Inr h \<Rightarrow> migrate_from 1 (map (run_script now) (drop 1 migrations)) h)"
proof -
  have "migrations = schemaV1 # drop 1 migrations" by (simp add: migrations_def)
  then have "map (run_script now) migrations = run_script now schemaV1 # map (run_script now) (drop 1 migrations)" by (metis list.simps(9))
  then show ?thesis by (simp add: migrate_file_def migrate_def split: sum.split)
qed

lemma fresh_has_nothing: "\<not> has_cols (schema_at 0) n cs" "schema_at 0 \<noteq> schema_at 1"
proof -
  show n: "\<not> has_cols (schema_at 0) n cs" for n cs by (simp add: schema_at_0 fresh_file_def has_cols_def)
  have "has_cols (schema_at 1) ''branches'' []" by code_simp
  then show "schema_at 0 \<noteq> schema_at 1" using n by metis
qed

lemma every_version_upgrades_lemma:
  assumes "f_schema f = schema_at k \<or> k = 0 \<and> f_schema f = schema_at 1" "k \<le> 11" "file_ok f" "hashes_unique k f"
  shows "\<exists>g. migrate_file now k f = (None, 11, g) \<and> f_schema g = schema_at 11 \<and> file_ok g \<and> carried_over k f g"
proof -
  consider "k = 0" "f_schema f = schema_at 0" | "k = 0" "f_schema f = schema_at 1" | "k = 1" "f_schema f = schema_at 1"
    | "2 \<le> k" "f_schema f = schema_at k" using assms(1) by (cases "k \<le> 1") (auto simp: le_Suc_eq)
  then show ?thesis
  proof cases
    case 1
    obtain h where h: "run_script now schemaV1 f = Inr h" using v1_runs 1 by blast
    then have "f_schema h = schema_at 1" "file_ok h" using run_script_Inr [OF h assms(3)] schema_at_Suc [of 0] 1 by (simp_all add: migrations_def)
    then show ?thesis using second_runs 1 h fresh_has_nothing
      by (fastforce simp: migrate_file_0 carried_over_def keeps_values_def)
  next
    case 2
    then have "run_script now schemaV1 f = Inr f" using run_idle first_release_idle assms(3) by metis
    then show ?thesis using second_runs [OF 2(2) assms(3), of now] 2 by (auto simp: migrate_file_0 carried_over_def pinned_def)
  next
    case 3
    then show ?thesis using second_runs [OF 3(2) assms(3), of now]
      by (auto simp: migrate_file_def migrate_def drop_map carried_over_def pinned_def)
  next
    case 4
    then show ?thesis using later_runs [OF 4(2,1) assms(2-4), of now] assms(3) keeps_values_refl
      by (cases "k = 11") (auto simp: migrate_file_def migrate_def drop_map carried_over_def pinned_def)
  qed
qed

text \<open>
  C12: Every database file upgrades. Whatever version a file has, also the unnumbered one of the first release, its constraints
  holding, the migrations succeed and lead to the schema of a fresh database; every value stored in a column stays, row by row,
  also through the rebuilding of the sources table, except that branches from before version 2 get the volume of their
  source recorded.
\<close>

theorem every_version_upgrades:
  assumes "f_schema f = schema_at k \<or> k = 0 \<and> f_schema f = schema_at 1" "k \<le> 11" "file_ok f" "hashes_unique k f"
  shows "\<exists>g. migrate_file now k f = (None, 11, g) \<and> f_schema g = schema_at 11 \<and> file_ok g \<and> carried_over k f g"
  using assms by (rule every_version_upgrades_lemma)

text \<open>A file of the first release: unnumbered, one source, one branch on it\<close>

definition first_release_file :: sfile where
  "first_release_file = \<lparr>f_schema = schema_at 1, f_rows = (\<lambda>n.
     if n = ''sources'' then [(\<lambda>c. if c = ''conn_port'' then VInt 5432 else if c = ''id'' then VText ''s1'' else if c = ''volume'' then VText ''v1''
       else VText ''main'')]
     else if n = ''branches'' then [(\<lambda>c. if c = ''port'' then VInt 5433 else if c = ''source_id'' then VText ''s1'' else VText ''pr1'')]
     else [])\<rparr>"

lemma first_release_file_ok: "file_ok first_release_file"
proof -
  have "list_all (\<lambda>(n, t). tab_ok t (f_rows first_release_file n)) (s_tables (schema_at 1))" by code_simp
  moreover have "list_all (\<lambda>i. unique_rows (i_cols i) (indexed i (f_rows first_release_file (i_table i)))) (s_indexes (schema_at 1))" by code_simp
  ultimately show ?thesis by (simp add: file_ok_def first_release_file_def)
qed

theorem every_version_upgrades_witness:
  "\<exists>g. migrate_file ''2026'' 0 first_release_file = (None, 11, g) \<and> values g ''branches'' ''name'' = [VText ''pr1''] \<and>
     values g ''branches'' ''source_volume'' = [VText ''v1'']"
proof -
  have s: "f_schema first_release_file = schema_at 1" by (simp add: first_release_file_def)
  have "has_cols (schema_at 1) ''branches'' [''name'']" by code_simp
  moreover have "values first_release_file ''branches'' ''name'' = [VText ''pr1'']" by (simp add: values_def first_release_file_def)
  moreover have "source_volumes first_release_file = [VText ''v1'']" by (simp add: source_volumes_def first_release_file_def looked_up_def)
  ultimately show ?thesis
    using every_version_upgrades [of first_release_file 0 "''2026''"] first_release_file_ok s
    by (auto simp: hashes_unique_def carried_over_def keeps_values_def pinned_def)
qed

end
