(* ===== verification/Registry_File.thy ===== *)
theory Registry_File
  imports Registry_Upgrade
begin

text \<open>
  The database file behind the typed tables of \<open>Registry\<close>: which file holds a given state of the tables, that the constraints of
  the schema are the ones the operations of \<open>Registry\<close> check, and opening a registry (\<open>Open\<close>, \<open>ensureInstanceID\<close>).
\<close>

section \<open>Tables as rows\<close>

definition srow_of :: "(string \<times> sval) list \<Rightarrow> srow" where
  "srow_of xs c = (case map_of xs c of Some v \<Rightarrow> v | None \<Rightarrow> VNull)"

definition nullable_text :: "string option \<Rightarrow> sval" where
  "nullable_text x = (case x of None \<Rightarrow> VNull | Some s \<Rightarrow> VText s)"

definition sourceCols :: "string list" where
  "sourceCols = [''id'', ''name'', ''pg_version'', ''volume'', ''conn_host'', ''conn_port'', ''conn_user'', ''conn_db'', ''network'',
     ''seed_via'', ''dump_schemas'', ''state'', ''generation'', ''created_at'']"

definition branchCols :: "string list" where
  "branchCols = [''id'', ''name'', ''source_id'', ''state'', ''container_id'', ''rw_volume'', ''source_volume'', ''expires_at'', ''host'',
     ''base_layer_id'', ''parent_branch_name'', ''password'', ''port'', ''created_at'']"

definition layerCols :: "string list" where
  "layerCols = [''id'', ''source_id'', ''volume'', ''parent_layer_id'']"

definition source_srow :: "source_row \<Rightarrow> srow" where
  "source_srow r = srow_of (zip (sourceCols @ [''updated_at''])
     [VText (sr_id r), VText (sr_name r), VText (sr_pg_version r), VText (sr_volume r), VText (sr_conn_host r), VInt (sr_conn_port r),
      VText (sr_conn_user r), VText (sr_conn_db r), VText (sr_network r), VText (sr_seed_via r), VText (sr_dump_schemas r),
      VText (source_state_str (sr_state r)), VInt (sr_generation r), VText (sr_created_at r), VText (sr_updated_at r)])"

definition branch_srow :: "branch_row \<Rightarrow> srow" where
  "branch_srow r = srow_of (zip (branchCols @ [''updated_at''])
     [VText (row_id r), VText (row_name r), VText (row_source_id r), VText (branch_state_str (row_state r)), VText (row_container_id r),
      VText (row_rw_volume r), VText (row_source_volume r), VText (row_expires_at r), VText (row_host r),
      nullable_text (row_base_layer_id r), VText (row_parent_branch_name r), VText (row_password r), VInt (row_port r),
      VText (row_created_at r), VText (row_updated_at r)])"

definition layer_srow :: "layer_row \<Rightarrow> srow" where
  "layer_srow r = srow_of (zip layerCols [VText (lr_id r), VText (lr_source_id r), VText (lr_volume r), nullable_text (lr_parent r)])"

definition transition_srow :: "transition_row \<Rightarrow> srow" where
  "transition_srow r = srow_of [(''id'', VInt (int (tr_id r))), (''entity'', VText (tr_entity r)), (''entity_id'', VText (tr_entity_id r)),
     (''from_state'', VText (tr_from r)), (''to_state'', VText (tr_to r)), (''reason'', VText (tr_reason r)),
     (''actor'', VText (tr_actor r)), (''at'', VText (tr_at r))]"

definition mask_srow :: "mask_row \<Rightarrow> srow" where
  "mask_srow r = srow_of [(''source_id'', VText (mr_source_id r)), (''ord'', VInt (int (mr_ord r))), (''name'', VText (mr_name r)),
     (''sql'', VText (mr_sql r))]"

definition token_srow :: "token_row \<Rightarrow> srow" where
  "token_srow r = srow_of [(''id'', VText (tk_id r)), (''name'', VText (tk_name r)), (''token_hash'', VText (tk_hash r)),
     (''role'', VText (tk_role r)), (''created_at'', VText (tk_created_at r))]"

definition meta_srow :: "string \<times> string \<Rightarrow> srow" where
  "meta_srow kv = srow_of [(''key'', VText (fst kv)), (''value'', VText (snd kv))]"

definition file_of :: "tables \<Rightarrow> sfile" where
  "file_of d = \<lparr>f_schema = schema_at 11, f_rows = (\<lambda>n. case map_of
     [(''sources'', map source_srow (sources d)), (''branches'', map branch_srow (branches d)), (''layers'', map layer_srow (layers d)),
      (''transitions'', map transition_srow (transitions d)), (''mask_scripts'', map mask_srow (mask_scripts d)),
      (''api_tokens'', map token_srow (api_tokens d)), (''meta'', map meta_srow (meta d))] n of Some rows \<Rightarrow> rows | None \<Rightarrow> [])\<rparr>"

text \<open>
  Reading a row back, as \<open>scanSource\<close>, \<open>scanBranch\<close> and the other scans do column by column. State columns hold the names the
  program writes; any other text is read as the last state.
\<close>

definition text_in :: "sval \<Rightarrow> string" where "text_in v = (case v of VText s \<Rightarrow> s | _ \<Rightarrow> [])"
definition int_in :: "sval \<Rightarrow> int" where "int_in v = (case v of VInt i \<Rightarrow> i | _ \<Rightarrow> 0)"
definition null_text_in :: "sval \<Rightarrow> string option" where "null_text_in v = (case v of VText s \<Rightarrow> Some s | _ \<Rightarrow> None)"

definition source_state_in :: "sval \<Rightarrow> source_state" where
  "source_state_in v = (if v = VText ''seeding'' then SourceSeeding else if v = VText ''ready'' then SourceReady else SourceFailed)"

definition branch_state_in :: "sval \<Rightarrow> branch_state" where
  "branch_state_in v =
     (if v = VText ''creating'' then BranchCreating else if v = VText ''ready'' then BranchReady
      else if v = VText ''failed'' then BranchFailed else if v = VText ''resetting'' then BranchResetting
      else if v = VText ''destroying'' then BranchDestroying else BranchDestroyed)"

definition source_in :: "srow \<Rightarrow> source_row" where
  "source_in q = \<lparr>sr_id = text_in (q ''id''), sr_name = text_in (q ''name''), sr_pg_version = text_in (q ''pg_version''),
     sr_volume = text_in (q ''volume''), sr_conn_host = text_in (q ''conn_host''), sr_conn_port = int_in (q ''conn_port''),
     sr_conn_user = text_in (q ''conn_user''), sr_conn_db = text_in (q ''conn_db''), sr_network = text_in (q ''network''),
     sr_seed_via = text_in (q ''seed_via''), sr_dump_schemas = text_in (q ''dump_schemas''), sr_state = source_state_in (q ''state''),
     sr_generation = int_in (q ''generation''), sr_created_at = text_in (q ''created_at''), sr_updated_at = text_in (q ''updated_at'')\<rparr>"

definition branch_in :: "srow \<Rightarrow> branch_row" where
  "branch_in q = \<lparr>row_id = text_in (q ''id''), row_name = text_in (q ''name''), row_source_id = text_in (q ''source_id''),
     row_state = branch_state_in (q ''state''), row_container_id = text_in (q ''container_id''), row_rw_volume = text_in (q ''rw_volume''),
     row_source_volume = text_in (q ''source_volume''), row_expires_at = text_in (q ''expires_at''), row_host = text_in (q ''host''),
     row_base_layer_id = null_text_in (q ''base_layer_id''), row_parent_branch_name = text_in (q ''parent_branch_name''),
     row_password = text_in (q ''password''), row_port = int_in (q ''port''), row_created_at = text_in (q ''created_at''),
     row_updated_at = text_in (q ''updated_at'')\<rparr>"

definition layer_in :: "srow \<Rightarrow> layer_row" where
  "layer_in q = \<lparr>lr_id = text_in (q ''id''), lr_source_id = text_in (q ''source_id''), lr_volume = text_in (q ''volume''),
     lr_parent = null_text_in (q ''parent_layer_id'')\<rparr>"

definition transition_in :: "srow \<Rightarrow> transition_row" where
  "transition_in q = \<lparr>tr_id = nat (int_in (q ''id'')), tr_entity = text_in (q ''entity''), tr_entity_id = text_in (q ''entity_id''),
     tr_from = text_in (q ''from_state''), tr_to = text_in (q ''to_state''), tr_reason = text_in (q ''reason''),
     tr_actor = text_in (q ''actor''), tr_at = text_in (q ''at'')\<rparr>"

definition mask_in :: "srow \<Rightarrow> mask_row" where
  "mask_in q = \<lparr>mr_source_id = text_in (q ''source_id''), mr_ord = nat (int_in (q ''ord'')), mr_name = text_in (q ''name''),
     mr_sql = text_in (q ''sql'')\<rparr>"

definition token_in :: "srow \<Rightarrow> token_row" where
  "token_in q = \<lparr>tk_id = text_in (q ''id''), tk_name = text_in (q ''name''), tk_hash = text_in (q ''token_hash''),
     tk_role = text_in (q ''role''), tk_created_at = text_in (q ''created_at'')\<rparr>"

definition tables_in :: "sfile \<Rightarrow> tables" where
  "tables_in f = \<lparr>sources = map source_in (f_rows f ''sources''), branches = map branch_in (f_rows f ''branches''),
     layers = map layer_in (f_rows f ''layers''), transitions = map transition_in (f_rows f ''transitions''),
     mask_scripts = map mask_in (f_rows f ''mask_scripts''), api_tokens = map token_in (f_rows f ''api_tokens''),
     meta = map (\<lambda>q. (text_in (q ''key''), text_in (q ''value''))) (f_rows f ''meta'')\<rparr>"

lemmas srow_simps = srow_of_def source_srow_def branch_srow_def layer_srow_def transition_srow_def mask_srow_def token_srow_def
  meta_srow_def sourceCols_def branchCols_def layerCols_def

lemma value_in [simp]: "text_in (VText s) = s" "int_in (VInt i) = i" "null_text_in (nullable_text x) = x"
  "source_state_in (VText (source_state_str a)) = a" "branch_state_in (VText (branch_state_str b)) = b"
proof -
  show "source_state_in (VText (source_state_str a)) = a" by (cases a) (simp_all add: source_state_in_def)
  show "branch_state_in (VText (branch_state_str b)) = b" by (cases b) (simp_all add: branch_state_in_def)
qed (simp_all add: text_in_def int_in_def null_text_in_def nullable_text_def split: option.splits)

lemma rows_in [simp]: "source_in (source_srow a) = a" "branch_in (branch_srow b) = b" "layer_in (layer_srow l) = l"
  "transition_in (transition_srow t) = t" "mask_in (mask_srow m) = m" "token_in (token_srow k) = k"
  by (simp_all add: source_in_def branch_in_def layer_in_def transition_in_def mask_in_def token_in_def srow_simps)

lemma tables_in_file_of: "tables_in (file_of d) = d"
  by (cases d) (simp add: tables_in_def file_of_def o_def meta_srow_def srow_of_def)

section \<open>The constraints\<close>

definition summary :: "schema \<Rightarrow> (string \<times> string list \<times> string list list) list" where
  "summary s = map (\<lambda>(n, t). (n, map c_name (filter c_notnull (t_cols t)), t_keys t)) (s_tables s)"

lemma file_ok_summary:
  "file_ok f \<longleftrightarrow> list_all (\<lambda>(n, nn, ks). list_all (\<lambda>c. list_all (\<lambda>r. r c \<noteq> VNull) (f_rows f n)) nn \<and>
      list_all (\<lambda>k. unique_rows k (f_rows f n)) ks) (summary (f_schema f)) \<and>
     list_all (\<lambda>i. unique_rows (i_cols i) (indexed i (f_rows f (i_table i)))) (s_indexes (f_schema f))"
proof -
  have "tab_ok t rows \<longleftrightarrow> list_all (\<lambda>c. list_all (\<lambda>r. r c \<noteq> VNull) rows) (map c_name (filter c_notnull (t_cols t))) \<and>
      list_all (\<lambda>k. unique_rows k rows) (t_keys t)" for t rows
    by (auto simp: tab_ok_def list_all_iff)
  then show ?thesis by (simp add: file_ok_def summary_def list.pred_map o_def case_prod_beta')
qed

lemma summary_11: "summary (schema_at 11) =
  [(''branches'', [''id'', ''name'', ''source_id'', ''state'', ''container_id'', ''rw_volume'', ''port'', ''created_at'', ''updated_at'',
      ''expires_at'', ''source_volume'', ''host'', ''parent_branch_name'', ''password''], [[''id'']]),
   (''transitions'', [''id'', ''entity'', ''entity_id'', ''from_state'', ''to_state'', ''reason'', ''at'', ''actor''], [[''id'']]),
   (''sources'', [''id'', ''name'', ''pg_version'', ''volume'', ''conn_host'', ''conn_port'', ''conn_user'', ''conn_db'', ''network'', ''state'',
      ''generation'', ''created_at'', ''updated_at'', ''seed_via'', ''dump_schemas''], [[''id'']]),
   (''mask_scripts'', [''source_id'', ''ord'', ''name'', ''sql''], [[''source_id'', ''ord'']]),
   (''layers'', [''id'', ''source_id'', ''volume''], [[''id'']]),
   (''meta'', [''key'', ''value''], [[''key'']]),
   (''api_tokens'', [''id'', ''name'', ''token_hash'', ''role'', ''created_at''], [[''id''], [''name'']])]"
  by code_simp

lemma indexes_11: "s_indexes (schema_at 11) =
  [\<lparr>i_name = ''branches_live_name'', i_table = ''branches'', i_cols = [''name''], i_unless = Some (''state'', ''destroyed'')\<rparr>,
   \<lparr>i_name = ''sources_live_name'', i_table = ''sources'', i_cols = [''name''], i_unless = Some (''state'', ''failed'')\<rparr>,
   \<lparr>i_name = ''api_tokens_hash'', i_table = ''api_tokens'', i_cols = [''token_hash''], i_unless = None\<rparr>]"
  by code_simp

lemma unique_key:
  assumes "\<And>r. map (enc r) ks = f (key r)" "\<And>k. VNull \<notin> set (f k)" "inj f"
  shows "unique_rows ks (map enc rows) = distinct (map key rows)"
proof -
  have "filter (\<lambda>vs. VNull \<notin> set vs) (map (\<lambda>r. map r ks) (map enc rows)) = map f (map key rows)"
    using assms(1,2) by (simp add: o_def filter_map)
  then show ?thesis by (simp only: unique_rows_def distinct_map [of f] inj_on_subset [OF assms(3)] subset_UNIV simp_thms)
qed

lemma unique_text: "(\<And>r. enc r c = VText (key r)) \<Longrightarrow> unique_rows [c] (map enc rows) = distinct (map key rows)"
  by (rule unique_key [of _ _ "\<lambda>k. [VText k]"]) (auto simp: inj_def)

lemma source_state_failed: "source_state_str s = ''failed'' \<longleftrightarrow> s = SourceFailed"
  by (cases s) simp_all

lemma branch_state_destroyed: "branch_state_str s = ''destroyed'' \<longleftrightarrow> s = BranchDestroyed"
  by (cases s) simp_all

text \<open>
  C13: The checks of the model are the constraints of the schema. For every state of the typed tables, the file that holds it satisfies
  all NOT NULL, key and unique-index constraints of the migrated schema exactly when the ids are distinct, the live
  branch names and the names of sources that did not fail are unique, and tokens have unique names and hashes.
\<close>

theorem schema_constraints_are_checked:
  "file_ok (file_of d) \<longleftrightarrow>
     distinct (map sr_id (sources d)) \<and> unique_source_names (sources d) \<and>
     distinct (map row_id (branches d)) \<and> unique_live_names (branches d) \<and>
     distinct (map lr_id (layers d)) \<and> distinct (map tr_id (transitions d)) \<and>
     distinct (map (\<lambda>m. (mr_source_id m, mr_ord m)) (mask_scripts d)) \<and> distinct (map fst (meta d)) \<and>
     distinct (map tk_id (api_tokens d)) \<and> distinct (map tk_name (api_tokens d)) \<and> distinct (map tk_hash (api_tokens d))"
proof -
  have live: "indexed \<lparr>i_name = n, i_table = t, i_cols = cs, i_unless = Some (''state'', ''destroyed'')\<rparr> (map branch_srow bs) =
      map branch_srow (filter live_row bs)" for n t cs bs
    by (simp add: indexed_def filter_map o_def srow_simps branch_state_destroyed live_row_def [abs_def])
  have ready: "indexed \<lparr>i_name = n, i_table = t, i_cols = cs, i_unless = Some (''state'', ''failed'')\<rparr> (map source_srow ss) =
      map source_srow (filter (\<lambda>r. sr_state r \<noteq> SourceFailed) ss)" for n t cs ss
    by (simp add: indexed_def filter_map o_def srow_simps source_state_failed)
  have all: "indexed \<lparr>i_name = n, i_table = t, i_cols = cs, i_unless = None\<rparr> rows = rows" for n t cs rows
    by (simp add: indexed_def)
  have keys: "unique_rows [''id''] (map branch_srow bs) = distinct (map row_id bs)" "unique_rows [''name''] (map branch_srow bs) = distinct (map row_name bs)"
      "unique_rows [''id''] (map source_srow ss) = distinct (map sr_id ss)" "unique_rows [''name''] (map source_srow ss) = distinct (map sr_name ss)"
      "unique_rows [''id''] (map layer_srow ls) = distinct (map lr_id ls)" "unique_rows [''key''] (map meta_srow ms) = distinct (map fst ms)"
      "unique_rows [''id''] (map token_srow ts) = distinct (map tk_id ts)" "unique_rows [''name''] (map token_srow ts) = distinct (map tk_name ts)"
      "unique_rows [''token_hash''] (map token_srow ts) = distinct (map tk_hash ts)" for bs ss ls ms ts
    by (rule unique_text, simp add: srow_simps)+
  have ids: "unique_rows [''id''] (map transition_srow ts) = distinct (map tr_id ts)" for ts
    by (rule unique_key [of _ _ "\<lambda>k. [VInt (int k)]"]) (auto simp: srow_simps inj_def)
  have masks: "unique_rows [''source_id'', ''ord''] (map mask_srow ms) = distinct (map (\<lambda>m. (mr_source_id m, mr_ord m)) ms)" for ms
    by (rule unique_key [of _ _ "\<lambda>(a, b). [VText a, VInt (int b)]"]) (auto simp: srow_simps inj_def)
  show ?thesis
    unfolding file_ok_summary file_of_def sfile.simps summary_11 indexes_11
    by (simp add: live ready all keys ids masks unique_live_names_def unique_source_names_def list_all_iff)
       (auto simp: srow_simps)
qed

section \<open>Opening a registry\<close>

text \<open>
  \<open>Open\<close>: the schema is brought up to date, then the instance id is minted or read back.
\<close>

definition Open :: "string \<Rightarrow> nat \<Rightarrow> sfile \<Rightarrow> ('z reg_st_scheme, string) comp" where
  "Open now version f =
     (case migrate_file now version f of
        (Some e, _, _) \<Rightarrow> raise (Wrap ''apply schema: '' e [])
      | (None, _, g) \<Rightarrow>
          bnd (modify (\<lambda>s. s\<lparr>db := tables_in g\<rparr>)) (\<lambda>_.
          bnd (wrapping ''instance id: '' ensureInstanceID) (\<lambda>ident.
          bnd (modify (\<lambda>s. s\<lparr>instanceID := ident\<rparr>)) (\<lambda>_. ok ident))))"

lemma change_empty: "change now st s (\<lambda>_. []) = (\<lambda>_. [])"
  by (cases st) (auto simp: fun_eq_iff)

lemma run_script_empty: "run_script now sts f = Inr g \<Longrightarrow> f_rows f = (\<lambda>_. []) \<Longrightarrow> f_rows g = (\<lambda>_. [])"
proof (induction sts arbitrary: f)
  case (Cons st sts)
  then obtain h where h: "run_stmt now st f = Inr h" "run_script now sts h = Inr g" by (auto split: sum.splits)
  then show ?case using Cons.IH [OF h(2)] Cons.prems(2) run_stmt_Inr [OF h(1)] by (simp add: change_empty)
qed simp

lemma migrate_empty: "migrate_from v (map (run_script now) ms) f = (None, k, g) \<Longrightarrow> f_rows f = (\<lambda>_. []) \<Longrightarrow> f_rows g = (\<lambda>_. [])"
  by (induction ms arbitrary: v f) (auto split: sum.splits dest: run_script_empty)

lemma file_of_empty: "file_of empty_tables = \<lparr>f_schema = schema_at 11, f_rows = (\<lambda>_. [])\<rparr>"
  by (auto simp: file_of_def empty_tables_def fun_eq_iff)

lemma fresh_file_ok: "file_ok fresh_file" "hashes_unique 0 fresh_file"
  by (simp_all add: fresh_file_def file_ok_def hashes_unique_def)

lemma migrate_fresh: "migrate_file now 0 fresh_file = (None, 11, file_of empty_tables)"
proof -
  obtain g where g: "migrate_file now 0 fresh_file = (None, 11, g)" "f_schema g = schema_at 11"
    using every_version_upgrades_lemma [of fresh_file 0 now] fresh_file_ok schema_at_0 by auto
  then have "f_rows g = (\<lambda>_. [])" using migrate_empty [of 0 now migrations fresh_file 11 g]
    by (simp add: migrate_file_def migrate_def fresh_file_def)
  then show ?thesis using g by (cases g) (simp add: file_of_empty)
qed

lemma migrate_current: "migrate_file now 11 f = (None, 11, f)"
  by (simp add: migrate_file_def migrate_def)

text \<open>
  C15: Opening a fresh file gives a registry with empty tables but for a new instance id; and opening it again, whatever happened to the
  tables in between as long as no key is removed from \<open>meta\<close>, gives the same id and leaves the tables alone. So resources
  tagged with the id are never orphaned by a restart.
\<close>

theorem instance_id_is_stable:
  assumes "Open now 0 fresh_file s = (Inr ident, t)" "map_of (meta d) ''instance_id'' = map_of (meta (db t)) ''instance_id''"
    and "Open now' 11 (file_of d) u = (Inr ident', w)"
  shows "db t = empty_tables\<lparr>meta := [(''instance_id'', ident)]\<rparr> \<and> instanceID t = ident \<and> ident' = ident \<and> db w = d \<and> instanceID w = ident"
proof -
  have t: "db t = empty_tables\<lparr>meta := [(''instance_id'', ident)]\<rparr>" "instanceID t = ident"
    using assms(1) by (auto simp: Open_def migrate_fresh tables_in_file_of ensureInstanceID_def comp_simps sql_exec_def sql_query_def sql_def
        rand_hex_def empty_tables_def split: if_splits option.splits)
  then have m: "map_of (meta d) ''instance_id'' = Some ident" using assms(2) by simp
  then have "''instance_id'' \<in> fst ` set (meta d)" by (metis map_of_eq_None_iff option.distinct(1))
  then have "ident' = ident \<and> db w = d \<and> instanceID w = ident"
    using assms(3) m by (auto simp: Open_def migrate_current tables_in_file_of ensureInstanceID_def comp_simps sql_exec_def sql_query_def
        sql_def rand_hex_def split: if_splits option.splits)
  with t show ?thesis by blast
qed


definition sample_open :: reg_st where
  "sample_open = \<lparr>sql_fault = (\<lambda>_. None), elapse = (\<lambda>_. 0), rand_byte = (\<lambda>n i. (n + i) mod 256), ctx_done = (\<lambda>_. False),
     tick = 0, wall = 0, db = empty_tables, instanceID = [], secrets = None\<rparr>"

theorem instance_id_is_stable_witness:
  "\<exists>ident t w. Open ''2026'' 0 fresh_file sample_open = (Inr ident, t) \<and> ident \<noteq> [] \<and>
     Open ''2027'' 11 (file_of (db t)) (sample_open\<lparr>tick := 7\<rparr>) = (Inr ident, w) \<and> db w = db t"
proof -
  let ?first = "Open ''2026'' 0 fresh_file sample_open"
  have "\<exists>ident t. ?first = (Inr ident, t) \<and> ident \<noteq> []"
    by (simp add: Open_def migrate_fresh tables_in_file_of ensureInstanceID_def comp_simps sql_exec_def sql_query_def sql_def rand_hex_def
        empty_tables_def sample_open_def hex_encode_def upt_rec)
  then obtain ident t where t: "?first = (Inr ident, t)" "ident \<noteq> []" by blast
  have "\<exists>ident' w. Open ''2027'' 11 (file_of (db t)) (sample_open\<lparr>tick := 7\<rparr>) = (Inr ident', w)"
    using t(1) by (auto simp: Open_def migrate_current migrate_fresh tables_in_file_of ensureInstanceID_def comp_simps sql_exec_def
        sql_query_def sql_def rand_hex_def empty_tables_def sample_open_def)
  then obtain ident' w where "Open ''2027'' 11 (file_of (db t)) (sample_open\<lparr>tick := 7\<rparr>) = (Inr ident', w)" by blast
  then show ?thesis using instance_id_is_stable [OF t(1), of "db t"] t by auto
qed

end
