(* ===== verification/Metrics.thy ===== *)
theory Metrics
  imports Cli_Props
begin

text \<open>
  Package \<open>internal/metrics\<close> and \<open>observeOp\<close> of \<open>internal/engine/saga.go\<close>. The Prometheus library is not modelled: the state keeps the
  calls made to it, in order (\<open>meter\<close>), or nothing for a nil \<open>*Metrics\<close>, on which every method is a no-op. The collectors return
  the samples they send on a scrape.
\<close>

section \<open>Calls to the library\<close>

datatype metric_call =
  Observe string string int
| Inc string string
| AddTo string int
| GaugeUp string
| GaugeDown string

record met_st = sys +
  meter :: "metric_call list option"

definition meters :: "metric_call \<Rightarrow> ('z met_st_scheme, unit) comp" where
  "meters c = modify (\<lambda>s. s\<lparr>meter := map_option (\<lambda>cs. cs @ [c]) (meter s)\<rparr>)"

definition ObserveOp :: "string \<Rightarrow> int \<Rightarrow> ('z met_st_scheme, unit) comp" where
  "ObserveOp op d = meters (Observe ''pgbranch_branch_op_duration_seconds'' op d)"

definition IncOpError :: "string \<Rightarrow> ('z met_st_scheme, unit) comp" where
  "IncOpError op = meters (Inc ''pgbranch_branch_op_errors_total'' op)"

definition ObserveMasking :: "int \<Rightarrow> ('z met_st_scheme, unit) comp" where
  "ObserveMasking d = meters (Observe ''pgbranch_masking_duration_seconds'' [] d)"

definition IncReaperRun :: "int \<Rightarrow> ('z met_st_scheme, unit) comp" where
  "IncReaperRun reaped =
     bnd (meters (Inc ''pgbranch_reaper_runs_total'' [])) (\<lambda>_.
     if reaped > 0 then meters (AddTo ''pgbranch_reaper_reaped_total'' reaped) else ok ())"

definition IncReconcileRun :: "('z met_st_scheme, unit) comp" where
  "IncReconcileRun = meters (Inc ''pgbranch_reconcile_runs_total'' [])"

definition IncReconcileAction :: "string \<Rightarrow> ('z met_st_scheme, unit) comp" where
  "IncReconcileAction which = meters (Inc ''pgbranch_reconcile_actions_total'' which)"

definition IncInflight :: "('z met_st_scheme, unit) comp" where
  "IncInflight = meters (GaugeUp ''pgbranch_inflight_ops'')"

definition DecInflight :: "('z met_st_scheme, unit) comp" where
  "DecInflight = meters (GaugeDown ''pgbranch_inflight_ops'')"

definition IncCompensationFailure :: "string \<Rightarrow> ('z met_st_scheme, unit) comp" where
  "IncCompensationFailure which = meters (Inc ''pgbranch_compensation_failures_total'' which)"

text \<open>Every series the methods write to is registered by \<open>New\<close>.\<close>

definition registered :: "string list" where
  "registered = [''pgbranch_branch_op_duration_seconds'', ''pgbranch_branch_op_errors_total'', ''pgbranch_masking_duration_seconds'',
     ''pgbranch_reaper_runs_total'', ''pgbranch_reaper_reaped_total'', ''pgbranch_reconcile_runs_total'',
     ''pgbranch_reconcile_actions_total'', ''pgbranch_inflight_ops'', ''pgbranch_compensation_failures_total'']"

section \<open>Observed operations\<close>

text \<open>
  \<open>defer e.observeOp(op, &err)()\<close> around an operation: the deferred function runs whatever the operation returned.
\<close>

definition observeOp :: "string \<Rightarrow> ('z met_st_scheme, 'a) comp \<Rightarrow> ('z met_st_scheme, 'a) comp" where
  "observeOp op m =
     bnd IncInflight (\<lambda>_.
     bnd time_now (\<lambda>start.
     bnd (attempt m) (\<lambda>r.
     bnd time_now (\<lambda>stop.
     bnd (ObserveOp op (stop - start)) (\<lambda>_.
     bnd (if isl r then IncOpError op else ok ()) (\<lambda>_.
     bnd DecInflight (\<lambda>_.
     lift_sum r)))))))"

datatype observed_op =
  ObsCreate ctx string string int
| ObsFrom ctx string string int
| ObsReset ctx string
| ObsDestroy ctx string

fun op_label :: "observed_op \<Rightarrow> string" where
  "op_label (ObsCreate _ _ _ _) = ''create''"
| "op_label (ObsFrom _ _ _ _) = ''from_branch''"
| "op_label (ObsReset _ _) = ''reset''"
| "op_label (ObsDestroy _ _) = ''destroy''"

fun op_of :: "observed_op \<Rightarrow> eng_op" where
  "op_of (ObsCreate c n sn ttl) = ECreateBranch c n sn ttl"
| "op_of (ObsFrom c n pn ttl) = ECreateBranchFrom c n pn ttl"
| "op_of (ObsReset c n) = EResetBranch c n"
| "op_of (ObsDestroy c n) = EDestroyBranch c n"

definition observed :: "engine \<Rightarrow> observed_op \<Rightarrow> ('z met_st_scheme, unit) comp" where
  "observed e x = observeOp (op_label x) (eng_run e (op_of x))"

text \<open>A series of operations, each with its outcome\<close>

fun observe_all :: "engine \<Rightarrow> observed_op list \<Rightarrow> 'z met_st_scheme \<Rightarrow> (err + unit) list \<times> 'z met_st_scheme" where
  "observe_all e [] s = ([], s)"
| "observe_all e (x # xs) s =
     (case observed e x s of (r, t) \<Rightarrow> case observe_all e xs t of (rs, u) \<Rightarrow> (r # rs, u))"

section \<open>Collectors\<close>

text \<open>Samples of one scrape: series, label, value\<close>

type_synonym sample = "string \<times> string \<times> int"

definition state_collect :: "('z reg_st_scheme, sample list) comp" where
  "state_collect =
     bnd (attempt CountBranchesByState) (\<lambda>b.
     bnd (attempt CountSourcesByState) (\<lambda>c.
     ok ((case b of Inl _ \<Rightarrow> [] | Inr counts \<Rightarrow> map (\<lambda>(st, n). (''pgbranch_branches_total'', st, int n)) counts) @
         (case c of Inl _ \<Rightarrow> [] | Inr counts \<Rightarrow> map (\<lambda>(st, n). (''pgbranch_sources_total'', st, int n)) counts))))"

record statfs =
  Bavail :: int
  Blocks :: int
  Bsize :: int

text \<open>\<open>fmul\<close> is the multiplication of 64-bit floating-point numbers.\<close>

definition disk_collect :: "(int \<Rightarrow> int \<Rightarrow> int) \<Rightarrow> (string \<Rightarrow> err + statfs) \<Rightarrow> string \<Rightarrow> sample list" where
  "disk_collect fmul statfs root =
     (case statfs root of
        Inl _ \<Rightarrow> []
      | Inr st \<Rightarrow> let bsize = to_float64 (Bsize st) in
          [(''pgbranch_disk_bytes_free'', [], fmul (to_float64 (Bavail st)) bsize),
           (''pgbranch_disk_bytes_total'', [], fmul (to_float64 (Blocks st)) bsize)])"

text \<open>What a scrape collects after \<open>SetStateCounter\<close> and \<open>SetDiskRoot\<close>, which does nothing for an empty path\<close>

definition scrape :: "(int \<Rightarrow> int \<Rightarrow> int) \<Rightarrow> (string \<Rightarrow> err + statfs) \<Rightarrow> string \<Rightarrow> ('z reg_st_scheme, sample list) comp" where
  "scrape fmul statfs root =
     bnd state_collect (\<lambda>xs. ok (xs @ (if root = '''' then [] else disk_collect fmul statfs root)))"

section \<open>What the metrics say\<close>

interpretation metered: engine_invariant "\<lambda>s. meter s = m" for m
proof unfold_locales
  show "keeps (\<lambda>s. meter s = m) (reg_run x)" for x
    by (rule keeps_free_reg_run) (auto simp: env_free_def db_free_def)
qed (auto simp: env_free_def)

definition level :: "string \<Rightarrow> metric_call list \<Rightarrow> int" where
  "level g cs = int (count_list cs (GaugeUp g)) - int (count_list cs (GaugeDown g))"

definition observations :: "string \<Rightarrow> string \<Rightarrow> metric_call list \<Rightarrow> nat" where
  "observations series label cs = length (filter (\<lambda>c. case c of Observe s l _ \<Rightarrow> s = series \<and> l = label | _ \<Rightarrow> False) cs)"

lemma observed_calls:
  assumes "observed e x s = (r, t)"
  shows "\<exists>d. meter t = map_option (\<lambda>cs. cs @ [GaugeUp ''pgbranch_inflight_ops'',
      Observe ''pgbranch_branch_op_duration_seconds'' (op_label x) d] @
      (if isl r then [Inc ''pgbranch_branch_op_errors_total'' (op_label x)] else []) @ [GaugeDown ''pgbranch_inflight_ops'']) (meter s)"
proof -
  define s1 where "s1 = snd (time_now (snd (IncInflight s)))"
  have m1: "meter s1 = map_option (\<lambda>cs. cs @ [GaugeUp ''pgbranch_inflight_ops'']) (meter s)"
    by (simp add: s1_def time_now_def IncInflight_def meters_def modify_run Let_def)
  obtain q s2 where q: "eng_run e (op_of x) s1 = (q, s2)" by fastforce
  have m2: "meter s2 = meter s1" using keepsD [OF metered.eng_run_keeps [of "meter s1"] _ q] by simp
  show ?thesis using assms q m1 m2
    by (cases "meter s"; cases q) (auto simp: observed_def observeOp_def bnd_run attempt_run time_now_def IncInflight_def meters_def
        modify_run Let_def s1_def ObserveOp_def IncOpError_def DecInflight_def lift_sum_def ok_run raise_run)
qed

lemma tally_append [simp]: "level g (cs @ ds) = level g cs + level g ds"
  "observations se l (cs @ ds) = observations se l cs + observations se l ds"
  by (simp_all add: level_def observations_def)


text \<open>A nil \<open>*Metrics\<close> stays nil.\<close>

lemma unmetered: "observe_all e xs s = (rs, t) \<Longrightarrow> meter s = None \<Longrightarrow> meter t = None"
proof (induction xs arbitrary: s rs)
  case (Cons x xs)
  obtain r u where r: "observed e x s = (r, u)" by fastforce
  then have "meter u = None" using observed_calls [OF r] Cons.prems(2) by auto
  then show ?case using Cons r by (auto split: prod.splits)
qed simp

lemma sum_counts: "distinct all \<Longrightarrow> set xs \<subseteq> set all \<Longrightarrow> (\<Sum>x\<leftarrow>filter (\<lambda>x. x \<in> set xs) all. count_list xs x) = length xs"
proof -
  assume a: "distinct all" "set xs \<subseteq> set all"
  then have "(\<Sum>x\<leftarrow>filter (\<lambda>x. x \<in> set xs) all. count_list xs x) = sum (count_list xs) (set (filter (\<lambda>x. x \<in> set xs) all))"
    by (simp add: sum_list_distinct_conv_sum_set)
  also have "set (filter (\<lambda>x. x \<in> set xs) all) = set xs" using a(2) by auto
  finally show ?thesis by (simp add: sum_count_set [of xs "set xs"])
qed

lemma sum_counts_int: "distinct all \<Longrightarrow> set xs \<subseteq> set all \<Longrightarrow>
    (\<Sum>x\<leftarrow>filter (\<lambda>x. x \<in> set xs) all. int (count_list xs x)) = int (length xs)"
proof -
  have "(\<Sum>x\<leftarrow>ys. int (f x)) = int (\<Sum>x\<leftarrow>ys. f x)" for f :: "'a \<Rightarrow> nat" and ys by (induction ys) simp_all
  then show "distinct all \<Longrightarrow> set xs \<subseteq> set all \<Longrightarrow> ?thesis" using sum_counts [of all xs] by simp
qed

text \<open>
  A scrape shows the registry as it is: on a database that answers, the gauge of a branch state is the number of rows in that
  state (or missing when there is none), the values of all states add up to the number of rows, and so for the sources.
\<close>

theorem scrape_reports_registry:
  assumes "no_faults s"
  shows "\<exists>xs t. state_collect s = (Inr xs, t) \<and>
    (\<forall>st n. (''pgbranch_branches_total'', branch_state_str st, n) \<in> set xs \<longleftrightarrow>
       n = int (count_list (map row_state (branches (db s))) st) \<and> 0 < n) \<and>
    (\<Sum>(series, l, n)\<leftarrow>xs. if series = ''pgbranch_branches_total'' then n else 0) = int (length (branches (db s))) \<and>
    (\<Sum>(series, l, n)\<leftarrow>xs. if series = ''pgbranch_sources_total'' then n else 0) = int (length (sources (db s)))"
proof -
  let ?B = "[BranchCreating, BranchReady, BranchFailed, BranchResetting, BranchDestroying, BranchDestroyed]"
  let ?S = "[SourceSeeding, SourceReady, SourceFailed]"
  let ?b = "map row_state (branches (db s))" and ?c = "map sr_state (sources (db s))"
  define xs where "xs = map (\<lambda>x. (''pgbranch_branches_total'', branch_state_str x, int (count_list ?b x))) (filter (\<lambda>x. x \<in> set ?b) ?B)"
  define ys where "ys = map (\<lambda>x. (''pgbranch_sources_total'', source_state_str x, int (count_list ?c x))) (filter (\<lambda>x. x \<in> set ?c) ?S)"
  have run: "\<exists>t. state_collect s = (Inr (xs @ ys), t)"
    using assms by (simp add: state_collect_def bnd_run attempt_run CountBranchesByState_def CountSourcesByState_def sql_query_def sql_def
        no_faults_def gets_run ok_run count_by_state_def xs_def ys_def o_def)
  have B: "set ?B = UNIV" "set ?S = UNIV" using branch_state.exhaust source_state.exhaust by (auto; blast)+
  have inj: "branch_state_str x = branch_state_str y \<longleftrightarrow> x = y" for x y by (cases x; cases y) simp_all
  have s1: "(\<Sum>x\<leftarrow>filter (\<lambda>x. x \<in> set ?b) ?B. int (count_list ?b x)) = int (length ?b)"
    by (rule sum_counts_int) (simp, simp only: B subset_UNIV)
  have s2: "(\<Sum>x\<leftarrow>filter (\<lambda>x. x \<in> set ?c) ?S. int (count_list ?c x)) = int (length ?c)"
    by (rule sum_counts_int) (simp, simp only: B subset_UNIV)
  have m: "(\<Sum>(series, l, n)\<leftarrow>xs @ ys. if series = ''pgbranch_branches_total'' then n else 0) = int (length (branches (db s)))"
    "(\<Sum>(series, l, n)\<leftarrow>xs @ ys. if series = ''pgbranch_sources_total'' then n else 0) = int (length (sources (db s)))"
    using s1 s2 by (simp_all add: xs_def ys_def o_def)
  have e: "(''pgbranch_branches_total'', branch_state_str st, n) \<in> set (xs @ ys) \<longleftrightarrow>
      n = int (count_list ?b st) \<and> st \<in> set ?b" for st n
  proof -
    have "(''pgbranch_branches_total'', branch_state_str st, n) \<in> set (xs @ ys) \<longleftrightarrow>
        (\<exists>x. x \<in> set ?b \<and> x \<in> set ?B \<and> branch_state_str st = branch_state_str x \<and> n = int (count_list ?b x))"
      unfolding xs_def ys_def set_append set_map set_filter by blast
    then show ?thesis by (simp only: inj B(1) UNIV_I) blast
  qed
  have "st \<in> set ?b \<longleftrightarrow> 0 < count_list ?b st" for st using count_list_0_iff [of ?b st] by auto
  then have e2: "(''pgbranch_branches_total'', branch_state_str st, n) \<in> set (xs @ ys) \<longleftrightarrow> n = int (count_list ?b st) \<and> 0 < n" for st n
    unfolding e by auto
  from run obtain t where "state_collect s = (Inr (xs @ ys), t)" by blast
  then show ?thesis using m e2 by blast
qed

definition sample_met :: met_st where
  "sample_met = sys.extend (sample_sys empty_tables) (met_st.fields (Some []))"


theorem scrape_reports_registry_witness:
  "\<exists>xs t. state_collect (sample_sys ready_tables) = (Inr xs, t) \<and> (''pgbranch_branches_total'', ''ready'', 1) \<in> set xs"
proof -
  have f: "no_faults (sample_sys ready_tables)" by (simp add: no_faults_def sample_sys_def)
  have "count_list (map row_state (branches (db (sample_sys ready_tables)))) BranchReady = 1"
    by (simp add: sample_sys_def ready_tables_def ready_branch_row_def)
  with scrape_reports_registry [OF f] show ?thesis by (metis branch_state_str.simps(2) of_nat_1 zero_less_one)
qed

end
