(* ===== verification/Api_Mux.thy ===== *)
theory Api_Mux
  imports Metrics
begin

text \<open>
  The outer multiplexer of the API server (\<open>Handler\<close> in \<open>internal/api/server.go\<close>): the three routes outside the bearer authentication,
  the static pages and the mounting of \<open>/v1/\<close>; and the readiness check of \<open>cmd/branchd/main.go\<close>.
\<close>

section \<open>Routes\<close>

datatype mux_reply = Answer response | Scraped "sample list" | Page "string option"

text \<open>\<open>reg.Ping\<close> and a cheap call of the driver\<close>

definition ready_check :: "ctx \<Rightarrow> ('z sys_scheme, unit) comp" where
  "ready_check c =
     bnd (wrapping ''registry unreachable: '' sql) (\<lambda>_.
     bnd (wrapping ''driver unresponsive: '' (drv_ListManaged c)) (\<lambda>_. ok ()))"

definition readyz_route :: "ctx \<Rightarrow> ('z sys_scheme, response) comp" where
  "readyz_route c = bnd (attempt (ready_check c)) (\<lambda>r. ok (readyz (Some (case r of Inl e \<Rightarrow> Some e | Inr _ \<Rightarrow> None))))"

text \<open>What the multiplexer answers itself: 405 when the path has a pattern for another method, else 404.\<close>

definition no_pattern :: "bool \<Rightarrow> response" where
  "no_pattern other_method = \<lparr>status = (if other_method then 405 else 404), body = NoBody\<rparr>"

definition v1_route :: "string json_lib \<Rightarrow> (nat list \<Rightarrow> nat list) \<Rightarrow> server \<Rightarrow> ctx \<Rightarrow> string \<Rightarrow> http_method \<Rightarrow> string \<Rightarrow> api_in
    \<Rightarrow> ('z sys_scheme, response) comp" where
  "v1_route J sha srv c hdr m path b =
     (case api_route m path b of
        Some req \<Rightarrow> serve J sha srv c hdr req
      | None \<Rightarrow> ok (no_pattern (list_ex (\<lambda>m'. api_route m' path b \<noteq> None) [GET, POST, PUT, PATCH, DELETE])))"

text \<open>\<open>collect\<close> is the metrics handler, nothing when the server has none; \<open>ui\<close> are the embedded pages.\<close>

definition server_mux :: "string json_lib \<Rightarrow> (nat list \<Rightarrow> nat list) \<Rightarrow> server \<Rightarrow> ('z sys_scheme, sample list) comp option
    \<Rightarrow> (string \<Rightarrow> string option) \<Rightarrow> ctx \<Rightarrow> string \<Rightarrow> http_method \<Rightarrow> string \<Rightarrow> api_in \<Rightarrow> ('z sys_scheme, mux_reply) comp" where
  "server_mux J sha srv collect ui c hdr m path b =
     (let p = fst (cut_query path); only_get = (\<lambda>h. if m = GET then h else ok (Answer (no_pattern True))) in
      if p = ''/healthz'' then only_get (ok (Answer (writeJSON 200 (StatusBody ''ok''))))
      else if p = ''/readyz'' then only_get (bnd (readyz_route c) (\<lambda>x. ok (Answer x)))
      else if p = ''/metrics'' \<and> collect \<noteq> None then only_get (bnd (the collect) (\<lambda>xs. ok (Scraped xs)))
      else if has_prefix p ''/ui/'' then only_get (ok (Page (ui (drop 4 p))))
      else if has_prefix p ''/v1/'' then bnd (v1_route J sha srv c hdr m path b) (\<lambda>x. ok (Answer x))
      else ok (Answer (no_pattern False)))"

section \<open>Without a token\<close>

definition at_rest :: "tables \<Rightarrow> hist \<Rightarrow> 'z sys_scheme \<Rightarrow> bool" where
  "at_rest d h s \<longleftrightarrow> db s = d \<and> trace s = h"

lemma env_free_at_rest [simp]: "env_free (at_rest d h)"
  by (simp add: env_free_def at_rest_def)

lemma scrape_at_rest: "keeps (at_rest d h) (scrape fmul statfs root)"
  unfolding scrape_def state_collect_def CountBranchesByState_def CountSourcesByState_def
  by (intro keeps_rules env_free_at_rest)

lemma ready_check_effect:
  assumes "ready_check c s = (r, t)" "others s = (\<lambda>_. [])"
  shows "db t = db s \<and> (\<exists>evs. trace t = trace s @ evs \<and> length evs \<le> 1 \<and> (\<forall>ev \<in> set evs. ev_call ev = CListManaged))"
  using assms by (auto simp: ready_check_def wrapping_def comp_simps sql_def drv_ListManaged_def call_def interleaved_def reply_def
      run_ops_def Let_def split: option.splits sum.splits)

lemma v1_route_gated:
  assumes "v1_route J sha srv c hdr m path b s = (r, t)" "roleRank (presented_role sha srv (db s) hdr) = 0"
  shows "db t = db s \<and> trace t = trace s \<and> (\<exists>resp. r = Inr resp \<and> status resp \<in> {401, 403, 404, 405, 503})"
proof (cases "api_route m path b")
  case None
  then show ?thesis using assms(1) by (auto simp: v1_route_def ok_run no_pattern_def)
next
  case (Some req)
  have "serve J sha srv c hdr req s = (r, t)" using assms(1) Some by (simp add: v1_route_def)
  from gate_protects [OF this disjI1] show ?thesis using assms(2) rank_min_role [of req] by auto
qed


text \<open>The comment calls readiness a boolean; the answer carries the text of the error, to anyone.\<close>

theorem readiness_tells_the_error:
  assumes "sql_fault s (tick s) = Some e"
  shows "\<exists>t. readyz_route c s = (Inr (writeError 503 (''registry unreachable: '' @ e)), t)"
  using assms by (simp add: readyz_route_def ready_check_def wrapping_def comp_simps sql_def readyz_def)


theorem readiness_tells_the_error_witness:
  "\<exists>t. readyz_route Background ((sample_sys empty_tables)\<lparr>sql_fault := \<lambda>_. Some ''disk I/O error''\<rparr>) =
     (Inr (writeError 503 ''registry unreachable: disk I/O error''), t)"
  using readiness_tells_the_error [of "(sample_sys empty_tables)\<lparr>sql_fault := \<lambda>_. Some ''disk I/O error''\<rparr>" "''disk I/O error''"] by simp

end
