(* ===== verification/Startup.thy ===== *)
theory Startup
  imports Branchd Ghook_Props Docker_Driver
begin

text \<open>
  What the programs do before they work: which addresses are on this machine (\<open>net.ParseIP\<close>, \<open>IsLoopback\<close>), the constructor of the API
  client with its TLS settings and warnings (\<open>internal/apiclient/client.go\<close>), the Docker host of the CLI context
  (\<open>internal/runtime/docker.go\<close>), the cluster configuration (\<open>internal/runtime/kube.go\<close>), the rounds of the elector
  (\<open>internal/ha/leader.go\<close>) and the main function of the webhook service (\<open>cmd/pgbranch-github/main.go\<close>). Files, the
  environment, PEM, JSON and URL parsing and the cluster client are parameters.
\<close>

section \<open>Addresses\<close>

text \<open>\<open>netip.ParseAddr\<close>: the sixteen bytes of an address; a zone makes \<open>net.ParseIP\<close> fail.\<close>

definition v4_field :: "string \<Rightarrow> nat option" where
  "v4_field f =
     (if f = [] \<or> 1 < length f \<and> hd f = CHR ''0'' then None
      else case digits_value 0 f of None \<Rightarrow> None | Some v \<Rightarrow> if 255 < v then None else Some (nat v))"

fun all_some :: "'a option list \<Rightarrow> 'a list option" where
  "all_some [] = Some []"
| "all_some (x # xs) = (case (x, all_some xs) of (Some y, Some ys) \<Rightarrow> Some (y # ys) | _ \<Rightarrow> None)"

definition parse_v4 :: "string \<Rightarrow> nat list option" where
  "parse_v4 s = (let fs = strings_split s (CHR ''.'') in if length fs = 4 then all_some (map v4_field fs) else None)"

definition hex_val :: "string \<Rightarrow> nat" where
  "hex_val ds = foldl (\<lambda>a c. 16 * a + the (unhex c)) 0 ds"

text \<open>
  The loop over the groups: \<open>ip\<close> are the bytes so far, \<open>dots\<close> is where \<open>::\<close> stood. The result has the rest of the text, which has
  to be empty.
\<close>

fun v6_groups :: "nat \<Rightarrow> string \<Rightarrow> nat list \<Rightarrow> nat option \<Rightarrow> (nat list \<times> nat option \<times> string) option" where
  "v6_groups 0 s ip dots = Some (ip, dots, s)"
| "v6_groups (Suc n) s ip dots =
     (let ds = takeWhile (\<lambda>c. unhex c \<noteq> None) s; rest = dropWhile (\<lambda>c. unhex c \<noteq> None) s in
      if ds = [] \<or> 4 < length ds then None
      else if rest \<noteq> [] \<and> hd rest = CHR ''.'' then
        (if dots = None \<and> length ip \<noteq> 12 \<or> 12 < length ip then None
         else map_option (\<lambda>q. (ip @ q, dots, [])) (parse_v4 s))
      else
        let ip1 = ip @ [hex_val ds div 256, hex_val ds mod 256] in
        case rest of
          [] \<Rightarrow> Some (ip1, dots, [])
        | [_] \<Rightarrow> None
        | c # s1 \<Rightarrow>
            if c \<noteq> CHR '':'' then None
            else if hd s1 = CHR '':'' then
              (if dots \<noteq> None then None
               else if tl s1 = [] then Some (ip1, Some (length ip1), []) else v6_groups n (tl s1) ip1 (Some (length ip1)))
            else v6_groups n s1 ip1 dots)"

definition parse_v6 :: "string \<Rightarrow> nat list option" where
  "parse_v6 s =
     (if s = ''::'' then Some (replicate 16 0)
      else
        case (if take 2 s = ''::'' then v6_groups 8 (drop 2 s) [] (Some 0) else v6_groups 8 s [] None) of
          None \<Rightarrow> None
        | Some (ip, dots, rest) \<Rightarrow>
            if rest \<noteq> [] then None
            else if length ip < 16 then
              (case dots of None \<Rightarrow> None | Some k \<Rightarrow> Some (take k ip @ replicate (16 - length ip) 0 @ drop k ip))
            else if dots \<noteq> None then None else Some ip)"

definition v4_in_v6 :: "nat list" where "v4_in_v6 = replicate 10 0 @ [255, 255]"

definition ParseIP :: "string \<Rightarrow> nat list option" where
  "ParseIP s =
     (if CHR ''%'' \<in> set s then None
      else case find (\<lambda>c. c = CHR ''.'' \<or> c = CHR '':'') s of
        None \<Rightarrow> None
      | Some c \<Rightarrow> if c = CHR ''.'' then map_option (\<lambda>q. v4_in_v6 @ q) (parse_v4 s) else parse_v6 s)"

definition IsLoopback :: "nat list \<Rightarrow> bool" where
  "IsLoopback ip = (if take 12 ip = v4_in_v6 then ip ! 12 = 127 else ip = replicate 15 0 @ [1])"

definition isLoopbackHost :: "string \<Rightarrow> bool" where
  "isLoopbackHost host = (if host = ''localhost'' then True else case ParseIP host of Some ip \<Rightarrow> IsLoopback ip | None \<Rightarrow> False)"

definition pgProxyExposedPlaintext :: "string \<Rightarrow> bool \<Rightarrow> bool" where
  "pgProxyExposedPlaintext pgAddr tlsEnabled =
     (if tlsEnabled then False
      else case SplitHostPort pgAddr of
        None \<Rightarrow> True
      | Some (host, _) \<Rightarrow>
          if host = '''' then True
          else (case ParseIP host of Some ip \<Rightarrow> \<not> IsLoopback ip | None \<Rightarrow> host \<noteq> ''localhost''))"

definition dotted :: "nat list \<Rightarrow> string" where "dotted q = strings_join (map nat_str q) ''.''"

text \<open>Every dotted quad is read as the bytes it shows, and is on this machine exactly when the first is 127.\<close>

lemma nat_str_head_nonzero: "0 < n \<Longrightarrow> hd (nat_str n) \<noteq> CHR ''0''"
proof (induction n rule: nat_str.induct)
  case (1 n)
  show ?case
  proof (cases "n < 10")
    case True
    then have "digit_value (digit_char n) \<noteq> digit_value (CHR ''0'')" using 1 digit_value_char [of n] by (simp add: digit_value_def)
    then show ?thesis using True by (auto simp: nat_str.simps [of n])
  next
    case False
    then show ?thesis using 1 by (simp add: nat_str.simps [of n])
  qed
qed

lemma v4_field_nat_str: "n < 256 \<Longrightarrow> v4_field (nat_str n) = Some n"
  using nat_str_head_nonzero [of n] digits_value_nat_str [of n]
  by (cases "n = 0") (auto simp: v4_field_def simp del: digits_value.simps, simp add: nat_str.simps)

lemma parse_dotted:
  assumes "length q = 4" "\<forall>n \<in> set q. n < 256"
  shows "parse_v4 (dotted q) = Some q"
proof -
  have all: "all_some (map (\<lambda>n. v4_field (nat_str n)) r) = Some r" if "\<forall>n \<in> set r. n < 256" for r
    using that by (induction r) (auto simp: v4_field_nat_str)
  have "CHR ''.'' \<notin> set (nat_str n)" for n using nat_str_digits [of n] by (auto simp: digit_chars_def)
  then have "strings_split (dotted q) (CHR ''.'') = map nat_str q"
    unfolding dotted_def by (intro strings_split_join) (use assms(1) in auto)
  then show ?thesis using assms all [of q] by (simp add: parse_v4_def o_def)
qed

lemma join_chars: "set (strings_join ws sep) \<subseteq> set sep \<union> \<Union> (set ` set ws)"
  by (induction ws sep rule: strings_join.induct) auto

lemma dotted_chars: "set (dotted q) \<subseteq> insert (CHR ''.'') digit_chars"
  using join_chars [of "map nat_str q" "''.''"] nat_str_digits by (fastforce simp: dotted_def)

lemma find_only: "x \<in> set xs \<Longrightarrow> y \<notin> set xs \<Longrightarrow> find (\<lambda>c. c = x \<or> c = y) xs = Some x"
  by (induction xs) auto

lemma ParseIP_dotted:
  assumes "length q = 4" "\<forall>n \<in> set q. n < 256"
  shows "ParseIP (dotted q) = Some (v4_in_v6 @ q)"
proof -
  have no: "CHR ''%'' \<notin> set (dotted q)" "CHR '':'' \<notin> set (dotted q)" using dotted_chars [of q] by (auto simp: digit_chars_def)
  have "CHR ''.'' \<in> set (dotted q)"
    using assms(1) by (cases q rule: list.exhaust) (auto simp: dotted_def neq_Nil_conv length_Suc_conv numeral_eq_Suc)
  then have "find (\<lambda>c. c = CHR ''.'' \<or> c = CHR '':'') (dotted q) = Some (CHR ''.'')"
    using no(2) by (rule find_only)
  then show ?thesis using no(1) parse_dotted [OF assms] by (simp add: ParseIP_def)
qed

lemma loopback_dotted:
  assumes "length q = 4" "\<forall>n \<in> set q. n < 256"
  shows "isLoopbackHost (dotted q) \<longleftrightarrow> hd q = 127"
proof -
  have "dotted q \<noteq> ''localhost''" using dotted_chars [of q] by (auto simp: digit_chars_def)
  moreover have "IsLoopback (v4_in_v6 @ q) \<longleftrightarrow> hd q = 127"
    using assms(1) by (cases q) (auto simp: IsLoopback_def v4_in_v6_def nth_append)
  ultimately show ?thesis using ParseIP_dotted [OF assms] by (simp add: isLoopbackHost_def)
qed

section \<open>The constructor of the API client\<close>

text \<open>How the client verifies the server: with the system's roots, with the certificates of one PEM file, or not at all.\<close>

datatype http_client = DefaultClient | TrustOnly string | InsecureSkipVerify

record api_client =
  ac_BaseURL :: string
  ac_Token :: string
  ac_HTTP :: http_client

text \<open>\<open>cw_url\<close> is \<open>url.Parse\<close>, reduced to scheme and host name; \<open>cw_pem\<close> says whether a file holds a PEM certificate.\<close>

record client_world =
  cw_getenv :: "string \<Rightarrow> string"
  cw_read :: "string \<Rightarrow> err + string"
  cw_pem :: "string \<Rightarrow> bool"
  cw_url :: "string \<Rightarrow> (string \<times> string) option"

definition tlsConfigWithCA :: "client_world \<Rightarrow> string \<Rightarrow> err + http_client" where
  "tlsConfigWithCA W path =
     (case cw_read W path of
        Inl e \<Rightarrow> Inl e
      | Inr pem \<Rightarrow> if cw_pem W pem then Inr (TrustOnly pem) else Inl (Msg (''no PEM certificates found in '' @ path)))"

definition plaintextTokenLeak :: "client_world \<Rightarrow> string \<Rightarrow> bool" where
  "plaintextTokenLeak W rawURL =
     (case cw_url W rawURL of
        None \<Rightarrow> False
      | Some (scheme, hostname) \<Rightarrow> if scheme \<noteq> ''http'' then False else \<not> isLoopbackHost hostname)"

definition ca_warning :: "string \<Rightarrow> err \<Rightarrow> string" where
  "ca_warning path e = ''pgbranch: PGBRANCH_CA_CERT '' @ go_quote path @ '' could not be loaded ('' @ err_msg e @ ''); falling back to system roots''"

definition skip_warning :: string where
  "skip_warning = ''pgbranch: PGBRANCH_TLS_SKIP_VERIFY=1 disables TLS certificate verification '' @ em_dash @
     '' the connection is exposed to man-in-the-middle attacks''"

definition leak_warning :: "string \<Rightarrow> string" where
  "leak_warning url = ''pgbranch: sending bearer token in cleartext over http to a non-loopback host ('' @ url @ '') '' @ em_dash @
     '' use https or PGBRANCH_CA_CERT''"

text \<open>The client and the lines written to standard error.\<close>

definition NewClient :: "client_world \<Rightarrow> string \<Rightarrow> string \<Rightarrow> api_client \<times> string list" where
  "NewClient W baseURL0 token =
     (let baseURL = trim_right baseURL0 (CHR ''/''); caPath = cw_getenv W ''PGBRANCH_CA_CERT'';
          (http1, w1) = (if caPath = '''' then (DefaultClient, [])
            else case tlsConfigWithCA W caPath of Inl e \<Rightarrow> (DefaultClient, [ca_warning caPath e]) | Inr cfg \<Rightarrow> (cfg, []));
          (http2, w2) = (if cw_getenv W ''PGBRANCH_TLS_SKIP_VERIFY'' = ''1'' then (InsecureSkipVerify, w1 @ [skip_warning]) else (http1, w1));
          w3 = (if token \<noteq> '''' \<and> plaintextTokenLeak W baseURL then w2 @ [leak_warning baseURL] else w2)
      in (\<lparr>ac_BaseURL = baseURL, ac_Token = token, ac_HTTP = http2\<rparr>, w3))"

text \<open>
  A client that was built without a word verifies the server, with the private certificates when there are any, and does not
  send its token in clear text to another machine.
\<close>

lemma silent_client_is_safe:
  assumes "NewClient W url token = (c, [])"
  shows "ac_HTTP c \<noteq> InsecureSkipVerify \<and>
    (cw_getenv W ''PGBRANCH_CA_CERT'' \<noteq> [] \<longrightarrow> tlsConfigWithCA W (cw_getenv W ''PGBRANCH_CA_CERT'') = Inr (ac_HTTP c)) \<and>
    (ac_Token c \<noteq> [] \<and> cw_url W (ac_BaseURL c) = Some (''http'', h) \<longrightarrow> isLoopbackHost h)"
  using assms unfolding NewClient_def
  by (auto simp: Let_def plaintextTokenLeak_def tlsConfigWithCA_def split: if_splits sum.splits option.splits prod.splits)

text \<open>
  The comment lists a private CA before skipping the verification; when both are set the verification is skipped.
\<close>

lemma skip_verify_overrides_ca:
  "cw_getenv W ''PGBRANCH_TLS_SKIP_VERIFY'' = ''1'' \<Longrightarrow> ac_HTTP (fst (NewClient W url token)) = InsecureSkipVerify"
  unfolding NewClient_def by (auto simp: Let_def split: sum.splits)

section \<open>Docker and the cluster\<close>

text \<open>\<open>docker_json\<close> reads the current context of \<open>config.json\<close>, \<open>meta_json\<close> the host of the \<open>docker\<close> endpoint ("" when there is none).\<close>

definition DockerHostFromCLIContext :: "(nat list \<Rightarrow> nat list) \<Rightarrow> err + string \<Rightarrow> (string \<Rightarrow> err + string) \<Rightarrow> (string \<Rightarrow> err + string)
    \<Rightarrow> (string \<Rightarrow> err + string) \<Rightarrow> string" where
  "DockerHostFromCLIContext sha userHome readFile docker_json meta_json =
     (case userHome of Inl _ \<Rightarrow> '''' | Inr home \<Rightarrow>
      case or_stop (readFile (path_Join [home, ''.docker'', ''config.json''])) docker_json of
        Inl _ \<Rightarrow> ''''
      | Inr current \<Rightarrow>
          if current = '''' \<or> current = ''default'' then ''''
          else case or_stop (readFile (path_Join [home, ''.docker'', ''contexts'', ''meta'', hex_encode (sha (bytes_of current)), ''meta.json'']))
              meta_json of
            Inl _ \<Rightarrow> '''' | Inr host \<Rightarrow> host)"

datatype docker_opt = FromEnv | WithAPIVersionNegotiation | WithHost string

definition NewDockerDriver :: "(string \<Rightarrow> string) \<Rightarrow> string \<Rightarrow> (docker_opt list \<Rightarrow> err + 'c) \<Rightarrow> err + 'c" where
  "NewDockerDriver getenv cliHost newClient =
     (let opts = [FromEnv, WithAPIVersionNegotiation] @
        (if getenv ''DOCKER_HOST'' = '''' \<and> cliHost \<noteq> '''' then [WithHost cliHost] else [])
      in case newClient opts of Inl e \<Rightarrow> Inl (Wrap ''docker client: '' e []) | Inr cli \<Rightarrow> Inr cli)"

text \<open>\<open>rest.InClusterConfig\<close> fails with \<open>ErrNotInCluster\<close> (no result) or otherwise.\<close>

definition kubeRestConfig :: "(string \<Rightarrow> err + 'cfg) \<Rightarrow> (err + 'cfg) option \<Rightarrow> err + 'cfg \<Rightarrow> string \<Rightarrow> err + 'cfg" where
  "kubeRestConfig fromFlags inCluster defaultRules kubeconfig =
     (if kubeconfig \<noteq> '''' then fromFlags kubeconfig
      else case inCluster of None \<Rightarrow> defaultRules | Some r \<Rightarrow> r)"

definition NewKubeClient :: "err + 'cfg \<Rightarrow> ('cfg \<Rightarrow> err + 'cs) \<Rightarrow> err + 'cs" where
  "NewKubeClient config newForConfig =
     (case config of
        Inl e \<Rightarrow> Inl (Wrap ''kube config: '' e [])
      | Inr cfg \<Rightarrow> case newForConfig cfg of Inl e \<Rightarrow> Inl (Wrap ''kube client: '' e []) | Inr cs \<Rightarrow> Inr cs)"

section \<open>The rounds of the elector\<close>

text \<open>\<open>finished k\<close>: the context is done after the k-th return of \<open>le.Run\<close>. The result is the number of rounds.\<close>

partial_function (option) elector_rounds :: "(nat \<Rightarrow> bool) \<Rightarrow> nat \<Rightarrow> nat option" where
  "elector_rounds finished k = (if finished k then Some (Suc k) else elector_rounds finished (Suc k))"

definition ha_Run :: "(nat \<Rightarrow> bool) \<Rightarrow> err option \<Rightarrow> string \<Rightarrow> string \<Rightarrow> (err option \<times> nat) option" where
  "ha_Run finished elector_err namespace identity =
     (if namespace = '''' then Some (Some (Msg ''leader election requires a namespace''), 0)
      else if identity = '''' then Some (Some (Msg ''leader election requires an identity''), 0)
      else case elector_err of
        Some e \<Rightarrow> Some (Some (Wrap ''build leader elector: '' e []), 0)
      | None \<Rightarrow> map_option (\<lambda>n. (None, n)) (elector_rounds finished 0))"

lemma elector_rounds_end: "k \<le> n \<Longrightarrow> finished n \<Longrightarrow> elector_rounds finished k \<noteq> None"
proof (induction "n - k" arbitrary: k)
  case 0
  then show ?case by (subst elector_rounds.simps) simp
next
  case (Suc m)
  show ?case
  proof (cases "finished k")
    case True
    then show ?thesis by (subst elector_rounds.simps) simp
  next
    case False
    then have "k < n" using Suc by (metis le_neq_implies_less)
    then show ?thesis using Suc False by (subst elector_rounds.simps) simp
  qed
qed

lemma elector_rounds_done: "elector_rounds finished k = Some n \<Longrightarrow> 0 < n \<and> finished (n - 1)"
  by (rule elector_rounds.raw_induct [where P = "\<lambda>f k n. 0 < n \<and> f (n - 1)"]) (auto split: if_splits)

text \<open>A replica keeps contending until its context is done, and returns when it is.\<close>

lemma ha_Run_returns: "ha_Run finished e ns i = None \<Longrightarrow> \<not> finished n"
  using elector_rounds_end [of 0 n finished] by (auto simp: ha_Run_def split: if_splits option.splits)


section \<open>The webhook service\<close>

text \<open>\<open>pkcs8\<close> gives the key when it is an RSA key, and otherwise the name of its type.\<close>

definition ParseAppPrivateKey :: "(string \<Rightarrow> string option) \<Rightarrow> (string \<Rightarrow> err + 'key) \<Rightarrow> (string \<Rightarrow> err + (string + 'key)) \<Rightarrow> string \<Rightarrow> err + 'key" where
  "ParseAppPrivateKey pemDecode pkcs1 pkcs8 pem =
     (case pemDecode pem of
        None \<Rightarrow> Inl (Msg ''app private key: no PEM block found'')
      | Some block \<Rightarrow>
          (case pkcs1 block of
             Inr key \<Rightarrow> Inr key
           | Inl _ \<Rightarrow>
               (case pkcs8 block of
                  Inl e \<Rightarrow> Inl (Wrap ''app private key: not PKCS#1 or PKCS#8: '' e [])
                | Inr (Inl ty) \<Rightarrow> Inl (Msg (''app private key: '' @ ty @ '', want RSA (GitHub Apps sign RS256)''))
                | Inr (Inr key) \<Rightarrow> Inr key)))"

text \<open>\<open>hw_parse_key\<close> is \<open>ParseAppPrivateKey\<close> over the parsers at hand, \<open>hw_dial\<close> the network behind an API client.\<close>

record ('s, 'key) hook_world =
  hw_lib :: hook_lib
  hw_client :: client_world
  hw_order :: "string list"
  hw_sha :: "nat list \<Rightarrow> nat list"
  hw_parse_key :: "string \<Rightarrow> err + 'key"
  hw_dial :: "api_client \<Rightarrow> 's transport"
  hw_codec :: codec

definition hook_github :: "('s, 'key) hook_world \<Rightarrow> env_config \<Rightarrow> err + (github option \<times> 'key option)" where
  "hook_github W cfg =
     (if ec_AppID cfg \<noteq> '''' then
        or_stop (hw_parse_key W (ec_AppPrivateKey cfg)) (\<lambda>key.
          Inr (Some \<lparr>gh_BaseURL = ec_GitHubAPI cfg,
                 gh_Token = AppAuth \<lparr>aa_appID = ec_AppID cfg, aa_baseURL = ec_GitHubAPI cfg, aa_sha = hw_sha W\<rparr>,
                 gh_installationID = 0\<rparr>, Some key))
      else if ec_GitHubToken cfg \<noteq> '''' then
        Inr (Some \<lparr>gh_BaseURL = ec_GitHubAPI cfg, gh_Token = StaticToken (ec_GitHubToken cfg), gh_installationID = 0\<rparr>, None)
      else Inr (None, None))"

definition hook_setup :: "('s, 'key) hook_world \<Rightarrow> err + ('s service \<times> string \<times> 'key option)" where
  "hook_setup W =
     or_stop (LoadEnv (hw_lib W) (cw_read (hw_client W)) (hw_order W) (cw_getenv (hw_client W))) (\<lambda>cfg.
     or_stop (hook_github W cfg) (\<lambda>(gh, key).
       Inr (\<lparr>sv_cfg = ec_Config cfg, sv_codec = hw_codec W,
              sv_pg = hw_dial W (fst (NewClient (hw_client W) (ec_PGBranchServer cfg) (ec_PGBranchToken cfg))), sv_gh = gh\<rparr>,
            ec_Listen cfg, key)))"

text \<open>
  How the service ends: \<open>ListenAndServe\<close> returned, or a signal came and \<open>Shutdown\<close> was given ten seconds. The result is the error of
  \<open>run\<close> and the number of jobs still running at that moment.
\<close>

datatype shutdown_result = ShutDown | ServerClosed | ShutdownError err
datatype hook_end = ListenFailed err | Signalled shutdown_result

fun hook_stop :: "hook_end \<Rightarrow> nat \<Rightarrow> err option \<times> nat" where
  "hook_stop (ListenFailed e) jobs = (Some e, jobs)"
| "hook_stop (Signalled (ShutdownError e)) jobs = (Some e, jobs)"
| "hook_stop (Signalled ShutDown) jobs = (None, 0)"
| "hook_stop (Signalled ServerClosed) jobs = (None, 0)"

text \<open>The service waits for its jobs when it stops without an error; when \<open>Shutdown\<close> runs out of time it does not.\<close>

lemma hook_stop_waits: "fst (hook_stop cause jobs) = None \<Longrightarrow> snd (hook_stop cause jobs) = 0"
  by (cases "(cause, jobs)" rule: hook_stop.cases) simp_all

lemma shutdown_timeout_cuts_jobs: "hook_stop (Signalled (ShutdownError e)) jobs = (Some e, jobs)"
  by simp

lemma accepts_iff:
  "(case x of None \<Rightarrow> k | Some y \<Rightarrow> Inl (f y)) = Inr r \<longleftrightarrow> x = None \<and> k = Inr r"
  "(case z of Inl e \<Rightarrow> Inl (h e) | Inr y \<Rightarrow> m y) = Inr r \<longleftrightarrow> (\<exists>y. z = Inr y \<and> m y = Inr r)"
  "(if b then Inl v else k) = Inr r \<longleftrightarrow> \<not> b \<and> k = Inr r"
  by (auto split: option.splits sum.splits)

lemma LoadEnv_accepts:
  assumes "LoadEnv H rd ord g = Inr cfg"
  shows "required_missing ord g = None \<and> minWebhookSecretLen \<le> length (hc_WebhookSecret (ec_Config cfg)) \<and>
    hc_Source (ec_Config cfg) = g ''GHOOK_SOURCE'' \<and> (ec_AppID cfg = [] \<or> g ''GHOOK_GITHUB_TOKEN'' = [])"
  using assms unfolding LoadEnv_def Let_def accepts_iff not_less sum.inject
  by (elim exE conjE, hypsubst) (simp only: env_config.simps hook_config.simps simp_thms de_Morgan_conj)

text \<open>
  When the service starts, its settings are sound: the secret has the required length, a source is named, and it talks to GitHub as
  an app, with a key that was parsed, or with a token, never both.
\<close>

lemma started_service:
  assumes "hook_setup W = Inr (sv, addr, key)" "set (hw_order W) = {''GHOOK_WEBHOOK_SECRET'', ''GHOOK_PGBRANCH_SERVER'', ''GHOOK_SOURCE''}"
  shows "minWebhookSecretLen \<le> length (hc_WebhookSecret (sv_cfg sv)) \<and> hc_Source (sv_cfg sv) \<noteq> [] \<and>
    (key \<noteq> None \<longleftrightarrow> (\<exists>g a. sv_gh sv = Some g \<and> gh_Token g = AppAuth a)) \<and>
    (\<forall>k. key = Some k \<longrightarrow> cw_getenv (hw_client W) ''GHOOK_GITHUB_TOKEN'' = [])"
proof -
  obtain cfg gh where cfg: "LoadEnv (hw_lib W) (cw_read (hw_client W)) (hw_order W) (cw_getenv (hw_client W)) = Inr cfg"
      "hook_github W cfg = Inr (gh, key)" "sv_cfg sv = ec_Config cfg" "sv_gh sv = gh"
    using assms(1) by (auto simp: hook_setup_def or_stop_iff)
  have req: "required_missing (hw_order W) (cw_getenv (hw_client W)) = None \<Longrightarrow> cw_getenv (hw_client W) ''GHOOK_SOURCE'' \<noteq> []"
    using assms(2) by (auto simp: required_missing_def find_None_iff)
  have "minWebhookSecretLen \<le> length (hc_WebhookSecret (ec_Config cfg)) \<and> hc_Source (ec_Config cfg) \<noteq> [] \<and>
      (ec_AppID cfg \<noteq> [] \<longrightarrow> cw_getenv (hw_client W) ''GHOOK_GITHUB_TOKEN'' = [])"
    using LoadEnv_accepts [OF cfg(1)] req by metis
  moreover have "key \<noteq> None \<longleftrightarrow> (\<exists>g a. gh = Some g \<and> gh_Token g = AppAuth a)" "key \<noteq> None \<longrightarrow> ec_AppID cfg \<noteq> []"
    using cfg(2) by (auto simp: hook_github_def or_stop_iff split: if_splits)
  ultimately show ?thesis using cfg(3,4) by auto
qed


end
