(* ===== verification/Daemon_Life.thy ===== *)
theory Daemon_Life
  imports Startup
begin

text \<open>
  The life of \<open>branchd\<close> after its set-up (\<open>cmd/branchd/main.go\<close>, from the listeners to \<open>g.Wait\<close>): the main goroutine opens
  the two listeners and starts the goroutines of an error group, in this order; each of them may return at any time it can, the
  first error and a signal cancel the context they share, and the daemon ends when all have returned. Every statement of the
  main goroutine and every return of another one is a step of its own.
\<close>

section \<open>The error group\<close>

datatype worker = ApiServe | ApiShutdown | PgServe | ReconcileLoop | Election

datatype work = Unstarted | Live | Finished "err option"

datatype main_pc = ListenApi | ServeApi | WatchStop | ListenPg | ServePg | ChooseWork | CloseGate | Contend | WaitAll
  | Exited "err option"

text \<open>\<open>lf_done\<close>: the context of the group is done. \<open>lf_closing\<close>: \<open>srv.Shutdown\<close> has been called. \<open>lf_warned\<close>: the warning about clear text.\<close>

record life =
  lf_pc :: main_pc
  lf_work :: "worker \<Rightarrow> work"
  lf_err :: "err option"
  lf_done :: bool
  lf_closing :: bool
  lf_server :: server
  lf_warned :: bool

text \<open>\<open>contends d\<close>: \<open>--leader-elect\<close> was given. \<open>api.New\<close> makes a server whose gate is open.\<close>

definition contends :: "daemon \<Rightarrow> bool" where "contends d \<longleftrightarrow> dm_leaseNamespace d \<noteq> None"

definition life_start :: "daemon \<Rightarrow> life" where
  "life_start d = \<lparr>lf_pc = ListenApi, lf_work = (\<lambda>_. Unstarted), lf_err = None, lf_done = False, lf_closing = False,
     lf_server = NewServer (dm_engine d) (srv_token (dm_server d)) (dm_stuckTimeout d), lf_warned = False\<rparr>"

definition go :: "worker \<Rightarrow> main_pc \<Rightarrow> life \<Rightarrow> life" where
  "go w pc s = s\<lparr>lf_work := (lf_work s)(w := Live), lf_pc := pc\<rparr>"

text \<open>A function of the group returns: the first error is kept and cancels the context.\<close>

definition finish :: "worker \<Rightarrow> err option \<Rightarrow> life \<Rightarrow> life" where
  "finish w r s =
     (let t = s\<lparr>lf_work := (lf_work s)(w := Finished r)\<rparr> in
      if r \<noteq> None \<and> lf_err s = None then t\<lparr>lf_err := r, lf_done := True\<rparr> else t)"

text \<open>A statement of the main goroutine; \<open>r\<close> is the outcome of the call in it, where there is one.\<close>

fun main_step :: "daemon \<Rightarrow> string \<Rightarrow> err option \<Rightarrow> life \<Rightarrow> life option" where
  "main_step d pgAddr r s =
     (let fails = (\<lambda>what e. Some (s\<lparr>lf_pc := Exited (Some (Wrap what e []))\<rparr>)) in
      case lf_pc s of
        ListenApi \<Rightarrow> (case r of Some e \<Rightarrow> fails ''api listen: '' e | None \<Rightarrow> Some (s\<lparr>lf_pc := ServeApi\<rparr>))
      | ServeApi \<Rightarrow> Some (go ApiServe WatchStop s)
      | WatchStop \<Rightarrow> Some (go ApiShutdown ListenPg s)
      | ListenPg \<Rightarrow>
          (case r of
             Some e \<Rightarrow> fails ''pg router listen: '' e
           | None \<Rightarrow> Some (s\<lparr>lf_warned := pgProxyExposedPlaintext pgAddr (dm_pgTLS d), lf_pc := ServePg\<rparr>))
      | ServePg \<Rightarrow> Some (go PgServe ChooseWork s)
      | ChooseWork \<Rightarrow>
          (if contends d then (case r of Some e \<Rightarrow> fails ''leader election kube client: '' e | None \<Rightarrow> Some (s\<lparr>lf_pc := CloseGate\<rparr>))
           else Some (go ReconcileLoop WaitAll s))
      | CloseGate \<Rightarrow> Some (s\<lparr>lf_server := SetLeader False (lf_server s), lf_pc := Contend\<rparr>)
      | Contend \<Rightarrow> Some (go Election WaitAll s)
      | WaitAll \<Rightarrow> (if \<exists>w \<in> {ApiServe, ApiShutdown, PgServe, ReconcileLoop, Election}. lf_work s w = Live then None
          else Some (s\<lparr>lf_pc := Exited (lf_err s)\<rparr>))
      | Exited _ \<Rightarrow> None)"

text \<open>
  When a goroutine can return, and with what: \<open>srv.Serve\<close> returns \<open>ErrServerClosed\<close>, which counts as no error, only after
  \<open>Shutdown\<close>; the proxy and the elector return without an error only when the context is done; the reconcile loop only then
  and never with an error.
\<close>

fun may_return :: "worker \<Rightarrow> err option \<Rightarrow> life \<Rightarrow> bool" where
  "may_return ApiServe r s = (r = None \<longrightarrow> lf_closing s)"
| "may_return ApiShutdown r s = lf_closing s"
| "may_return PgServe r s = (r = None \<longrightarrow> lf_done s)"
| "may_return ReconcileLoop r s = (r = None \<and> lf_done s)"
| "may_return Election r s = (r = None \<longrightarrow> lf_done s)"

datatype life_move = Main "err option" | Return worker "err option" | Shutdown | Signal | Leads bool

text \<open>\<open>Leads b\<close>: a callback of the elector sets the gate.\<close>

fun life_do :: "daemon \<Rightarrow> string \<Rightarrow> life_move \<Rightarrow> life \<Rightarrow> life option" where
  "life_do d pgAddr (Main r) s = main_step d pgAddr r s"
| "life_do d pgAddr (Return w r) s =
     (case lf_pc s of Exited _ \<Rightarrow> None
      | _ \<Rightarrow> if lf_work s w = Live \<and> may_return w r s then Some (finish w r s) else None)"
| "life_do d pgAddr Shutdown s =
     (case lf_pc s of Exited _ \<Rightarrow> None
      | _ \<Rightarrow> if lf_work s ApiShutdown = Live \<and> lf_done s \<and> \<not> lf_closing s then Some (s\<lparr>lf_closing := True\<rparr>) else None)"
| "life_do d pgAddr Signal s = (case lf_pc s of Exited _ \<Rightarrow> None | _ \<Rightarrow> Some (s\<lparr>lf_done := True\<rparr>))"
| "life_do d pgAddr (Leads b) s =
     (case lf_pc s of Exited _ \<Rightarrow> None
      | _ \<Rightarrow> if lf_work s Election = Unstarted then None else Some (s\<lparr>lf_server := SetLeader b (lf_server s)\<rparr>))"

fun life_run :: "daemon \<Rightarrow> string \<Rightarrow> life_move list \<Rightarrow> life \<Rightarrow> life option" where
  "life_run d a [] s = Some s"
| "life_run d a (m # ms) s = (case life_do d a m s of None \<Rightarrow> None | Some t \<Rightarrow> life_run d a ms t)"

inductive life_reach :: "daemon \<Rightarrow> string \<Rightarrow> life \<Rightarrow> bool" for d a where
  life_begin: "life_reach d a (life_start d)"
| life_next: "life_reach d a s \<Longrightarrow> life_do d a m s = Some t \<Longrightarrow> life_reach d a t"

lemma life_run_reach: "life_run d a ms s = Some t \<Longrightarrow> life_reach d a s \<Longrightarrow> life_reach d a t"
  by (induction ms arbitrary: s) (auto split: option.splits intro: life_reach.life_next)

section \<open>The invariant\<close>

definition started_by :: "worker \<Rightarrow> main_pc set" where
  "started_by w = (case w of
     ApiServe \<Rightarrow> {WatchStop, ListenPg, ServePg, ChooseWork, CloseGate, Contend, WaitAll}
   | ApiShutdown \<Rightarrow> {ListenPg, ServePg, ChooseWork, CloseGate, Contend, WaitAll}
   | PgServe \<Rightarrow> {ChooseWork, CloseGate, Contend, WaitAll}
   | ReconcileLoop \<Rightarrow> {WaitAll} | Election \<Rightarrow> {WaitAll})"

definition exited :: "life \<Rightarrow> bool" where "exited s \<longleftrightarrow> (\<exists>r. lf_pc s = Exited r)"

definition begun_ok :: "life \<Rightarrow> bool" where
  "begun_ok s \<longleftrightarrow> (\<forall>w. lf_work s w \<noteq> Unstarted \<longrightarrow> exited s \<or> lf_pc s \<in> started_by w)"

definition watch_ok :: "life \<Rightarrow> bool" where
  "watch_ok s \<longleftrightarrow> (lf_work s ApiShutdown = Unstarted \<longrightarrow> exited s \<or> lf_pc s \<in> {ListenApi, ServeApi, WatchStop}) \<and>
     (\<forall>r. lf_work s ApiShutdown = Finished r \<longrightarrow> lf_closing s)"

definition mode_ok :: "daemon \<Rightarrow> life \<Rightarrow> bool" where
  "mode_ok d s \<longleftrightarrow> (contends d \<longrightarrow> lf_work s ReconcileLoop = Unstarted) \<and>
     (\<not> contends d \<longrightarrow> lf_work s Election = Unstarted \<and> IsLeader (lf_server s) \<and> lf_pc s \<notin> {CloseGate, Contend}) \<and>
     (lf_pc s = Contend \<longrightarrow> \<not> IsLeader (lf_server s))"

definition errs_ok :: "life \<Rightarrow> bool" where
  "errs_ok s \<longleftrightarrow> (\<forall>w e. lf_work s w = Finished (Some e) \<longrightarrow> lf_err s \<noteq> None) \<and>
     (\<forall>e. lf_err s = Some e \<longrightarrow> lf_done s \<and> (\<exists>w. lf_work s w = Finished (Some e)))"

definition end_ok :: "life \<Rightarrow> bool" where
  "end_ok s \<longleftrightarrow> (\<forall>r. lf_pc s = Exited r \<longrightarrow> (\<forall>w. lf_work s w \<noteq> Live) \<and> r = lf_err s \<or>
     (\<exists>e. r = Some e) \<and> lf_work s ReconcileLoop = Unstarted \<and> lf_work s Election = Unstarted)"

lemmas life_oks = begun_ok_def watch_ok_def mode_ok_def errs_ok_def end_ok_def

lemma no_live_worker: "(\<exists>w \<in> {ApiServe, ApiShutdown, PgServe, ReconcileLoop, Election}. P w) \<longleftrightarrow> (\<exists>w. P w)"
proof
  show "\<exists>w. P w \<Longrightarrow> \<exists>w \<in> {ApiServe, ApiShutdown, PgServe, ReconcileLoop, Election}. P w"
    by (erule exE, case_tac w) simp_all
qed blast

lemma leader_server [simp]: "IsLeader (SetLeader b srv) = b" "IsLeader (NewServer e t st)"
  by (simp_all add: IsLeader_def SetLeader_def NewServer_def)

text \<open>The statements of the main goroutine, one by one\<close>

lemma main_stepE:
  assumes "main_step d a r s = Some t"
  obtains (listen) "lf_pc s = ListenApi" "t = s\<lparr>lf_pc := ServeApi\<rparr>"
  | (serve) "lf_pc s = ServeApi" "t = go ApiServe WatchStop s"
  | (watch) "lf_pc s = WatchStop" "t = go ApiShutdown ListenPg s"
  | (listen_pg) "lf_pc s = ListenPg" "t = s\<lparr>lf_warned := pgProxyExposedPlaintext a (dm_pgTLS d), lf_pc := ServePg\<rparr>"
  | (serve_pg) "lf_pc s = ServePg" "t = go PgServe ChooseWork s"
  | (choose) "lf_pc s = ChooseWork" "contends d" "t = s\<lparr>lf_pc := CloseGate\<rparr>"
  | (alone) "lf_pc s = ChooseWork" "\<not> contends d" "t = go ReconcileLoop WaitAll s"
  | (closes) "lf_pc s = CloseGate" "t = s\<lparr>lf_server := SetLeader False (lf_server s), lf_pc := Contend\<rparr>"
  | (contend) "lf_pc s = Contend" "t = go Election WaitAll s"
  | (ends) "lf_pc s = WaitAll" "\<forall>w. lf_work s w \<noteq> Live" "t = s\<lparr>lf_pc := Exited (lf_err s)\<rparr>"
  | (fails) e where "lf_pc s \<in> {ListenApi, ListenPg, ChooseWork}" "t = s\<lparr>lf_pc := Exited (Some e)\<rparr>"
proof -
  note st = assms [unfolded main_step.simps Let_def no_live_worker]
  show ?thesis
  proof (cases "lf_pc s")
    case ListenApi
    then show ?thesis using st listen fails by (cases r) auto
  next
    case ServeApi
    show ?thesis by (rule serve [OF ServeApi]) (use st ServeApi in simp)
  next
    case WatchStop
    show ?thesis by (rule watch [OF WatchStop]) (use st WatchStop in simp)
  next
    case ListenPg
    then show ?thesis using st listen_pg fails by (cases r) auto
  next
    case ServePg
    show ?thesis by (rule serve_pg [OF ServePg]) (use st ServePg in simp)
  next
    case ChooseWork
    then show ?thesis using st choose alone fails by (cases r; cases "contends d") auto
  next
    case CloseGate
    show ?thesis by (rule closes [OF CloseGate]) (use st CloseGate in simp)
  next
    case Contend
    show ?thesis by (rule contend [OF Contend]) (use st Contend in simp)
  next
    case WaitAll
    show ?thesis by (rule ends [OF WaitAll]) (use st WaitAll in \<open>auto split: if_splits\<close>)
  next
    case (Exited x)
    then show ?thesis using st by simp
  qed
qed

lemma life_start_ok: "begun_ok (life_start d)" "watch_ok (life_start d)" "mode_ok d (life_start d)" "errs_ok (life_start d)" "end_ok (life_start d)"
  by (simp_all add: life_oks life_start_def exited_def)

lemma begun_main: "main_step d a r s = Some t \<Longrightarrow> begun_ok s \<Longrightarrow> begun_ok t"
  by (erule main_stepE) (auto simp: begun_ok_def exited_def started_by_def go_def split: worker.splits)

lemma watch_main: "main_step d a r s = Some t \<Longrightarrow> watch_ok s \<Longrightarrow> watch_ok t"
  by (erule main_stepE) (auto simp: watch_ok_def exited_def go_def)

lemma mode_main: "main_step d a r s = Some t \<Longrightarrow> mode_ok d s \<Longrightarrow> mode_ok d t"
  by (erule main_stepE) (auto simp: mode_ok_def go_def)

lemma errs_main: "main_step d a r s = Some t \<Longrightarrow> begun_ok s \<Longrightarrow> errs_ok s \<Longrightarrow> errs_ok t"
proof (erule main_stepE)
  have started: "errs_ok (go w pc s)" if "begun_ok s" "errs_ok s" "lf_pc s \<notin> started_by w" "\<not> exited s" for w pc
  proof -
    have "lf_work s w = Unstarted" using that(1,3,4) by (auto simp: begun_ok_def)
    then have "lf_work (go w pc s) x = Finished y \<longleftrightarrow> lf_work s x = Finished y" for x y by (simp add: go_def)
    then show ?thesis using that(2) by (simp add: errs_ok_def) (simp add: go_def)
  qed
  assume a: "begun_ok s" "errs_ok s"
  show "lf_pc s = ServeApi \<Longrightarrow> t = go ApiServe WatchStop s \<Longrightarrow> errs_ok t" using started [OF a] by (simp add: started_by_def exited_def)
  show "lf_pc s = WatchStop \<Longrightarrow> t = go ApiShutdown ListenPg s \<Longrightarrow> errs_ok t" using started [OF a] by (simp add: started_by_def exited_def)
  show "lf_pc s = ServePg \<Longrightarrow> t = go PgServe ChooseWork s \<Longrightarrow> errs_ok t" using started [OF a] by (simp add: started_by_def exited_def)
  show "lf_pc s = ChooseWork \<Longrightarrow> t = go ReconcileLoop WaitAll s \<Longrightarrow> errs_ok t" using started [OF a] by (simp add: started_by_def exited_def)
  show "lf_pc s = Contend \<Longrightarrow> t = go Election WaitAll s \<Longrightarrow> errs_ok t" using started [OF a] by (simp add: started_by_def exited_def)
qed (simp_all add: errs_ok_def)

lemma end_main: "main_step d a r s = Some t \<Longrightarrow> begun_ok s \<Longrightarrow> end_ok t"
  by (erule main_stepE) (auto simp: end_ok_def begun_ok_def exited_def started_by_def go_def)

text \<open>The other moves\<close>

lemma life_doE:
  assumes "life_do d a m s = Some t"
  obtains (main) r where "m = Main r" "main_step d a r s = Some t"
  | (returns) w r where "m = Return w r" "\<not> exited s" "lf_work s w = Live" "may_return w r s" "t = finish w r s"
  | (shutdown) "m = Shutdown" "\<not> exited s" "lf_work s ApiShutdown = Live" "lf_done s" "t = s\<lparr>lf_closing := True\<rparr>"
  | (signal) "m = Signal" "\<not> exited s" "t = s\<lparr>lf_done := True\<rparr>"
  | (leads) b where "m = Leads b" "\<not> exited s" "lf_work s Election \<noteq> Unstarted" "t = s\<lparr>lf_server := SetLeader b (lf_server s)\<rparr>"
proof (cases m)
  case (Main r)
  then show ?thesis using assms main by simp
next
  case (Return w r)
  then have "\<not> exited s" "lf_work s w = Live" "may_return w r s" "t = finish w r s"
    using assms by (auto simp: exited_def split: main_pc.splits if_splits)
  then show ?thesis using returns Return by blast
next
  case Shutdown
  then have "\<not> exited s" "lf_work s ApiShutdown = Live" "lf_done s" "t = s\<lparr>lf_closing := True\<rparr>"
    using assms by (auto simp: exited_def split: main_pc.splits if_splits)
  then show ?thesis using shutdown Shutdown by blast
next
  case Signal
  then have "\<not> exited s" "t = s\<lparr>lf_done := True\<rparr>" using assms by (auto simp: exited_def split: main_pc.splits)
  then show ?thesis using signal Signal by blast
next
  case (Leads b)
  then have "\<not> exited s" "lf_work s Election \<noteq> Unstarted" "t = s\<lparr>lf_server := SetLeader b (lf_server s)\<rparr>"
    using assms by (auto simp: exited_def split: main_pc.splits if_splits)
  then show ?thesis using leads Leads by blast
qed

lemma finish_simps [simp]: "lf_pc (finish w r s) = lf_pc s" "lf_work (finish w r s) = (lf_work s)(w := Finished r)"
  "lf_closing (finish w r s) = lf_closing s" "lf_server (finish w r s) = lf_server s"
  by (simp_all add: finish_def Let_def)

lemma begun_do: "life_do d a m s = Some t \<Longrightarrow> begun_ok s \<Longrightarrow> begun_ok t"
  by (erule life_doE) (auto simp: begun_main, auto simp: begun_ok_def exited_def)

lemma watch_do: "life_do d a m s = Some t \<Longrightarrow> watch_ok s \<Longrightarrow> watch_ok t"
  by (erule life_doE) (auto simp: watch_main, auto simp: watch_ok_def exited_def)

lemma mode_do: "life_do d a m s = Some t \<Longrightarrow> begun_ok s \<Longrightarrow> mode_ok d s \<Longrightarrow> mode_ok d t"
  by (erule life_doE) (auto simp: mode_main, auto simp: mode_ok_def begun_ok_def exited_def started_by_def)

lemma errs_do: "life_do d a m s = Some t \<Longrightarrow> begun_ok s \<Longrightarrow> errs_ok s \<Longrightarrow> errs_ok t"
proof (erule life_doE)
  fix w r
  assume a: "errs_ok s" "lf_work s w = Live" "t = finish w r s"
  have keep: "\<exists>x. lf_work t x = Finished (Some e)" if e: "\<exists>x. lf_work s x = Finished (Some e)" for e
  proof -
    obtain x where x: "lf_work s x = Finished (Some e)" using e by blast
    then have "x \<noteq> w" using a(2) by auto
    then show ?thesis using x a(3) by auto
  qed
  show "errs_ok t"
  proof (cases "r \<noteq> None \<and> lf_err s = None")
    case True
    then show ?thesis using a by (auto simp: errs_ok_def finish_def Let_def)
  next
    case False
    then have "lf_err t = lf_err s" "lf_done t = lf_done s" using a(3) by (auto simp: finish_def Let_def)
    then show ?thesis using a False keep by (auto simp: errs_ok_def split: if_splits)
  qed
next
  show "begun_ok s \<Longrightarrow> errs_ok s \<Longrightarrow> main_step d a r s = Some t \<Longrightarrow> errs_ok t" for r by (rule errs_main)
qed (simp_all add: errs_ok_def)

lemma end_do: "life_do d a m s = Some t \<Longrightarrow> begun_ok s \<Longrightarrow> end_ok s \<Longrightarrow> end_ok t"
  by (erule life_doE) (auto simp: end_main, auto simp: end_ok_def exited_def)

lemma life_reach_ok:
  assumes "life_reach d a s"
  shows "begun_ok s" "watch_ok s" "mode_ok d s" "errs_ok s" "end_ok s"
proof -
  have "begun_ok s \<and> watch_ok s \<and> mode_ok d s \<and> errs_ok s \<and> end_ok s"
    using assms by (induction rule: life_reach.induct) (simp add: life_start_ok, meson begun_do watch_do mode_do errs_do end_do)
  then show "begun_ok s" "watch_ok s" "mode_ok d s" "errs_ok s" "end_ok s" by simp_all
qed

section \<open>How the daemon ends\<close>

text \<open>
  A daemon that ends leaves no work behind: when its main function returns without an error, every goroutine it started has
  returned, none of them with an error; when it returns the error of a goroutine, all have returned as well; otherwise the start
  failed, before the reconcile loop or the elector were started. In particular no reconcile loop is running when it returns.
\<close>

theorem daemon_ends_with_its_work:
  assumes "life_reach d a s" "lf_pc s = Exited r"
  shows "lf_work s ReconcileLoop \<noteq> Live \<and> lf_work s Election \<noteq> Live \<and>
    (r = None \<longrightarrow> (\<forall>w. lf_work s w \<in> {Unstarted, Finished None})) \<and>
    (\<forall>e. r = Some e \<longrightarrow> (\<exists>w. lf_work s w = Finished (Some e)) \<and> (\<forall>w. lf_work s w \<noteq> Live) \<or>
       lf_work s ReconcileLoop = Unstarted \<and> lf_work s Election = Unstarted)"
proof -
  note ok = life_reach_ok [OF assms(1)]
  consider "\<forall>w. lf_work s w \<noteq> Live" "r = lf_err s"
    | e where "r = Some e" "lf_work s ReconcileLoop = Unstarted" "lf_work s Election = Unstarted"
    using ok(5) assms(2) unfolding end_ok_def by blast
  then show ?thesis
  proof cases
    case 1
    have none: "lf_work s w \<in> {Unstarted, Finished None}" if "r = None" for w
    proof (cases "lf_work s w")
      case (Finished q)
      then show ?thesis using ok(4) 1(2) that by (cases q) (auto simp: errs_ok_def)
    qed (use 1(1) in auto)
    have some: "\<exists>w. lf_work s w = Finished (Some e)" if "r = Some e" for e
      using ok(4) 1(2) that unfolding errs_ok_def by metis
    show ?thesis using none some 1(1) by auto
  qed auto
qed

text \<open>How much is left to do: statements of the main goroutine, goroutines to start and to finish, one call of \<open>Shutdown\<close>\<close>

definition pc_left :: "main_pc \<Rightarrow> nat" where
  "pc_left pc = (case pc of ListenApi \<Rightarrow> 9 | ServeApi \<Rightarrow> 8 | WatchStop \<Rightarrow> 7 | ListenPg \<Rightarrow> 6 | ServePg \<Rightarrow> 5 | ChooseWork \<Rightarrow> 4
     | CloseGate \<Rightarrow> 3 | Contend \<Rightarrow> 2 | WaitAll \<Rightarrow> 1 | Exited _ \<Rightarrow> 0)"

definition work_left :: "work \<Rightarrow> nat" where
  "work_left x = (case x of Unstarted \<Rightarrow> 2 | Live \<Rightarrow> 1 | Finished _ \<Rightarrow> 0)"

definition todo :: "life \<Rightarrow> nat" where
  "todo s = pc_left (lf_pc s) + (\<Sum>w\<leftarrow>[ApiServe, ApiShutdown, PgServe, ReconcileLoop, Election]. work_left (lf_work s w)) +
     (if lf_closing s then 0 else 1)"

text \<open>Moves of the daemon itself, as opposed to signals and the elector's callbacks\<close>

definition progress :: "daemon \<Rightarrow> string \<Rightarrow> life \<Rightarrow> life \<Rightarrow> bool" where
  "progress d a s t \<longleftrightarrow> (\<exists>m. (case m of Main _ \<Rightarrow> True | Return _ _ \<Rightarrow> True | Shutdown \<Rightarrow> True | _ \<Rightarrow> False) \<and> life_do d a m s = Some t)"

lemma go_left: "lf_work s w = Unstarted \<Longrightarrow> pc_left pc \<le> pc_left (lf_pc s) \<Longrightarrow> todo (go w pc s) < todo s"
  by (cases w) (simp_all add: todo_def go_def work_left_def)

lemma finish_left: "lf_work s w = Live \<Longrightarrow> todo (finish w r s) < todo s"
  by (cases w) (simp_all add: todo_def work_left_def)

lemma main_left:
  assumes "main_step d a r s = Some t" "begun_ok s"
  shows "todo t < todo s"
proof -
  have un: "lf_work s w = Unstarted" if "\<not> exited s" "lf_pc s \<notin> started_by w" for w using assms(2) that by (auto simp: begun_ok_def)
  from assms(1) show ?thesis
  proof (cases rule: main_stepE)
    case serve
    then show ?thesis using go_left [OF un] by (simp add: exited_def started_by_def pc_left_def)
  next
    case watch
    then show ?thesis using go_left [OF un] by (simp add: exited_def started_by_def pc_left_def)
  next
    case serve_pg
    then show ?thesis using go_left [OF un] by (simp add: exited_def started_by_def pc_left_def)
  next
    case alone
    then show ?thesis using go_left [OF un] by (simp add: exited_def started_by_def pc_left_def)
  next
    case contend
    then show ?thesis using go_left [OF un] by (simp add: exited_def started_by_def pc_left_def)
  qed (auto simp: todo_def pc_left_def)
qed

lemma progress_left: "progress d a s t \<Longrightarrow> begun_ok s \<Longrightarrow> todo t < todo s"
proof -
  assume p: "progress d a s t" and b: "begun_ok s"
  then obtain m where m: "life_do d a m s = Some t" "case m of Main _ \<Rightarrow> True | Return _ _ \<Rightarrow> True | Shutdown \<Rightarrow> True | _ \<Rightarrow> False"
    by (auto simp: progress_def)
  show ?thesis
  proof (cases m)
    case (Main r)
    then show ?thesis using m(1) main_left b by simp
  next
    case (Return w r)
    then have "lf_work s w = Live" "t = finish w r s" using m(1) by (auto split: main_pc.splits if_splits)
    then show ?thesis using finish_left by simp
  next
    case Shutdown
    then have "\<not> lf_closing s" "t = s\<lparr>lf_closing := True\<rparr>" using m(1) by (auto split: main_pc.splits if_splits)
    then show ?thesis by (simp add: todo_def)
  qed (use m(2) in simp_all)
qed

lemma main_moves:
  assumes "\<not> exited s" "lf_pc s = WaitAll \<longrightarrow> (\<forall>w. lf_work s w \<noteq> Live)"
  shows "\<exists>t. main_step d a None s = Some t"
proof (cases "lf_pc s")
  case WaitAll
  then show ?thesis using assms(2) unfolding main_step.simps Let_def no_live_worker by simp
next
  case Exited
  then show ?thesis using assms(1) by (simp add: exited_def)
qed (simp_all add: Let_def)

text \<open>Once the context is done, something can always happen until the daemon has ended.\<close>

lemma progress_possible:
  assumes "life_reach d a s" "lf_done s" "\<not> exited s"
  shows "\<exists>t. progress d a s t"
proof -
  note ok = life_reach_ok [OF assms(1)]
  have ret: "\<exists>t. progress d a s t" if "lf_work s w = Live" "may_return w None s" for w
    unfolding progress_def by (rule exI [of _ "finish w None s"], rule exI [of _ "Return w None"])
      (use that assms(3) in \<open>auto simp: exited_def split: main_pc.splits\<close>)
  consider "lf_pc s = WaitAll \<longrightarrow> (\<forall>w. lf_work s w \<noteq> Live)" | w where "lf_work s w = Live" "w \<notin> {ApiServe, ApiShutdown}"
    | w where "lf_work s w = Live" "w \<in> {ApiServe, ApiShutdown}" "lf_pc s = WaitAll" by blast
  then show ?thesis
  proof cases
    case 1
    then obtain t where "main_step d a None s = Some t" using main_moves assms(3) by blast
    then show ?thesis unfolding progress_def by (intro exI [of _ t] exI [of _ "Main None"]) simp
  next
    case (2 w)
    then have "may_return w None s" using assms(2) by (cases w) auto
    then show ?thesis using ret 2(1) by blast
  next
    case (3 w)
    show ?thesis
    proof (cases "lf_closing s")
      case True
      then have "may_return w None s" using 3(2) by auto
      then show ?thesis using ret 3(1) by blast
    next
      case False
      then have "lf_work s ApiShutdown = Live" using ok(2) 3(3) assms(3)
        by (cases "lf_work s ApiShutdown") (auto simp: watch_ok_def)
      then show ?thesis unfolding progress_def
        by (intro exI [of _ "s\<lparr>lf_closing := True\<rparr>"] exI [of _ Shutdown]) (use 3(3) False assms(2) in simp)
    qed
  qed
qed

lemma finish_done: "lf_done s \<Longrightarrow> lf_done (finish w r s)"
  by (simp add: finish_def Let_def)

lemma life_do_done: "life_do d a m s = Some t \<Longrightarrow> lf_done s \<Longrightarrow> lf_done t"
proof (erule life_doE)
  show "lf_done s \<Longrightarrow> main_step d a r s = Some t \<Longrightarrow> lf_done t" for r
    by (erule main_stepE) (simp_all add: go_def)
qed (simp_all add: finish_done)

lemma progress_keeps: "progress d a s t \<Longrightarrow> life_reach d a s \<and> lf_done s \<Longrightarrow> life_reach d a t \<and> lf_done t"
  using life_reach.life_next life_do_done by (fastforce simp: progress_def)

lemma progress_rounds:
  assumes "(progress d a ^^ n) s t" "life_reach d a s" "lf_done s"
  shows "n + todo t \<le> todo s \<and> life_reach d a t \<and> lf_done t"
  using assms(1)
proof (induction n arbitrary: t)
  case 0
  then show ?case using assms(2,3) by simp
next
  case (Suc n)
  then obtain u where u: "(progress d a ^^ n) s u" "progress d a u t" by auto
  have "n + todo u \<le> todo s \<and> life_reach d a u \<and> lf_done u" by (rule Suc.IH [OF u(1)])
  then show ?case using progress_left [OF u(2) life_reach_ok(1)] progress_keeps [OF u(2)] by fastforce
qed

lemma todo_bound: "todo s \<le> 20"
proof -
  have "pc_left (lf_pc s) \<le> 9" "work_left x \<le> 2" for x by (simp_all add: pc_left_def work_left_def split: main_pc.splits work.splits)
  from this(1) this(2) [of "lf_work s ApiServe"] this(2) [of "lf_work s ApiShutdown"] this(2) [of "lf_work s PgServe"]
    this(2) [of "lf_work s ReconcileLoop"] this(2) [of "lf_work s Election"] show ?thesis by (simp add: todo_def)
qed

lemma reaches_end: "life_reach d a s \<Longrightarrow> lf_done s \<Longrightarrow> \<exists>t. (progress d a)\<^sup>*\<^sup>* s t \<and> exited t"
proof (induction "todo s" arbitrary: s rule: less_induct)
  case less
  show ?case
  proof (cases "exited s")
    case False
    then obtain t where t: "progress d a s t" using progress_possible less.prems by blast
    have "todo t < todo s" using progress_left [OF t] life_reach_ok(1) less.prems by blast
    then show ?thesis using less.hyps progress_keeps [OF t] less.prems t by (meson converse_rtranclp_into_rtranclp)
  qed blast
qed

text \<open>
  C37: A signal ends the daemon. From any moment on at which the shared context is done, during the start-up or later, the daemon
  can always go on until its main function returns, whatever the calls it makes return and in whichever order its goroutines
  run, and it does so within twenty steps of its own.
\<close>

theorem stopped_daemon_ends:
  assumes "life_reach d a s" "lf_done s"
  shows "(\<exists>t. (progress d a)\<^sup>*\<^sup>* s t \<and> exited t) \<and> (\<forall>n t. (progress d a ^^ n) s t \<longrightarrow> n \<le> 20) \<and>
    (\<forall>t. (progress d a)\<^sup>*\<^sup>* s t \<longrightarrow> exited t \<or> (\<exists>u. progress d a t u))"
proof (intro conjI allI impI)
  show "\<exists>t. (progress d a)\<^sup>*\<^sup>* s t \<and> exited t" by (rule reaches_end [OF assms])
  show "n \<le> 20" if "(progress d a ^^ n) s t" for n t
    using progress_rounds [OF that assms] todo_bound [of s] by linarith
  show "exited t \<or> (\<exists>u. progress d a t u)" if t: "(progress d a)\<^sup>*\<^sup>* s t" for t
  proof -
    obtain n where "(progress d a ^^ n) s t" using rtranclp_imp_relpowp [OF t] by blast
    then show ?thesis using progress_possible progress_rounds assms by blast
  qed
qed

text \<open>A daemon that does not contend for the lease takes writes as long as it runs.\<close>

lemma single_instance_leads: "life_reach d a s \<Longrightarrow> \<not> contends d \<Longrightarrow> IsLeader (lf_server s)"
  using life_reach_ok(3) by (auto simp: mode_ok_def)

text \<open>
  A daemon that does contend closes the gate before it starts the elector, but only after the API server has been started: until
  then it takes writes without holding the lease.
\<close>

theorem writes_are_accepted_before_the_lease:
  "contends d \<Longrightarrow> \<exists>s. life_reach d a s \<and> lf_work s ApiServe = Live \<and> lf_work s Election = Unstarted \<and> requireLeader (lf_server s) h = h"
proof -
  let ?s = "go ApiServe WatchStop ((life_start d)\<lparr>lf_pc := ServeApi\<rparr>)"
  have "life_run d a [Main None, Main None] (life_start d) = Some ?s" by (simp add: life_start_def Let_def go_def)
  then have "life_reach d a ?s" by (rule life_run_reach) (rule life_reach.life_begin)
  moreover have "IsLeader (lf_server ?s)" by (simp add: go_def life_start_def)
  then have "requireLeader (lf_server ?s) h = h" by (simp add: requireLeader_def)
  ultimately show ?thesis by (intro exI [of _ ?s]) (simp add: go_def life_start_def)
qed

section \<open>Examples\<close>

text \<open>A daemon on its own, from its start to the end after a signal\<close>

definition sample_single :: daemon where
  "sample_single = assemble sample_world (sample_flags\<lparr>fl_leaderElect := False\<rparr>) 5 0 0 (60 * second) False False ''secret''
     \<lparr>cfg_Home = ''/h'', cfg_RegistryPath = ''/h/r'', cfg_PostgresImage = ''postgres:17''\<rparr> None BackendOverlay DockerRuntime"

definition sample_stop :: "life_move list" where
  "sample_stop = [Main None, Main None, Main None, Main None, Main None, Main None, Signal, Shutdown, Return PgServe None,
     Return ApiServe None, Return ReconcileLoop None, Return ApiShutdown None, Main None]"

lemma sample_single_alone: "\<not> contends sample_single" "dm_pgTLS sample_single = False"
  by (simp_all add: contends_def sample_single_def assemble_def sample_flags_def Let_def)

lemmas life_simps = sample_stop_def life_start_def go_def finish_def sample_single_alone Let_def

lemma sample_life: "\<exists>s. life_run sample_single ''127.0.0.1:6432'' sample_stop (life_start sample_single) = Some s \<and> lf_pc s = Exited None \<and>
    lf_work s ReconcileLoop = Finished None"
  by (simp add: life_simps)

lemma sample_signalled: "\<exists>s. life_run sample_single ''127.0.0.1:6432'' (take 7 sample_stop) (life_start sample_single) = Some s \<and> lf_done s \<and>
    lf_work s ReconcileLoop = Live"
  by (simp add: life_simps)

theorem daemon_ends_with_its_work_witness:
  "\<exists>s. life_reach sample_single ''127.0.0.1:6432'' s \<and> lf_pc s = Exited None \<and> lf_work s ReconcileLoop = Finished None \<and>
     (\<forall>w. lf_work s w \<in> {Unstarted, Finished None})"
proof -
  obtain s where s: "life_run sample_single ''127.0.0.1:6432'' sample_stop (life_start sample_single) = Some s" "lf_pc s = Exited None"
      "lf_work s ReconcileLoop = Finished None" using sample_life by blast
  have r: "life_reach sample_single ''127.0.0.1:6432'' s" by (rule life_run_reach [OF s(1) life_reach.life_begin])
  from daemon_ends_with_its_work [OF r s(2)] r s show ?thesis by blast
qed

theorem stopped_daemon_ends_witness:
  "\<exists>s t. lf_work s ReconcileLoop = Live \<and> (progress sample_single ''127.0.0.1:6432'')\<^sup>*\<^sup>* s t \<and> exited t"
proof -
  obtain s where s: "life_run sample_single ''127.0.0.1:6432'' (take 7 sample_stop) (life_start sample_single) = Some s" "lf_done s"
      "lf_work s ReconcileLoop = Live" using sample_signalled by blast
  have r: "life_reach sample_single ''127.0.0.1:6432'' s" by (rule life_run_reach [OF s(1) life_reach.life_begin])
  from stopped_daemon_ends [OF r s(2)] s(3) show ?thesis by blast
qed

theorem writes_are_accepted_before_the_lease_witness:
  "\<exists>s. life_reach (sample_single\<lparr>dm_leaseNamespace := Some ''pgbranch''\<rparr>) ''127.0.0.1:6432'' s \<and> lf_work s Election = Unstarted \<and>
     requireLeader (lf_server s) (raise (Msg [])) = (raise (Msg []) :: (sys, response) comp)"
proof -
  have "contends (sample_single\<lparr>dm_leaseNamespace := Some ''pgbranch''\<rparr>)" by (simp add: contends_def)
  from writes_are_accepted_before_the_lease [OF this, of "''127.0.0.1:6432''" "raise (Msg []) :: (sys, response) comp"]
  show ?thesis by blast
qed

end
