(* ===== verification/Spec2Isabelle.thy ===== *)
theory Spec2Isabelle
  imports Sdk_Props Pg_Relay Registry_File Api_Mux Daemon_Life
begin

text \<open>
  pgbranch gives every pull request its own Postgres database by copy-on-write. The daemon \<open>branchd\<close> keeps a
  registry of sources, branches and frozen layers in SQLite, an engine that drives containers and volumes
  through a driver interface, a REST control plane and a Postgres proxy that routes \<open>database@branch\<close> to the
  instance of a branch. Branches run on Docker or on Kubernetes, where several replicas of the daemon elect a leader; a webhook
  service keeps a branch per pull request through the API. This development models the registry, the engine, the
  planner, the text diff, the control plane with its client, the proxy, both drivers, the leader callbacks, the webhook
  service, the command line client, the client libraries for applications and tests, the metrics, and the start-up and life of the daemon,
  and proves what keeps them correct.

  \<^bold>\<open>Theories and the code they model.\<close> Paths are under \<open>src/internal\<close> unless they start with \<open>cmd\<close>.
  \<^item> \<open>Prelude\<close>, \<open>Effects\<close>: text (numbers, splitting, quoting, RFC 3339), errors as values with the wrapping of
    \<open>fmt.Errorf\<close> and \<open>errors.Is\<close>, and computations \<open>comp\<close>: a function of the state that returns an error or a
    result with the new state (\<open>bnd\<close> is sequencing with early return, \<open>on_error\<close> and \<open>attempt\<close> are the two ways
    code goes on after an error). The state carries the clock, the random source, the moment a context is
    cancelled and which statement fails; all of them are arbitrary. \<open>keeps I m\<close> says that \<open>m\<close> keeps \<open>I\<close>
    whatever it returns, and the collection \<open>keeps_rules\<close> proves it along the structure of the code.
  \<^item> \<open>Cow_Plan\<close>: \<open>cow/plan.go\<close>, names of volumes and datasets, zfs command lines, overlay mounts.
  \<^item> \<open>Registry_Secrets\<close>: \<open>registry/crypto.go\<close>, encryption of stored passwords.
  \<^item> \<open>Registry\<close>, \<open>Registry_Tokens\<close>: \<open>registry/registry.go\<close>, \<open>schema.go\<close>, \<open>actor.go\<close>, \<open>tokens.go\<close>. Tables are lists
    of rows; every statement checks the keys, unique indexes and foreign keys of the schema and may fail; a
    transaction that fails rolls back. \<open>Registry_Inv\<close> proves the well-formedness invariant \<open>wf_tables\<close>,
    \<open>Registry_Journal\<close> the journal invariant \<open>jwf\<close>, \<open>Registry_Layers\<close> the chains of frozen layers and their
    reference counts, \<open>Registry_Access\<close> passwords and tokens, \<open>Registry_Audit\<close> that the journal only grows, \<open>Registry_Directory\<close>
    that the registry refines an abstract directory of names (\<open>dir_step\<close>).
  \<^item> \<open>Registry_Schema\<close>: \<open>registry/schema.go\<close> and \<open>migrate\<close>: the eleven migrations, statement by statement, on a database file (a schema
    and the rows of every table, values as SQLite has them). \<open>Registry_Upgrade\<close> proves that every version upgrades, \<open>Registry_File\<close> relates
    the file to the typed tables of \<open>Registry\<close> and models \<open>Open\<close>.
  \<^item> \<open>Runtime_Driver\<close>: \<open>runtime/runtime.go\<close>. A driver is any family of functions from the calls made so far and a
    request to a reply; while a call runs, other requests of the daemon run arbitrary registry operations
    (\<open>others\<close>). Calls are recorded in \<open>trace\<close>.
  \<^item> \<open>Pgctl_Seed\<close>: \<open>pgctl/seed.go\<close>, \<open>seeddump.go\<close>.
  \<^item> \<open>Engine_Core\<close>, \<open>Engine_Saga\<close>, \<open>Engine_Sources\<close>, \<open>Engine_Freeze\<close>, \<open>Engine_Reconcile\<close>, \<open>Engine_Diff\<close>: \<open>engine/engine.go\<close>,
    \<open>saga.go\<close>, \<open>zfs.go\<close>, \<open>csi.go\<close>, \<open>freeze.go\<close>, \<open>reconcile.go\<close>, \<open>diff.go\<close>, saga by saga with every compensation.
    \<open>Engine_Runs\<close> closes them under arbitrary sequences of requests (\<open>eng_reach\<close>). \<open>Engine_Undo\<close> reads the calls a saga
    made off the trace and proves the compensations, \<open>Engine_Liveness\<close> is total correctness (\<open>works P m Q\<close>) and
    proves that a branch gets created, \<open>Engine_Safety\<close> and \<open>Engine_Destroy\<close> are about reconcile plans, masking and
    the destroy saga, \<open>Engine_Frame\<close> shows that operations on one branch leave the others alone.
  \<^item> \<open>Diffutil\<close>: \<open>diffutil/diffutil.go\<close>, the line diff.
  \<^item> \<open>Pg_Proxy\<close>: \<open>pgproxy/startup.go\<close>, \<open>proxy.go\<close>, the startup phase, routing and the connection cap. \<open>Pg_Relay\<close> is the
    relay that follows: two copying goroutines, the network and the peers as steps in any order (\<open>relay_step\<close>), with half-closes and deadlines.
  \<^item> \<open>Api_Server\<close>, \<open>Api_Props\<close>: \<open>api/server.go\<close>, \<open>handlers.go\<close>, \<open>middleware.go\<close>, \<open>leader.go\<close>. \<open>Api_Mux\<close> is the outer
    multiplexer, with the routes that need no token.
  \<^item> \<open>Metrics\<close>: \<open>metrics/*.go\<close> and \<open>observeOp\<close> of \<open>engine/saga.go\<close>. The state keeps the calls made to the Prometheus library.
  \<^item> \<open>Api_Client\<close>: \<open>apiclient/client.go\<close>. A \<open>transport\<close> carries method, path and body to an answer; \<open>loopback\<close> is the one
    that follows the route table into the handlers of \<open>Api_Server\<close>.
  \<^item> \<open>Ha_Leader\<close>: \<open>ha/leader.go\<close>. The callbacks are cut at every access to shared state and interleave freely with
    the events of the elector (\<open>ha_reach\<close>).
  \<^item> \<open>Ghook_Github\<close>, \<open>Ghook\<close>, \<open>Ghook_Props\<close>: \<open>ghook/github.go\<close>, \<open>githubapp.go\<close>, \<open>service.go\<close>, \<open>env.go\<close>, composed with
    the client, the server and the engine down to the registry.
  \<^item> \<open>Docker_Driver\<close>: \<open>runtime/docker.go\<close> over an arbitrary Docker API; \<open>docker_driver\<close> is an implementation of the
    driver interface.
  \<^item> \<open>Kube_Pods\<close>, \<open>Kube_Driver\<close>: \<open>runtime/kube_podspec.go\<close>, \<open>kube.go\<close>, \<open>kube_csi.go\<close> over an arbitrary API server.
  \<^item> \<open>Branchd\<close>: \<open>cmd/branchd/main.go\<close>, \<open>config/config.go\<close>: from flags and environment to engine, driver and server.
    \<open>Startup\<close> has the constructors around it (API client, Docker host, cluster configuration, \<open>net.ParseIP\<close>, the rounds of the elector) and the
    main function of the webhook service, \<open>cmd/pgbranch-github/main.go\<close>. \<open>Daemon_Life\<close> is \<open>cmd/branchd/main.go\<close> from the first listener on:
    the statements of the main goroutine and the returns of the goroutines of its error group are steps (\<open>life_do\<close>), in any order.
  \<^item> \<open>Cli\<close>, \<open>Cli_Props\<close>: \<open>cli/*.go\<close>, \<open>cmd/pgb/main.go\<close>: every command of \<open>pgb\<close> with a server (through \<open>Api_Client\<close>) and
    without one (on an engine of its own).
  \<^item> \<open>Sdk\<close>, \<open>Sdk_Props\<close>: \<open>src/pgbranchconnect/pgbranchconnect.go\<close> and \<open>src/pgbranchtest/pgbranchtest.go\<close>, connection strings and
    a branch for a test. The state of a test (\<open>test_st\<close>) adds the cleanups registered so far.

  \<^bold>\<open>Interfaces.\<close> \<open>registry_invariant\<close> states what an invariant has to satisfy to be kept by every registry
  operation; \<open>engine_invariant\<close> adds that it ignores the trace of the driver, and every saga is proved once to
  keep such an invariant; \<open>reading\<close> is the weaker contract under which everything that only reads is proved,
  and the first two give it as sublocales. They are interpreted on well-formedness, on the journal, on the
  audit log, on the clock, on the metrics, on the directory (\<open>directory_sys\<close>), and on the tables or the directory standing still
  while nobody else runs (\<open>alone\<close>, \<open>still\<close>, \<open>owning\<close>); \<open>since\<close> is the one for the calls made so far. \<open>owned_branch\<close> extends \<open>reading\<close> by the four operations a saga performs on its own branch; it is
  interpreted on the rows of the other branches (\<open>ground\<close>, \<open>land\<close>). \<open>Pg_Proxy\<close> has the contract of a branch resolver as a
  locale, interpreted on the registry's.

  \<^bold>\<open>What is shown.\<close> For the whole daemon: the registry stays well formed, branches move only along legal
  transitions, the journal is append-only, and what can be seen of the branches is a run of the abstract directory. For the registry: transitions are compare-and-swap, freezing is
  atomic, reference counts are exact, stored secrets read back, every version of the database file upgrades without losing
  a value, the schema's constraints are the ones the operations check, and the instance id survives restarts. For the engine: a branch
  gets created when nothing stands in the way, a failed provisioning removes what it made, a branch is masked
  before it is ready, a destroy frees the name and removes the container, a reconcile plan touches nothing in
  use, the waiting loops end, success means a probe succeeded, the TTL policy. For the text diff: the script is minimal and the hunks are a patch.
  For the proxy: frames are read exactly, connections reach ready branches only, refusals are uniform, the cap
  holds, the relay delivers what it was sent and ends idle sessions only. For the control plane: roles and leadership guard every change, reads do not write (a diff does),
  errors are mapped, a stranger changes nothing on any route, and every method of the client arrives at its handler with the name it was given. For the
  webhook service: only signed deliveries start a job, names are valid, an ensured branch is live, and a job
  touches no other branch. For leadership: a reconcile loop never outlives its term and the write gate follows the
  lease, unless a term ends before its start callback has run. For the drivers: on a daemon that works the
  Docker driver satisfies the contract under which branches get created, neither driver leaves a container, pod or
  snapshot behind, pods are well formed, volumes stay below the data root, deletions end and are final. For the
  start-up: accepted settings fit together; a daemon that is stopped ends, and leaves no goroutine behind. For the metrics: every
  operation is counted once, and a scrape shows the registry as it is. For the command line client: both modes run the same operation, and
  \<open>pgb doctor\<close> is a dry run with an exact verdict. For the client libraries: acquiring a branch ends, whatever the
  server answers, and registers exactly one cleanup, under a name the engine accepts; connection strings read back. Each property is also applied to a concrete state.

  \<^bold>\<open>Bounds and fuel.\<close> The two waiting loops of the engine (\<open>waitReady\<close>, \<open>inspectAddr\<close>) sleep a fixed time per
  round, so \<open>wait_fuel\<close>, the number of sleeps that fit in the deadline plus two, is enough, and a property says
  that more fuel never changes the result. The chain of layers is walked with the number of layer rows as fuel,
  which the invariant makes enough. The two loops of the Kubernetes driver that wait for a deletion poll without a bound; they are
  partial functions, no result means that they never return, and a property says when they do. So is the loop of \<open>Acquire\<close>, which
  its deadline always ends, and that of the elector, which ends with its context. A stopped daemon ends within twenty steps of its own. All other loops are
  structural or have a termination proof. A TTL is a 64-bit number where
  the code multiplies it; lengths in the wire protocol are 32-bit words; byte counts are parsed with the range
  check of \<open>strconv\<close>.

  \<^bold>\<open>Not modelled.\<close> The integration test helper \<open>pgctl/ittest.go\<close>, which starts a Postgres container for the tests of other packages;
  flag parsing (the standard library and cobra); the static pages of the user interface; log lines. The statements of the migrations have the
  effect SQLite documents for them; the Prometheus library is represented by the calls made to it.
  The elector of the Kubernetes client, the Docker API, the Kubernetes API, GitHub, files and environment are parameters that may answer
  anything, as are AES-GCM, SHA-256, HMAC and RSA, PEM and URL parsing, the JSON codec, the codec of startup messages, TLS and
  the network.
\<close>

text \<open>
  C2: Whatever the daemon is asked to do, on whichever backend and however its driver behaves, with
  statements failing anywhere and other requests running during every driver call, the registry stays
  well formed: unique ids, one live branch per name, one source per name that did not fail, every
  branch has its source, every layer was created after its parent.
\<close>

theorem daemon_keeps_registry_well_formed:
  assumes "eng_reach s0 s" "db s0 = empty_tables"
  shows "wf_tables (db s)"
  using wf_sys.eng_reach_keeps [OF assms(1)] assms(2) wf_empty_tables by (simp add: on_db_def)

text \<open>
  C1: As long as no database statement fails, the journal of every branch is, after any sequence of
  requests to the daemon, a path of legal transitions from its creation to the state it is in, even
  when the driver fails in the middle of a saga and other requests change branches meanwhile.
\<close>

theorem daemon_moves_branches_legally:
  assumes "eng_reach s0 s" "db s0 = empty_tables" "no_faults s0" "b \<in> set (branches (db s))"
  shows "legal_path (branch_log (db s) (row_id b)) (row_state b)"
proof -
  have "journal_inv s0" using assms(2,3) wf_empty_tables
    by (simp add: journal_inv_def on_db_def jwf_def journal_ok_def empty_tables_def)
  with journal_sys.eng_reach_keeps [OF assms(1)] have "journal_inv s" .
  then show ?thesis using assms(4) by (simp add: journal_inv_def on_db_def jwf_def journal_ok_def)
qed

text \<open>
  C18: The audit log is append-only: whatever the daemon is asked to do, with failing statements and other
  requests in between, every journal entry that was ever written stays, unchanged and in its place.
\<close>

theorem audit_log_is_append_only:
  assumes "eng_reach s0 s"
  shows "prefix (transitions (db s0)) (transitions (db s))"
  using audit_sys.eng_reach_keeps [OF assms, of "transitions (db s0)"] by (simp add: on_db_def log_extends_def)

text \<open>
  C3: The daemon implements the directory of branches. Seen from outside the registry is a map from names to a
  source and a state, on which one can only create a free name, move a branch along a legal transition, free the
  name of a branch that is being destroyed, and drop all branches of a source. Any sequence of requests, with
  failing statements and drivers and requests running meanwhile, is a sequence of such steps on it.
\<close>

theorem daemon_refines_directory:
  assumes "eng_reach s0 s" "wf_tables (db s0)"
  shows "dir_step\<^sup>*\<^sup>* (directory (db s0)) (directory (db s))"
  using directory_sys.eng_reach_keeps [OF assms(1), of "directory (db s0)"] assms(2) by (simp add: on_db_def refines_def)

definition sample_daemon :: sys where
  "sample_daemon = run_ops sample_ops (sample_sys empty_tables)"

lemma sample_daemon_reach: "eng_reach (sample_sys empty_tables) sample_daemon"
  unfolding sample_daemon_def by (rule eng_reach_run_ops) (rule eng_reach.start)

lemma sample_daemon_branch: "map (\<lambda>b. (row_name b, row_state b)) (branches (db sample_daemon)) = [(''pr1'', BranchCreating)]"
  by (simp add: sample_daemon_def run_ops_def sample_ops_def sample_simps sample_sys_def)

theorem daemon_keeps_registry_well_formed_witness:
  "branches (db sample_daemon) \<noteq> [] \<and>
   wf_tables (db (snd (eng_run sample_engine (EDestroyBranch Background ''pr1'') sample_daemon)))"
proof -
  obtain r t where t: "eng_run sample_engine (EDestroyBranch Background ''pr1'') sample_daemon = (r, t)" by fastforce
  have "wf_tables (db t)"
    by (rule daemon_keeps_registry_well_formed [OF eng_reach.step [OF sample_daemon_reach t]]) (simp add: sample_sys_def)
  then show ?thesis using sample_daemon_branch t by auto
qed

theorem daemon_refines_directory_witness:
  "\<exists>s. eng_reach (sample_sys empty_tables) s \<and> directory (db s) ''pr1'' \<noteq> None \<and>
     dir_step\<^sup>*\<^sup>* (directory empty_tables) (directory (db s))"
proof -
  have "directory (db sample_daemon) ''pr1'' \<noteq> None"
    using sample_daemon_branch by (cases "branches (db sample_daemon)") (auto simp: directory_def listing_def live_row_def)
  moreover have "dir_step\<^sup>*\<^sup>* (directory empty_tables) (directory (db sample_daemon))"
    using daemon_refines_directory [OF sample_daemon_reach] wf_empty_tables by (simp add: sample_sys_def)
  ultimately show ?thesis using sample_daemon_reach by blast
qed

theorem audit_log_is_append_only_witness:
  "transitions (db sample_daemon) \<noteq> [] \<and>
   prefix (transitions (db sample_daemon))
     (transitions (db (snd (eng_run sample_engine (EDestroyBranch Background ''pr1'') sample_daemon))))"
proof -
  obtain r t where t: "eng_run sample_engine (EDestroyBranch Background ''pr1'') sample_daemon = (r, t)" by fastforce
  have "transitions (db sample_daemon) \<noteq> []"
    by (simp add: sample_daemon_def run_ops_def sample_ops_def sample_simps sample_sys_def)
  then show ?thesis using audit_log_is_append_only [OF eng_reach.step [OF eng_reach.start t]] t by simp
qed

theorem daemon_moves_branches_legally_witness:
  "\<exists>b \<in> set (branches (db sample_daemon)). row_name b = ''pr1'' \<and>
     legal_path (branch_log (db sample_daemon) (row_id b)) (row_state b)"
proof -
  obtain b where b: "b \<in> set (branches (db sample_daemon))" "row_name b = ''pr1''"
    using sample_daemon_branch by (cases "branches (db sample_daemon)") auto
  then show ?thesis using daemon_moves_branches_legally [OF sample_daemon_reach _ _ b(1)]
    by (auto simp: sample_sys_def no_faults_def)
qed

end
